(* ===== verification/Prelude.thy ===== *)
theory Prelude
  imports Complex_Main "HOL-Library.Word" "HOL-Library.AList" "HOL-Library.Multiset"
    "HOL-Library.Char_ord" "HOL-Library.List_Lexorder"
begin

text \<open>
  What the models of the redis-cluster-operator share: the values a Go function can hand back
  (errors, panics), Go maps as association lists, the two places where the Go runtime is free to
  choose (the order of a \<open>range\<close> over a map, the order of ties in \<open>sort.Sort\<close>), and the parts of
  the packages \<open>strings\<close>, \<open>strconv\<close> and \<open>net\<close> that the operator calls.

  Strings are lists of bytes, as in Go; the case conversions are those of ASCII text.
\<close>

section \<open>Collections of facts\<close>

named_theorems go_map \<open>lookups in the association lists that stand for Go maps\<close>
named_theorems go_str \<open>the string functions of the Go library\<close>

section \<open>Errors and panics\<close>

text \<open>
  \<open>ErrorType\<close> of the controller's \<open>errors.go\<close> is needed here because a wrapped error carries it.
  A Go \<open>error\<close> is \<open>goerr option\<close>, with \<open>None\<close> for \<open>nil\<close>. The constructors are the error values the
  code tells apart by type or identity; every other error is its text.
\<close>

datatype ErrorType = NoType | Requeue | Kubernetes | Redis | Cluster_Error | StopRetry

datatype k8s_reason = NotFound | ServiceUnavailable | Timeout | ServerTimeout | TooManyRequests | OtherReason

datatype goerr =
    Errorf string
  | NumError string string string
  | AddrError string string
  | NodeNotFounded
  | ClusterInfosError "(string \<times> goerr) list" bool bool
  | NetTimeout string
  | NetOpError string
  | PipelineEmpty
  | K8sError k8s_reason string
  | Aggregate "goerr list"
  | WithMessage string goerr
  | CustomError ErrorType goerr

datatype panic = IndexOutOfRange | NilDereference | NilMapWrite | MakeSliceLen

datatype 'a outcome = Ret 'a | Panic panic

primrec outcome_bind :: "'a outcome \<Rightarrow> ('a \<Rightarrow> 'b outcome) \<Rightarrow> 'b outcome" where
  "outcome_bind (Ret x) f = f x"
| "outcome_bind (Panic p) f = Panic p"

definition go_index :: "'a list \<Rightarrow> nat \<Rightarrow> 'a outcome" where
  "go_index xs i = (if i < length xs then Ret (xs ! i) else Panic IndexOutOfRange)"

lemma outcome_bind_Ret_iff [simp]:
  "outcome_bind m f = Ret y \<longleftrightarrow> (\<exists>x. m = Ret x \<and> f x = Ret y)"
  by (cases m) auto

lemma go_index_Ret_iff [simp]: "go_index xs i = Ret y \<longleftrightarrow> i < length xs \<and> xs ! i = y"
  by (auto simp: go_index_def)

section \<open>Lists\<close>

lemma find_SomeD: "List.find P xs = Some x \<Longrightarrow> x \<in> set xs \<and> P x"
  by (induction xs) (auto split: if_splits)

lemma find_append:
  "List.find P (xs @ ys) = (case List.find P xs of Some x \<Rightarrow> Some x | None \<Rightarrow> List.find P ys)"
  by (induction xs) auto

section \<open>Machine integers\<close>

text \<open>\<open>uint64\<close> values are naturals below \<open>2 ^ 64\<close> and \<open>int32\<close>, \<open>int64\<close> values integers in their
  range; every operation that can leave the range is followed by one of these.\<close>

definition u64 :: "nat \<Rightarrow> nat" where
  "u64 n = n mod 2 ^ 64"

definition i32 :: "int \<Rightarrow> int" where
  "i32 n = (n + 2 ^ 31) mod 2 ^ 32 - 2 ^ 31"

definition i64 :: "int \<Rightarrow> int" where
  "i64 n = (n + 2 ^ 63) mod 2 ^ 64 - 2 ^ 63"

lemma u64_id [simp]: "n < 2 ^ 64 \<Longrightarrow> u64 n = n"
  by (simp add: u64_def)

lemma u64_less [simp]: "u64 n < 2 ^ 64"
  by (simp add: u64_def)

lemma i32_id [simp]: "- (2 ^ 31) \<le> n \<Longrightarrow> n < 2 ^ 31 \<Longrightarrow> i32 n = n"
  by (simp add: i32_def)

lemma i64_id [simp]: "- (2 ^ 63) \<le> n \<Longrightarrow> n < 2 ^ 63 \<Longrightarrow> i64 n = n"
  by (simp add: i64_def)

lemma i64_bounds: "- (2 ^ 63) \<le> i64 n \<and> i64 n < 2 ^ 63"
proof -
  have "0 \<le> (n + 2 ^ 63) mod 2 ^ 64" and "(n + 2 ^ 63) mod 2 ^ 64 < 2 ^ 64"
    by simp_all
  then show ?thesis by (simp add: i64_def)
qed

section \<open>Go maps\<close>

text \<open>
  A Go map is an association list with distinct keys (\<open>wf_map\<close>); \<open>m[k] = v\<close> is \<open>mput\<close>,
  \<open>m[k]\<close> is \<open>map_of m k\<close>, \<open>delete\<close> is \<open>AList.delete\<close> and \<open>len\<close> is the length.
\<close>

type_synonym ('k, 'v) gomap = "('k \<times> 'v) list"

abbreviation mput :: "'k \<Rightarrow> 'v \<Rightarrow> ('k, 'v) gomap \<Rightarrow> ('k, 'v) gomap" where
  "mput \<equiv> AList.update"

abbreviation mdel :: "'k \<Rightarrow> ('k, 'v) gomap \<Rightarrow> ('k, 'v) gomap" where
  "mdel \<equiv> AList.delete"

abbreviation mkeys :: "('k, 'v) gomap \<Rightarrow> 'k list" where
  "mkeys m \<equiv> map fst m"

abbreviation wf_map :: "('k, 'v) gomap \<Rightarrow> bool" where
  "wf_map m \<equiv> distinct (map fst m)"

definition mget :: "'v \<Rightarrow> ('k, 'v) gomap \<Rightarrow> 'k \<Rightarrow> 'v" where
  "mget zero m k = (case map_of m k of None \<Rightarrow> zero | Some v \<Rightarrow> v)"

text \<open>\<open>m[k] = append(m[k], x)\<close> on a map of slices.\<close>

definition mappend :: "'k \<Rightarrow> 'a list \<Rightarrow> ('k, 'a list) gomap \<Rightarrow> ('k, 'a list) gomap" where
  "mappend k xs m = mput k (mget [] m k @ xs) m"

lemma map_of_mput [go_map, simp]: "map_of (mput k v m) = (map_of m)(k \<mapsto> v)"
  by (rule ext) (simp add: update_conv')

lemma map_of_mdel [go_map, simp]: "map_of (mdel k m) = (map_of m)(k := None)"
  by (rule ext) (simp add: delete_conv')

lemma wf_mput [simp]: "wf_map m \<Longrightarrow> wf_map (mput k v m)"
  by (rule distinct_update)

lemma wf_mdel [simp]: "wf_map m \<Longrightarrow> wf_map (mdel k m)"
  by (rule distinct_delete)

lemma set_mkeys_mput [simp]: "fst ` set (mput k v m) = insert k (fst ` set m)"
  by (simp add: dom_update)

lemma set_mkeys_mdel [simp]: "fst ` set (mdel k m) = fst ` set m - {k}"
  by (simp add: delete_keys flip: set_map)

lemma set_mput_subset: "set (mput k v m) \<subseteq> insert (k, v) (set m)"
  by (induction m) auto

lemma set_mdel_subset: "set (mdel k m) \<subseteq> set m"
  by (auto simp: AList.delete_eq)

lemma mget_mput [go_map, simp]: "mget z (mput k v m) k' = (if k' = k then v else mget z m k')"
  by (simp add: mget_def)

lemma mget_Nil [simp]: "mget z [] k = z"
  by (simp add: mget_def)

lemma mget_mappend [go_map, simp]:
  "mget [] (mappend k xs m) k' = (if k' = k then mget [] m k @ xs else mget [] m k')"
  by (simp add: mappend_def)

lemma wf_mappend [simp]: "wf_map m \<Longrightarrow> wf_map (mappend k xs m)"
  by (simp add: mappend_def)

lemma set_mkeys_mappend [simp]: "fst ` set (mappend k xs m) = insert k (fst ` set m)"
  by (simp add: mappend_def)

lemma mget_notin [simp]: "k \<notin> fst ` set m \<Longrightarrow> mget z m k = z"
  by (force simp: mget_def split: option.splits dest: map_of_SomeD)

lemma mget_in: "wf_map m \<Longrightarrow> (k, v) \<in> set m \<Longrightarrow> mget z m k = v"
  by (simp add: mget_def)

section \<open>Where the Go runtime is free to choose\<close>

text \<open>
  A \<open>range\<close> over a map visits the keys in an order the language leaves open, and \<open>sort.Sort\<close> is
  not stable. Both choices are a parameter of the models: \<open>range_keys\<close> takes a number that tells
  the range loops of a run apart and the keys of the map, \<open>range_pos\<close> the same for maps whose keys
  are not strings, in terms of positions; \<open>sort_refs\<close> takes the \<open>less\<close> function. How much room
  \<open>append\<close> reserves is open as well: \<open>append_cap n\<close> is the capacity of a slice that grew from empty to
  length \<open>n\<close> one element at a time. The last field is no choice of the runtime but
  of the Kubernetes library: how it prints an aggregate of several errors.
  The locale \<open>go_runtime\<close> states what the language and the library document about them.
\<close>

record go_env =
  range_keys :: "nat \<Rightarrow> string list \<Rightarrow> string list"
  range_pos :: "nat \<Rightarrow> nat \<Rightarrow> nat list"
  sort_refs :: "(nat \<Rightarrow> nat \<Rightarrow> bool) \<Rightarrow> nat list \<Rightarrow> nat list"
  append_cap :: "nat \<Rightarrow> nat"
  aggregate_text :: "string list \<Rightarrow> string"

definition strict_weak :: "('a \<Rightarrow> 'a \<Rightarrow> bool) \<Rightarrow> bool" where
  "strict_weak lt \<longleftrightarrow> (\<forall>a. \<not> lt a a) \<and> (\<forall>a b c. lt a b \<longrightarrow> lt b c \<longrightarrow> lt a c)
     \<and> (\<forall>a b c. \<not> lt a b \<longrightarrow> \<not> lt b c \<longrightarrow> \<not> lt a c)"

lemma strict_weak_key [intro, simp]: "strict_weak (\<lambda>a b. f a < (f b :: 'b :: linorder))"
  by (auto simp: strict_weak_def)

text \<open>The pairs of a map in the order the \<open>i\<close>-th range loop visits them.\<close>

definition mrange :: "go_env \<Rightarrow> nat \<Rightarrow> (string, 'v) gomap \<Rightarrow> (string \<times> 'v) list" where
  "mrange env i m = List.map_filter (\<lambda>k. map_option (Pair k) (map_of m k)) (range_keys env i (mkeys m))"

definition prange :: "go_env \<Rightarrow> nat \<Rightarrow> ('k, 'v) gomap \<Rightarrow> ('k \<times> 'v) list" where
  "prange env i m = map (\<lambda>j. m ! j) (range_pos env i (length m))"

lemma map_filter_keys:
  "set ks \<subseteq> dom (map_of m) \<Longrightarrow>
   List.map_filter (\<lambda>k. map_option (Pair k) (map_of m k)) ks = map (\<lambda>k. (k, the (map_of m k))) ks"
  by (induction ks) (auto simp: map_filter_def)

locale go_runtime =
  fixes env :: go_env
  assumes range_perm: "mset (range_keys env i ks) = mset ks"
    and pos_perm: "mset (range_pos env i n) = mset [0..<n]"
    and sort_perm: "mset (sort_refs env lt rs) = mset rs"
    and sort_sorted: "strict_weak lt \<Longrightarrow> sorted_wrt (\<lambda>a b. \<not> lt b a) (sort_refs env lt rs)"
    and cap_enough: "n \<le> append_cap env n"
begin

lemma range_set [simp]: "set (range_keys env i ks) = set ks"
  by (metis range_perm set_mset_mset)

lemma range_length [simp]: "length (range_keys env i ks) = length ks"
  by (metis range_perm size_mset)

lemma range_distinct [simp]: "distinct (range_keys env i ks) = distinct ks"
  by (metis range_perm mset_eq_imp_distinct_iff)

lemma sort_set [simp]: "set (sort_refs env lt rs) = set rs"
  by (metis sort_perm set_mset_mset)

lemma sort_length [simp]: "length (sort_refs env lt rs) = length rs"
  by (metis sort_perm size_mset)

lemma sort_distinct [simp]: "distinct (sort_refs env lt rs) = distinct rs"
  by (metis sort_perm mset_eq_imp_distinct_iff)

lemma sort_by_key: "sorted (map f (sort_refs env (\<lambda>a b. f a < f b) rs))"
  for f :: "nat \<Rightarrow> 'b :: linorder"
  using sort_sorted [of "\<lambda>a b. f a < f b" rs] by (simp add: sorted_map not_less)

lemma map_filter_keys_mset:
  assumes "wf_map m" and "mset ks = mset (mkeys m)"
  shows "mset (List.map_filter (\<lambda>k. map_option (Pair k) (map_of m k)) ks) = mset m"
proof -
  have "List.map_filter (\<lambda>k. map_option (Pair k) (map_of m k)) ks
      = map (\<lambda>k. (k, the (map_of m k))) ks"
    by (rule map_filter_keys) (use mset_eq_setD [OF assms(2)] in \<open>simp add: dom_map_of_conv_image_fst\<close>)
  also have "mset \<dots> = image_mset (\<lambda>k. (k, the (map_of m k))) (mset (mkeys m))"
    by (simp add: assms(2))
  also have "\<dots> = mset (map (\<lambda>p. (fst p, the (map_of m (fst p)))) m)"
    by (simp add: multiset.map_comp o_def)
  also have "map (\<lambda>p. (fst p, the (map_of m (fst p)))) m = m"
    using assms(1) by (intro map_idI) (auto simp: map_of_eq_Some_iff)
  finally show ?thesis .
qed

lemma mrange_perm: "wf_map m \<Longrightarrow> mset (mrange env i m) = mset m"
  unfolding mrange_def by (rule map_filter_keys_mset) (simp_all add: range_perm)

lemma mrange_set [simp]: "wf_map m \<Longrightarrow> set (mrange env i m) = set m"
  by (metis mrange_perm set_mset_mset)

lemma mrange_length [simp]: "wf_map m \<Longrightarrow> length (mrange env i m) = length m"
  by (metis mrange_perm size_mset)

lemma mrange_distinct_keys [simp]: "wf_map m \<Longrightarrow> distinct (map fst (mrange env i m))"
  by (metis mrange_perm mset_map mset_eq_imp_distinct_iff)

lemma map_of_mrange [simp]: "wf_map m \<Longrightarrow> map_of (mrange env i m) = map_of m"
  by (subst map_of_inject_set) simp_all

lemma prange_perm: "mset (prange env i m) = mset m"
proof -
  have "mset (prange env i m) = image_mset (\<lambda>j. m ! j) (mset [0..<length m])"
    by (simp add: prange_def pos_perm)
  also have "\<dots> = mset (map (\<lambda>j. m ! j) [0..<length m])" by simp
  finally show ?thesis by (simp only: map_nth)
qed

lemma prange_set [simp]: "set (prange env i m) = set m"
  by (metis prange_perm set_mset_mset)

lemma mrange_values: "wf_map m \<Longrightarrow> snd ` set (mrange env i m) = ran (map_of m)"
  by (simp add: ran_distinct)

end

text \<open>One runtime the language allows: maps in insertion order, insertion sort, and capacities that
  double.\<close>

fun insert_by :: "('a \<Rightarrow> 'a \<Rightarrow> bool) \<Rightarrow> 'a \<Rightarrow> 'a list \<Rightarrow> 'a list" where
  "insert_by lt x [] = [x]"
| "insert_by lt x (y # ys) = (if lt y x then y # insert_by lt x ys else x # y # ys)"

fun isort :: "('a \<Rightarrow> 'a \<Rightarrow> bool) \<Rightarrow> 'a list \<Rightarrow> 'a list" where
  "isort lt [] = []"
| "isort lt (x # xs) = insert_by lt x (isort lt xs)"

lemma mset_insert_by: "mset (insert_by lt x ys) = add_mset x (mset ys)"
  by (induction ys) auto

lemma set_insert_by: "set (insert_by lt x ys) = insert x (set ys)"
  by (induction ys) auto

lemma mset_isort: "mset (isort lt xs) = mset xs"
  by (induction xs) (auto simp: mset_insert_by)

lemma sorted_insert_by:
  assumes "strict_weak lt"
  shows "sorted_wrt (\<lambda>a b. \<not> lt b a) ys \<Longrightarrow> sorted_wrt (\<lambda>a b. \<not> lt b a) (insert_by lt x ys)"
proof (induction ys)
  case (Cons y ys)
  have "lt y x \<Longrightarrow> \<not> lt x y"
    using assms unfolding strict_weak_def by blast
  moreover have "\<not> lt z x" if "\<not> lt y x" and "z \<in> set ys" for z
    using assms that Cons.prems unfolding strict_weak_def by (metis sorted_wrt.simps(2))
  ultimately show ?case using Cons by (simp add: set_insert_by)
qed simp

lemma sorted_isort: "strict_weak lt \<Longrightarrow> sorted_wrt (\<lambda>a b. \<not> lt b a) (isort lt xs)"
  by (induction xs) (auto simp: sorted_insert_by)

function doubled_cap :: "nat \<Rightarrow> nat \<Rightarrow> nat" where
  "doubled_cap c n = (if n \<le> c then c else doubled_cap (if c = 0 then 1 else 2 * c) n)"
  by pat_completeness auto
termination
  by (relation "measure (\<lambda>(c, n). n + (if c = 0 then 1 else 0) - c)") auto

declare doubled_cap.simps [simp del]

lemma doubled_cap_enough: "n \<le> doubled_cap c n"
  by (induction c n rule: doubled_cap.induct) (subst doubled_cap.simps, auto)

definition go_env_det :: go_env where
  "go_env_det = \<lparr>range_keys = (\<lambda>i ks. ks), range_pos = (\<lambda>i n. [0..<n]), sort_refs = isort,
     append_cap = doubled_cap 0, aggregate_text = concat\<rparr>"

interpretation det: go_runtime go_env_det
  by unfold_locales (auto simp: go_env_det_def mset_isort sorted_isort doubled_cap_enough)

section \<open>The string functions of the Go library\<close>

text \<open>\<open>strings.Split(s, sep)\<close> for the one-byte separators the operator uses.\<close>

fun split_on :: "char \<Rightarrow> string \<Rightarrow> string list" where
  "split_on c [] = [[]]"
| "split_on c (x # xs) =
     (if x = c then [] # split_on c xs
      else case split_on c xs of [] \<Rightarrow> [[x]] | w # ws \<Rightarrow> (x # w) # ws)"

definition HasPrefix :: "string \<Rightarrow> string \<Rightarrow> bool" where
  "HasPrefix s p \<longleftrightarrow> take (length p) s = p"

definition HasSuffix :: "string \<Rightarrow> string \<Rightarrow> bool" where
  "HasSuffix s p \<longleftrightarrow> length p \<le> length s \<and> drop (length s - length p) s = p"

definition TrimPrefix :: "string \<Rightarrow> string \<Rightarrow> string" where
  "TrimPrefix s p = (if HasPrefix s p then drop (length p) s else s)"

definition TrimSuffix :: "string \<Rightarrow> string \<Rightarrow> string" where
  "TrimSuffix s p = (if HasSuffix s p then take (length s - length p) s else s)"

definition is_digit :: "char \<Rightarrow> bool" where
  "is_digit c \<longleftrightarrow> 48 \<le> (of_char c :: nat) \<and> (of_char c :: nat) \<le> 57"

definition to_lower :: "char \<Rightarrow> char" where
  "to_lower c = (if 65 \<le> (of_char c :: nat) \<and> (of_char c :: nat) \<le> 90
                 then char_of ((of_char c :: nat) + 32) else c)"

definition to_upper :: "char \<Rightarrow> char" where
  "to_upper c = (if 97 \<le> (of_char c :: nat) \<and> (of_char c :: nat) \<le> 122
                 then char_of ((of_char c :: nat) - 32) else c)"

definition is_space :: "char \<Rightarrow> bool" where
  "is_space c \<longleftrightarrow> (of_char c :: nat) \<in> {9, 10, 11, 12, 13, 32}"

definition TrimSpace :: "string \<Rightarrow> string" where
  "TrimSpace s = rev (dropWhile is_space (rev (dropWhile is_space s)))"

text \<open>\<open>strings.Fields\<close>: the maximal runs of bytes that are not white space.\<close>

fun fields_aux :: "string \<Rightarrow> string \<Rightarrow> string list" where
  "fields_aux w [] = (if w = [] then [] else [w])"
| "fields_aux w (c # cs) =
     (if is_space c then (if w = [] then fields_aux [] cs else w # fields_aux [] cs)
      else fields_aux (w @ [c]) cs)"

definition Fields :: "string \<Rightarrow> string list" where
  "Fields s = fields_aux [] s"

lemma split_on_ne [simp]: "split_on c s \<noteq> []"
  by (induction s) (auto split: list.splits)

lemma split_on_no_sep [go_str]: "c \<notin> set s \<Longrightarrow> split_on c s = [s]"
  by (induction s) auto

lemma split_on_append [go_str]:
  "c \<notin> set s \<Longrightarrow> split_on c (s @ c # t) = s # split_on c t"
  by (induction s) auto

lemma split_on_parts: "w \<in> set (split_on c s) \<Longrightarrow> c \<notin> set w"
  by (induction s arbitrary: w) (force split: if_splits list.splits)+

text \<open>\<open>strings.Join\<close> undoes \<open>strings.Split\<close>, so no byte of the input is lost.\<close>

fun join_with :: "string \<Rightarrow> string list \<Rightarrow> string" where
  "join_with sep [] = []"
| "join_with sep [w] = w"
| "join_with sep (w # v # ws) = w @ sep @ join_with sep (v # ws)"

lemma join_split_on [go_str]: "join_with [c] (split_on c s) = s"
proof (induction s)
  case Nil
  then show ?case by simp
next
  case (Cons x xs)
  obtain w ws where "split_on c xs = w # ws"
    by (cases "split_on c xs") auto
  with Cons show ?case by (cases ws) auto
qed

lemma TrimPrefix_append [go_str, simp]: "TrimPrefix (p @ s) p = s"
  by (simp add: TrimPrefix_def HasPrefix_def)

lemma TrimSuffix_append [go_str, simp]: "TrimSuffix (s @ p) p = s"
  by (simp add: TrimSuffix_def HasSuffix_def)

end
