(* ===== verification/GoText.thy ===== *)
theory GoText
  imports Prelude
begin

text \<open>
  Decimal text as package \<open>strconv\<close> reads and writes it, and the host/port forms of package \<open>net\<close>.
  The operator reads the answers of \<open>CLUSTER NODES\<close> and \<open>INFO\<close> with these and builds addresses.
\<close>

section \<open>strconv\<close>

definition digit_val :: "char \<Rightarrow> nat" where
  "digit_val c = of_char c - 48"

fun digits_val :: "nat \<Rightarrow> string \<Rightarrow> nat option" where
  "digits_val acc [] = Some acc"
| "digits_val acc (c # cs) =
     (if is_digit c then digits_val (10 * acc + digit_val c) cs else None)"

text \<open>\<open>strconv.ParseUint(s, 10, 64)\<close>.\<close>

definition ParseUint :: "string \<Rightarrow> goerr + nat" where
  "ParseUint s =
     (if s = [] then Inl (NumError ''ParseUint'' s ''invalid syntax'')
      else case digits_val 0 s of
        None \<Rightarrow> Inl (NumError ''ParseUint'' s ''invalid syntax'')
      | Some n \<Rightarrow> if n < 2 ^ 64 then Inr n else Inl (NumError ''ParseUint'' s ''value out of range''))"

text \<open>\<open>strconv.ParseInt(s, 10, 64)\<close> and, on a 64-bit platform, \<open>strconv.Atoi\<close>: an optional
  sign, then digits. Their errors name the function.\<close>

definition parse_signed :: "string \<Rightarrow> string \<Rightarrow> goerr + int" where
  "parse_signed fn s =
     (let (neg, ds) = (case s of
            [] \<Rightarrow> (False, [])
          | c # cs \<Rightarrow> if c = CHR ''-'' then (True, cs) else if c = CHR ''+'' then (False, cs)
                      else (False, s))
      in if ds = [] then Inl (NumError fn s ''invalid syntax'')
         else case digits_val 0 ds of
           None \<Rightarrow> Inl (NumError fn s ''invalid syntax'')
         | Some n \<Rightarrow>
             if neg then (if n \<le> 2 ^ 63 then Inr (- int n) else Inl (NumError fn s ''value out of range''))
             else if n < 2 ^ 63 then Inr (int n) else Inl (NumError fn s ''value out of range''))"

definition ParseInt :: "string \<Rightarrow> goerr + int" where
  "ParseInt s = parse_signed ''ParseInt'' s"

definition Atoi :: "string \<Rightarrow> goerr + int" where
  "Atoi s = parse_signed ''Atoi'' s"

text \<open>\<open>strconv.FormatUint(n, 10)\<close> and \<open>strconv.FormatInt(n, 10)\<close>, which is also \<open>strconv.Itoa\<close>.\<close>

definition digit_char :: "nat \<Rightarrow> char" where
  "digit_char d = char_of (48 + d)"

fun FormatUint :: "nat \<Rightarrow> string" where
  "FormatUint n = (if n < 10 then [digit_char n] else FormatUint (n div 10) @ [digit_char (n mod 10)])"

declare FormatUint.simps [simp del]

definition FormatInt :: "int \<Rightarrow> string" where
  "FormatInt n = (if n < 0 then CHR ''-'' # FormatUint (nat (- n)) else FormatUint (nat n))"

lemma of_char_digit_char [simp]: "d < 10 \<Longrightarrow> (of_char (digit_char d) :: nat) = 48 + d"
  by (simp add: digit_char_def)

lemma is_digit_digit_char [simp]: "d < 10 \<Longrightarrow> is_digit (digit_char d)"
  by (simp add: is_digit_def)

lemma digit_val_digit_char [simp]: "d < 10 \<Longrightarrow> digit_val (digit_char d) = d"
  by (simp add: digit_val_def)

lemma FormatUint_ne [simp]: "FormatUint n \<noteq> []"
  by (subst FormatUint.simps) simp

lemma FormatUint_digits [go_str]: "c \<in> set (FormatUint n) \<Longrightarrow> is_digit c"
proof (induction n rule: FormatUint.induct)
  case (1 n)
  then show ?case
    by (cases "n < 10") (auto simp: FormatUint.simps [of n])
qed

lemma digits_val_append:
  "digits_val acc (xs @ ys) =
     (case digits_val acc xs of None \<Rightarrow> None | Some a \<Rightarrow> digits_val a ys)"
  by (induction xs arbitrary: acc) auto

lemma digits_val_FormatUint [go_str]: "digits_val 0 (FormatUint n) = Some n"
proof (induction n rule: FormatUint.induct)
  case (1 n)
  then show ?case
    by (cases "n < 10") (auto simp: FormatUint.simps [of n] digits_val_append)
qed

lemma ParseUint_FormatUint [go_str, simp]: "n < 2 ^ 64 \<Longrightarrow> ParseUint (FormatUint n) = Inr n"
  by (simp add: ParseUint_def digits_val_FormatUint)

lemma ParseUint_bound: "ParseUint s = Inr n \<Longrightarrow> n < 2 ^ 64"
  by (auto simp: ParseUint_def split: if_splits option.splits)

lemma is_digit_not_special:
  "is_digit c \<Longrightarrow> c \<noteq> CHR ''-'' \<and> c \<noteq> CHR ''+'' \<and> c \<noteq> CHR ''['' \<and> c \<noteq> CHR '']'' \<and> c \<noteq> CHR '':''
     \<and> c \<noteq> CHR '','' \<and> c \<noteq> CHR '' '' \<and> c \<noteq> CHR ''@''"
  by (auto simp: is_digit_def)

lemma parse_signed_FormatInt:
  assumes "- (2 ^ 63) \<le> n" and "n < 2 ^ 63"
  shows "parse_signed fn (FormatInt n) = Inr n"
proof (cases "n < 0")
  case True
  with assms show ?thesis
    by (simp add: parse_signed_def FormatInt_def digits_val_FormatUint)
next
  case False
  obtain c cs where f: "FormatUint (nat n) = c # cs"
    by (cases "FormatUint (nat n)") auto
  then have "is_digit c"
    using FormatUint_digits [of c "nat n"] by simp
  with assms False f show ?thesis
    using is_digit_not_special [of c] digits_val_FormatUint [of "nat n"]
    by (auto simp: parse_signed_def FormatInt_def)
qed

lemma ParseInt_FormatInt [go_str, simp]:
  "- (2 ^ 63) \<le> n \<Longrightarrow> n < 2 ^ 63 \<Longrightarrow> ParseInt (FormatInt n) = Inr n"
  "- (2 ^ 63) \<le> n \<Longrightarrow> n < 2 ^ 63 \<Longrightarrow> Atoi (FormatInt n) = Inr n"
  by (simp_all add: ParseInt_def Atoi_def parse_signed_FormatInt)

lemma FormatUint_inj [simp]: "FormatUint m = FormatUint n \<longleftrightarrow> m = n"
  by (metis digits_val_FormatUint option.inject)

section \<open>net\<close>

text \<open>\<open>net.JoinHostPort\<close>: a host with a colon is an IPv6 literal and goes in brackets.\<close>

definition JoinHostPort :: "string \<Rightarrow> string \<Rightarrow> string" where
  "JoinHostPort host port =
     (if CHR '':'' \<in> set host then ''['' @ host @ '']:'' @ port else host @ '':'' @ port)"

text \<open>The position of the last (\<open>strings.LastIndex\<close>) and of the first occurrence of a byte.\<close>

fun index_of :: "char \<Rightarrow> string \<Rightarrow> nat option" where
  "index_of c [] = None"
| "index_of c (x # xs) = (if x = c then Some 0 else map_option Suc (index_of c xs))"

definition last_index_of :: "char \<Rightarrow> string \<Rightarrow> nat option" where
  "last_index_of c s = map_option (\<lambda>i. length s - 1 - i) (index_of c (rev s))"

text \<open>\<open>net.SplitHostPort\<close>, with its checks in the order of the library.\<close>

definition SplitHostPort :: "string \<Rightarrow> goerr + (string \<times> string)" where
  "SplitHostPort hostport =
     (case last_index_of (CHR '':'') hostport of
        None \<Rightarrow> Inl (AddrError hostport ''missing port in address'')
      | Some i \<Rightarrow>
          let finish = (\<lambda>host j k.
                if CHR ''['' \<in> set (drop j hostport)
                then Inl (AddrError hostport ''unexpected [ in address'')
                else if CHR '']'' \<in> set (drop k hostport)
                then Inl (AddrError hostport ''unexpected ] in address'')
                else Inr (host, drop (i + 1) hostport))
          in if take 1 hostport = ''['' then
               (case index_of (CHR '']'') hostport of
                  None \<Rightarrow> Inl (AddrError hostport ''missing ] in address'')
                | Some e \<Rightarrow>
                    if e + 1 = length hostport then Inl (AddrError hostport ''missing port in address'')
                    else if e + 1 = i then finish (drop 1 (take e hostport)) 1 (e + 1)
                    else if hostport ! (e + 1) = CHR '':''
                    then Inl (AddrError hostport ''too many colons in address'')
                    else Inl (AddrError hostport ''missing port in address''))
             else if CHR '':'' \<in> set (take i hostport)
             then Inl (AddrError hostport ''too many colons in address'')
             else finish (take i hostport) 0 0)"

lemma index_of_append:
  "index_of c (xs @ ys) = (case index_of c xs of Some i \<Rightarrow> Some i
     | None \<Rightarrow> map_option (\<lambda>i. length xs + i) (index_of c ys))"
  by (induction xs) (cases "index_of c ys", auto simp: option.map_comp o_def split: option.splits)+

lemma index_of_None [simp]: "index_of c xs = None \<longleftrightarrow> c \<notin> set xs"
  by (induction xs) auto

lemma last_index_of_append_sep [simp]:
  "c \<notin> set ys \<Longrightarrow> last_index_of c (xs @ c # ys) = Some (length xs)"
  using index_of_None [of c "rev ys"]
  by (auto simp: last_index_of_def index_of_append simp del: index_of_None)

lemma SplitHostPort_JoinHostPort [go_str]:
  assumes "set port \<inter> {CHR '':'', CHR ''['', CHR '']''} = {}"
    and "set host \<inter> {CHR ''['', CHR '']''} = {}"
  shows "SplitHostPort (JoinHostPort host port) = Inr (host, port)"
proof (cases "CHR '':'' \<in> set host")
  case True
  have "last_index_of (CHR '':'') ((''['' @ host @ '']'') @ CHR '':'' # port) = Some (length host + 2)"
    using assms by (subst last_index_of_append_sep) auto
  moreover have "index_of (CHR '']'') (host @ '']:'' @ port) = Some (length host)"
    using assms(2) by (simp add: index_of_append split: option.split)
      (metis IntI empty_iff index_of_None insertCI option.distinct(1))
  ultimately show ?thesis
    using True assms by (auto simp: SplitHostPort_def JoinHostPort_def)
next
  case False
  have "last_index_of (CHR '':'') (host @ CHR '':'' # port) = Some (length host)"
    using assms by (subst last_index_of_append_sep) auto
  moreover have "take 1 (host @ CHR '':'' # port) \<noteq> ''[''"
    using assms(2) by (cases host) auto
  ultimately show ?thesis
    using False assms by (auto simp: SplitHostPort_def JoinHostPort_def)
qed

end
