(* ===== verification/SlotRanges.thy ===== *)
theory SlotRanges
  imports GoText
begin

text \<open>
  \<open>pkg/redisutil/slot.go\<close>: hash slots, slot ranges and the text form in which \<open>CLUSTER NODES\<close>
  reports them. A \<open>Slot\<close> is a \<open>uint64\<close>, kept as a natural number with the wrap-around of the
  additions written out by \<open>u64\<close>.
\<close>

section \<open>Data and text\<close>

type_synonym Slot = nat

record SlotRange =
  MinSlot :: Slot
  MaxSlot :: Slot

record ImportingSlot =
  imp_SlotID :: Slot
  FromNodeID :: string

record MigratingSlot =
  mig_SlotID :: Slot
  ToNodeID :: string

definition slotSeparator :: string where "slotSeparator = ''-''"
definition importingSeparator :: string where "importingSeparator = ''-<-''"
definition migratingSeparator :: string where "migratingSeparator = ''->-''"

definition Slot_String :: "Slot \<Rightarrow> string" where
  "Slot_String s = FormatUint s"

definition DecodeSlot :: "string \<Rightarrow> goerr + Slot" where
  "DecodeSlot s = ParseUint s"

definition SlotRange_String :: "SlotRange \<Rightarrow> string" where
  "SlotRange_String r = Slot_String (MinSlot r) @ slotSeparator @ Slot_String (MaxSlot r)"

text \<open>\<open>int(s.Max - s.Min + 1)\<close> in \<open>uint64\<close>, then read as a signed integer.\<close>

definition SlotRange_Total :: "SlotRange \<Rightarrow> int" where
  "SlotRange_Total r = i64 ((int (MaxSlot r) - int (MinSlot r) + 1) mod 2 ^ 64)"

definition ImportingSlot_String :: "ImportingSlot \<Rightarrow> string" where
  "ImportingSlot_String s = Slot_String (imp_SlotID s) @ importingSeparator @ FromNodeID s"

definition MigratingSlot_String :: "MigratingSlot \<Rightarrow> string" where
  "MigratingSlot_String s = Slot_String (mig_SlotID s) @ migratingSeparator @ ToNodeID s"

section \<open>Slices of slots\<close>

text \<open>
  \<open>BuildSlotSlice\<close> counts up while \<open>s <= max\<close>; with \<open>max\<close> the largest \<open>uint64\<close> the counter wraps
  to 0 and the loop never ends, which is the result \<open>None\<close>.
\<close>

partial_function (option) BuildSlotSlice_loop :: "Slot \<Rightarrow> Slot \<Rightarrow> Slot list \<Rightarrow> Slot list option" where
  "BuildSlotSlice_loop s hi slots =
     (if s \<le> hi then BuildSlotSlice_loop (u64 (s + 1)) hi (slots @ [s]) else Some slots)"

definition BuildSlotSlice :: "Slot \<Rightarrow> Slot \<Rightarrow> Slot list option" where
  "BuildSlotSlice lo hi = BuildSlotSlice_loop lo hi []"

fun Contains :: "Slot list \<Rightarrow> Slot \<Rightarrow> bool" where
  "Contains [] e = False"
| "Contains (a # s) e = (if a = e then True else Contains s e)"

fun AddSlots :: "Slot list \<Rightarrow> Slot list \<Rightarrow> Slot list" where
  "AddSlots slots [] = slots"
| "AddSlots slots (s # added) = AddSlots (if \<not> Contains slots s then slots @ [s] else slots) added"

text \<open>The index loops of \<open>RemoveSlots\<close> and \<open>RemoveSlot\<close>: deleting position \<open>i\<close> is
  \<open>append(slots[:i], slots[i+1:]...)\<close>, after which \<open>i--\<close> makes the loop look at \<open>i\<close> again.\<close>

function RemoveSlots_from :: "Slot list \<Rightarrow> Slot list \<Rightarrow> nat \<Rightarrow> Slot list" where
  "RemoveSlots_from slots removed i =
     (if i < length slots
      then if Contains removed (slots ! i)
           then RemoveSlots_from (take i slots @ drop (i + 1) slots) removed i
           else RemoveSlots_from slots removed (i + 1)
      else slots)"
  by pat_completeness auto
termination
  by (relation "measure (\<lambda>(slots, removed, i). length slots - i)") auto

definition RemoveSlots :: "Slot list \<Rightarrow> Slot list \<Rightarrow> Slot list" where
  "RemoveSlots slots removed = RemoveSlots_from slots removed 0"

function RemoveSlot_from :: "Slot list \<Rightarrow> Slot \<Rightarrow> nat \<Rightarrow> Slot list" where
  "RemoveSlot_from slots removed i =
     (if i < length slots
      then if slots ! i = removed then take i slots @ drop (i + 1) slots
           else RemoveSlot_from slots removed (i + 1)
      else slots)"
  by pat_completeness auto
termination
  by (relation "measure (\<lambda>(slots, removed, i). length slots - i)") auto

definition RemoveSlot :: "Slot list \<Rightarrow> Slot \<Rightarrow> Slot list" where
  "RemoveSlot slots removed = RemoveSlot_from slots removed 0"

declare RemoveSlots_from.simps [simp del] RemoveSlot_from.simps [simp del]

section \<open>Slot ranges\<close>

text \<open>The loop of \<open>SlotRangesFromSlots\<close> over the sorted slots; \<open>first\<close> is true until a slot
  was seen. The function sorts its argument in place, so the model also returns the slice as
  the caller finds it afterwards.\<close>

fun SlotRanges_loop :: "SlotRange list \<Rightarrow> Slot \<Rightarrow> Slot \<Rightarrow> bool \<Rightarrow> Slot list \<Rightarrow> SlotRange list" where
  "SlotRanges_loop ranges lo hi first [] =
     (if \<not> first then ranges @ [\<lparr>MinSlot = lo, MaxSlot = hi\<rparr>] else ranges)"
| "SlotRanges_loop ranges lo hi first (slot # slots) =
     (if first then SlotRanges_loop ranges slot slot False slots
      else if slot > u64 (hi + 1)
      then SlotRanges_loop (ranges @ [\<lparr>MinSlot = lo, MaxSlot = hi\<rparr>]) slot slot False slots
      else SlotRanges_loop ranges lo slot False slots)"

definition SlotRangesFromSlots :: "Slot list \<Rightarrow> SlotRange list \<times> Slot list" where
  "SlotRangesFromSlots slots = (let slots = sort slots in (SlotRanges_loop [] 0 0 True slots, slots))"

text \<open>\<open>fmt.Sprintf("%s", ranges)\<close> on a slice of values with a \<open>String\<close> method.\<close>

definition SlotSlice_String :: "Slot list \<Rightarrow> string" where
  "SlotSlice_String s = ''['' @ join_with '' '' (map SlotRange_String (fst (SlotRangesFromSlots s))) @ '']''"

section \<open>Decoding\<close>

text \<open>\<open>DecodeSlotRange\<close> returns the slots, an importing slot, a migrating slot and an error; the
  outer \<open>None\<close> is the call that never returns because \<open>BuildSlotSlice\<close> does not.\<close>

type_synonym decoded_range = "Slot list \<times> ImportingSlot option \<times> MigratingSlot option \<times> goerr option"

definition DecodeSlotRange :: "string \<Rightarrow> decoded_range option" where
  "DecodeSlotRange str =
     (let val = split_on (CHR ''-'') str in
      if length val = 3 then
        let separator = slotSeparator @ val ! 1 @ slotSeparator in
        case DecodeSlot (TrimPrefix (val ! 0) ''['') of
          Inl err \<Rightarrow> Some ([], None, None, Some err)
        | Inr slot \<Rightarrow>
            if separator = importingSeparator
            then Some ([], Some \<lparr>imp_SlotID = slot, FromNodeID = TrimSuffix (val ! 2) '']''\<rparr>, None, None)
            else if separator = migratingSeparator
            then Some ([], None, Some \<lparr>mig_SlotID = slot, ToNodeID = TrimSuffix (val ! 2) '']''\<rparr>, None)
            else Some ([], None, None, Some (Errorf (''impossible to decode slot '' @ str)))
      else if length val > 0 then
        case DecodeSlot (val ! 0) of
          Inl err \<Rightarrow> Some ([], None, None, Some err)
        | Inr lo \<Rightarrow>
            (case (if length val > 1 then DecodeSlot (val ! 1) else Inr lo) of
               Inl err \<Rightarrow> Some ([], None, None, Some err)
             | Inr hi \<Rightarrow>
                 (case BuildSlotSlice lo hi of
                    None \<Rightarrow> None
                  | Some slots \<Rightarrow> Some (slots, None, None, None)))
      else Some ([], None, None, Some (Errorf (''impossible to decode slot '' @ str))))"

section \<open>Basic facts\<close>

lemma Contains_iff [simp]: "Contains s e \<longleftrightarrow> e \<in> set s"
  by (induction s) auto

lemma BuildSlotSlice_loop_step:
  "s \<le> hi \<Longrightarrow> BuildSlotSlice_loop s hi acc = BuildSlotSlice_loop (u64 (s + 1)) hi (acc @ [s])"
  by (simp add: BuildSlotSlice_loop.simps [of s])

lemma BuildSlotSlice_loop_stop: "hi < s \<Longrightarrow> BuildSlotSlice_loop s hi acc = Some acc"
  by (simp add: BuildSlotSlice_loop.simps [of s])

lemma BuildSlotSlice_loop_upt:
  assumes "hi < 2 ^ 64 - 1"
  shows "BuildSlotSlice_loop s hi acc = Some (acc @ [s..<Suc hi])"
proof (induction "Suc hi - s" arbitrary: s acc)
  case 0
  then show ?case by (simp add: BuildSlotSlice_loop_stop)
next
  case (Suc n)
  then have "s \<le> hi" by simp
  moreover from this assms have "u64 (s + 1) = Suc s" by simp
  ultimately show ?case
    using Suc.hyps(1) [of "Suc s" "acc @ [s]"] Suc.hyps(2)
    by (simp add: BuildSlotSlice_loop_step upt_conv_Cons)
qed

lemma BuildSlotSlice_upt [simp]: "hi < 2 ^ 64 - 1 \<Longrightarrow> BuildSlotSlice lo hi = Some [lo..<Suc hi]"
  unfolding BuildSlotSlice_def by (subst BuildSlotSlice_loop_upt) auto

lemma BuildSlotSlice_loop_diverges:
  assumes "BuildSlotSlice_loop s hi acc = Some r" and "s < 2 ^ 64" and "hi = 2 ^ 64 - 1"
  shows False
proof -
  have "s < 2 ^ 64 \<and> hi = 2 ^ 64 - 1 \<longrightarrow> False"
  proof (rule BuildSlotSlice_loop.raw_induct
      [where P = "\<lambda>s hi acc r. s < 2 ^ 64 \<and> hi = 2 ^ 64 - 1 \<longrightarrow> False", OF _ assms(1)])
    fix f :: "Slot \<Rightarrow> Slot \<Rightarrow> Slot list \<Rightarrow> Slot list option"
    fix s hi :: Slot and acc r :: "Slot list"
    assume IH: "\<And>s hi acc r. f s hi acc = Some r \<Longrightarrow> s < 2 ^ 64 \<and> hi = 2 ^ 64 - 1 \<longrightarrow> False"
      and eq: "(if s \<le> hi then f (u64 (s + 1)) hi (acc @ [s]) else Some acc) = Some r"
    show "s < 2 ^ 64 \<and> hi = 2 ^ 64 - 1 \<longrightarrow> False"
      using IH [of "u64 (s + 1)" hi] eq u64_less [of "s + 1"] by (auto split: if_splits)
  qed
  with assms(2,3) show False by blast
qed

lemma RemoveSlots_from_filter:
  "i \<le> length slots \<Longrightarrow>
   RemoveSlots_from slots removed i = take i slots @ filter (\<lambda>s. s \<notin> set removed) (drop i slots)"
proof (induction slots removed i rule: RemoveSlots_from.induct)
  case (1 slots removed i)
  show ?case
  proof (cases "i < length slots")
    case True
    then have "drop i slots = slots ! i # drop (i + 1) slots"
      by (simp add: Cons_nth_drop_Suc)
    with True "1.IH" show ?thesis
      by (simp add: RemoveSlots_from.simps [of slots removed i] take_Suc_conv_app_nth)
  qed (use "1.prems" in \<open>simp add: RemoveSlots_from.simps\<close>)
qed

lemma RemoveSlots_filter [simp]: "RemoveSlots slots removed = filter (\<lambda>s. s \<notin> set removed) slots"
  by (simp add: RemoveSlots_def RemoveSlots_from_filter)

lemma RemoveSlot_from_remove1:
  "i \<le> length slots \<Longrightarrow> removed \<notin> set (take i slots) \<Longrightarrow>
   RemoveSlot_from slots removed i = remove1 removed slots"
proof (induction slots removed i rule: RemoveSlot_from.induct)
  case (1 slots removed i)
  show ?case
  proof (cases "i < length slots")
    case True
    then have eq: "slots = take i slots @ slots ! i # drop (i + 1) slots"
      by (simp add: id_take_nth_drop)
    show ?thesis
    proof (cases "slots ! i = removed")
      case True
      have "remove1 removed (take i slots @ slots ! i # drop (i + 1) slots)
          = take i slots @ drop (i + 1) slots"
        using True "1.prems" by (simp add: remove1_append)
      with eq True \<open>i < length slots\<close> show ?thesis
        by (simp add: RemoveSlot_from.simps [of slots removed i])
    next
      case False
      with True 1 show ?thesis
        by (simp add: RemoveSlot_from.simps [of slots removed i] take_Suc_conv_app_nth)
    qed
  qed (use "1.prems" in \<open>simp add: RemoveSlot_from.simps remove1_idem\<close>)
qed

lemma RemoveSlot_remove1 [simp]: "RemoveSlot slots removed = remove1 removed slots"
  by (simp add: RemoveSlot_def RemoveSlot_from_remove1)

lemma set_AddSlots [simp]: "set (AddSlots slots added) = set slots \<union> set added"
  by (induction slots added rule: AddSlots.induct) auto

lemma distinct_AddSlots [simp]: "distinct slots \<Longrightarrow> distinct (AddSlots slots added)"
  by (induction slots added rule: AddSlots.induct) auto

lemma AddSlots_append:
  "distinct added \<Longrightarrow> set slots \<inter> set added = {} \<Longrightarrow> AddSlots slots added = slots @ added"
  by (induction slots added rule: AddSlots.induct) auto

section \<open>Text codecs\<close>

text \<open>What a printer and a reader of the same text promise each other; \<open>valid\<close> says which values
  the printer is used on. Slots, ranges and the two moving-slot forms are all such pairs.\<close>

locale text_codec =
  fixes enc :: "'a \<Rightarrow> string" and dec :: "string \<Rightarrow> 'a option" and valid :: "'a \<Rightarrow> bool"
  assumes round_trip: "valid x \<Longrightarrow> dec (enc x) = Some x"
begin

lemma enc_inj: "valid x \<Longrightarrow> valid y \<Longrightarrow> enc x = enc y \<Longrightarrow> x = y"
  by (metis option.inject round_trip)

lemma enc_inj_on: "inj_on enc {x. valid x}"
  by (auto intro: inj_onI enc_inj)

lemma dec_list: "list_all valid xs \<Longrightarrow> map dec (map enc xs) = map Some xs"
  by (induction xs) (auto simp: round_trip)

end

definition node_id_ok :: "string \<Rightarrow> bool" where
  "node_id_ok ident \<longleftrightarrow> CHR ''-'' \<notin> set ident \<and> CHR '']'' \<notin> set ident"

lemma no_dash_FormatUint [simp]: "CHR ''-'' \<notin> set (FormatUint n)"
  using FormatUint_digits is_digit_not_special by blast

lemma TrimPrefix_FormatUint [simp]: "TrimPrefix (FormatUint n) ''['' = FormatUint n"
  using FormatUint_digits [of "hd (FormatUint n)" n] is_digit_not_special
  by (cases "FormatUint n") (auto simp: TrimPrefix_def HasPrefix_def)

lemma TrimSuffix_id_ok: "node_id_ok ident \<Longrightarrow> TrimSuffix ident '']'' = ident"
  by (cases ident rule: rev_cases) (auto simp: node_id_ok_def TrimSuffix_def HasSuffix_def)

lemma TrimPrefix_bracket [simp]: "TrimPrefix (CHR ''['' # s) ''['' = s"
  using TrimPrefix_append [of "''[''" s] by simp

lemma TrimSuffix_bracket [simp]: "TrimSuffix (s @ '']'') '']'' = s"
  by (rule TrimSuffix_append)

lemma split_dash3:
  "CHR ''-'' \<notin> set a \<Longrightarrow> CHR ''-'' \<notin> set b \<Longrightarrow> CHR ''-'' \<notin> set c \<Longrightarrow>
   split_on (CHR ''-'') (a @ CHR ''-'' # b @ CHR ''-'' # c) = [a, b, c]"
  by (simp add: split_on_append split_on_no_sep)

lemma split_dash2:
  "CHR ''-'' \<notin> set a \<Longrightarrow> CHR ''-'' \<notin> set b \<Longrightarrow> split_on (CHR ''-'') (a @ CHR ''-'' # b) = [a, b]"
  by (simp add: split_on_append split_on_no_sep)

lemmas separator_defs = slotSeparator_def importingSeparator_def migratingSeparator_def

lemma DecodeSlotRange_SlotRange:
  assumes "lo < 2 ^ 64" and "hi < 2 ^ 64 - 1"
  shows "DecodeSlotRange (SlotRange_String \<lparr>MinSlot = lo, MaxSlot = hi\<rparr>)
    = Some ([lo..<Suc hi], None, None, None)"
  using assms split_dash2 [of "FormatUint lo" "FormatUint hi"]
  by (simp add: DecodeSlotRange_def SlotRange_String_def Slot_String_def slotSeparator_def DecodeSlot_def)

lemma DecodeSlotRange_SlotRange':
  "MinSlot r < 2 ^ 64 \<Longrightarrow> MaxSlot r < 2 ^ 64 - 1 \<Longrightarrow>
   DecodeSlotRange (SlotRange_String r) = Some ([MinSlot r..<Suc (MaxSlot r)], None, None, None)"
  using DecodeSlotRange_SlotRange [of "MinSlot r" "MaxSlot r"] by (cases r) (simp del: upt_Suc)

lemma DecodeSlotRange_Slot:
  "s < 2 ^ 64 - 1 \<Longrightarrow> DecodeSlotRange (Slot_String s) = Some ([s], None, None, None)"
  by (simp add: DecodeSlotRange_def Slot_String_def split_on_no_sep DecodeSlot_def)

lemma DecodeSlotRange_three:
  assumes "split_on (CHR ''-'') str = [a, b, c]" and "DecodeSlot (TrimPrefix a ''['') = Inr slot"
  shows "b = ''<'' \<Longrightarrow> DecodeSlotRange str
      = Some ([], Some \<lparr>imp_SlotID = slot, FromNodeID = TrimSuffix c '']''\<rparr>, None, None)"
    and "b = ''>'' \<Longrightarrow> DecodeSlotRange str
      = Some ([], None, Some \<lparr>mig_SlotID = slot, ToNodeID = TrimSuffix c '']''\<rparr>, None)"
  using assms by (simp_all add: DecodeSlotRange_def separator_defs Let_def)

lemma split_moving_slot:
  assumes "node_id_ok ident" and "d \<in> {CHR ''<'', CHR ''>''}"
  shows "split_on (CHR ''-'') (FormatUint n @ CHR ''-'' # d # CHR ''-'' # ident) = [FormatUint n, [d], ident]"
    and "split_on (CHR ''-'') (CHR ''['' # FormatUint n @ CHR ''-'' # d # CHR ''-'' # ident @ '']'')
      = [CHR ''['' # FormatUint n, [d], ident @ '']'']"
proof -
  have "CHR ''-'' \<notin> set ident" and "d \<noteq> CHR ''-''"
    using assms by (auto simp: node_id_ok_def)
  then show "split_on (CHR ''-'') (FormatUint n @ CHR ''-'' # d # CHR ''-'' # ident) = [FormatUint n, [d], ident]"
    using split_dash3 [of "FormatUint n" "[d]" ident] by simp
  show "split_on (CHR ''-'') (CHR ''['' # FormatUint n @ CHR ''-'' # d # CHR ''-'' # ident @ '']'')
      = [CHR ''['' # FormatUint n, [d], ident @ '']'']"
    using \<open>CHR ''-'' \<notin> set ident\<close> \<open>d \<noteq> CHR ''-''\<close>
      split_dash3 [of "CHR ''['' # FormatUint n" "[d]" "ident @ '']''"] by simp
qed

lemma DecodeSlotRange_Importing:
  assumes "imp_SlotID s < 2 ^ 64" and "node_id_ok (FromNodeID s)"
  shows "DecodeSlotRange (ImportingSlot_String s) = Some ([], Some s, None, None)"
    and "DecodeSlotRange (''['' @ ImportingSlot_String s @ '']'') = Some ([], Some s, None, None)"
  using assms split_moving_slot [of "FromNodeID s" "CHR ''<''" "imp_SlotID s"]
  by (simp_all add: ImportingSlot_String_def Slot_String_def separator_defs
      DecodeSlotRange_three(1) DecodeSlot_def TrimSuffix_id_ok)

lemma DecodeSlotRange_Migrating:
  assumes "mig_SlotID s < 2 ^ 64" and "node_id_ok (ToNodeID s)"
  shows "DecodeSlotRange (MigratingSlot_String s) = Some ([], None, Some s, None)"
    and "DecodeSlotRange (''['' @ MigratingSlot_String s @ '']'') = Some ([], None, Some s, None)"
  using assms split_moving_slot [of "ToNodeID s" "CHR ''>''" "mig_SlotID s"]
  by (simp_all add: MigratingSlot_String_def Slot_String_def separator_defs
      DecodeSlotRange_three(2) DecodeSlot_def TrimSuffix_id_ok)

interpretation slot_text: text_codec Slot_String
  "\<lambda>s. case DecodeSlot s of Inl _ \<Rightarrow> None | Inr n \<Rightarrow> Some n" "\<lambda>s. s < 2 ^ 64"
  by unfold_locales (simp add: Slot_String_def DecodeSlot_def)

interpretation importing_text: text_codec ImportingSlot_String
  "\<lambda>s. case DecodeSlotRange s of Some (_, i, _, _) \<Rightarrow> i | None \<Rightarrow> None"
  "\<lambda>s. imp_SlotID s < 2 ^ 64 \<and> node_id_ok (FromNodeID s)"
  by unfold_locales (simp add: DecodeSlotRange_Importing)

interpretation migrating_text: text_codec MigratingSlot_String
  "\<lambda>s. case DecodeSlotRange s of Some (_, _, m, _) \<Rightarrow> m | None \<Rightarrow> None"
  "\<lambda>s. mig_SlotID s < 2 ^ 64 \<and> node_id_ok (ToNodeID s)"
  by unfold_locales (simp add: DecodeSlotRange_Migrating)

section \<open>Slot ranges are a canonical form\<close>

definition range_slots :: "SlotRange \<Rightarrow> Slot set" where
  "range_slots r = {MinSlot r..MaxSlot r}"

definition ranges_slots :: "SlotRange list \<Rightarrow> Slot set" where
  "ranges_slots rs = (\<Union>r\<in>set rs. range_slots r)"

text \<open>No empty range, and between two ranges at least one slot is missing.\<close>

definition ranges_separated :: "SlotRange list \<Rightarrow> bool" where
  "ranges_separated rs \<longleftrightarrow> sorted_wrt (\<lambda>a b. MaxSlot a + 1 < MinSlot b) rs
     \<and> (\<forall>r\<in>set rs. MinSlot r \<le> MaxSlot r)"

lemma ranges_slots_append [simp]: "ranges_slots (rs @ qs) = ranges_slots rs \<union> ranges_slots qs"
  by (auto simp: ranges_slots_def)

lemma ranges_slots_single [simp]: "ranges_slots [\<lparr>MinSlot = lo, MaxSlot = hi\<rparr>] = {lo..hi}"
  by (simp add: ranges_slots_def range_slots_def)

lemma ranges_separated_snoc:
  "ranges_separated (rs @ [r]) \<longleftrightarrow>
     ranges_separated rs \<and> (\<forall>q\<in>set rs. MaxSlot q + 1 < MinSlot r) \<and> MinSlot r \<le> MaxSlot r"
  by (auto simp: ranges_separated_def sorted_wrt_append)

lemma SlotRanges_loop_ok:
  assumes "sorted (hi # slots)" and "\<forall>s\<in>set (hi # slots). s < 2 ^ 64 - 1"
    and "ranges_separated (rs @ [\<lparr>MinSlot = lo, MaxSlot = hi\<rparr>])"
  shows "ranges_separated (SlotRanges_loop rs lo hi False slots)
    \<and> ranges_slots (SlotRanges_loop rs lo hi False slots) = ranges_slots rs \<union> {lo..hi} \<union> set slots"
  using assms
proof (induction slots arbitrary: rs lo hi)
  case (Cons slot slots)
  then have step: "u64 (hi + 1) = hi + 1" and "lo \<le> hi" and "hi \<le> slot"
    by (auto simp: ranges_separated_snoc)
  show ?case
  proof (cases "slot > hi + 1")
    case True
    let ?r = "\<lparr>MinSlot = lo, MaxSlot = hi\<rparr>"
    have "ranges_separated ((rs @ [?r]) @ [\<lparr>MinSlot = slot, MaxSlot = slot\<rparr>])"
      using Cons.prems(3) True \<open>lo \<le> hi\<close>
      by (subst ranges_separated_snoc) (auto simp: ranges_separated_snoc)
    then show ?thesis
      using Cons.IH [of slot "rs @ [?r]" slot] Cons.prems True step by auto
  next
    case False
    have "ranges_separated (rs @ [\<lparr>MinSlot = lo, MaxSlot = slot\<rparr>])"
      using Cons.prems(3) \<open>lo \<le> hi\<close> \<open>hi \<le> slot\<close> by (auto simp: ranges_separated_snoc)
    moreover have "insert slot {lo..hi} = {lo..slot}"
      using False \<open>lo \<le> hi\<close> \<open>hi \<le> slot\<close> by auto
    ultimately show ?thesis
      using Cons.IH [of slot rs lo] Cons.prems False step by auto
  qed
qed simp

lemma SlotRangesFromSlots_ok:
  assumes "\<forall>s\<in>set slots. s < 2 ^ 64 - 1"
  shows "ranges_separated (fst (SlotRangesFromSlots slots))
    \<and> ranges_slots (fst (SlotRangesFromSlots slots)) = set slots"
proof (cases "sort slots")
  case Nil
  then have "slots = []" by (metis length_0_conv length_sort)
  then show ?thesis
    by (simp add: SlotRangesFromSlots_def ranges_separated_def ranges_slots_def)
next
  case (Cons x xs)
  have "sorted (x # xs)" and set_eq: "set (x # xs) = set slots"
    using sorted_sort [of slots] by (simp_all flip: Cons)
  moreover have "ranges_separated ([] @ [\<lparr>MinSlot = x, MaxSlot = x\<rparr>])"
    by (simp add: ranges_separated_def)
  ultimately have "ranges_separated (SlotRanges_loop [] x x False xs)
      \<and> ranges_slots (SlotRanges_loop [] x x False xs) = ranges_slots [] \<union> {x..x} \<union> set xs"
    using assms by (intro SlotRanges_loop_ok) auto
  with set_eq show ?thesis
    by (auto simp: SlotRangesFromSlots_def Cons ranges_slots_def)
qed

lemma ranges_separated_Cons:
  "ranges_separated (r # rs) \<longleftrightarrow>
     ranges_separated rs \<and> (\<forall>q\<in>set rs. MaxSlot r + 1 < MinSlot q) \<and> MinSlot r \<le> MaxSlot r"
  by (auto simp: ranges_separated_def)

lemma ranges_slots_Cons: "ranges_slots (r # rs) = {MinSlot r..MaxSlot r} \<union> ranges_slots rs"
  by (auto simp: ranges_slots_def range_slots_def)

lemma ranges_slots_above:
  "ranges_separated (r # rs) \<Longrightarrow> s \<in> ranges_slots rs \<Longrightarrow> MaxSlot r + 1 < s"
  by (fastforce simp: ranges_separated_def ranges_slots_def range_slots_def)

lemma ranges_head_bounds:
  assumes "ranges_separated (r # rs)"
  shows "MinSlot r \<in> ranges_slots (r # rs)"
    and "s \<in> ranges_slots (r # rs) \<Longrightarrow> MinSlot r \<le> s"
    and "\<forall>s. MinSlot r \<le> s \<and> s \<le> t \<longrightarrow> s \<in> ranges_slots (r # rs) \<Longrightarrow> t \<le> MaxSlot r"
proof -
  have le: "MinSlot r \<le> MaxSlot r"
    using assms by (simp add: ranges_separated_Cons)
  then show "MinSlot r \<in> ranges_slots (r # rs)"
    by (simp add: ranges_slots_Cons)
  show "s \<in> ranges_slots (r # rs) \<Longrightarrow> MinSlot r \<le> s"
    using ranges_slots_above [OF assms, of s] le by (auto simp: ranges_slots_Cons)
  assume all: "\<forall>s. MinSlot r \<le> s \<and> s \<le> t \<longrightarrow> s \<in> ranges_slots (r # rs)"
  show "t \<le> MaxSlot r"
  proof (rule ccontr)
    assume "\<not> t \<le> MaxSlot r"
    with all le have "MaxSlot r + 1 \<in> ranges_slots (r # rs)" by auto
    then show False
      using ranges_slots_above [OF assms, of "MaxSlot r + 1"] by (auto simp: ranges_slots_Cons)
  qed
qed

lemma ranges_unique:
  "ranges_separated rs \<Longrightarrow> ranges_separated qs \<Longrightarrow> ranges_slots rs = ranges_slots qs \<Longrightarrow> rs = qs"
proof (induction rs arbitrary: qs)
  case Nil
  then show ?case
    by (cases qs) (auto simp: ranges_slots_def range_slots_def ranges_separated_Cons)
next
  case (Cons r rs)
  from Cons.prems(3) ranges_head_bounds(1) [OF Cons.prems(1)] obtain q qs' where qs: "qs = q # qs'"
    by (cases qs) (auto simp: ranges_slots_def)
  note rb = ranges_head_bounds [OF Cons.prems(1)]
  note qb = ranges_head_bounds [OF Cons.prems(2) [unfolded qs]]
  have lo: "MinSlot r = MinSlot q"
    using rb(1,2) qb(1,2) Cons.prems(3) qs by (metis le_antisym)
  have "MaxSlot r \<le> MaxSlot q"
    by (rule qb(3)) (use Cons.prems(3) qs lo in \<open>auto simp: ranges_slots_Cons\<close>)
  moreover have "MaxSlot q \<le> MaxSlot r"
    by (rule rb(3)) (use Cons.prems(3) qs lo in \<open>auto simp: ranges_slots_Cons\<close>)
  ultimately have rq: "r = q"
    using lo by simp
  have "ranges_slots rs = ranges_slots (r # rs) - {MinSlot r..MaxSlot r}"
    using ranges_slots_above [OF Cons.prems(1)] by (fastforce simp: ranges_slots_Cons)
  moreover have "ranges_slots qs' = ranges_slots (q # qs') - {MinSlot q..MaxSlot q}"
    using ranges_slots_above [OF Cons.prems(2) [unfolded qs]] by (fastforce simp: ranges_slots_Cons)
  ultimately have "ranges_slots rs = ranges_slots qs'"
    using Cons.prems(3) qs rq by simp
  then have "rs = qs'"
    using Cons.IH Cons.prems(1,2) qs by (simp add: ranges_separated_Cons)
  with rq qs show ?case by simp
qed

lemma set_ranges_concat: "set (concat (map (\<lambda>r. [MinSlot r..<Suc (MaxSlot r)]) rs)) = ranges_slots rs"
  by (auto simp: ranges_slots_def range_slots_def simp del: upt_Suc)

lemma strict_sorted_ranges:
  "ranges_separated rs \<Longrightarrow> sorted_wrt (<) (concat (map (\<lambda>r. [MinSlot r..<Suc (MaxSlot r)]) rs))"
proof (induction rs)
  case (Cons r rs)
  have "s < t" if "s \<in> set [MinSlot r..<Suc (MaxSlot r)]" and "t \<in> ranges_slots rs" for s t
    using ranges_slots_above [OF Cons.prems that(2)] that(1) by auto
  moreover have "sorted_wrt (<) (concat (map (\<lambda>r. [MinSlot r..<Suc (MaxSlot r)]) rs))"
    using Cons by (simp add: ranges_separated_Cons)
  ultimately show ?case
    unfolding list.map concat.simps sorted_wrt_append set_ranges_concat
    using sorted_wrt_upt by blast
qed simp

lemma slot_ranges_decode:
  assumes "\<forall>s\<in>set slots. s < 2 ^ 64 - 1"
  shows "\<exists>sss. map (DecodeSlotRange \<circ> SlotRange_String) (fst (SlotRangesFromSlots slots))
             = map (\<lambda>ss. Some (ss, None, None, None)) sss
           \<and> concat sss = remdups (sort slots)"
proof -
  let ?rs = "fst (SlotRangesFromSlots slots)"
  let ?f = "\<lambda>r. [MinSlot r..<Suc (MaxSlot r)]"
  note ok = SlotRangesFromSlots_ok [OF assms]
  have bound: "MaxSlot r < 2 ^ 64 - 1 \<and> MinSlot r < 2 ^ 64" if "r \<in> set ?rs" for r
  proof -
    have "MinSlot r \<le> MaxSlot r"
      using ok that by (auto simp: ranges_separated_def)
    moreover from this have "MaxSlot r \<in> set slots"
      using ok that unfolding ranges_slots_def range_slots_def by fastforce
    ultimately show ?thesis using assms by fastforce
  qed
  have "map (DecodeSlotRange \<circ> SlotRange_String) ?rs = map (\<lambda>r. Some (?f r, None, None, None)) ?rs"
  proof (rule map_cong [OF refl])
    fix r assume "r \<in> set ?rs"
    then show "(DecodeSlotRange \<circ> SlotRange_String) r = Some (?f r, None, None, None)"
      using bound [of r] DecodeSlotRange_SlotRange' [of r] by simp
  qed
  moreover have "concat (map ?f ?rs) = remdups (sort slots)"
  proof -
    have "sorted_wrt (<) (concat (map ?f ?rs))"
      using ok strict_sorted_ranges by blast
    moreover have "set (concat (map ?f ?rs)) = set (remdups (sort slots))"
      using ok set_ranges_concat by simp
    moreover have "sorted_wrt (<) (remdups (sort slots))"
      by (simp add: strict_sorted_iff sorted_remdups)
    ultimately show ?thesis by (simp add: strict_sorted_equal)
  qed
  ultimately show ?thesis
    by (intro exI [of _ "map ?f ?rs"]) (simp add: o_def)
qed

section \<open>Properties\<close>

text \<open>C18. \<open>SlotRangesFromSlots\<close> computes the canonical form of a set of slots: its result is the
  one list of non-empty ranges, in increasing order and with a gap between any two, that holds
  exactly the given slots; duplicates and the order of the input do not matter, and the caller's
  slice is left sorted.\<close>

theorem SlotRangesFromSlots_canonical:
  assumes "\<forall>s\<in>set slots. s < 2 ^ 64 - 1"
  shows "(fst (SlotRangesFromSlots slots) = rs \<longleftrightarrow> ranges_separated rs \<and> ranges_slots rs = set slots)
    \<and> snd (SlotRangesFromSlots slots) = sort slots"
proof
  show "fst (SlotRangesFromSlots slots) = rs \<longleftrightarrow> ranges_separated rs \<and> ranges_slots rs = set slots"
    using SlotRangesFromSlots_ok [OF assms] ranges_unique by blast
qed (simp add: SlotRangesFromSlots_def Let_def)

theorem SlotRangesFromSlots_canonical_witness:
  "fst (SlotRangesFromSlots [7, 3, 4, 9, 3])
     = [\<lparr>MinSlot = 3, MaxSlot = 4\<rparr>, \<lparr>MinSlot = 7, MaxSlot = 7\<rparr>, \<lparr>MinSlot = 9, MaxSlot = 9\<rparr>]
   \<and> snd (SlotRangesFromSlots [7, 3, 4, 9, 3]) = [3, 3, 4, 7, 9]"
proof -
  have h: "\<forall>s\<in>set [7, 3, 4, 9, 3 :: nat]. s < 2 ^ 64 - 1" by simp
  have "ranges_slots [\<lparr>MinSlot = 3, MaxSlot = 4\<rparr>, \<lparr>MinSlot = 7, MaxSlot = 7\<rparr>, \<lparr>MinSlot = 9, MaxSlot = 9\<rparr>]
      = set [7, 3, 4, 9, 3]"
    by (auto simp: ranges_slots_def range_slots_def)
  then show ?thesis
    using SlotRangesFromSlots_canonical [OF h]
    by (simp add: ranges_separated_def)
qed

text \<open>C19. The slot texts of a node's status read back: every range that \<open>SlotRangesFromSlots\<close>
  prints is decoded by \<open>DecodeSlotRange\<close> without error, as plain slots, and together the decoded
  slots are the node's slots, each once and in increasing order.\<close>

theorem slot_ranges_text_round_trip:
  assumes "\<forall>s\<in>set slots. s < 2 ^ 64 - 1"
  shows "\<exists>sss. map (DecodeSlotRange \<circ> SlotRange_String) (fst (SlotRangesFromSlots slots))
             = map (\<lambda>ss. Some (ss, None, None, None)) sss
           \<and> concat sss = remdups (sort slots)"
  using assms by (rule slot_ranges_decode)

theorem slot_ranges_text_round_trip_witness:
  "\<exists>sss. map (DecodeSlotRange \<circ> SlotRange_String) (fst (SlotRangesFromSlots [5, 1, 2]))
             = map (\<lambda>ss. Some (ss, None, None, None)) sss
           \<and> concat sss = [1, 2, 5]"
  using slot_ranges_text_round_trip [of "[5, 1, 2]"] by simp

text \<open>C20. A slot in motion survives the text of \<open>CLUSTER NODES\<close>: the bracketed form of an
  importing or migrating slot decodes to that slot and the peer's node id and to no owned slot,
  for every slot number and every id without a dash or a closing bracket.\<close>

theorem moving_slot_text_round_trip:
  assumes "slot < 2 ^ 64" and "node_id_ok ident"
  shows "DecodeSlotRange (''['' @ ImportingSlot_String \<lparr>imp_SlotID = slot, FromNodeID = ident\<rparr> @ '']'')
      = Some ([], Some \<lparr>imp_SlotID = slot, FromNodeID = ident\<rparr>, None, None)
    \<and> DecodeSlotRange (''['' @ MigratingSlot_String \<lparr>mig_SlotID = slot, ToNodeID = ident\<rparr> @ '']'')
      = Some ([], None, Some \<lparr>mig_SlotID = slot, ToNodeID = ident\<rparr>, None)"
  using assms DecodeSlotRange_Importing(2) [of "\<lparr>imp_SlotID = slot, FromNodeID = ident\<rparr>"]
    DecodeSlotRange_Migrating(2) [of "\<lparr>mig_SlotID = slot, ToNodeID = ident\<rparr>"]
  by simp

theorem moving_slot_text_round_trip_witness:
  "DecodeSlotRange ''[42-<-67ed2db8]'' = Some ([], Some \<lparr>imp_SlotID = 42, FromNodeID = ''67ed2db8''\<rparr>, None, None)
   \<and> DecodeSlotRange ''[42->-67ed2db8]'' = Some ([], None, Some \<lparr>mig_SlotID = 42, ToNodeID = ''67ed2db8''\<rparr>, None)"
proof -
  have h: "(42 :: nat) < 2 ^ 64" and i: "node_id_ok ''67ed2db8''"
    by (simp_all add: node_id_ok_def)
  have "FormatUint 42 = ''42''"
    by code_simp
  then show ?thesis
    using moving_slot_text_round_trip [OF h i]
    by (simp add: ImportingSlot_String_def MigratingSlot_String_def Slot_String_def separator_defs)
qed

text \<open>C21. \<open>BuildSlotSlice(min, max)\<close> returns the slots from \<open>min\<close> to \<open>max\<close> in order (none when
  \<open>max < min\<close>) for every \<open>max\<close> but the largest \<open>uint64\<close>; there the counter wraps around and the
  loop never ends, whatever \<open>min\<close> is.\<close>

theorem BuildSlotSlice_terminates_iff:
  assumes "lo < 2 ^ 64" and "hi < 2 ^ 64"
  shows "BuildSlotSlice lo hi = (if hi = 2 ^ 64 - 1 then None else Some [lo..<Suc hi])"
proof (cases "hi = 2 ^ 64 - 1")
  case True
  then have "BuildSlotSlice_loop lo hi [] \<noteq> Some r" for r
    using BuildSlotSlice_loop_diverges [of lo hi "[]" r] assms(1) by blast
  with True show ?thesis by (auto simp: BuildSlotSlice_def)
next
  case False
  with assms show ?thesis by (simp del: upt_Suc)
qed

theorem BuildSlotSlice_terminates_iff_witness:
  "BuildSlotSlice 5460 5463 = Some [5460, 5461, 5462, 5463]
   \<and> BuildSlotSlice 0 18446744073709551615 = None"
  using BuildSlotSlice_terminates_iff [of 5460 5463] BuildSlotSlice_terminates_iff [of 0 18446744073709551615]
  by (simp add: upt_rec)

text \<open>C22. The slot bookkeeping of a migration, for slots without duplicates: \<open>RemoveSlots\<close> keeps exactly the slots not listed, in
  their order; \<open>RemoveSlot\<close> drops the one slot; \<open>AddSlots\<close> appends the slots that are new, in order, and whatever is added it
  never creates a duplicate and loses none. So removing slots from their owner and
  adding them to another node loses none and duplicates none.\<close>

theorem slot_bookkeeping:
  assumes "distinct (a @ b)" and "distinct moved" and "set moved \<subseteq> set a"
  shows "RemoveSlots a moved = filter (\<lambda>s. s \<notin> set moved) a
    \<and> RemoveSlot a slot = filter (\<lambda>s. s \<noteq> slot) a
    \<and> AddSlots b moved = b @ moved
    \<and> distinct (AddSlots b added) \<and> set (AddSlots b added) = set b \<union> set added
    \<and> distinct (RemoveSlots a moved @ AddSlots b moved)
    \<and> set (RemoveSlots a moved @ AddSlots b moved) = set (a @ b)"
proof -
  have "AddSlots b moved = b @ moved" using assms by (intro AddSlots_append) auto
  then show ?thesis using assms by (auto simp: distinct_remove1_removeAll removeAll_filter_not_eq intro: filter_cong)
qed

theorem slot_bookkeeping_witness:
  "RemoveSlots [1, 2, 3] [3, 2] = [1] \<and> RemoveSlot [1, 2, 3] 2 = [1, 3] \<and> AddSlots [7] [3, 2] = [7, 3, 2]
   \<and> set (AddSlots [7] [7, 9, 9]) = {7, 9}
   \<and> set (RemoveSlots [1, 2, 3] [3, 2] @ AddSlots [7] [3, 2]) = {1, 2, 3, 7}"
  using slot_bookkeeping [of "[1, 2, 3]" "[7]" "[3, 2]" 2 "[7, 9, 9]"] by auto

end
