(* ===== verification/Nodes.thy ===== *)
theory Nodes
  imports SlotRanges
begin

text \<open>
  \<open>pkg/redisutil/node.go\<close>, \<open>cluster.go\<close> and \<open>errors.go\<close>: the operator's picture of a Redis node
  and of the cluster. The Go code passes \<open>*Node\<close> around and several structures share the same
  node, so nodes live in a store: a pointer is a \<open>nref\<close>, the store a \<open>nheap\<close>, and a \<open>Nodes\<close>
  slice a list of pointers. \<open>nil\<close> is written as an option where a pointer can be nil.
\<close>

section \<open>Constants\<close>

definition DefaultRedisPort :: string where "DefaultRedisPort = ''6379''"
definition RedisMasterRole :: string where "RedisMasterRole = ''master''"
definition RedisSlaveRole :: string where "RedisSlaveRole = ''slave''"
definition RedisLinkStateConnected :: string where "RedisLinkStateConnected = ''connected''"
definition RedisLinkStateDisconnected :: string where "RedisLinkStateDisconnected = ''disconnected''"
definition NodeStatusPFail :: string where "NodeStatusPFail = ''fail?''"
definition NodeStatusFail :: string where "NodeStatusFail = ''fail''"
definition NodeStatusHandshake :: string where "NodeStatusHandshake = ''handshake''"
definition NodeStatusNoAddr :: string where "NodeStatusNoAddr = ''noaddr''"
definition NodeStatusNoFlags :: string where "NodeStatusNoFlags = ''noflags''"

type_synonym RedisRole = string

definition RedisClusterNodeRoleMaster :: RedisRole where "RedisClusterNodeRoleMaster = ''Master''"
definition RedisClusterNodeRoleSlave :: RedisRole where "RedisClusterNodeRoleSlave = ''Slave''"
definition RedisClusterNodeRoleNone :: RedisRole where "RedisClusterNodeRoleNone = ''None''"

lemmas role_defs = RedisMasterRole_def RedisSlaveRole_def
  RedisClusterNodeRoleMaster_def RedisClusterNodeRoleSlave_def RedisClusterNodeRoleNone_def

lemmas status_flag_defs = NodeStatusPFail_def NodeStatusFail_def NodeStatusHandshake_def
  NodeStatusNoAddr_def NodeStatusNoFlags_def

section \<open>Node\<close>

text \<open>\<open>ServerStartTime\<close> is never set by the operator and is left out.\<close>

record Node =
  ID :: string
  IP :: string
  Port :: string
  Role :: string
  LinkState :: string
  MasterReferent :: string
  FailStatus :: "string list"
  PingSent :: int
  PongRecv :: int
  ConfigEpoch :: int
  Slots :: "Slot list"
  balance :: int
  MigratingSlots :: "(Slot, string) gomap"
  ImportingSlots :: "(Slot, string) gomap"
  NodeName :: string
  PodName :: string
  StatefulSet :: string

type_synonym nref = nat
type_synonym nheap = "nref \<Rightarrow> Node"
type_synonym Nodes = "nref list"

definition NewDefaultNode :: Node where
  "NewDefaultNode = \<lparr>ID = [], IP = [], Port = DefaultRedisPort, Role = [], LinkState = [],
     MasterReferent = [], FailStatus = [], PingSent = 0, PongRecv = 0, ConfigEpoch = 0,
     Slots = [], balance = 0, MigratingSlots = [], ImportingSlots = [],
     NodeName = [], PodName = [], StatefulSet = []\<rparr>"

text \<open>\<open>NewNode(id, ip, pod)\<close>, with the two fields it reads of the pod.\<close>

definition NewNode :: "string \<Rightarrow> string \<Rightarrow> string \<Rightarrow> string \<Rightarrow> Node" where
  "NewNode ident ip pod_Name pod_Spec_NodeName =
     NewDefaultNode\<lparr>ID := ident, IP := ip, PodName := pod_Name, NodeName := pod_Spec_NodeName\<rparr>"

text \<open>\<open>SetRole\<close>: the last role among the flags wins; no role is an error (and leaves \<open>""\<close>).\<close>

fun role_of_flags :: "string \<Rightarrow> string list \<Rightarrow> string" where
  "role_of_flags r [] = r"
| "role_of_flags r (val # vals) =
     role_of_flags (if val = RedisMasterRole then RedisMasterRole
                    else if val = RedisSlaveRole then RedisSlaveRole else r) vals"

definition SetRole :: "string \<Rightarrow> Node \<Rightarrow> Node \<times> goerr option" where
  "SetRole flags n =
     (let n = n\<lparr>Role := role_of_flags [] (split_on (CHR '','') flags)\<rparr>
      in (n, if Role n = [] then Some (Errorf ''node setRole failed'') else None))"

definition GetRole :: "Node \<Rightarrow> RedisRole" where
  "GetRole n =
     (if Role n = RedisMasterRole then RedisClusterNodeRoleMaster
      else if Role n = RedisSlaveRole then RedisClusterNodeRoleSlave
      else if MasterReferent n \<noteq> [] then RedisClusterNodeRoleSlave
      else if length (Slots n) > 0 then RedisClusterNodeRoleMaster
      else RedisClusterNodeRoleNone)"

definition IPPort :: "Node \<Rightarrow> string" where
  "IPPort n = JoinHostPort (IP n) (Port n)"

definition SetLinkStatus :: "string \<Rightarrow> Node \<Rightarrow> Node \<times> goerr option" where
  "SetLinkStatus status n =
     (let n = n\<lparr>LinkState := (if status = RedisLinkStateConnected then RedisLinkStateConnected
                else if status = RedisLinkStateDisconnected then RedisLinkStateDisconnected else [])\<rparr>
      in (n, if LinkState n = [] then Some (Errorf ''Node SetLinkStatus failed'') else None))"

definition is_failure_flag :: "string \<Rightarrow> bool" where
  "is_failure_flag val \<longleftrightarrow> val = NodeStatusFail \<or> val = NodeStatusPFail \<or> val = NodeStatusHandshake
     \<or> val = NodeStatusNoAddr \<or> val = NodeStatusNoFlags"

definition SetFailureStatus :: "string \<Rightarrow> Node \<Rightarrow> Node" where
  "SetFailureStatus flags n = n\<lparr>FailStatus := filter is_failure_flag (split_on (CHR '','') flags)\<rparr>"

definition SetReferentMaster :: "string \<Rightarrow> Node \<Rightarrow> Node" where
  "SetReferentMaster ref n = n\<lparr>MasterReferent := (if ref = ''-'' then [] else ref)\<rparr>"

definition TotalSlots :: "Node \<Rightarrow> nat" where
  "TotalSlots n = length (Slots n)"

fun HasStatus_in :: "string list \<Rightarrow> string \<Rightarrow> bool" where
  "HasStatus_in [] flag = False"
| "HasStatus_in (s # ss) flag = (if s = flag then True else HasStatus_in ss flag)"

definition HasStatus :: "Node \<Rightarrow> string \<Rightarrow> bool" where
  "HasStatus n flag = HasStatus_in (FailStatus n) flag"

definition IsMasterWithNoSlot :: "Node \<Rightarrow> bool" where
  "IsMasterWithNoSlot n \<longleftrightarrow> GetRole n = RedisClusterNodeRoleMaster \<and> TotalSlots n = 0"

definition IsMasterWithSlot :: "Node \<Rightarrow> bool" where
  "IsMasterWithSlot n \<longleftrightarrow> GetRole n = RedisClusterNodeRoleMaster \<and> TotalSlots n > 0"

definition IsSlave :: "Node \<Rightarrow> bool" where
  "IsSlave n \<longleftrightarrow> GetRole n = RedisClusterNodeRoleSlave"

section \<open>Slices of nodes\<close>

fun FilterByFunc :: "(Node \<Rightarrow> bool) \<Rightarrow> nheap \<Rightarrow> Nodes \<Rightarrow> Nodes" where
  "FilterByFunc fn h [] = []"
| "FilterByFunc fn h (node # ns) =
     (if fn (h node) then node # FilterByFunc fn h ns else FilterByFunc fn h ns)"

definition GetNodesByFunc :: "(Node \<Rightarrow> bool) \<Rightarrow> nheap \<Rightarrow> Nodes \<Rightarrow> Nodes \<times> goerr option" where
  "GetNodesByFunc f h n =
     (let nodes = FilterByFunc f h n in (nodes, if length nodes = 0 then Some NodeNotFounded else None))"

fun GetNodeByID :: "nheap \<Rightarrow> Nodes \<Rightarrow> string \<Rightarrow> goerr + nref" where
  "GetNodeByID h [] ident = Inl NodeNotFounded"
| "GetNodeByID h (node # ns) ident = (if ID (h node) = ident then Inr node else GetNodeByID h ns ident)"

fun CountByFunc :: "(Node \<Rightarrow> bool) \<Rightarrow> nheap \<Rightarrow> Nodes \<Rightarrow> nat" where
  "CountByFunc fn h [] = 0"
| "CountByFunc fn h (v # ns) = (if fn (h v) then CountByFunc fn h ns + 1 else CountByFunc fn h ns)"

definition LessByID :: "nheap \<Rightarrow> nref \<Rightarrow> nref \<Rightarrow> bool" where
  "LessByID h n1 n2 \<longleftrightarrow> ID (h n1) < ID (h n2)"

definition MoreByID :: "nheap \<Rightarrow> nref \<Rightarrow> nref \<Rightarrow> bool" where
  "MoreByID h n1 n2 \<longleftrightarrow> ID (h n1) > ID (h n2)"

definition SortByFunc :: "go_env \<Rightarrow> (nref \<Rightarrow> nref \<Rightarrow> bool) \<Rightarrow> Nodes \<Rightarrow> Nodes" where
  "SortByFunc env lt n = sort_refs env lt n"

definition SortNodes :: "go_env \<Rightarrow> nheap \<Rightarrow> Nodes \<Rightarrow> Nodes" where
  "SortNodes env h n = sort_refs env (LessByID h) n"

section \<open>Cluster\<close>

record Cluster =
  cluster_Name :: string
  cluster_Namespace :: string
  cluster_Nodes :: "(string, nref) gomap"
  cluster_Status :: string
  cluster_NodesPlacement :: string
  NbslotsToMigrate :: int

definition NewCluster :: "string \<Rightarrow> string \<Rightarrow> Cluster" where
  "NewCluster name namespace = \<lparr>cluster_Name = name, cluster_Namespace = namespace, cluster_Nodes = [],
     cluster_Status = [], cluster_NodesPlacement = [], NbslotsToMigrate = 0\<rparr>"

text \<open>\<open>AddNode\<close>: \<open>Clear\<close> on the node it replaces does nothing.\<close>

definition Cluster_AddNode :: "nheap \<Rightarrow> nref \<Rightarrow> Cluster \<Rightarrow> Cluster" where
  "Cluster_AddNode h node c = c\<lparr>cluster_Nodes := mput (ID (h node)) node (cluster_Nodes c)\<rparr>"

definition Cluster_GetNodeByID :: "Cluster \<Rightarrow> string \<Rightarrow> goerr + nref" where
  "Cluster_GetNodeByID c ident =
     (case map_of (cluster_Nodes c) ident of Some n \<Rightarrow> Inr n | None \<Rightarrow> Inl NodeNotFounded)"

fun first_by_func :: "(Node \<Rightarrow> bool) \<Rightarrow> nheap \<Rightarrow> (string \<times> nref) list \<Rightarrow> goerr + nref" where
  "first_by_func f h [] = Inl NodeNotFounded"
| "first_by_func f h ((k, n) # m) = (if f (h n) then Inr n else first_by_func f h m)"

definition Cluster_GetNodeByFunc :: "go_env \<Rightarrow> nheap \<Rightarrow> (Node \<Rightarrow> bool) \<Rightarrow> Cluster \<Rightarrow> goerr + nref" where
  "Cluster_GetNodeByFunc env h f c = first_by_func f h (mrange env 0 (cluster_Nodes c))"

definition Cluster_GetNodeByIP :: "go_env \<Rightarrow> nheap \<Rightarrow> string \<Rightarrow> Cluster \<Rightarrow> goerr + nref" where
  "Cluster_GetNodeByIP env h ip c = Cluster_GetNodeByFunc env h (\<lambda>node. IP node = ip) c"

definition Cluster_GetNodeByPodName :: "go_env \<Rightarrow> nheap \<Rightarrow> string \<Rightarrow> Cluster \<Rightarrow> goerr + nref" where
  "Cluster_GetNodeByPodName env h name c = Cluster_GetNodeByFunc env h (\<lambda>node. PodName node = name) c"

definition Cluster_GetNodesByFunc ::
  "go_env \<Rightarrow> nheap \<Rightarrow> (Node \<Rightarrow> bool) \<Rightarrow> Cluster \<Rightarrow> Nodes \<times> goerr option" where
  "Cluster_GetNodesByFunc env h f c =
     (let nodes = FilterByFunc f h (map snd (mrange env 0 (cluster_Nodes c)))
      in (nodes, if length nodes = 0 then Some NodeNotFounded else None))"

section \<open>Errors\<close>

definition NewClusterInfosError :: goerr where
  "NewClusterInfosError = ClusterInfosError [] False False"

definition IsNodeNotFoundedError :: "goerr option \<Rightarrow> bool" where
  "IsNodeNotFoundedError err \<longleftrightarrow> err = Some NodeNotFounded"

fun IsPartialError :: "goerr option \<Rightarrow> bool" where
  "IsPartialError (Some (ClusterInfosError errs part inconsistent)) = part"
| "IsPartialError _ = False"

fun IsInconsistentError :: "goerr option \<Rightarrow> bool" where
  "IsInconsistentError (Some (ClusterInfosError errs part inconsistent)) = inconsistent"
| "IsInconsistentError _ = False"

section \<open>Facts\<close>

lemma FilterByFunc_filter [simp]: "FilterByFunc fn h ns = filter (\<lambda>r. fn (h r)) ns"
  by (induction ns) auto

lemma CountByFunc_filter [simp]: "CountByFunc fn h ns = length (FilterByFunc fn h ns)"
  by (induction ns) auto

lemma HasStatus_iff [simp]: "HasStatus n flag \<longleftrightarrow> flag \<in> set (FailStatus n)"
proof -
  have "HasStatus_in ss flag \<longleftrightarrow> flag \<in> set ss" for ss
    by (induction ss) auto
  then show ?thesis by (simp add: HasStatus_def)
qed

lemma GetNodeByID_Inr: "GetNodeByID h ns ident = Inr r \<Longrightarrow> r \<in> set ns \<and> ID (h r) = ident"
  by (induction ns) (auto split: if_splits)

lemma GetNodeByID_Inl: "GetNodeByID h ns ident = Inl e \<Longrightarrow> e = NodeNotFounded \<and> ident \<notin> (\<lambda>r. ID (h r)) ` set ns"
  by (induction ns) (auto split: if_splits)

lemma GetNodeByID_unique:
  "r \<in> set ns \<Longrightarrow> inj_on (\<lambda>r. ID (h r)) (set ns) \<Longrightarrow> GetNodeByID h ns (ID (h r)) = Inr r"
  by (induction ns) (auto simp: inj_on_def)

lemma role_of_flags_in:
  "role_of_flags r vals \<in> {r, RedisMasterRole, RedisSlaveRole}"
  by (induction r vals rule: role_of_flags.induct) (auto split: if_splits)

lemma GetRole_cases:
  obtains (master) "GetRole n = RedisClusterNodeRoleMaster"
    | (slave) "GetRole n = RedisClusterNodeRoleSlave"
    | (none) "GetRole n = RedisClusterNodeRoleNone"
  by (metis GetRole_def)

lemma roles_distinct [simp]:
  "RedisClusterNodeRoleMaster \<noteq> RedisClusterNodeRoleSlave"
  "RedisClusterNodeRoleSlave \<noteq> RedisClusterNodeRoleMaster"
  "RedisClusterNodeRoleNone \<noteq> RedisClusterNodeRoleMaster"
  "RedisClusterNodeRoleMaster \<noteq> RedisClusterNodeRoleNone"
  "RedisClusterNodeRoleNone \<noteq> RedisClusterNodeRoleSlave"
  "RedisClusterNodeRoleSlave \<noteq> RedisClusterNodeRoleNone"
  by (simp_all add: role_defs)

text \<open>The three tests of \<open>node.go\<close> are exclusive, and what they leave out is a node without role.\<close>

lemma node_kind_partition:
  "IsMasterWithSlot n \<Longrightarrow> \<not> IsMasterWithNoSlot n \<and> \<not> IsSlave n"
  "IsMasterWithNoSlot n \<Longrightarrow> \<not> IsSlave n"
  "\<not> IsMasterWithSlot n \<Longrightarrow> \<not> IsMasterWithNoSlot n \<Longrightarrow> \<not> IsSlave n \<Longrightarrow>
     GetRole n = RedisClusterNodeRoleNone"
  by (auto simp: IsMasterWithSlot_def IsMasterWithNoSlot_def IsSlave_def) (metis GetRole_cases)

section \<open>The registry interface\<close>

text \<open>What the clustering code relies on when it looks nodes up by id: the last node registered
  under an id is the one found, other ids are not touched, and the empty registry finds nothing.\<close>

locale node_registry =
  fixes empty :: 'c and add :: "nref \<Rightarrow> 'c \<Rightarrow> 'c" and get :: "'c \<Rightarrow> string \<Rightarrow> goerr + nref"
    and key :: "nref \<Rightarrow> string"
  assumes get_empty: "get empty k = Inl NodeNotFounded"
    and get_add: "get (add r c) k = (if k = key r then Inr r else get c k)"
begin

lemma get_fold_add:
  "get (fold add rs c) k
     = (case List.find (\<lambda>r. key r = k) (rev rs) of Some r \<Rightarrow> Inr r | None \<Rightarrow> get c k)"
proof (induction rs arbitrary: c)
  case (Cons r rs)
  then show ?case by (auto simp: get_add find_append split: option.splits)
qed simp

lemma get_fold_add_distinct:
  assumes "r \<in> set rs" and "inj_on key (set rs)"
  shows "get (fold add rs empty) (key r) = Inr r"
proof -
  have "List.find (\<lambda>q. key q = key r) (rev rs) \<noteq> None"
    using assms(1) by (auto simp: find_None_iff)
  then obtain q where q: "List.find (\<lambda>q. key q = key r) (rev rs) = Some q" by blast
  then have "q \<in> set rs" and "key q = key r"
    using find_SomeD [OF q] by simp_all
  with assms have "q = r" by (auto simp: inj_on_def)
  with q show ?thesis by (simp add: get_fold_add)
qed

lemma get_fold_add_registered:
  "get (fold add rs empty) k = Inr r \<Longrightarrow> r \<in> set rs \<and> key r = k"
  by (auto simp: get_fold_add get_empty split: option.splits dest: find_SomeD)

end

interpretation registry: node_registry "NewCluster name namespace" "Cluster_AddNode h" Cluster_GetNodeByID
  "\<lambda>r. ID (h r)"
  for name namespace h
  by unfold_locales (simp_all add: NewCluster_def Cluster_AddNode_def Cluster_GetNodeByID_def)

text \<open>A concrete node, for evaluating the models on small clusters.\<close>

definition sample_node :: "string \<Rightarrow> string \<Rightarrow> string \<Rightarrow> string \<Rightarrow> string \<Rightarrow> Slot list \<Rightarrow> Node" where
  "sample_node ident ip role sts vm slots =
     NewDefaultNode\<lparr>ID := ident, IP := ip, Role := role, StatefulSet := sts, NodeName := vm, Slots := slots\<rparr>"

end
