(* ===== verification/AdminApi.thy ===== *)
theory AdminApi
  imports Nodes
begin

text \<open>
  The interface \<open>IAdmin\<close> of \<open>pkg/redisutil/admin.go\<close> as the clustering code uses it: a record of
  operations over a state \<open>'w\<close> that stands for the connections and the Redis servers behind them.
  A Go method that changes the \<open>*Node\<close> it is given returns the changed node. The clustering
  functions take such a record, and so hold for every implementation of the interface; the
  operator's own implementation is in theory \<open>Admin\<close>.
\<close>

record 'w IAdmin =
  GetHashMaxSlot :: Slot
  adm_AddSlots :: "string \<Rightarrow> Slot list \<Rightarrow> 'w \<Rightarrow> goerr option \<times> 'w"
  adm_SetSlots :: "string \<Rightarrow> string \<Rightarrow> Slot list \<Rightarrow> string \<Rightarrow> 'w \<Rightarrow> goerr option \<times> 'w"
  adm_SetSlot :: "string \<Rightarrow> string \<Rightarrow> Slot \<Rightarrow> string \<Rightarrow> 'w \<Rightarrow> goerr option \<times> 'w"
  adm_MigrateKeys :: "string \<Rightarrow> Node \<Rightarrow> Slot list \<Rightarrow> int \<Rightarrow> int \<Rightarrow> bool \<Rightarrow> 'w \<Rightarrow> (int \<times> goerr option) \<times> 'w"
  adm_MigrateKeysInSlot :: "string \<Rightarrow> Node \<Rightarrow> Slot \<Rightarrow> int \<Rightarrow> int \<Rightarrow> bool \<Rightarrow> 'w \<Rightarrow> (int \<times> goerr option) \<times> 'w"
  adm_AttachSlaveToMaster :: "Node \<Rightarrow> string \<Rightarrow> 'w \<Rightarrow> (Node \<times> goerr option) \<times> 'w"
  adm_ForgetNode :: "string \<Rightarrow> 'w \<Rightarrow> goerr option \<times> 'w"

text \<open>The contract the clustering code needs from \<open>AttachSlaveToMaster\<close>: it touches only the role
  and the master reference of the node, and on success the node is a slave of the given master.\<close>

locale slave_attacher =
  fixes adm :: "('w, 'm) IAdmin_scheme"
  assumes attach_frame: "adm_AttachSlaveToMaster adm n m w = ((n', err), w') \<Longrightarrow>
      n' = n\<lparr>Role := Role n', MasterReferent := MasterReferent n'\<rparr>"
    and attach_ok: "adm_AttachSlaveToMaster adm n m w = ((n', None), w') \<Longrightarrow>
      Role n' = RedisSlaveRole \<and> (m \<noteq> ''-'' \<longrightarrow> MasterReferent n' = m)"
    and attach_err: "adm_AttachSlaveToMaster adm n m w = ((n', Some e), w') \<Longrightarrow> n' = n"
begin

lemma attach_slots:
  assumes "adm_AttachSlaveToMaster adm n m w = ((n', err), w')"
  shows "Slots n' = Slots n \<and> ID n' = ID n \<and> IPPort n' = IPPort n"
  by (subst (1 2 3) attach_frame [OF assms]) (simp add: IPPort_def)

lemma attach_is_slave:
  "adm_AttachSlaveToMaster adm n m w = ((n', None), w') \<Longrightarrow> IsSlave n'"
  using attach_ok by (fastforce simp: IsSlave_def GetRole_def role_defs)

end

text \<open>An implementation that records the calls and always succeeds: the effect on the node is the
  documented one, and the state is the trace of what was asked.\<close>

datatype admin_call =
    CallAddSlots string "Slot list"
  | CallSetSlots string string "Slot list" string
  | CallSetSlot string string Slot string
  | CallMigrateKeys string string "Slot list"
  | CallMigrateKeysInSlot string string Slot
  | CallAttach string string
  | CallForget string

definition recording_admin :: "Slot \<Rightarrow> (admin_call list) IAdmin" where
  "recording_admin maxslot = \<lparr>GetHashMaxSlot = maxslot,
     adm_AddSlots = (\<lambda>addr slots w. (None, w @ [CallAddSlots addr slots])),
     adm_SetSlots = (\<lambda>addr action slots ident w. (None, w @ [CallSetSlots addr action slots ident])),
     adm_SetSlot = (\<lambda>addr action slot ident w. (None, w @ [CallSetSlot addr action slot ident])),
     adm_MigrateKeys = (\<lambda>addr dest slots b t r w. ((0, None), w @ [CallMigrateKeys addr (ID dest) slots])),
     adm_MigrateKeysInSlot = (\<lambda>addr dest slot b t r w. ((0, None), w @ [CallMigrateKeysInSlot addr (ID dest) slot])),
     adm_AttachSlaveToMaster = (\<lambda>n m w. ((fst (SetRole RedisSlaveRole (SetReferentMaster m n)), None),
                                          w @ [CallAttach (IPPort n) m])),
     adm_ForgetNode = (\<lambda>ident w. (None, w @ [CallForget ident]))\<rparr>"

lemma SetRole_slave [simp]: "fst (SetRole RedisSlaveRole n) = n\<lparr>Role := RedisSlaveRole\<rparr>"
  by (simp add: SetRole_def role_defs)

interpretation recorder: slave_attacher "recording_admin maxslot"
  for maxslot
  by unfold_locales (auto simp: recording_admin_def SetReferentMaster_def)

end
