(* ===== verification/PlacementV2.thy ===== *)
theory PlacementV2
  imports AdminApi
begin

text \<open>
  \<open>pkg/controller/clustering/placement_v2.go\<close> and \<open>roles.go\<close>: the clustering context \<open>Ctx\<close>, the
  choice of one master per StatefulSet, the assignment of the other nodes as its slaves, and
  the calls that attach them.
\<close>

definition unknownVMName :: string where "unknownVMName = ''unknown''"

text \<open>\<open>fmt.Sprintf("drc-%s-%d", clusterName, i)\<close>; the indices are never negative.\<close>

definition ClusterStatefulSetName :: "string \<Rightarrow> nat \<Rightarrow> string" where
  "ClusterStatefulSetName clusterName i = ''drc-'' @ clusterName @ ''-'' @ FormatUint i"

record Ctx =
  expectedMasterNum :: int
  clusterName :: string
  ctx_cluster :: Cluster
  ctx_nodes :: "(string, Nodes) gomap"
  currentMasters :: Nodes
  newMastersBySts :: "(string, nref) gomap"
  slavesByMaster :: "(string, Nodes) gomap"
  bestEffort :: bool

section \<open>Operations\<close>

fun sortRedisNodeByStatefulSet ::
  "nheap \<Rightarrow> Ctx \<Rightarrow> (string, Nodes) gomap \<Rightarrow> Nodes \<Rightarrow> (string, Nodes) gomap \<times> Ctx" where
  "sortRedisNodeByStatefulSet h c nodesByStatefulSet [] = (nodesByStatefulSet, c)"
| "sortRedisNodeByStatefulSet h c nodesByStatefulSet (rNode # nodes) =
     (case Cluster_GetNodeByID (ctx_cluster c) (ID (h rNode)) of
        Inl err \<Rightarrow> sortRedisNodeByStatefulSet h c nodesByStatefulSet nodes
      | Inr cNode \<Rightarrow>
          let ssName = (if StatefulSet (h cNode) \<noteq> [] then StatefulSet (h cNode) else unknownVMName);
              m = (if map_of nodesByStatefulSet ssName = None then mput ssName [] nodesByStatefulSet
                   else nodesByStatefulSet);
              m = mappend ssName [rNode] m;
              c = (if GetRole (h rNode) = RedisClusterNodeRoleMaster \<and> TotalSlots (h rNode) > 0
                   then c\<lparr>currentMasters := currentMasters c @ [rNode]\<rparr> else c)
          in sortRedisNodeByStatefulSet h c m nodes)"

definition NewCtx :: "nheap \<Rightarrow> Cluster \<Rightarrow> Nodes \<Rightarrow> int \<Rightarrow> string \<Rightarrow> Ctx" where
  "NewCtx h cluster nodes masterNum name =
     (let c = \<lparr>expectedMasterNum = masterNum, clusterName = name, ctx_cluster = cluster,
               ctx_nodes = [], currentMasters = [], newMastersBySts = [], slavesByMaster = [],
               bestEffort = False\<rparr>;
          (m, c) = sortRedisNodeByStatefulSet h c [] nodes
      in c\<lparr>ctx_nodes := m\<rparr>)"

text \<open>The loop over the StatefulSet's nodes in \<open>PlaceMasters\<close>: the first node whose VM hosts none
  of the masters.\<close>

fun first_on_free_vm :: "nheap \<Rightarrow> Nodes \<Rightarrow> Nodes \<Rightarrow> nref option" where
  "first_on_free_vm h allMasters [] = None"
| "first_on_free_vm h allMasters (cNode # nodes) =
     (case GetNodesByFunc (\<lambda>node. NodeName node = NodeName (h cNode)) h allMasters of
        (_, Some err) \<Rightarrow> Some cNode
      | (_, None) \<Rightarrow> first_on_free_vm h allMasters nodes)"

definition Ctx_PlaceMasters :: "go_env \<Rightarrow> nheap \<Rightarrow> string \<Rightarrow> Ctx \<Rightarrow> (nref \<times> Ctx) outcome" where
  "Ctx_PlaceMasters env h ssName c =
     (let allMasters = currentMasters c @ map snd (mrange env 0 (newMastersBySts c));
          nodes = mget [] (ctx_nodes c) ssName
      in case first_on_free_vm h allMasters nodes of
           Some cNode \<Rightarrow> Ret (cNode, c)
         | None \<Rightarrow> outcome_bind (go_index nodes 0) (\<lambda>n. Ret (n, c\<lparr>bestEffort := True\<rparr>)))"

fun Ctx_DispatchMasters_loop :: "go_env \<Rightarrow> nheap \<Rightarrow> nat list \<Rightarrow> Ctx \<Rightarrow> (Ctx \<times> goerr option) outcome" where
  "Ctx_DispatchMasters_loop env h [] c = Ret (c, None)"
| "Ctx_DispatchMasters_loop env h (i # is) c =
     (let stsName = ClusterStatefulSetName (clusterName c) i in
      case map_of (ctx_nodes c) stsName of
        None \<Rightarrow> Ret (c, Some (Errorf (''missing statefulset '' @ stsName)))
      | Some nodes \<Rightarrow>
          let currentMasterNodes = FilterByFunc IsMasterWithSlot h nodes in
          if length currentMasterNodes = 0 then
            outcome_bind (Ctx_PlaceMasters env h stsName c) (\<lambda>(master, c).
              Ctx_DispatchMasters_loop env h is
                (c\<lparr>newMastersBySts := mput stsName master (newMastersBySts c)\<rparr>))
          else if length currentMasterNodes = 1 then
            Ctx_DispatchMasters_loop env h is
              (c\<lparr>newMastersBySts := mput stsName (currentMasterNodes ! 0) (newMastersBySts c)\<rparr>)
          else Ret (c, Some (Errorf (''split brain: '' @ stsName))))"

definition Ctx_DispatchMasters :: "go_env \<Rightarrow> nheap \<Rightarrow> Ctx \<Rightarrow> (Ctx \<times> goerr option) outcome" where
  "Ctx_DispatchMasters env h c = Ctx_DispatchMasters_loop env h [0..<nat (expectedMasterNum c)] c"

text \<open>The two loops of \<open>PlaceSlaves\<close>. The master of a StatefulSet is looked up in a map of
  pointers, so it is \<open>nil\<close> for a StatefulSet without a new master, and the first node of that
  StatefulSet dereferences it.\<close>

fun PlaceSlaves_nodes :: "nheap \<Rightarrow> nref option \<Rightarrow> Nodes \<Rightarrow> Ctx \<Rightarrow> Ctx outcome" where
  "PlaceSlaves_nodes h master [] c = Ret c"
| "PlaceSlaves_nodes h None (node # nodes) c = Panic NilDereference"
| "PlaceSlaves_nodes h (Some m) (node # nodes) c =
     (if IP (h node) = IP (h m) then PlaceSlaves_nodes h (Some m) nodes c
      else
        let c = (if NodeName (h node) \<noteq> NodeName (h m) then c\<lparr>bestEffort := False\<rparr> else c);
            attach = c\<lparr>slavesByMaster := mappend (ID (h m)) [node] (slavesByMaster c)\<rparr>
        in if GetRole (h node) = RedisClusterNodeRoleSlave
           then PlaceSlaves_nodes h (Some m) nodes
                  (if MasterReferent (h node) \<noteq> ID (h m) then attach else c)
           else PlaceSlaves_nodes h (Some m) nodes attach)"

fun PlaceSlaves_sts :: "nheap \<Rightarrow> (string \<times> Nodes) list \<Rightarrow> Ctx \<Rightarrow> Ctx outcome" where
  "PlaceSlaves_sts h [] c = Ret c"
| "PlaceSlaves_sts h ((ssName, nodes) # m) c =
     outcome_bind (PlaceSlaves_nodes h (map_of (newMastersBySts c) ssName) nodes c) (PlaceSlaves_sts h m)"

definition Ctx_PlaceSlaves :: "go_env \<Rightarrow> nheap \<Rightarrow> Ctx \<Rightarrow> Ctx outcome" where
  "Ctx_PlaceSlaves env h c = PlaceSlaves_sts h (mrange env 1 (ctx_nodes c)) (c\<lparr>bestEffort := True\<rparr>)"

definition GetCurrentMasters :: "Ctx \<Rightarrow> Nodes" where
  "GetCurrentMasters c = currentMasters c"

definition GetNewMasters :: "go_env \<Rightarrow> Ctx \<Rightarrow> Nodes" where
  "GetNewMasters env c = map snd (mrange env 2 (newMastersBySts c))"

definition GetSlaves :: "Ctx \<Rightarrow> (string, Nodes) gomap" where
  "GetSlaves c = slavesByMaster c"

definition GetStatefulsetNodes :: "Ctx \<Rightarrow> (string, Nodes) gomap" where
  "GetStatefulsetNodes c = ctx_nodes c"

text \<open>\<open>roles.go\<close>: every slave is attached even when an earlier call failed; the last error is
  returned.\<close>

fun attach_slaves :: "('w, 'm) IAdmin_scheme \<Rightarrow> string \<Rightarrow> Nodes \<Rightarrow> nheap \<Rightarrow> 'w \<Rightarrow> goerr option
    \<Rightarrow> goerr option \<times> nheap \<times> 'w" where
  "attach_slaves adm masterID [] h w globalErr = (globalErr, h, w)"
| "attach_slaves adm masterID (slave # slaves) h w globalErr =
     (let ((n, err), w) = adm_AttachSlaveToMaster adm (h slave) masterID w
      in attach_slaves adm masterID slaves (h(slave := n)) w
           (case err of None \<Rightarrow> globalErr | Some e \<Rightarrow> Some e))"

fun AttachingSlavesToMaster_loop :: "('w, 'm) IAdmin_scheme \<Rightarrow> Cluster \<Rightarrow> (string \<times> Nodes) list
    \<Rightarrow> nheap \<Rightarrow> 'w \<Rightarrow> goerr option \<Rightarrow> goerr option \<times> nheap \<times> 'w" where
  "AttachingSlavesToMaster_loop adm cl [] h w globalErr = (globalErr, h, w)"
| "AttachingSlavesToMaster_loop adm cl ((masterID, slaves) # m) h w globalErr =
     (case Cluster_GetNodeByID cl masterID of
        Inl err \<Rightarrow> AttachingSlavesToMaster_loop adm cl m h w globalErr
      | Inr masterNode \<Rightarrow>
          let (globalErr, h, w) = attach_slaves adm (ID (h masterNode)) slaves h w globalErr
          in AttachingSlavesToMaster_loop adm cl m h w globalErr)"

definition AttachingSlavesToMaster ::
  "go_env \<Rightarrow> ('w, 'm) IAdmin_scheme \<Rightarrow> Ctx \<Rightarrow> nheap \<Rightarrow> 'w \<Rightarrow> goerr option \<times> nheap \<times> 'w" where
  "AttachingSlavesToMaster env adm c h w =
     AttachingSlavesToMaster_loop adm (ctx_cluster c) (mrange env 3 (slavesByMaster c)) h w None"

section \<open>The context built from the cluster view\<close>

text \<open>The StatefulSet under which a node is filed; \<open>None\<close> for a node the cluster does not know.\<close>

definition sts_of :: "nheap \<Rightarrow> Cluster \<Rightarrow> nref \<Rightarrow> string option" where
  "sts_of h cl r = (case Cluster_GetNodeByID cl (ID (h r)) of Inl _ \<Rightarrow> None
     | Inr q \<Rightarrow> Some (if StatefulSet (h q) \<noteq> [] then StatefulSet (h q) else unknownVMName))"

lemma IsMasterWithSlot_alt:
  "(GetRole n = RedisClusterNodeRoleMaster \<and> TotalSlots n > 0) = IsMasterWithSlot n"
  by (simp add: IsMasterWithSlot_def)

lemma map_of_mappend:
  "map_of (mappend k xs m) = (map_of m)(k \<mapsto> mget [] m k @ xs)"
  by (simp add: mappend_def)

lemma sortRedisNodeByStatefulSet_ok:
  assumes "sortRedisNodeByStatefulSet h c m ns = (m', c')"
  shows "c' = c\<lparr>currentMasters := currentMasters c @
           filter (\<lambda>r. sts_of h (ctx_cluster c) r \<noteq> None \<and> IsMasterWithSlot (h r)) ns\<rparr>
    \<and> (\<forall>k. mget [] m' k = mget [] m k @ filter (\<lambda>r. sts_of h (ctx_cluster c) r = Some k) ns)
    \<and> (\<forall>k. map_of m' k = None \<longleftrightarrow> map_of m k = None \<and> k \<notin> {k. \<exists>r\<in>set ns. sts_of h (ctx_cluster c) r = Some k})
    \<and> (wf_map m \<longrightarrow> wf_map m')"
  using assms
proof (induction ns arbitrary: c m)
  case Nil
  then show ?case by auto
next
  case (Cons r ns)
  show ?case
  proof (cases "Cluster_GetNodeByID (ctx_cluster c) (ID (h r))")
    case (Inl e)
    then have "sts_of h (ctx_cluster c) r = None" by (simp add: sts_of_def)
    with Inl Cons.IH [of c m] Cons.prems show ?thesis by simp
  next
    case (Inr q)
    define k where "k = (if StatefulSet (h q) \<noteq> [] then StatefulSet (h q) else unknownVMName)"
    define m1 where "m1 = mappend k [r] (if map_of m k = None then mput k [] m else m)"
    define c1 where "c1 = (if IsMasterWithSlot (h r) then c\<lparr>currentMasters := currentMasters c @ [r]\<rparr> else c)"
    have sts: "sts_of h (ctx_cluster c) r = Some k" by (simp add: sts_of_def Inr k_def)
    have "sortRedisNodeByStatefulSet h c1 m1 ns = (m', c')"
      using Cons.prems unfolding sortRedisNodeByStatefulSet.simps Inr sum.case Let_def
        IsMasterWithSlot_alt k_def m1_def c1_def .
    note IH = Cons.IH [OF this]
    have cl: "ctx_cluster c1 = ctx_cluster c" by (simp add: c1_def)
    have "mget [] m1 k' = mget [] m k' @ (if k' = k then [r] else [])" for k'
      by (auto simp: m1_def mget_def map_of_mappend)
    moreover have "map_of m1 k' = None \<longleftrightarrow> map_of m k' = None \<and> k' \<noteq> k" for k'
      by (auto simp: m1_def map_of_mappend)
    moreover have "wf_map m \<Longrightarrow> wf_map m1"
      by (auto simp: m1_def)
    ultimately show ?thesis
      using IH sts unfolding cl by (auto simp: c1_def)
  qed
qed

text \<open>Every known node is filed once, in the order given, under its StatefulSet; no StatefulSet
  has an empty list; the current masters are the known nodes that own slots.\<close>

lemma NewCtx_spec:
  fixes h cl ns n name
  defines "c \<equiv> NewCtx h cl ns n name"
  shows "expectedMasterNum c = n" "clusterName c = name" "ctx_cluster c = cl"
    "newMastersBySts c = []" "slavesByMaster c = []" "\<not> bestEffort c"
    "currentMasters c = filter (\<lambda>r. sts_of h cl r \<noteq> None \<and> IsMasterWithSlot (h r)) ns"
    "wf_map (ctx_nodes c)"
    "mget [] (ctx_nodes c) k = filter (\<lambda>r. sts_of h cl r = Some k) ns"
    "map_of (ctx_nodes c) k = None \<longleftrightarrow> (\<forall>r\<in>set ns. sts_of h cl r \<noteq> Some k)"
proof -
  define c0 where "c0 = \<lparr>expectedMasterNum = n, clusterName = name, ctx_cluster = cl,
    ctx_nodes = [], currentMasters = [], newMastersBySts = [], slavesByMaster = [], bestEffort = False\<rparr>"
  obtain m c1 where mc: "sortRedisNodeByStatefulSet h c0 [] ns = (m, c1)" by fastforce
  then have "c = c1\<lparr>ctx_nodes := m\<rparr>"
    by (simp add: c_def NewCtx_def c0_def)
  with sortRedisNodeByStatefulSet_ok [OF mc]
  show "expectedMasterNum c = n" "clusterName c = name" "ctx_cluster c = cl"
    "newMastersBySts c = []" "slavesByMaster c = []" "\<not> bestEffort c"
    "currentMasters c = filter (\<lambda>r. sts_of h cl r \<noteq> None \<and> IsMasterWithSlot (h r)) ns"
    "wf_map (ctx_nodes c)"
    "mget [] (ctx_nodes c) k = filter (\<lambda>r. sts_of h cl r = Some k) ns"
    "map_of (ctx_nodes c) k = None \<longleftrightarrow> (\<forall>r\<in>set ns. sts_of h cl r \<noteq> Some k)"
    by (simp_all add: c0_def)
qed

text \<open>What the later operations assume of a context: StatefulSets have nodes, and every
  slot-owning master they hold is a current master.\<close>

definition ctx_ok :: "nheap \<Rightarrow> Ctx \<Rightarrow> bool" where
  "ctx_ok h c \<longleftrightarrow> wf_map (ctx_nodes c) \<and> (\<forall>k ns. map_of (ctx_nodes c) k = Some ns \<longrightarrow> ns \<noteq> [])
     \<and> (\<forall>k. \<forall>r\<in>set (mget [] (ctx_nodes c) k). IsMasterWithSlot (h r) \<longrightarrow> r \<in> set (currentMasters c))"

lemma ctx_ok_NewCtx: "ctx_ok h (NewCtx h cl ns n name)"
proof -
  have "ms \<noteq> []" if "map_of (ctx_nodes (NewCtx h cl ns n name)) k = Some ms" for k ms
  proof -
    have "ms = filter (\<lambda>r. sts_of h cl r = Some k) ns"
      using that NewCtx_spec(9) [of h cl ns n name k] by (simp add: mget_def)
    moreover have "\<not> (\<forall>r\<in>set ns. sts_of h cl r \<noteq> Some k)"
      using that NewCtx_spec(10) [of h cl ns n name k] by auto
    ultimately show ?thesis by (auto simp: filter_empty_conv)
  qed
  then show ?thesis by (auto simp: ctx_ok_def NewCtx_spec)
qed

section \<open>The choice of masters\<close>

lemma ClusterStatefulSetName_inj [simp]:
  "ClusterStatefulSetName name i = ClusterStatefulSetName name j \<longleftrightarrow> i = j"
  by (simp add: ClusterStatefulSetName_def)

lemma first_on_free_vm_Some:
  "first_on_free_vm h ms ns = Some r \<Longrightarrow> r \<in> set ns \<and> NodeName (h r) \<notin> (\<lambda>q. NodeName (h q)) ` set ms"
  by (induction ns) (auto simp: GetNodesByFunc_def Let_def filter_empty_conv split: if_splits)

text \<open>\<open>PlaceMasters\<close> on a StatefulSet with nodes returns one of them; it leaves the context alone
  but for \<open>bestEffort\<close>, and while that is not set the node's VM hosts no other master.\<close>

lemma Ctx_PlaceMasters_ok:
  assumes "mget [] (ctx_nodes c) ss \<noteq> []"
  obtains r b where "Ctx_PlaceMasters env h ss c = Ret (r, c\<lparr>bestEffort := b\<rparr>)"
    and "r \<in> set (mget [] (ctx_nodes c) ss)"
    and "bestEffort c \<Longrightarrow> b"
    and "\<not> b \<Longrightarrow> NodeName (h r) \<notin> (\<lambda>q. NodeName (h q)) `
           (set (currentMasters c) \<union> snd ` set (mrange env 0 (newMastersBySts c)))"
proof (cases "first_on_free_vm h (currentMasters c @ map snd (mrange env 0 (newMastersBySts c)))
    (mget [] (ctx_nodes c) ss)")
  case None
  have "Ctx_PlaceMasters env h ss c = Ret (mget [] (ctx_nodes c) ss ! 0, c\<lparr>bestEffort := True\<rparr>)"
    using assms None by (simp add: Ctx_PlaceMasters_def Let_def go_index_def)
  then show ?thesis
    by (rule that) (use assms in simp_all)
next
  case (Some r)
  have "Ctx_PlaceMasters env h ss c = Ret (r, c\<lparr>bestEffort := bestEffort c\<rparr>)"
    using Some by (simp add: Ctx_PlaceMasters_def Let_def)
  then show ?thesis
    by (rule that) (use first_on_free_vm_Some [OF Some] in auto)
qed

text \<open>A StatefulSet can be given a master when it exists and at most one of its nodes owns slots.\<close>

definition sts_good :: "nheap \<Rightarrow> Ctx \<Rightarrow> nat \<Rightarrow> bool" where
  "sts_good h c i \<longleftrightarrow> (\<exists>ns. map_of (ctx_nodes c) (ClusterStatefulSetName (clusterName c) i) = Some ns
     \<and> length (FilterByFunc IsMasterWithSlot h ns) \<le> 1)"

text \<open>The master it may be given: one of its nodes, and the slot owner if there is one.\<close>

definition master_for :: "nheap \<Rightarrow> Ctx \<Rightarrow> string \<Rightarrow> nref \<Rightarrow> bool" where
  "master_for h c ss r \<longleftrightarrow> r \<in> set (mget [] (ctx_nodes c) ss)
     \<and> (\<forall>q\<in>set (mget [] (ctx_nodes c) ss). IsMasterWithSlot (h q) \<longrightarrow> q = r)"

text \<open>One pass of the loop, with the error cases.\<close>

lemma DispatchMasters_step:
  assumes "ctx_ok h c" and ss: "ss = ClusterStatefulSetName (clusterName c) i"
  shows "(\<exists>r b. sts_good h c i \<and> master_for h c ss r \<and> (bestEffort c \<longrightarrow> b)
           \<and> (\<not> b \<longrightarrow> (\<forall>q\<in>set (mget [] (ctx_nodes c) ss). \<not> IsMasterWithSlot (h q)) \<longrightarrow>
                NodeName (h r) \<notin> (\<lambda>q. NodeName (h q)) `
                  (set (currentMasters c) \<union> snd ` set (mrange env 0 (newMastersBySts c))))
           \<and> Ctx_DispatchMasters_loop env h (i # is) c
             = Ctx_DispatchMasters_loop env h is
                 (c\<lparr>bestEffort := b, newMastersBySts := mput ss r (newMastersBySts c)\<rparr>))
       \<or> (\<exists>e. \<not> sts_good h c i \<and> Ctx_DispatchMasters_loop env h (i # is) c = Ret (c, Some e))"
proof (cases "map_of (ctx_nodes c) ss")
  case None
  then show ?thesis by (simp add: ss sts_good_def Let_def)
next
  case (Some ns)
  then have ns: "mget [] (ctx_nodes c) ss = ns" and ne: "ns \<noteq> []"
    using assms(1) by (auto simp: mget_def ctx_ok_def)
  let ?cm = "filter (\<lambda>r. IsMasterWithSlot (h r)) ns"
  consider (none) "?cm = []" | (one) q where "?cm = [q]" | (many) "length ?cm > 1"
    by (cases ?cm; cases "tl ?cm") auto
  then show ?thesis
  proof cases
    case none
    from ne ns obtain r b where rb: "Ctx_PlaceMasters env h ss c = Ret (r, c\<lparr>bestEffort := b\<rparr>)"
      "r \<in> set ns" "bestEffort c \<Longrightarrow> b"
      "\<not> b \<Longrightarrow> NodeName (h r) \<notin> (\<lambda>q. NodeName (h q)) `
           (set (currentMasters c) \<union> snd ` set (mrange env 0 (newMastersBySts c)))"
      using Ctx_PlaceMasters_ok [of c ss env h] by metis
    have "sts_good h c i" and "master_for h c ss r"
      using none Some rb(2) ns by (auto simp: sts_good_def ss master_for_def filter_empty_conv)
    moreover have "Ctx_DispatchMasters_loop env h (i # is) c = Ctx_DispatchMasters_loop env h is
        (c\<lparr>bestEffort := b, newMastersBySts := mput ss r (newMastersBySts c)\<rparr>)"
      using Some none rb(1) by (simp add: ss Let_def)
    ultimately show ?thesis using rb(3,4) by blast
  next
    case (one q)
    have "p \<in> set ns \<and> IsMasterWithSlot (h p) \<longleftrightarrow> p = q" for p
      using arg_cong [OF one, of "\<lambda>xs. p \<in> set xs"] by simp
    then have q: "q \<in> set ns" "IsMasterWithSlot (h q)" "\<forall>p\<in>set ns. IsMasterWithSlot (h p) \<longrightarrow> p = q"
      by blast+
    have "sts_good h c i"
      unfolding sts_good_def using Some one by (intro exI [of _ ns]) (simp add: ss)
    moreover have "master_for h c ss q"
      unfolding master_for_def ns using q by blast
    moreover have "Ctx_DispatchMasters_loop env h (i # is) c = Ctx_DispatchMasters_loop env h is
        (c\<lparr>bestEffort := bestEffort c, newMastersBySts := mput ss q (newMastersBySts c)\<rparr>)"
      using Some one by (simp add: ss Let_def)
    ultimately show ?thesis using q ns by blast
  next
    case many
    then show ?thesis using Some by (auto simp: ss sts_good_def Let_def)
  qed
qed

lemma ctx_ok_update [simp]:
  "ctx_ok h (c\<lparr>newMastersBySts := m\<rparr>) = ctx_ok h c" "ctx_ok h (c\<lparr>bestEffort := b\<rparr>) = ctx_ok h c"
  "sts_good h (c\<lparr>newMastersBySts := m\<rparr>) = sts_good h c" "sts_good h (c\<lparr>bestEffort := b\<rparr>) = sts_good h c"
  "master_for h (c\<lparr>newMastersBySts := m\<rparr>) = master_for h c" "master_for h (c\<lparr>bestEffort := b\<rparr>) = master_for h c"
  by (auto simp: ctx_ok_def sts_good_def master_for_def fun_eq_iff)

text \<open>What the loop over the indices \<open>is\<close> adds to the map of new masters.\<close>

definition dispatched :: "nheap \<Rightarrow> Ctx \<Rightarrow> nat list \<Rightarrow> (string, nref) gomap \<Rightarrow> bool" where
  "dispatched h c is nm \<longleftrightarrow>
     (\<forall>i\<in>set is. \<exists>r. map_of nm (ClusterStatefulSetName (clusterName c) i) = Some r
        \<and> master_for h c (ClusterStatefulSetName (clusterName c) i) r)
     \<and> (\<forall>k. k \<notin> ClusterStatefulSetName (clusterName c) ` set is \<longrightarrow> map_of nm k = map_of (newMastersBySts c) k)"

lemma dispatched_Cons:
  assumes "master_for h c ss r" and "ss = ClusterStatefulSetName (clusterName c) i" and "i \<notin> set is"
    and "dispatched h (c\<lparr>bestEffort := b, newMastersBySts := mput ss r (newMastersBySts c)\<rparr>) is nm"
  shows "dispatched h c (i # is) nm"
proof -
  have "ss \<notin> ClusterStatefulSetName (clusterName c) ` set is"
    using assms(2,3) by auto
  with assms show ?thesis by (auto simp: dispatched_def)
qed

lemma DispatchMasters_loop_ok:
  assumes "ctx_ok h c" and "distinct is"
  obtains nm b e where
    "Ctx_DispatchMasters_loop env h is c = Ret (c\<lparr>newMastersBySts := nm, bestEffort := b\<rparr>, e)"
    and "e = None \<longleftrightarrow> (\<forall>i\<in>set is. sts_good h c i)"
    and "e = None \<Longrightarrow> dispatched h c is nm"
    and "wf_map (newMastersBySts c) \<Longrightarrow> wf_map nm"
    and "bestEffort c \<Longrightarrow> b"
  using assms
proof (induction "is" arbitrary: c thesis)
  case Nil
  show ?case
    by (rule Nil.prems(1) [of "bestEffort c" "newMastersBySts c" None]) (simp_all add: dispatched_def)
next
  case (Cons i "is")
  let ?ss = "ClusterStatefulSetName (clusterName c) i"
  from DispatchMasters_step [OF Cons.prems(2) refl, of i env "is"] show ?case
  proof (elim disjE exE conjE)
    fix r b
    let ?c = "c\<lparr>bestEffort := b, newMastersBySts := mput ?ss r (newMastersBySts c)\<rparr>"
    assume r: "sts_good h c i" "master_for h c ?ss r" and b: "bestEffort c \<longrightarrow> b"
      and loop: "Ctx_DispatchMasters_loop env h (i # is) c = Ctx_DispatchMasters_loop env h is ?c"
    have ok: "ctx_ok h ?c" "distinct is" using Cons.prems by simp_all
    show ?thesis
    proof (rule Cons.IH [OF _ ok])
      fix nm b' e
      assume IH: "Ctx_DispatchMasters_loop env h is ?c = Ret (?c\<lparr>newMastersBySts := nm, bestEffort := b'\<rparr>, e)"
        "e = None \<longleftrightarrow> (\<forall>i\<in>set is. sts_good h ?c i)" "e = None \<Longrightarrow> dispatched h ?c is nm"
        "wf_map (newMastersBySts ?c) \<Longrightarrow> wf_map nm" "bestEffort ?c \<Longrightarrow> b'"
      show ?thesis
      proof (rule Cons.prems(1))
        show "Ctx_DispatchMasters_loop env h (i # is) c = Ret (c\<lparr>newMastersBySts := nm, bestEffort := b'\<rparr>, e)"
          using loop IH(1) by simp
        show "e = None \<longleftrightarrow> (\<forall>j\<in>set (i # is). sts_good h c j)" using IH(2) r by simp
        show "dispatched h c (i # is) nm" if "e = None"
          using dispatched_Cons [OF r(2) refl _ IH(3) [OF that]] Cons.prems(3) by simp
      qed (use IH(4,5) b in simp_all)
    qed
  next
    fix e
    assume "\<not> sts_good h c i" "Ctx_DispatchMasters_loop env h (i # is) c = Ret (c, Some e)"
    then show ?thesis
      by (intro Cons.prems(1) [of "bestEffort c" "newMastersBySts c" "Some e"]) simp_all
  qed
qed

lemma DispatchMasters_ok:
  fixes env h cl ns n name
  defines "c \<equiv> NewCtx h cl ns n name"
  shows "\<exists>nm b e. Ctx_DispatchMasters env h c = Ret (c\<lparr>newMastersBySts := nm, bestEffort := b\<rparr>, e)
    \<and> (e = None \<longleftrightarrow> (\<forall>i<nat n. sts_good h c i))
    \<and> (e = None \<longrightarrow> dom (map_of nm) = ClusterStatefulSetName name ` {..<nat n}
         \<and> (\<forall>ss r. map_of nm ss = Some r \<longrightarrow> master_for h c ss r))"
proof -
  have c: "clusterName c = name" "expectedMasterNum c = n" "newMastersBySts c = []"
    by (simp_all add: c_def NewCtx_spec)
  obtain nm b e where
    loop: "Ctx_DispatchMasters_loop env h [0..<nat n] c = Ret (c\<lparr>newMastersBySts := nm, bestEffort := b\<rparr>, e)"
    and err: "e = None \<longleftrightarrow> (\<forall>i\<in>set [0..<nat n]. sts_good h c i)"
    and chosen: "e = None \<Longrightarrow> dispatched h c [0..<nat n] nm"
    using DispatchMasters_loop_ok [OF ctx_ok_NewCtx [of h cl ns n name, folded c_def] distinct_upt] by metis
  have "dom (map_of nm) = ClusterStatefulSetName name ` {..<nat n}"
    and "map_of nm ss = Some r \<longrightarrow> master_for h c ss r" if "e = None" for ss r
    using chosen [OF that] unfolding dispatched_def c by (auto simp: lessThan_atLeast0)
      (metis c(3) domI map_of.simps(1) option.distinct(1) option.inject imageE)+
  with loop err show ?thesis
    unfolding Ctx_DispatchMasters_def c
    by (intro exI [of _ nm] exI [of _ b] exI [of _ e]) auto
qed

text \<open>C23. \<open>DispatchMasters\<close> on the context of any cluster view never panics and succeeds exactly
  when every expected StatefulSet exists and none of them has two slot-owning masters. On
  success the new masters are one node per expected StatefulSet and no other; a StatefulSet
  whose slots are already owned keeps their owner.\<close>

theorem DispatchMasters_correct:
  fixes env h cl ns n name
  defines "c \<equiv> NewCtx h cl ns n name"
  shows "\<exists>nm b e. Ctx_DispatchMasters env h c = Ret (c\<lparr>newMastersBySts := nm, bestEffort := b\<rparr>, e)
    \<and> (e = None \<longleftrightarrow> (\<forall>i<nat n. sts_good h c i))
    \<and> (e = None \<longrightarrow> dom (map_of nm) = ClusterStatefulSetName name ` {..<nat n}
         \<and> (\<forall>ss r. map_of nm ss = Some r \<longrightarrow> master_for h c ss r))"
  unfolding c_def by (rule DispatchMasters_ok)

section \<open>Masters on different VMs\<close>

definition fresh_sts :: "nheap \<Rightarrow> Ctx \<Rightarrow> string \<Rightarrow> bool" where
  "fresh_sts h c ss \<longleftrightarrow> (\<forall>q\<in>set (mget [] (ctx_nodes c) ss). \<not> IsMasterWithSlot (h q))"

text \<open>The invariant of the dispatch loop while \<open>bestEffort\<close> is not set.\<close>

definition spread :: "nheap \<Rightarrow> Ctx \<Rightarrow> bool" where
  "spread h c \<longleftrightarrow>
     (\<forall>k r. map_of (newMastersBySts c) k = Some r \<longrightarrow>
        (if fresh_sts h c k then NodeName (h r) \<notin> (\<lambda>q. NodeName (h q)) ` set (currentMasters c)
         else r \<in> set (currentMasters c)))
     \<and> (\<forall>k k' r r'. k \<noteq> k' \<longrightarrow> map_of (newMastersBySts c) k = Some r \<longrightarrow>
        map_of (newMastersBySts c) k' = Some r' \<longrightarrow> fresh_sts h c k \<longrightarrow> NodeName (h r) \<noteq> NodeName (h r'))"

lemma fresh_sts_update [simp]:
  "fresh_sts h (c\<lparr>newMastersBySts := m\<rparr>) = fresh_sts h c" "fresh_sts h (c\<lparr>bestEffort := b\<rparr>) = fresh_sts h c"
  by (auto simp: fresh_sts_def fun_eq_iff)

lemma spread_mput:
  assumes "spread h c" and "ctx_ok h c" and "master_for h c ss r"
    and vals: "snd ` set (mrange env 0 (newMastersBySts c)) = ran (map_of (newMastersBySts c))"
    and free: "fresh_sts h c ss \<Longrightarrow> NodeName (h r) \<notin> (\<lambda>q. NodeName (h q)) `
                  (set (currentMasters c) \<union> snd ` set (mrange env 0 (newMastersBySts c)))"
  shows "spread h (c\<lparr>bestEffort := b, newMastersBySts := mput ss r (newMastersBySts c)\<rparr>)"
proof -
  have owner: "r \<in> set (currentMasters c)" if "\<not> fresh_sts h c ss"
    using that assms(2,3) unfolding fresh_sts_def master_for_def ctx_ok_def by metis
  have old: "NodeName (h r) \<noteq> NodeName (h q)" if "fresh_sts h c ss" "map_of (newMastersBySts c) k = Some q" for k q
    using free [OF that(1)] that(2) unfolding vals by (auto simp: ran_def)
  have new: "NodeName (h q) \<noteq> NodeName (h r)"
    if "fresh_sts h c k" "\<not> fresh_sts h c ss" "map_of (newMastersBySts c) k = Some q" for k q
    using that owner assms(1) unfolding spread_def by (metis imageI)
  show ?thesis
    using assms(1) owner old new free unfolding spread_def by (auto split: if_splits) (metis)+
qed

lemma DispatchMasters_loop_spread:
  assumes "go_runtime env" and "ctx_ok h c" and "wf_map (newMastersBySts c)"
    and "Ctx_DispatchMasters_loop env h is c = Ret (c', e)"
  shows "(bestEffort c \<longrightarrow> bestEffort c') \<and> (\<not> bestEffort c' \<longrightarrow> spread h c \<longrightarrow> spread h c')"
  using assms(2-)
proof (induction "is" arbitrary: c)
  case (Cons i "is")
  let ?ss = "ClusterStatefulSetName (clusterName c) i"
  from DispatchMasters_step [OF Cons.prems(1) refl, of i env "is"] show ?case
  proof (elim disjE exE conjE)
    fix r b
    let ?c = "c\<lparr>bestEffort := b, newMastersBySts := mput ?ss r (newMastersBySts c)\<rparr>"
    assume 1: "master_for h c ?ss r" "bestEffort c \<longrightarrow> b"
      "Ctx_DispatchMasters_loop env h (i # is) c = Ctx_DispatchMasters_loop env h is ?c"
      "\<not> b \<longrightarrow> (\<forall>q\<in>set (mget [] (ctx_nodes c) ?ss). \<not> IsMasterWithSlot (h q)) \<longrightarrow>
         NodeName (h r) \<notin> (\<lambda>q. NodeName (h q)) ` (set (currentMasters c) \<union> snd ` set (mrange env 0 (newMastersBySts c)))"
    have "(bestEffort ?c \<longrightarrow> bestEffort c') \<and> (\<not> bestEffort c' \<longrightarrow> spread h ?c \<longrightarrow> spread h c')"
      by (rule Cons.IH) (use Cons.prems 1(3) in simp_all)
    moreover have "spread h ?c" if "\<not> b" "spread h c"
      using that 1 Cons.prems go_runtime.mrange_values [OF assms(1)] by (intro spread_mput) (simp_all add: fresh_sts_def)
    ultimately show ?thesis using 1(2) by auto
  qed (use Cons.prems in auto)
qed auto

text \<open>C24. When \<open>DispatchMasters\<close> ends without raising \<open>bestEffort\<close>, every StatefulSet that had no
  slot owner got a master on a VM that hosts none of the current masters and no other new
  master: losing one VM costs at most one of the freshly placed masters. This holds whatever
  order the Go runtime ranges over the map of masters in.\<close>

theorem DispatchMasters_spread:
  fixes env h cl ns n name
  defines "c \<equiv> NewCtx h cl ns n name"
  assumes "go_runtime env" and "Ctx_DispatchMasters env h c = Ret (c', e)" and "\<not> bestEffort c'"
    and "map_of (newMastersBySts c') ss = Some r"
    and "\<forall>q\<in>set (mget [] (ctx_nodes c) ss). \<not> IsMasterWithSlot (h q)"
  shows "(\<forall>q\<in>set (currentMasters c). NodeName (h q) \<noteq> NodeName (h r))
    \<and> (\<forall>ss' r'. ss' \<noteq> ss \<longrightarrow> map_of (newMastersBySts c') ss' = Some r' \<longrightarrow> NodeName (h r') \<noteq> NodeName (h r))"
proof -
  have ok: "ctx_ok h c" by (simp add: c_def ctx_ok_NewCtx)
  have "spread h c" and wf: "wf_map (newMastersBySts c)" and "newMastersBySts c = []"
    by (simp_all add: spread_def c_def NewCtx_spec)
  then have spread: "spread h c'"
    using DispatchMasters_loop_spread [OF assms(2) ok wf] assms(3,4)
    unfolding Ctx_DispatchMasters_def by blast
  obtain nm b e' where "Ctx_DispatchMasters env h c = Ret (c\<lparr>newMastersBySts := nm, bestEffort := b\<rparr>, e')"
    unfolding Ctx_DispatchMasters_def
    using DispatchMasters_loop_ok [OF ok distinct_upt] by metis
  then have c': "c' = c\<lparr>newMastersBySts := nm, bestEffort := b\<rparr>"
    using assms(3) by simp
  have "fresh_sts h c' ss"
    using assms(6) by (simp add: fresh_sts_def c')
  moreover have "currentMasters c' = currentMasters c"
    by (simp add: c')
  ultimately show ?thesis
    using spread assms(5) unfolding spread_def by (metis (no_types, lifting) imageI)
qed

section \<open>The choice of slaves\<close>

lemma mappend_mappend [simp]: "mappend k ys (mappend k xs m) = mappend k (xs @ ys) m"
  by (simp add: mappend_def)

text \<open>A node to be attached to the master \<open>m\<close> of its StatefulSet, and the nodes that run elsewhere.\<close>

definition to_attach :: "nheap \<Rightarrow> nref \<Rightarrow> nref \<Rightarrow> bool" where
  "to_attach h m r \<longleftrightarrow> IP (h r) \<noteq> IP (h m) \<and> \<not> (IsSlave (h r) \<and> MasterReferent (h r) = ID (h m))"

definition on_other_vm :: "nheap \<Rightarrow> nref \<Rightarrow> nref \<Rightarrow> bool" where
  "on_other_vm h m r \<longleftrightarrow> IP (h r) \<noteq> IP (h m) \<and> NodeName (h r) \<noteq> NodeName (h m)"

lemma PlaceSlaves_nodes_ok:
  "PlaceSlaves_nodes h (Some m) ns c = Ret (c\<lparr>
     bestEffort := bestEffort c \<and> (\<forall>r\<in>set ns. \<not> on_other_vm h m r),
     slavesByMaster := (if filter (to_attach h m) ns = [] then slavesByMaster c
       else mappend (ID (h m)) (filter (to_attach h m) ns) (slavesByMaster c))\<rparr>)"
proof (induction ns arbitrary: c)
  case (Cons r ns)
  show ?case
    by (cases "IP (h r) = IP (h m)"; cases "IsSlave (h r)"; cases "MasterReferent (h r) = ID (h m)";
        cases "NodeName (h r) = NodeName (h m)")
      (simp_all add: Cons.IH to_attach_def [of h m r] on_other_vm_def [of h m r] IsSlave_def [of "h r"] Let_def)
qed simp

text \<open>The slaves that one pass over the StatefulSets \<open>l\<close> files under the master id \<open>k\<close>.\<close>

definition placed :: "nheap \<Rightarrow> (string, nref) gomap \<Rightarrow> string \<Rightarrow> (string \<times> Nodes) list \<Rightarrow> Nodes" where
  "placed h nm k l = concat (map (\<lambda>(ss, ns). case map_of nm ss of None \<Rightarrow> []
     | Some m \<Rightarrow> if ID (h m) = k then filter (to_attach h m) ns else []) l)"

lemma PlaceSlaves_sts_panics:
  "\<exists>(ss, ns)\<in>set l. ns \<noteq> [] \<and> map_of (newMastersBySts c) ss = None \<Longrightarrow>
   PlaceSlaves_sts h l c = Panic NilDereference"
proof (induction l arbitrary: c)
  case (Cons p l)
  obtain ss ns where p: "p = (ss, ns)" by fastforce
  show ?case
  proof (cases "map_of (newMastersBySts c) ss")
    case None
    then show ?thesis using Cons p by (cases ns) auto
  next
    case (Some m)
    then show ?thesis using Cons p by (auto simp: PlaceSlaves_nodes_ok)
  qed
qed simp

lemma PlaceSlaves_sts_ok:
  assumes "\<forall>(ss, ns)\<in>set l. ns \<noteq> [] \<longrightarrow> map_of (newMastersBySts c) ss \<noteq> None"
  shows "\<exists>sm. PlaceSlaves_sts h l c = Ret (c\<lparr>slavesByMaster := sm,
       bestEffort := bestEffort c \<and> (\<forall>(ss, ns)\<in>set l. \<forall>m. map_of (newMastersBySts c) ss = Some m \<longrightarrow>
                        (\<forall>r\<in>set ns. \<not> on_other_vm h m r))\<rparr>)
     \<and> (\<forall>k. mget [] sm k = mget [] (slavesByMaster c) k @ placed h (newMastersBySts c) k l)"
  using assms
proof (induction l arbitrary: c)
  case Nil
  then show ?case by (intro exI [of _ "slavesByMaster c"]) (simp add: placed_def)
next
  case (Cons p l)
  obtain ss ns where p: "p = (ss, ns)" by fastforce
  show ?case
  proof (cases "map_of (newMastersBySts c) ss")
    case None
    then have "ns = []" using Cons.prems p by auto
    then show ?thesis using Cons.IH [of c] Cons.prems p None by (simp add: placed_def)
  next
    case (Some m)
    define c1 where "c1 = c\<lparr>bestEffort := bestEffort c \<and> (\<forall>r\<in>set ns. \<not> on_other_vm h m r),
       slavesByMaster := (if filter (to_attach h m) ns = [] then slavesByMaster c
         else mappend (ID (h m)) (filter (to_attach h m) ns) (slavesByMaster c))\<rparr>"
    have step: "PlaceSlaves_sts h (p # l) c = PlaceSlaves_sts h l c1"
      by (simp add: p Some PlaceSlaves_nodes_ok c1_def)
    have nm: "newMastersBySts c1 = newMastersBySts c" by (simp add: c1_def)
    have upd: "c1\<lparr>slavesByMaster := sm, bestEffort := b\<rparr> = c\<lparr>slavesByMaster := sm, bestEffort := b\<rparr>" for sm b
      by (simp add: c1_def)
    have slaves: "mget [] (slavesByMaster c1) k = mget [] (slavesByMaster c) k
        @ (if ID (h m) = k then filter (to_attach h m) ns else [])" for k
      by (auto simp: c1_def)
    obtain sm where "PlaceSlaves_sts h l c1 = Ret (c1\<lparr>slavesByMaster := sm,
       bestEffort := bestEffort c1 \<and> (\<forall>(ss, ns)\<in>set l. \<forall>m. map_of (newMastersBySts c) ss = Some m \<longrightarrow>
                        (\<forall>r\<in>set ns. \<not> on_other_vm h m r))\<rparr>)"
      "\<forall>k. mget [] sm k = mget [] (slavesByMaster c1) k @ placed h (newMastersBySts c) k l"
      using Cons.IH [of c1, unfolded nm] Cons.prems by auto
    then show ?thesis
      unfolding step upd
      by (intro exI [of _ sm]) (auto simp: slaves placed_def p Some c1_def)
  qed
qed

lemma placed_unique:
  assumes "\<And>ss' m'. map_of nm ss' = Some m' \<Longrightarrow> ID (h m') = ID (h m) \<Longrightarrow> ss' = ss"
    and "map_of nm ss = Some m" and "wf_map l"
  shows "placed h nm (ID (h m)) l = filter (to_attach h m) (mget [] l ss)"
  using assms(3)
proof (induction l)
  case (Cons p l)
  obtain ss' ns where p: "p = (ss', ns)" by fastforce
  show ?case
  proof (cases "ss' = ss")
    case True
    then have "mget [] l ss = []" using Cons.prems p by simp
    with True Cons assms(2) p show ?thesis by (simp add: placed_def mget_def)
  next
    case False
    then have "map_of nm ss' = Some m' \<Longrightarrow> ID (h m') \<noteq> ID (h m)" for m'
      using assms(1) by blast
    with False Cons p show ?thesis by (auto simp: placed_def mget_def split: option.splits)
  qed
qed (simp add: placed_def)

text \<open>What placing slaves leaves alone, and the masters it files slaves under.\<close>

lemma PlaceSlaves_sts_frame:
  "PlaceSlaves_sts h l c = Ret c' \<Longrightarrow>
     ctx_cluster c' = ctx_cluster c \<and> newMastersBySts c' = newMastersBySts c \<and> (wf_map (slavesByMaster c) \<longrightarrow> wf_map (slavesByMaster c'))
     \<and> (\<forall>k. mget [] (slavesByMaster c') k = mget [] (slavesByMaster c) k @ placed h (newMastersBySts c) k l)"
proof (induction l arbitrary: c)
  case (Cons p l)
  obtain ss ns where p: "p = (ss, ns)" by fastforce
  show ?case
  proof (cases "map_of (newMastersBySts c) ss")
    case None
    then show ?thesis using Cons p by (cases ns) (auto simp: placed_def)
  next
    case (Some m)
    define c1 where "c1 = c\<lparr>bestEffort := bestEffort c \<and> (\<forall>r\<in>set ns. \<not> on_other_vm h m r),
       slavesByMaster := (if filter (to_attach h m) ns = [] then slavesByMaster c
         else mappend (ID (h m)) (filter (to_attach h m) ns) (slavesByMaster c))\<rparr>"
    have "PlaceSlaves_sts h l c1 = Ret c'" using Cons.prems by (simp add: p Some PlaceSlaves_nodes_ok c1_def)
    note IH = Cons.IH [OF this]
    have "mget [] (slavesByMaster c1) k = mget [] (slavesByMaster c) k @ (if ID (h m) = k then filter (to_attach h m) ns else [])" for k
      by (auto simp: c1_def)
    moreover have "wf_map (slavesByMaster c) \<Longrightarrow> wf_map (slavesByMaster c1)" by (simp add: c1_def mappend_def)
    moreover have "ctx_cluster c1 = ctx_cluster c" "newMastersBySts c1 = newMastersBySts c" by (simp_all add: c1_def)
    ultimately show ?thesis using IH by (auto simp: placed_def p Some)
  qed
qed (simp add: placed_def)

lemma PlaceSlaves_result:
  assumes "go_runtime env" and "ctx_ok h c" and "slavesByMaster c = []"
    and "\<forall>ss ss' m m'. map_of (newMastersBySts c) ss = Some m \<longrightarrow> map_of (newMastersBySts c) ss' = Some m'
           \<longrightarrow> ID (h m') = ID (h m) \<longrightarrow> ss' = ss"
  shows "if \<exists>ss \<in> dom (map_of (GetStatefulsetNodes c)). map_of (newMastersBySts c) ss = None
    then Ctx_PlaceSlaves env h c = Panic NilDereference
    else \<exists>c'. Ctx_PlaceSlaves env h c = Ret c'
      \<and> (\<forall>ss m. map_of (newMastersBySts c) ss = Some m \<longrightarrow>
           mget [] (GetSlaves c') (ID (h m)) = filter (to_attach h m) (mget [] (ctx_nodes c) ss))
      \<and> (bestEffort c' \<longleftrightarrow> (\<forall>ss m. map_of (newMastersBySts c) ss = Some m \<longrightarrow>
           (\<forall>r\<in>set (mget [] (ctx_nodes c) ss). \<not> on_other_vm h m r)))
      \<and> newMastersBySts c' = newMastersBySts c"
proof -
  let ?nm = "newMastersBySts c"
  define l where "l = mrange env 1 (ctx_nodes c)"
  let ?c = "c\<lparr>bestEffort := True\<rparr>"
  have wf: "wf_map (ctx_nodes c)" and ne: "map_of (ctx_nodes c) k = Some ns \<Longrightarrow> ns \<noteq> []" for k ns
    using assms(2) by (auto simp: ctx_ok_def)
  have l: "set l = set (ctx_nodes c)" "map_of l = map_of (ctx_nodes c)" "wf_map l"
    using go_runtime.mrange_set go_runtime.map_of_mrange go_runtime.mrange_distinct_keys assms(1) wf unfolding l_def by blast+
  have in_l: "(ss, ns) \<in> set l \<longleftrightarrow> map_of (ctx_nodes c) ss = Some ns" for ss ns
    unfolding l(1) using wf by simp
  show ?thesis
  proof (cases "\<exists>ss \<in> dom (map_of (ctx_nodes c)). map_of ?nm ss = None")
    case True
    then obtain ss ns where "map_of (ctx_nodes c) ss = Some ns" "map_of ?nm ss = None" by blast
    then have "\<exists>(ss, ns)\<in>set l. ns \<noteq> [] \<and> map_of (newMastersBySts ?c) ss = None"
      using ne in_l by fastforce
    then have "PlaceSlaves_sts h l ?c = Panic NilDereference"
      by (rule PlaceSlaves_sts_panics)
    with True show ?thesis by (simp add: Ctx_PlaceSlaves_def l_def GetStatefulsetNodes_def)
  next
    case False
    then have "\<forall>(ss, ns)\<in>set l. ns \<noteq> [] \<longrightarrow> map_of (newMastersBySts ?c) ss \<noteq> None"
      using in_l by fastforce
    from PlaceSlaves_sts_ok [OF this, of h] obtain sm where
      run: "PlaceSlaves_sts h l ?c = Ret (?c\<lparr>slavesByMaster := sm,
        bestEffort := (\<forall>(ss, ns)\<in>set l. \<forall>m. map_of ?nm ss = Some m \<longrightarrow> (\<forall>r\<in>set ns. \<not> on_other_vm h m r))\<rparr>)"
      and sm: "\<And>k. mget [] sm k = placed h ?nm k l"
      by (auto simp: assms(3))
    have "mget [] l ss = mget [] (ctx_nodes c) ss" for ss
      by (simp only: mget_def l)
    then have "mget [] sm (ID (h m)) = filter (to_attach h m) (mget [] (ctx_nodes c) ss)"
      if "map_of ?nm ss = Some m" for ss m
      using placed_unique [OF _ that l(3)] that assms(4) unfolding sm by metis
    moreover have "(\<forall>(ss, ns)\<in>set l. \<forall>m. map_of ?nm ss = Some m \<longrightarrow> (\<forall>r\<in>set ns. \<not> on_other_vm h m r))
      \<longleftrightarrow> (\<forall>ss m. map_of ?nm ss = Some m \<longrightarrow> (\<forall>r\<in>set (mget [] (ctx_nodes c) ss). \<not> on_other_vm h m r))"
      by (fastforce simp: in_l mget_def split: option.splits)
    ultimately show ?thesis
      using False run by (simp add: Ctx_PlaceSlaves_def l_def GetStatefulsetNodes_def GetSlaves_def)
  qed
qed

text \<open>C25. \<open>PlaceSlaves\<close> after the masters are chosen. If some StatefulSet of the view was given no
  master (as after scaling down, where the removed StatefulSets still have nodes), it
  dereferences a nil pointer. Otherwise it returns, and under each master it files exactly the
  nodes of the master's StatefulSet that are neither the master nor already its slaves, in order;
  \<open>bestEffort\<close> stays set when every replica shares the VM of its master.\<close>

theorem PlaceSlaves_correct:
  assumes "go_runtime env" and "ctx_ok h c" and "slavesByMaster c = []"
    and "\<forall>ss ss' m m'. map_of (newMastersBySts c) ss = Some m \<longrightarrow> map_of (newMastersBySts c) ss' = Some m'
           \<longrightarrow> ID (h m') = ID (h m) \<longrightarrow> ss' = ss"
  shows "if \<exists>ss \<in> dom (map_of (GetStatefulsetNodes c)). map_of (newMastersBySts c) ss = None
    then Ctx_PlaceSlaves env h c = Panic NilDereference
    else \<exists>c'. Ctx_PlaceSlaves env h c = Ret c'
      \<and> (\<forall>ss m. map_of (newMastersBySts c) ss = Some m \<longrightarrow>
           mget [] (GetSlaves c') (ID (h m)) = filter (to_attach h m) (mget [] (ctx_nodes c) ss))
      \<and> (bestEffort c' \<longleftrightarrow> (\<forall>ss m. map_of (newMastersBySts c) ss = Some m \<longrightarrow>
           (\<forall>r\<in>set (mget [] (ctx_nodes c) ss). \<not> on_other_vm h m r)))
      \<and> newMastersBySts c' = newMastersBySts c"
  by (rule PlaceSlaves_result [OF assms])

section \<open>A small cluster\<close>

text \<open>One shard of two pods on two VMs, the first of which owns a slot, and a left-over pod of a
  second StatefulSet.\<close>

definition demo_heap :: nheap where
  "demo_heap r =
     (if r = 2 then sample_node ''m0'' ''10.0.0.1'' ''master'' ''drc-d-0'' ''vm1'' [5]
      else if r = 3 then sample_node ''s0'' ''10.0.0.2'' ''master'' ''drc-d-0'' ''vm2'' []
      else sample_node ''m1'' ''10.0.0.3'' ''master'' ''drc-d-1'' ''vm3'' [])"

definition demo_cluster :: Cluster where
  "demo_cluster = fold (Cluster_AddNode demo_heap) [2, 3, 4] (NewCluster ''d'' ''ns'')"

definition demo_ctx :: "Nodes \<Rightarrow> int \<Rightarrow> Ctx" where
  "demo_ctx ns n = NewCtx demo_heap demo_cluster ns n ''d''"

lemma demo_dispatch:
  "Ctx_DispatchMasters go_env_det demo_heap (demo_ctx [2, 3] 1)
     = Ret ((demo_ctx [2, 3] 1)\<lparr>newMastersBySts := [(''drc-d-0'', 2)]\<rparr>, None)"
  "Ctx_DispatchMasters go_env_det demo_heap (demo_ctx [2, 3, 4] 2)
     = Ret ((demo_ctx [2, 3, 4] 2)\<lparr>newMastersBySts := [(''drc-d-0'', 2), (''drc-d-1'', 4)]\<rparr>, None)"
  by code_simp+

lemma demo_ctx_nodes:
  "ctx_nodes (demo_ctx [2, 3] 1) = [(''drc-d-0'', [2, 3])]"
  "ctx_nodes (demo_ctx [2, 3, 4] 2) = [(''drc-d-0'', [2, 3]), (''drc-d-1'', [4])]"
  "ctx_nodes (demo_ctx [2, 3, 4] 1) = [(''drc-d-0'', [2, 3]), (''drc-d-1'', [4])]"
  by code_simp+

lemma demo_sts_good: "sts_good demo_heap (demo_ctx [2, 3, 4] 2) 0" "sts_good demo_heap (demo_ctx [2, 3, 4] 2) 1"
proof -
  have "clusterName (demo_ctx [2, 3, 4] 2) = ''d''" by code_simp
  moreover have "ClusterStatefulSetName ''d'' 0 = ''drc-d-0''" "ClusterStatefulSetName ''d'' 1 = ''drc-d-1''"
    by code_simp+
  moreover have "length (FilterByFunc IsMasterWithSlot demo_heap [2, 3]) \<le> 1"
    "length (FilterByFunc IsMasterWithSlot demo_heap [4]) \<le> 1"
    by code_simp+
  ultimately show "sts_good demo_heap (demo_ctx [2, 3, 4] 2) 0" "sts_good demo_heap (demo_ctx [2, 3, 4] 2) 1"
    unfolding sts_good_def by (simp_all add: demo_ctx_nodes)
qed

theorem DispatchMasters_correct_witness:
  "\<exists>c' nm. Ctx_DispatchMasters go_env_det demo_heap (demo_ctx [2, 3, 4] 2) = Ret (c', None)
     \<and> newMastersBySts c' = nm \<and> dom (map_of nm) = ClusterStatefulSetName ''d'' ` {..<2}
     \<and> master_for demo_heap (demo_ctx [2, 3, 4] 2) ''drc-d-0'' 2"
proof -
  let ?nm = "[(''drc-d-0'', 2), (''drc-d-1'', 4)] :: (string, nref) gomap"
  have "\<forall>i<nat 2. sts_good demo_heap (demo_ctx [2, 3, 4] 2) i"
    using demo_sts_good by (auto simp: less_2_cases_iff)
  with DispatchMasters_correct [of go_env_det demo_heap demo_cluster "[2, 3, 4]" 2 "''d''", folded demo_ctx_def]
  obtain nm b where run: "Ctx_DispatchMasters go_env_det demo_heap (demo_ctx [2, 3, 4] 2)
      = Ret ((demo_ctx [2, 3, 4] 2)\<lparr>newMastersBySts := nm, bestEffort := b\<rparr>, None)"
    and "dom (map_of nm) = ClusterStatefulSetName ''d'' ` {..<nat 2}"
    and "\<And>ss r. map_of nm ss = Some r \<Longrightarrow> master_for demo_heap (demo_ctx [2, 3, 4] 2) ss r"
    by fastforce
  moreover have "nm = ?nm"
    using arg_cong [OF run [unfolded demo_dispatch(2)], of "\<lambda>x. case x of Ret (c, e) \<Rightarrow> newMastersBySts c | _ \<Rightarrow> []"]
    by simp
  ultimately show ?thesis by simp
qed

theorem DispatchMasters_spread_witness:
  "NodeName (demo_heap 4) \<notin> (\<lambda>q. NodeName (demo_heap q)) ` set (currentMasters (demo_ctx [2, 3, 4] 2))
   \<and> NodeName (demo_heap 2) \<noteq> NodeName (demo_heap 4)"
proof -
  let ?c = "(demo_ctx [2, 3, 4] 2)\<lparr>newMastersBySts := [(''drc-d-0'', 2), (''drc-d-1'', 4)]\<rparr>"
  have best: "\<not> bestEffort ?c"
    and free: "\<forall>q\<in>set (mget [] (ctx_nodes (demo_ctx [2, 3, 4] 2)) ''drc-d-1''). \<not> IsMasterWithSlot (demo_heap q)"
    by code_simp+
  have at: "map_of (newMastersBySts ?c) ''drc-d-1'' = Some 4" "map_of (newMastersBySts ?c) ''drc-d-0'' = Some 2"
    "''drc-d-0'' \<noteq> ''drc-d-1''"
    by simp_all
  note spread = DispatchMasters_spread [OF det.go_runtime_axioms demo_dispatch(2) [unfolded demo_ctx_def]
      best [unfolded demo_ctx_def] at(1) [unfolded demo_ctx_def] free [unfolded demo_ctx_def], folded demo_ctx_def]
  show ?thesis
    using conjunct1 [OF spread] conjunct2 [OF spread, rule_format, OF at(3,2)] by fastforce
qed

theorem PlaceSlaves_correct_witness:
  "(\<exists>c'. Ctx_PlaceSlaves go_env_det demo_heap ((demo_ctx [2, 3] 1)\<lparr>newMastersBySts := [(''drc-d-0'', 2)]\<rparr>) = Ret c'
      \<and> mget [] (GetSlaves c') (ID (demo_heap 2)) = [3])
   \<and> Ctx_PlaceSlaves go_env_det demo_heap ((demo_ctx [2, 3, 4] 1)\<lparr>newMastersBySts := [(''drc-d-0'', 2)]\<rparr>)
      = Panic NilDereference"
proof -
  let ?c = "\<lambda>ns. (demo_ctx ns 1)\<lparr>newMastersBySts := [(''drc-d-0'', 2)]\<rparr>"
  have ok: "ctx_ok demo_heap (?c ns)" "slavesByMaster (?c ns) = []"
    "\<forall>ss ss' m m'. map_of (newMastersBySts (?c ns)) ss = Some m \<longrightarrow> map_of (newMastersBySts (?c ns)) ss' = Some m'
           \<longrightarrow> ID (demo_heap m') = ID (demo_heap m) \<longrightarrow> ss' = ss" for ns
    by (simp_all add: demo_ctx_def ctx_ok_NewCtx NewCtx_spec)
  note slaves = PlaceSlaves_correct [OF det.go_runtime_axioms ok]
  have at: "map_of (newMastersBySts (?c [2, 3])) ''drc-d-0'' = Some 2" by simp
  have nodes: "filter (to_attach demo_heap 2) (mget [] (ctx_nodes (?c [2, 3])) ''drc-d-0'') = [3]"
    by code_simp
  have "\<not> (\<exists>ss\<in>dom (map_of (GetStatefulsetNodes (?c [2, 3]))). map_of (newMastersBySts (?c [2, 3])) ss = None)"
    by (simp add: GetStatefulsetNodes_def demo_ctx_nodes)
  from slaves [of "[2, 3]", unfolded if_not_P [OF this]] at nodes
  have "\<exists>c'. Ctx_PlaceSlaves go_env_det demo_heap (?c [2, 3]) = Ret c'
      \<and> mget [] (GetSlaves c') (ID (demo_heap 2)) = [3]"
    by metis
  moreover have "\<exists>ss\<in>dom (map_of (GetStatefulsetNodes (?c [2, 3, 4]))). map_of (newMastersBySts (?c [2, 3, 4])) ss = None"
    by (rule bexI [of _ "''drc-d-1''"]) (simp_all add: GetStatefulsetNodes_def demo_ctx_nodes)
  ultimately show ?thesis
    using slaves [of "[2, 3, 4]"] by (metis (no_types, lifting))
qed

end
