(* ===== verification/GoFloat.thy ===== *)
theory GoFloat
  imports Prelude "HOL-Library.Log_Nat"
begin

text \<open>
  The \<open>float64\<close> arithmetic of the operator. A finite \<open>float64\<close> is the rational it stands for; the
  operations round the exact result to the nearest number with 53 significant bits, ties to
  even, as IEEE 754 and the Go specification say. The exponent is not bounded: every number the
  operator computes lies between \<open>2 ^ -60\<close> and \<open>2 ^ 70\<close>, where no overflow or subnormal occurs.
  Infinities and NaN are kept, because the operator can divide by zero.
\<close>

section \<open>Rounding\<close>

definition rne :: "rat \<Rightarrow> int" where
  "rne x = (let f = \<lfloor>x\<rfloor>; d = x - of_int f
            in if d < 1 / 2 then f else if d > 1 / 2 then f + 1 else if even f then f else f + 1)"

text \<open>\<open>2 ^ e\<close> for a signed exponent, and the exponent of a number.\<close>

definition pow2 :: "int \<Rightarrow> rat" where
  "pow2 e = (if 0 \<le> e then 2 ^ nat e else 1 / 2 ^ nat (- e))"

definition fexp :: "rat \<Rightarrow> int" where
  "fexp x = (let (p, q) = quotient_of \<bar>x\<bar>;
                 k = bitlen p - bitlen q
             in if pow2 k \<le> \<bar>x\<bar> then k else k - 1)"

definition fl :: "rat \<Rightarrow> rat" where
  "fl x = (if x = 0 then 0 else let u = pow2 (fexp x - 52) in of_int (rne (x / u)) * u)"

section \<open>Facts about rounding\<close>

lemma rne_error: "\<bar>of_int (rne x) - x\<bar> \<le> 1 / 2"
proof -
  have "of_int \<lfloor>x\<rfloor> \<le> x" and "x < of_int \<lfloor>x\<rfloor> + 1"
    by linarith+
  then show ?thesis by (auto simp: rne_def Let_def abs_le_iff)
qed

lemma rne_of_int [simp]: "rne (of_int n) = n"
  by (simp add: rne_def)

lemma pow2_pos [simp]: "0 < pow2 e"
  by (simp add: pow2_def)

lemma pow2_ne [simp]: "pow2 e \<noteq> 0"
  using pow2_pos [of e] by linarith

lemma pow2_abs [simp]: "\<bar>pow2 e\<bar> = pow2 e" "0 \<le> pow2 e" "\<not> pow2 e < 0"
  using pow2_pos [of e] by linarith+

lemma pow2_Suc: "pow2 (e + 1) = 2 * pow2 e"
proof (cases "0 \<le> e")
  case True
  then show ?thesis by (simp add: pow2_def nat_add_distrib)
next
  case False
  then have "nat (- e) = Suc (nat (- e - 1))" by simp
  with False show ?thesis by (auto simp: pow2_def)
qed

lemma pow2_add_nat: "pow2 (e + int n) = pow2 e * 2 ^ n"
proof (induction n)
  case (Suc n)
  have "pow2 (e + int (Suc n)) = pow2 (e + int n + 1)" by (simp add: algebra_simps)
  with Suc show ?case by (simp add: pow2_Suc)
qed simp

lemma pow2_nat [simp]: "pow2 (int n) = 2 ^ n"
  by (simp add: pow2_def)

lemma pow2_diff: "pow2 (int a - int b) = 2 ^ a / 2 ^ b"
proof -
  have "pow2 (int a - int b) * 2 ^ b = 2 ^ a"
    by (simp flip: pow2_add_nat)
  then show ?thesis by (simp add: field_simps)
qed

lemma bitlen_rat_bounds:
  assumes "0 < n"
  obtains a where "bitlen n = int (Suc a)" and "2 ^ a \<le> (of_int n :: rat)" and "of_int n < (2 :: rat) ^ Suc a"
proof -
  have b: "2 ^ nat (bitlen n - 1) \<le> n \<and> n < 2 ^ nat (bitlen n)"
    using assms by (rule bitlen_bounds)
  have "bitlen n \<noteq> 0" using assms by (auto simp: bitlen_eq_zero_iff)
  then have "bitlen n = int (Suc (nat (bitlen n - 1)))"
    using bitlen_nonneg [of n] by simp
  moreover from this b have "2 ^ nat (bitlen n - 1) \<le> n" and "n < 2 ^ Suc (nat (bitlen n - 1))"
    by (simp, metis nat_int)
  then have "of_int (2 ^ nat (bitlen n - 1)) \<le> (of_int n :: rat)"
    and "(of_int n :: rat) < of_int (2 ^ Suc (nat (bitlen n - 1)))"
    unfolding of_int_le_iff of_int_less_iff by blast+
  ultimately show ?thesis by (intro that) simp_all
qed

lemma fexp_bounds:
  assumes "x \<noteq> 0"
  shows "pow2 (fexp x) \<le> \<bar>x\<bar>" and "\<bar>x\<bar> < pow2 (fexp x + 1)"
proof -
  obtain p q where pq: "quotient_of \<bar>x\<bar> = (p, q)" by fastforce
  then have q: "0 < q" and x: "\<bar>x\<bar> = of_int p / of_int q"
    by (simp_all add: quotient_of_denom_pos quotient_of_div)
  with assms have p: "0 < p"
    by (metis abs_ge_zero abs_eq_0_iff less_le mult_eq_0_iff of_int_0_le_iff of_int_0_less_iff of_int_eq_0_iff
        zero_le_divide_iff divide_eq_0_iff linorder_not_less)
  obtain a where a: "bitlen p = int (Suc a)" "2 ^ a \<le> (of_int p :: rat)" "of_int p < (2 :: rat) ^ Suc a"
    using bitlen_rat_bounds [OF p] by blast
  obtain b where b: "bitlen q = int (Suc b)" "2 ^ b \<le> (of_int q :: rat)" "of_int q < (2 :: rat) ^ Suc b"
    using bitlen_rat_bounds [OF q] by blast
  let ?k = "bitlen p - bitlen q"
  have k: "pow2 ?k = 2 ^ a / 2 ^ b"
    using pow2_diff [of a b] by (simp add: a(1) b(1))
  have qpos: "0 < (of_int q :: rat)" using q by simp
  have "pow2 (?k - 1) * of_int q \<le> 2 ^ a"
  proof -
    have "pow2 (?k - 1) = 2 ^ a / 2 ^ Suc b"
      using pow2_Suc [of "?k - 1"] k by simp
    moreover have "2 ^ a / 2 ^ Suc b * of_int q \<le> (2 ^ a / 2 ^ Suc b * 2 ^ Suc b :: rat)"
      using b(3) by (intro mult_left_mono) simp_all
    ultimately show ?thesis by simp
  qed
  then have lo: "pow2 (?k - 1) \<le> \<bar>x\<bar>"
    unfolding x pos_le_divide_eq [OF qpos] using a(2) by (rule order_trans)
  have "2 ^ Suc a \<le> pow2 (?k + 1) * of_int q"
  proof -
    have "pow2 (?k + 1) = 2 ^ Suc a / 2 ^ b"
      using pow2_Suc [of ?k] k by simp
    moreover have "2 ^ Suc a / 2 ^ b * 2 ^ b \<le> (2 ^ Suc a / 2 ^ b * of_int q :: rat)"
      using b(2) by (intro mult_left_mono) simp_all
    ultimately show ?thesis by simp
  qed
  then have hi: "\<bar>x\<bar> < pow2 (?k + 1)"
    unfolding x pos_divide_less_eq [OF qpos] using a(3) by (rule order.strict_trans2 [rotated])
  show "pow2 (fexp x) \<le> \<bar>x\<bar>" and "\<bar>x\<bar> < pow2 (fexp x + 1)"
    using lo hi by (auto simp: fexp_def pq Let_def)
qed

lemma fl_0 [simp]: "fl 0 = 0"
  by (simp add: fl_def)

lemma fl_error: "\<bar>fl x - x\<bar> \<le> \<bar>x\<bar> / 2 ^ 53"
proof (cases "x = 0")
  case False
  let ?u = "pow2 (fexp x - 52)"
  have fl: "fl x = of_int (rne (x / ?u)) * ?u"
    using False by (simp add: fl_def Let_def)
  have "fl x - x = (of_int (rne (x / ?u)) - x / ?u) * ?u"
    unfolding fl by (simp add: left_diff_distrib)
  then have "\<bar>fl x - x\<bar> = \<bar>of_int (rne (x / ?u)) - x / ?u\<bar> * ?u"
    using pow2_pos [of "fexp x - 52"] by (simp add: abs_mult)
  also have "\<dots> \<le> 1 / 2 * ?u"
    by (intro mult_right_mono rne_error) (simp add: less_imp_le)
  also have "1 / 2 * ?u = pow2 (fexp x) / 2 ^ 53"
    using pow2_add_nat [of "fexp x - 52" 52] by simp
  also have "\<dots> \<le> \<bar>x\<bar> / 2 ^ 53"
    using fexp_bounds(1) [OF False] by (simp add: divide_right_mono)
  finally show ?thesis .
qed simp

text \<open>Numbers with at most 53 significant bits are not changed.\<close>

lemma pow2_mono: "a \<le> b \<Longrightarrow> pow2 a \<le> pow2 b"
  using pow2_add_nat [of a "nat (b - a)"] pow2_pos [of a]
  by (simp add: mult_le_cancel_left1)

lemma fl_exact:
  assumes "\<bar>m\<bar> < 2 ^ 53"
  shows "fl (of_int m * pow2 e) = of_int m * pow2 e"
proof (cases "m = 0")
  case False
  let ?x = "of_int m * pow2 e"
  have m: "\<bar>of_int m :: rat\<bar> < 2 ^ 53"
    using assms by (metis of_int_abs of_int_less_iff of_int_numeral of_int_power)
  have "pow2 (fexp ?x) \<le> \<bar>?x\<bar>"
    using False by (intro fexp_bounds(1)) simp
  also have "\<bar>?x\<bar> = \<bar>of_int m\<bar> * pow2 e"
    by (simp add: abs_mult)
  also have "\<dots> < 2 ^ 53 * pow2 e"
    using m by (intro mult_strict_right_mono) simp_all
  also have "\<dots> = pow2 (e + 53)"
    using pow2_add_nat [of e 53] by simp
  finally have "fexp ?x < e + 53"
    using pow2_mono [of "e + 53" "fexp ?x"] by fastforce
  then have e: "pow2 e = pow2 (fexp ?x - 52) * 2 ^ nat (e - (fexp ?x - 52))"
    by (subst pow2_add_nat [symmetric]) simp
  define u k where "u = pow2 (fexp ?x - 52)" and "k = nat (e - (fexp ?x - 52))"
  have x: "?x = of_int (m * 2 ^ k) * u"
    using e [folded u_def k_def] by simp
  moreover have "u \<noteq> 0" by (simp add: u_def)
  ultimately have "rne (?x / u) = m * 2 ^ k"
    by (metis nonzero_mult_div_cancel_right rne_of_int)
  moreover have "fl ?x = of_int (rne (?x / u)) * u"
    using False by (simp add: fl_def Let_def u_def)
  ultimately show ?thesis using x by metis
qed simp

lemma fl_of_int: "\<bar>m\<bar> < 2 ^ 53 \<Longrightarrow> fl (of_int m) = of_int m"
  using fl_exact [of m 0] by (simp add: pow2_def)

lemma fl_nonneg: "0 \<le> x \<Longrightarrow> 0 \<le> fl x"
proof -
  assume "0 \<le> x"
  moreover have "\<bar>x\<bar> / 2 ^ 53 \<le> \<bar>x\<bar>" by (simp add: field_simps)
  ultimately show "0 \<le> fl x" using fl_error [of x] by linarith
qed

section \<open>The laws the operator relies on\<close>

text \<open>A rounding function with a relative error of at most one part in \<open>2 ^ 53\<close> that is exact on
  small integers. The lemmas about quotients and sums of the operator follow from these alone.\<close>

locale float_rounding =
  fixes rnd :: "rat \<Rightarrow> rat"
  assumes rnd_error: "\<bar>rnd x - x\<bar> \<le> \<bar>x\<bar> / 2 ^ 53"
    and rnd_of_int: "\<bar>m\<bar> < 2 ^ 53 \<Longrightarrow> rnd (of_int m) = of_int m"
begin

lemma rnd_bound: "\<bar>x\<bar> \<le> B \<Longrightarrow> \<bar>rnd x - x\<bar> \<le> B / 2 ^ 53"
  using rnd_error [of x] by (meson divide_right_mono order_trans zero_le_numeral zero_le_power)

lemma rnd_quotient_bound:
  assumes "0 \<le> a" and "a < 2 ^ 53" and "0 < b"
  shows "\<bar>rnd (of_int a / of_int b) - of_int a / of_int b\<bar> < 1 / of_int b"
proof -
  have b: "0 < (of_int b :: rat)" using assms(3) by simp
  have "(of_int a :: rat) < of_int (2 ^ 53)" using assms(2) unfolding of_int_less_iff .
  then have "(of_int a :: rat) / 2 ^ 53 < 1" by simp
  then have "of_int a / of_int b / 2 ^ 53 < 1 / (of_int b :: rat)"
    using b by (metis divide_divide_eq_left divide_strict_right_mono mult.commute)
  moreover have "\<bar>rnd (of_int a / of_int b) - of_int a / of_int b\<bar> \<le> of_int a / of_int b / 2 ^ 53"
    using rnd_error [of "of_int a / of_int b"] assms(1) b by simp
  ultimately show ?thesis by (rule order.strict_trans1 [rotated])
qed

text \<open>A rounded quotient of integers has the floor and the ceiling of the exact one.\<close>

lemma rnd_quotient_between:
  assumes "0 \<le> a" and "a < 2 ^ 53" and "0 < b" and "a mod b \<noteq> 0"
  shows "of_int (a div b) < rnd (of_int a / of_int b)" and "rnd (of_int a / of_int b) < of_int (a div b + 1)"
proof -
  have b: "0 < (of_int b :: rat)" using assms(3) by simp
  have r: "1 \<le> a mod b" "a mod b \<le> b - 1"
    using assms(3,4) pos_mod_bound [of b a] pos_mod_sign [of b a] by linarith+
  have "(of_int a :: rat) = of_int (a div b * b + a mod b)" by simp
  also have "\<dots> = of_int (a div b) * of_int b + of_int (a mod b)"
    by (simp only: of_int_add of_int_mult)
  finally have "(of_int a :: rat) / of_int b = of_int (a div b) + of_int (a mod b) / of_int b"
    using b by (simp add: add_divide_distrib)
  moreover have "1 / of_int b \<le> of_int (a mod b) / (of_int b :: rat)"
  proof (rule divide_right_mono)
    show "1 \<le> (of_int (a mod b) :: rat)" using r(1) by (metis of_int_1 of_int_le_iff)
  qed (use b in simp)
  moreover have "of_int (a mod b) / (of_int b :: rat) \<le> (of_int b - 1) / of_int b"
  proof (rule divide_right_mono)
    have "of_int (a mod b) \<le> (of_int (b - 1) :: rat)" using r(2) unfolding of_int_le_iff .
    then show "of_int (a mod b) \<le> (of_int b :: rat) - 1" by simp
  qed (use b in simp)
  moreover have "(of_int b - 1) / of_int b = 1 - 1 / (of_int b :: rat)"
    using b by (simp add: diff_divide_distrib)
  moreover note rnd_quotient_bound [OF assms(1-3)]
  ultimately show "of_int (a div b) < rnd (of_int a / of_int b)" and "rnd (of_int a / of_int b) < of_int (a div b + 1)"
    unfolding of_int_add of_int_1 by linarith+
qed

lemma rnd_quotient_exact:
  assumes "0 \<le> a" and "a < 2 ^ 53" and "0 < b" and "a mod b = 0"
  shows "rnd (of_int a / of_int b) = of_int (a div b)"
proof -
  have "(of_int a :: rat) = of_int (a div b) * of_int b"
    using assms(4) by (metis add.right_neutral div_mult_mod_eq of_int_mult)
  then have "(of_int a :: rat) / of_int b = of_int (a div b)"
    using assms(3) by simp
  moreover have "\<bar>a div b\<bar> < 2 ^ 53"
    using assms by (smt (verit) div_by_1 pos_imp_zdiv_nonneg_iff zdiv_mono2)
  ultimately show ?thesis by (simp add: rnd_of_int)
qed

lemma rnd_floor_quotient:
  assumes "0 \<le> a" and "a < 2 ^ 53" and "0 < b"
  shows "\<lfloor>rnd (of_int a / of_int b)\<rfloor> = a div b"
proof (cases "a mod b = 0")
  case True
  then show ?thesis using rnd_quotient_exact [OF assms] by simp
next
  case False
  then show ?thesis using rnd_quotient_between [OF assms] by (simp add: floor_eq_iff less_imp_le)
qed

lemma rnd_ceiling_quotient:
  assumes "0 \<le> a" and "a < 2 ^ 53" and "0 < b"
  shows "\<lceil>rnd (of_int a / of_int b)\<rceil> = (a + b - 1) div b"
proof (cases "a mod b = 0")
  case True
  then obtain k where "a = b * k" by auto
  moreover from this have "(a + b - 1) div b = k"
    using assms(3) div_mult_self1 [of b "b - 1" k] by (simp add: algebra_simps)
  ultimately show ?thesis using rnd_quotient_exact [OF assms True] assms(3) by simp
next
  case False
  then have "\<lceil>rnd (of_int a / of_int b)\<rceil> = a div b + 1"
    using rnd_quotient_between [OF assms] by (simp add: ceiling_eq_iff less_imp_le)
  moreover have "(a + b - 1) div b = a div b + 1"
  proof -
    have "a + b - 1 = (a mod b - 1) + (a div b + 1) * b"
      using div_mult_mod_eq [of a b] by (simp add: algebra_simps)
    moreover have "0 \<le> a mod b - 1" "a mod b - 1 < b"
      using False assms(3) pos_mod_bound [of b a] pos_mod_sign [of b a] by linarith+
    ultimately show ?thesis
      using assms(3) by (simp only: div_mult_self1 div_pos_pos_trivial)
  qed
  ultimately show ?thesis by simp
qed

text \<open>Scaling down and up again loses less than one.\<close>

lemma rnd_rescale:
  assumes "0 \<le> n" and "n < 2 ^ 50" and "0 < t"
  shows "\<bar>rnd (rnd (of_int n / of_int t) * of_int t) - of_int n\<bar> < 1"
proof -
  let ?n = "of_int n :: rat" and ?t = "of_int t :: rat"
  define q where "q = rnd (?n / ?t)"
  have t: "0 < ?t" and n: "0 \<le> ?n" using assms by simp_all
  have "?n < of_int (2 ^ 50)" using assms(2) unfolding of_int_less_iff .
  then have n50: "?n < 2 ^ 50" by simp
  have "\<bar>q - ?n / ?t\<bar> * ?t \<le> ?n / ?t / 2 ^ 53 * ?t"
    unfolding q_def using t n rnd_error [of "?n / ?t"] by (intro mult_right_mono) simp_all
  moreover have "\<bar>q - ?n / ?t\<bar> * ?t = \<bar>q * ?t - ?n\<bar>"
  proof -
    have "q * ?t - ?n = (q - ?n / ?t) * ?t" using t by (simp add: left_diff_distrib)
    then show ?thesis using t by (simp add: abs_mult)
  qed
  moreover have "?n / ?t / 2 ^ 53 * ?t = ?n / 2 ^ 53" using t by simp
  ultimately have 1: "\<bar>q * ?t - ?n\<bar> \<le> ?n / 2 ^ 53" by simp
  moreover have "?n / 2 ^ 53 \<le> ?n" using n by simp
  ultimately have "\<bar>q * ?t\<bar> \<le> 2 * ?n" using n by arith
  then have "\<bar>rnd (q * ?t) - q * ?t\<bar> \<le> 2 * ?n / 2 ^ 53"
    by (rule rnd_bound)
  moreover have "?n / 2 ^ 53 < 1 / 8" and "2 * ?n / 2 ^ 53 < 1 / 4"
    using n50 by (simp_all add: divide_less_eq)
  ultimately show ?thesis using 1 unfolding q_def by arith
qed

text \<open>One rounded addition on top of values that are already off by \<open>e\<close> and \<open>d\<close>.\<close>

lemma rnd_add_error:
  assumes "\<bar>c - x\<bar> \<le> e" and "\<bar>s' - s\<bar> \<le> d" and "\<bar>c + s'\<bar> \<le> B"
  shows "\<bar>rnd (c + s') - (x + s)\<bar> \<le> e + d + B / 2 ^ 53"
  using rnd_bound [OF assms(3)] assms(1,2) by arith

end

interpretation binary64: float_rounding fl
  by unfold_locales (rule fl_error, rule fl_of_int)

section \<open>The values and operations of Go\<close>

datatype f64 = Fin rat | Inf bool | NaN

definition f64_of_int :: "int \<Rightarrow> f64" where
  "f64_of_int n = Fin (fl (of_int n))"

fun f64_add :: "f64 \<Rightarrow> f64 \<Rightarrow> f64" where
  "f64_add (Fin x) (Fin y) = Fin (fl (x + y))"
| "f64_add NaN y = NaN"
| "f64_add x NaN = NaN"
| "f64_add (Inf s) (Inf t) = (if s = t then Inf s else NaN)"
| "f64_add (Inf s) (Fin y) = Inf s"
| "f64_add (Fin x) (Inf t) = Inf t"

fun f64_neg :: "f64 \<Rightarrow> f64" where
  "f64_neg (Fin x) = Fin (- x)"
| "f64_neg (Inf s) = Inf (\<not> s)"
| "f64_neg NaN = NaN"

definition f64_sub :: "f64 \<Rightarrow> f64 \<Rightarrow> f64" where
  "f64_sub x y = f64_add x (f64_neg y)"

fun f64_mul :: "f64 \<Rightarrow> f64 \<Rightarrow> f64" where
  "f64_mul (Fin x) (Fin y) = Fin (fl (x * y))"
| "f64_mul NaN y = NaN"
| "f64_mul x NaN = NaN"
| "f64_mul (Inf s) (Inf t) = Inf (s \<noteq> t)"
| "f64_mul (Inf s) (Fin y) = (if y = 0 then NaN else Inf (s \<noteq> (y < 0)))"
| "f64_mul (Fin x) (Inf t) = (if x = 0 then NaN else Inf (t \<noteq> (x < 0)))"

fun f64_div :: "f64 \<Rightarrow> f64 \<Rightarrow> f64" where
  "f64_div (Fin x) (Fin y) = (if y = 0 then if x = 0 then NaN else Inf (x < 0) else Fin (fl (x / y)))"
| "f64_div NaN y = NaN"
| "f64_div x NaN = NaN"
| "f64_div (Inf s) (Inf t) = NaN"
| "f64_div (Inf s) (Fin y) = Inf (s \<noteq> (y < 0))"
| "f64_div (Fin x) (Inf t) = Fin 0"

fun f64_abs :: "f64 \<Rightarrow> f64" where
  "f64_abs (Fin x) = Fin \<bar>x\<bar>"
| "f64_abs (Inf s) = Inf False"
| "f64_abs NaN = NaN"

fun f64_less :: "f64 \<Rightarrow> f64 \<Rightarrow> bool" where
  "f64_less (Fin x) (Fin y) = (x < y)"
| "f64_less NaN y = False"
| "f64_less x NaN = False"
| "f64_less (Inf s) (Inf t) = (s \<and> \<not> t)"
| "f64_less (Inf s) (Fin y) = s"
| "f64_less (Fin x) (Inf t) = (\<not> t)"

fun f64_Ceil :: "f64 \<Rightarrow> f64" where
  "f64_Ceil (Fin x) = Fin (of_int \<lceil>x\<rceil>)"
| "f64_Ceil x = x"

fun f64_Floor :: "f64 \<Rightarrow> f64" where
  "f64_Floor (Fin x) = Fin (of_int \<lfloor>x\<rfloor>)"
| "f64_Floor x = x"

text \<open>\<open>math.Copysign(m, num)\<close> for a positive \<open>m\<close>; NaN keeps the sign of the positive result.\<close>

fun f64_Copysign :: "rat \<Rightarrow> f64 \<Rightarrow> f64" where
  "f64_Copysign m (Fin x) = Fin (if x < 0 then - m else m)"
| "f64_Copysign m (Inf s) = Fin (if s then - m else m)"
| "f64_Copysign m NaN = Fin m"

text \<open>\<open>int(x)\<close> drops the fraction. What is not finite or does not fit becomes the smallest \<open>int\<close>,
  as on amd64 (the language leaves it open).\<close>

fun f64_to_int :: "f64 \<Rightarrow> int" where
  "f64_to_int (Fin x) =
     (let t = (if 0 \<le> x then \<lfloor>x\<rfloor> else \<lceil>x\<rceil>) in if - (2 ^ 63) \<le> t \<and> t < 2 ^ 63 then t else - (2 ^ 63))"
| "f64_to_int _ = - (2 ^ 63)"

lemma f64_of_int_small: "\<bar>n\<bar> < 2 ^ 53 \<Longrightarrow> f64_of_int n = Fin (of_int n)"
  by (simp add: f64_of_int_def fl_of_int)

lemma f64_to_int_floor: "0 \<le> x \<Longrightarrow> \<lfloor>x\<rfloor> < 2 ^ 63 \<Longrightarrow> f64_to_int (Fin x) = \<lfloor>x\<rfloor>"
proof -
  assume "0 \<le> x" and "\<lfloor>x\<rfloor> < 2 ^ 63"
  moreover from this have "0 \<le> \<lfloor>x\<rfloor>" by simp
  ultimately show ?thesis by (simp add: Let_def)
qed

lemma f64_to_int_of_int: "\<bar>n\<bar> < 2 ^ 63 \<Longrightarrow> f64_to_int (Fin (of_int n)) = n"
  by (auto simp: Let_def)

text \<open>The three idioms of the clustering code: the truncated quotient, the ceiling of a quotient,
  and a count scaled by its share.\<close>

lemma int_quotient:
  assumes "0 \<le> a" and "a < 2 ^ 53" and "0 < b" and "b < 2 ^ 53"
  shows "f64_to_int (f64_div (f64_of_int a) (f64_of_int b)) = a div b"
proof -
  have "a div b \<le> a" using assms by (metis div_by_1 int_one_le_iff_zero_less zdiv_mono2 zero_less_one)
  then show ?thesis
    using assms binary64.rnd_floor_quotient [of a b]
    by (simp add: f64_of_int_small f64_to_int_floor fl_nonneg del: f64_to_int.simps)
qed

lemma int_Ceil_quotient:
  assumes "0 \<le> a" and "a < 2 ^ 53" and "0 < b" and "b < 2 ^ 53"
  shows "f64_to_int (f64_Ceil (f64_div (f64_of_int a) (f64_of_int b))) = (a + b - 1) div b"
proof -
  have "0 \<le> (a + b - 1) div b" using assms by (simp add: pos_imp_zdiv_nonneg_iff)
  moreover have "(a + b - 1) div b \<le> a + b - 1"
    using assms by (metis add_le_same_cancel2 div_by_1 int_one_le_iff_zero_less le_add_same_cancel2
        zdiv_mono2 zero_less_one add_diff_eq diff_ge_0_iff_ge add_nonneg_nonneg)
  ultimately have "\<bar>(a + b - 1) div b\<bar> < 2 ^ 63" using assms by simp
  then show ?thesis
    using assms binary64.rnd_ceiling_quotient [of a b]
    by (simp add: f64_of_int_small f64_to_int_of_int del: f64_to_int.simps)
qed

lemma int_Ceil_share:
  assumes "0 \<le> n" and "n < 2 ^ 50" and "0 < t" and "t < 2 ^ 50"
  shows "n \<le> f64_to_int (f64_Ceil (f64_mul (f64_div (f64_of_int n) (f64_of_int t)) (f64_of_int t)))"
proof -
  let ?x = "fl (fl (of_int n / of_int t) * of_int t)"
  have "\<bar>?x - of_int n\<bar> < 1"
    using assms by (intro binary64.rnd_rescale)
  then have "of_int n < ?x + 1" and "?x < of_int n + 1"
    by arith+
  then have "n \<le> \<lceil>?x\<rceil>" and "\<lceil>?x\<rceil> \<le> n + 1"
    by linarith+
  moreover from this have "\<bar>\<lceil>?x\<rceil>\<bar> < 2 ^ 63" using assms by simp
  ultimately show ?thesis
    using assms by (simp add: f64_of_int_small f64_to_int_of_int del: f64_to_int.simps)
qed

end
