(* ===== verification/Utils.thy ===== *)
theory Utils
  imports GoText GoFloat
begin

text \<open>
  The package \<open>pkg/utils\<close>: the comparisons used for status updates, label maps, the Redis memory
  notation, the table of renamed Redis commands, the scope of the operator, the joining of
  strings, and rounding.
\<close>

section \<open>compare.go, types.go\<close>

text \<open>The comparisons return \<open>true\<close> when the values differ; the logger is not modelled.\<close>

fun CompareIntValue :: "int option \<Rightarrow> int option \<Rightarrow> bool" where
  "CompareIntValue None None = True"
| "CompareIntValue None (Some n) = False"
| "CompareIntValue (Some m) None = False"
| "CompareIntValue (Some m) (Some n) = (if m \<noteq> n then True else False)"

definition CompareInt32 :: "int \<Rightarrow> int \<Rightarrow> bool" where
  "CompareInt32 old new = (if old \<noteq> new then True else False)"

definition CompareStringValue :: "string \<Rightarrow> string \<Rightarrow> bool" where
  "CompareStringValue old new = (if old \<noteq> new then True else False)"

definition Int32 :: "int option \<Rightarrow> int" where
  "Int32 v = (case v of Some n \<Rightarrow> n | None \<Rightarrow> 0)"

section \<open>labels.go\<close>

text \<open>A \<open>nil\<close> map is \<open>None\<close>; the i-th argument is ranged over in the i-th order.\<close>

fun MergeLabels_from :: "go_env \<Rightarrow> nat \<Rightarrow> (string, string) gomap \<Rightarrow> (string, string) gomap option list
    \<Rightarrow> (string, string) gomap" where
  "MergeLabels_from env i res [] = res"
| "MergeLabels_from env i res (labels # allLabels) =
     MergeLabels_from env (i + 1)
       (case labels of None \<Rightarrow> res | Some ls \<Rightarrow> fold (\<lambda>(k, v) res. mput k v res) (mrange env i ls) res)
       allLabels"

definition MergeLabels :: "go_env \<Rightarrow> (string, string) gomap option list \<Rightarrow> (string, string) gomap" where
  "MergeLabels env allLabels = MergeLabels_from env 0 [] allLabels"

section \<open>math.go\<close>

definition Round :: "f64 \<Rightarrow> int" where
  "Round num = f64_to_int (f64_add num (f64_Copysign (1 / 2) num))"

section \<open>parse.go\<close>

definition ParseRedisMemConf :: "string \<Rightarrow> goerr + string" where
  "ParseRedisMemConf p =
     (let u = map to_lower p;
          cut = (\<lambda>n. take (length u - n) u);
          (digits, mul) =
            (if HasSuffix u ''k'' then (cut 1, 1000)
             else if HasSuffix u ''kb'' then (cut 2, 1024)
             else if HasSuffix u ''m'' then (cut 1, 1000 * 1000)
             else if HasSuffix u ''mb'' then (cut 2, 1024 * 1024)
             else if HasSuffix u ''g'' then (cut 1, 1000 * 1000 * 1000)
             else if HasSuffix u ''gb'' then (cut 2, 1024 * 1024 * 1024)
             else if HasSuffix u ''b'' then (cut 1, 1)
             else (u, 1 :: int))
      in case ParseInt digits of
           Inl err \<Rightarrow> Inl err
         | Inr val \<Rightarrow> Inr (FormatInt (i64 (val * mul))))"

section \<open>rename_cmd.go\<close>

text \<open>\<open>bufio.Scanner\<close> on the content of a file: its lines, up to the first that does not fit the
  buffer of 64 KiB. A file that cannot be opened is \<open>None\<close>. The trailing carriage return the
  scanner drops is white space for \<open>Fields\<close> as well.\<close>

definition file_lines :: "string \<Rightarrow> string list" where
  "file_lines content =
     (let ls = split_on (CHR ''\<newline>'') content
      in takeWhile (\<lambda>l. length l < 65536) (if last ls = [] then butlast ls else ls))"

fun add_rename :: "(string, string) gomap \<Rightarrow> string list \<Rightarrow> (string, string) gomap" where
  "add_rename mapping [a, b, c] =
     (if map to_lower a = ''rename-command'' then mput (map to_upper b) c mapping else mapping)"
| "add_rename mapping _ = mapping"

definition BuildCommandReplaceMapping :: "string option \<Rightarrow> (string, string) gomap" where
  "BuildCommandReplaceMapping file =
     (case file of
        None \<Rightarrow> []
      | Some content \<Rightarrow> foldl (\<lambda>m l. add_rename m (Fields l)) [] (file_lines content))"

section \<open>scoped.go\<close>

definition AnnotationScope :: string where "AnnotationScope = ''redis.kun/scope''"
definition AnnotationClusterScoped :: string where "AnnotationClusterScoped = ''cluster-scoped''"

definition SetClusterScoped :: "string \<Rightarrow> bool \<Rightarrow> bool" where
  "SetClusterScoped namespace isClusterScoped = (if namespace \<noteq> [] then False else isClusterScoped)"

definition ShoudManage :: "bool \<Rightarrow> (string, string) gomap \<Rightarrow> bool" where
  "ShoudManage isClusterScoped annotations =
     (case map_of annotations AnnotationScope of
        Some v \<Rightarrow> if isClusterScoped then v = AnnotationClusterScoped else False
      | None \<Rightarrow> if \<not> isClusterScoped then True else False)"

section \<open>string.go\<close>

text \<open>\<open>copy(b[bp:], s)\<close>: the changed buffer and the new position.\<close>

definition copy_at :: "string \<Rightarrow> nat \<Rightarrow> string \<Rightarrow> string \<times> nat" where
  "copy_at b bp s =
     (let n = min (length s) (length b - bp) in (take bp b @ take n s @ drop (bp + n) b, bp + n))"

fun SliceJoin_copy :: "string \<Rightarrow> string \<times> nat \<Rightarrow> string list \<Rightarrow> string" where
  "SliceJoin_copy sep (b, bp) [] = b"
| "SliceJoin_copy sep (b, bp) (s # ss) =
     (let (b, bp) = copy_at b bp sep; (b, bp) = copy_at b bp s in SliceJoin_copy sep (b, bp) ss)"

definition SliceJoin :: "string list \<Rightarrow> string \<Rightarrow> string" where
  "SliceJoin a sep =
     (case a of
        [] \<Rightarrow> []
      | [x] \<Rightarrow> x
      | [x, y] \<Rightarrow> x @ sep @ y
      | [x, y, z] \<Rightarrow> x @ sep @ y @ sep @ z
      | x # ss \<Rightarrow>
          let n = length sep * (length a - 1) + sum_list (map length a);
              b = replicate n (CHR 0x00)
          in SliceJoin_copy sep (copy_at b 0 x) ss)"

section \<open>Facts\<close>

lemma SliceJoin_copy_ok:
  assumes "length b = length out + sum_list (map (\<lambda>s. length sep + length s) ss)"
    and "take (length out) b = out"
  shows "SliceJoin_copy sep (b, length out) ss = out @ concat (map (\<lambda>s. sep @ s) ss)"
  using assms
proof (induction ss arbitrary: out b)
  case Nil
  then show ?case by simp
next
  case (Cons s ss)
  let ?out = "out @ sep @ s"
  let ?b = "?out @ drop (length ?out) b"
  have len: "length sep + length s \<le> length b - length out"
    using Cons.prems(1) by simp
  then have "copy_at b (length out) sep = (out @ sep @ drop (length out + length sep) b, length (out @ sep))"
    using Cons.prems(2) by (simp add: copy_at_def min_def Let_def)
  moreover have "copy_at (out @ sep @ drop (length out + length sep) b) (length (out @ sep)) s = (?b, length ?out)"
    using len by (auto simp: copy_at_def min_def Let_def ac_simps)
  ultimately have "SliceJoin_copy sep (b, length out) (s # ss) = SliceJoin_copy sep (?b, length ?out) ss"
    by (simp add: Let_def)
  also have "\<dots> = ?out @ concat (map (\<lambda>s. sep @ s) ss)"
    by (rule Cons.IH) (use Cons.prems(1) in simp_all)
  finally show ?case by simp
qed

lemma join_with_concat: "join_with sep (x # ss) = x @ concat (map (\<lambda>s. sep @ s) ss)"
  by (induction ss arbitrary: x) auto

text \<open>C29. \<open>SliceJoin\<close>, with its unrolled small cases and its preallocated byte buffer, is the plain
  join: the elements in order with the separator between them, and the buffer is filled exactly.\<close>

theorem SliceJoin_is_join: "SliceJoin a sep = join_with sep a"
proof -
  have long: "SliceJoin (x # y # z # v # ss) sep = join_with sep (x # y # z # v # ss)" for x y z v ss
  proof -
    let ?t = "y # z # v # ss"
    let ?n = "length sep * (length (x # ?t) - 1) + sum_list (map length (x # ?t))"
    let ?b = "x @ drop (length x) (replicate ?n (CHR 0x00))"
    have n: "?n = length x + sum_list (map (\<lambda>s. length sep + length s) ?t)"
      by (simp add: sum_list_addf sum_list_triv)
    then have "copy_at (replicate ?n (CHR 0x00)) 0 x = (?b, length x)"
      unfolding copy_at_def by (simp add: min_def Let_def)
    then have "SliceJoin (x # ?t) sep = SliceJoin_copy sep (?b, length x) ?t"
      unfolding SliceJoin_def by (simp add: Let_def del: replicate.simps drop_replicate SliceJoin_copy.simps)
    also have "\<dots> = x @ concat (map (\<lambda>s. sep @ s) ?t)"
      by (rule SliceJoin_copy_ok) (use n in simp_all)
    finally show ?thesis by (simp add: join_with_concat)
  qed
  consider "a = []" | x where "a = [x]" | x y where "a = [x, y]" | x y z where "a = [x, y, z]"
    | x y z v ss where "a = x # y # z # v # ss"
    by (metis list.exhaust)
  then show ?thesis
    by cases (simp_all add: long, simp_all add: SliceJoin_def)
qed

lemma fold_mput_map_of:
  "wf_map l \<Longrightarrow> map_of (fold (\<lambda>(k, v) res. mput k v res) l res) = map_of res ++ map_of l"
proof (induction l arbitrary: res)
  case (Cons p l)
  obtain k v where p: "p = (k, v)" by fastforce
  then have "map_of l k = None" using Cons.prems by (simp add: map_of_eq_None_iff)
  then show ?case
    using Cons p by (auto simp: map_add_def fun_eq_iff split: option.splits)
qed simp

lemma MergeLabels_from_ok:
  assumes "go_runtime env" and "\<forall>ls\<in>set ms. wf_map ls"
  shows "map_of (MergeLabels_from env i res (map Some ms)) = foldl (\<lambda>m ls. m ++ map_of ls) (map_of res) ms"
  using assms(2)
proof (induction ms arbitrary: i res)
  case (Cons ls ms)
  then show ?case
    using fold_mput_map_of [OF go_runtime.mrange_distinct_keys [OF assms(1)], of ls i res]
      go_runtime.map_of_mrange [OF assms(1), of ls i]
    by simp
qed simp

text \<open>\<open>MergeLabels\<close> of label maps maps each key to the value of the last argument that has it,
  whatever order the arguments are ranged over in; \<open>nil\<close> arguments are skipped.\<close>

lemma MergeLabels_last_wins:
  assumes "go_runtime env" and "\<forall>ls\<in>set ms. wf_map ls"
  shows "map_of (MergeLabels env (map Some ms)) k
     = (case List.find (\<lambda>ls. k \<in> dom (map_of ls)) (rev ms) of None \<Rightarrow> None | Some ls \<Rightarrow> map_of ls k)
    \<and> map_of (MergeLabels env (None # map Some ms)) = map_of (MergeLabels env (map Some ms))"
proof -
  have "foldl (\<lambda>m ls. m ++ map_of ls) m0 ms k
      = (case List.find (\<lambda>ls. k \<in> dom (map_of ls)) (rev ms) of None \<Rightarrow> m0 k | Some ls \<Rightarrow> map_of ls k)"
    for m0 :: "string \<Rightarrow> string option"
  proof (induction ms arbitrary: m0)
    case (Cons ls ms)
    then show ?case
      by (auto simp: find_append map_add_def split: option.splits)
  qed simp
  then show ?thesis
    using MergeLabels_from_ok [OF assms, of _ "[]"] by (simp add: MergeLabels_def)
qed

section \<open>The memory notation\<close>

definition mem_units :: "(string \<times> int) list" where
  "mem_units = [([], 1), (''b'', 1), (''k'', 1000), (''kb'', 1024), (''m'', 1000000), (''mb'', 1048576),
     (''g'', 1000000000), (''gb'', 1073741824)]"

lemma HasSuffix_snoc: "HasSuffix (s @ [c]) (p @ [d]) \<longleftrightarrow> c = d \<and> HasSuffix s p"
  by (auto simp: HasSuffix_def)

lemma HasSuffix_one: "HasSuffix (s @ [c]) [d] \<longleftrightarrow> c = d"
  using HasSuffix_snoc [of s c "[]" d] by (simp add: HasSuffix_def)

lemma HasSuffix_two: "HasSuffix (s @ [c]) [d, e] \<longleftrightarrow> c = e \<and> HasSuffix s [d]"
  using HasSuffix_snoc [of s c "[d]" e] by simp

lemma HasSuffix_last: "s \<noteq> [] \<Longrightarrow> HasSuffix s [d] \<longleftrightarrow> last s = d"
  using HasSuffix_one [of "butlast s" "last s" d] by simp

lemma HasSuffix_digits:
  "\<not> is_digit d \<Longrightarrow> \<not> HasSuffix (FormatUint n) [d]" "\<not> is_digit e \<Longrightarrow> \<not> HasSuffix (FormatUint n) [c, e]"
proof -
  have digit: "is_digit (last (FormatUint n))"
    using FormatUint_digits last_in_set FormatUint_ne by blast
  show "\<not> HasSuffix (FormatUint n) [d]" if "\<not> is_digit d"
    using digit that by (auto simp: HasSuffix_last)
  show "\<not> HasSuffix (FormatUint n) [c, e]" if "\<not> is_digit e"
    using digit that HasSuffix_two [of "butlast (FormatUint n)" "last (FormatUint n)"] by auto
qed

lemma to_lower_digits [simp]: "map to_lower (FormatUint n) = FormatUint n"
proof (rule map_idI)
  fix c assume "c \<in> set (FormatUint n)"
  from FormatUint_digits [OF this] show "to_lower c = c"
    by (simp add: is_digit_def to_lower_def)
qed

lemma ParseInt_FormatUint: "n < 2 ^ 63 \<Longrightarrow> ParseInt (FormatUint n) = Inr (int n)"
  using ParseInt_FormatInt [of "int n"] by (simp add: FormatInt_def)

text \<open>C30. \<open>ParseRedisMemConf\<close> reads a number with any unit Redis knows, in either case, as that
  many bytes (\<open>k\<close>, \<open>m\<close>, \<open>g\<close> count in thousands, \<open>kb\<close>, \<open>mb\<close>, \<open>gb\<close> in powers of 1024). The product is
  taken modulo \<open>2 ^ 64\<close>: below \<open>2 ^ 63\<close> it is exact, above it silently wraps.\<close>

theorem ParseRedisMemConf_units:
  assumes "(unit, mul) \<in> set mem_units" and "map to_lower suffix = unit" and "n < 2 ^ 63"
  shows "ParseRedisMemConf (FormatUint n @ suffix) = Inr (FormatInt (i64 (int n * mul)))
    \<and> (int n * mul < 2 ^ 63 \<longrightarrow> ParseRedisMemConf (FormatUint n @ suffix) = Inr (FormatInt (int n * mul)))"
proof -
  have "is_digit (CHR ''k'') = False" "is_digit (CHR ''b'') = False" "is_digit (CHR ''m'') = False"
    "is_digit (CHR ''g'') = False"
    by (simp_all add: is_digit_def)
  note digits = HasSuffix_digits this
  have two: "FormatUint n @ [x, y] = (FormatUint n @ [x]) @ [y]" for x y by simp
  have u: "map to_lower (FormatUint n @ suffix) = FormatUint n @ unit"
    using assms(2) by simp
  have val: "ParseInt (FormatUint n) = Inr (int n)"
    using assms(3) by (rule ParseInt_FormatUint)
  have main: "ParseRedisMemConf (FormatUint n @ suffix) = Inr (FormatInt (i64 (int n * mul)))"
    using assms(1) unfolding ParseRedisMemConf_def u mem_units_def
    by (simp, elim disjE conjE; simp add: two HasSuffix_one HasSuffix_two digits val Let_def del: append_assoc)
  moreover have "i64 (int n * mul) = int n * mul" if "int n * mul < 2 ^ 63"
  proof (rule i64_id)
    have "0 \<le> mul" using assms(1) by (auto simp: mem_units_def)
    then have "0 \<le> int n * mul" by simp
    then show "- (2 ^ 63) \<le> int n * mul" by (rule order_trans [rotated]) simp
  qed (rule that)
  ultimately show ?thesis by simp
qed

theorem ParseRedisMemConf_units_witness:
  "ParseRedisMemConf ''512Mb'' = Inr ''536870912'' \<and> ParseRedisMemConf ''8589934592gb'' = Inr ''-9223372036854775808''"
proof -
  have "(''mb'', 1048576) \<in> set mem_units" "(''gb'', 1073741824) \<in> set mem_units"
    "map to_lower ''Mb'' = ''mb''" "map to_lower ''gb'' = ''gb''"
    by code_simp+
  note P = ParseRedisMemConf_units [OF this(1,3), of 512] ParseRedisMemConf_units [OF this(2,4), of 8589934592]
  have "FormatUint 512 @ ''Mb'' = ''512Mb''" "FormatUint 8589934592 @ ''gb'' = ''8589934592gb''"
    "FormatInt (i64 (int 512 * 1048576)) = ''536870912''"
    "FormatInt (i64 (int 8589934592 * 1073741824)) = ''-9223372036854775808''"
    by (simp_all add: FormatInt_def FormatUint.simps digit_char_def char_of_def i64_def bit_0)
  with P show ?thesis by simp
qed

text \<open>Which custom resources an operator takes on: with cluster scope exactly those annotated
  \<open>cluster-scoped\<close>, with namespace scope exactly those that carry no scope annotation. So no
  resource is managed in both modes, and one whose annotation has any other value is in neither.\<close>

lemma ShoudManage_exclusive:
  "\<not> (ShoudManage True ann \<and> ShoudManage False ann)
   \<and> (ShoudManage True ann \<longleftrightarrow> map_of ann AnnotationScope = Some AnnotationClusterScoped)
   \<and> (ShoudManage False ann \<longleftrightarrow> map_of ann AnnotationScope = None)"
  by (auto simp: ShoudManage_def split: option.splits)

end
