(* ===== verification/AllocSlots.thy ===== *)
theory AllocSlots
  imports AdminApi Utils
begin

text \<open>
  \<open>AllocSlots\<close> of \<open>pkg/controller/clustering/rebalance.go\<close>: the first distribution of the hash slots
  over the masters of a new cluster. The boundaries of the ranges are computed in \<open>float64\<close>, by
  adding the same quotient again and again; the theorem shows that the accumulated rounding
  errors never cost or double a slot.
\<close>

text \<open>\<open>redisutil.Slot(n)\<close> of an \<open>int\<close>, and \<open>int\<close> of a \<open>Slot\<close>.\<close>

definition int_to_Slot :: "int \<Rightarrow> Slot" where
  "int_to_Slot n = nat (n mod 2 ^ 64)"

definition Slot_to_int :: "Slot \<Rightarrow> int" where
  "Slot_to_int s = i64 (int s)"

text \<open>\<open>None\<close> is a call of \<open>BuildSlotSlice\<close> that never returns.\<close>

fun AllocSlots_loop :: "('w, 'm) IAdmin_scheme \<Rightarrow> int \<Rightarrow> int \<Rightarrow> f64 \<Rightarrow> int \<Rightarrow> Nodes \<Rightarrow> int \<Rightarrow> f64
    \<Rightarrow> nheap \<Rightarrow> 'w \<Rightarrow> (goerr option \<times> nheap \<times> 'w) option" where
  "AllocSlots_loop adm mastersNum clusterHashSlots slotsPerNode index [] first cursor h w = Some (None, h, w)"
| "AllocSlots_loop adm mastersNum clusterHashSlots slotsPerNode index (node # nodes) first cursor h w =
     (let last = Round (f64_sub (f64_add cursor slotsPerNode) (Fin 1));
          last = (if last > clusterHashSlots \<or> index = mastersNum - 1 then clusterHashSlots - 1 else last);
          last = (if last < first then first else last)
      in case BuildSlotSlice (int_to_Slot first) (int_to_Slot last) of
           None \<Rightarrow> None
         | Some slots \<Rightarrow>
             let h = h(node := (h node)\<lparr>Slots := slots\<rparr>);
                 (err, w) = adm_AddSlots adm (IPPort (h node)) (Slots (h node)) w
             in case err of
                  Some e \<Rightarrow> Some (Some e, h, w)
                | None \<Rightarrow> AllocSlots_loop adm mastersNum clusterHashSlots slotsPerNode (index + 1) nodes
                            (last + 1) (f64_add cursor slotsPerNode) h w)"

definition Ctx_AllocSlots :: "('w, 'm) IAdmin_scheme \<Rightarrow> Nodes \<Rightarrow> nheap \<Rightarrow> 'w \<Rightarrow> (goerr option \<times> nheap \<times> 'w) option" where
  "Ctx_AllocSlots adm newMasterNodes h w =
     (let mastersNum = int (length newMasterNodes);
          clusterHashSlots = Slot_to_int (u64 (GetHashMaxSlot adm + 1));
          slotsPerNode = f64_div (f64_of_int clusterHashSlots) (f64_of_int mastersNum)
      in AllocSlots_loop adm mastersNum clusterHashSlots slotsPerNode 0 newMasterNodes 0 (Fin 0) h w)"

section \<open>The boundaries\<close>

text \<open>The exact width of a range, the computed width, the computed cursor, and the end of the
  range of the \<open>i\<close>-th master.\<close>

definition width :: "nat \<Rightarrow> rat" where
  "width n = 16384 / of_nat n"

definition fwidth :: "nat \<Rightarrow> rat" where
  "fwidth n = fl (width n)"

fun fcursor :: "nat \<Rightarrow> nat \<Rightarrow> rat" where
  "fcursor n 0 = 0"
| "fcursor n (Suc i) = fl (fcursor n i + fwidth n)"

definition fboundary :: "nat \<Rightarrow> nat \<Rightarrow> rat" where
  "fboundary n i = fl (fl (fcursor n (Suc i) - 1) + 1 / 2)"

lemma width_bounds:
  assumes "1 \<le> n" and "n \<le> 16384"
  shows "1 \<le> width n" and "width n \<le> 16384" and "\<bar>fwidth n - width n\<bar> \<le> 1 / 2 ^ 39"
proof -
  have n: "1 \<le> (of_nat n :: rat)" "(of_nat n :: rat) \<le> 16384"
    using of_nat_mono [where 'a = rat, OF assms(1)] of_nat_mono [where 'a = rat, OF assms(2)] by simp_all
  then show 1: "1 \<le> width n" and 2: "width n \<le> 16384"
    by (simp_all add: width_def le_divide_eq divide_le_eq)
  have "\<bar>fwidth n - width n\<bar> \<le> 16384 / 2 ^ 53"
    unfolding fwidth_def using 1 2 by (intro binary64.rnd_bound) simp
  then show "\<bar>fwidth n - width n\<bar> \<le> 1 / 2 ^ 39" by simp
qed

lemma fcursor_error:
  assumes "1 \<le> n" and "n \<le> 16384" and "i \<le> n"
  shows "\<bar>fcursor n i - of_nat i * width n\<bar> \<le> of_nat i / 2 ^ 36"
  using assms(3)
proof (induction i)
  case (Suc i)
  let ?c = "fcursor n i" and ?x = "of_nat i * width n"
  note w = width_bounds [OF assms(1,2)]
  have i: "(of_nat i :: rat) \<le> 16384" "(of_nat i :: rat) \<le> of_nat n"
    using of_nat_mono [where 'a = rat, of i 16384] of_nat_mono [where 'a = rat, of i n] Suc.prems assms(2)
    by simp_all
  then have "?x \<le> of_nat n * width n"
    using w(1) by (intro mult_right_mono) simp_all
  moreover have "of_nat n * width n = 16384"
    using assms(1) by (simp add: width_def)
  moreover have "0 \<le> ?x" using w(1) by simp
  ultimately have x: "\<bar>?x\<bar> \<le> 16384" by simp
  have IH: "\<bar>?c - ?x\<bar> \<le> of_nat i / 2 ^ 36" using Suc by simp
  have small: "of_nat i / 2 ^ 36 \<le> (1 :: rat)" "1 / 2 ^ 39 \<le> (1 :: rat)" using i(1) by simp_all
  have "\<bar>?c + fwidth n\<bar> \<le> 65536"
    using IH x w small by arith
  from binary64.rnd_add_error [OF IH w(3) this]
  have "\<bar>fcursor n (Suc i) - (?x + width n)\<bar> \<le> of_nat i / 2 ^ 36 + 1 / 2 ^ 39 + 65536 / 2 ^ 53"
    by simp
  also have "\<dots> \<le> of_nat (Suc i) / 2 ^ 36" by (simp add: field_simps)
  finally show ?case by (simp add: algebra_simps)
qed simp

lemma fcursor_unit: "i \<le> 16384 \<Longrightarrow> fcursor 16384 i = of_nat i"
proof (induction i)
  case (Suc i)
  then show ?case
    using fl_of_int [of 1] fl_of_int [of "int (Suc i)"]
    by (simp add: fwidth_def width_def add.commute)
qed simp

lemma width_gt_1: "1 \<le> n \<Longrightarrow> n < 16384 \<Longrightarrow> 1 + 1 / 2 ^ 15 \<le> width n"
proof -
  assume n: "1 \<le> n" "n < 16384"
  then have "(of_nat n :: rat) \<le> of_nat 16383" by (intro of_nat_mono) simp
  then have "of_nat n * (1 + 1 / 2 ^ 15) \<le> (16384 :: rat)" by simp
  then show ?thesis using n by (simp add: width_def pos_le_divide_eq mult.commute)
qed

text \<open>The computed boundary of range \<open>i\<close> is within \<open>2 ^ -20\<close> of \<open>(i + 1) * width - 1/2\<close>.\<close>

lemma fboundary_error:
  assumes "1 \<le> n" and "n \<le> 16384" and "i < n"
  shows "\<bar>fboundary n i - (of_nat (Suc i) * width n - 1 / 2)\<bar> \<le> 1 / 2 ^ 20"
    and "0 \<le> fl (fcursor n (Suc i) - 1)"
proof -
  let ?c = "fcursor n (Suc i)" and ?x = "of_nat (Suc i) * width n"
  have i: "(of_nat (Suc i) :: rat) \<le> 16384" "(of_nat (Suc i) :: rat) \<le> of_nat n"
    using of_nat_mono [where 'a = rat, of "Suc i" 16384] of_nat_mono [where 'a = rat, of "Suc i" n] assms
    by simp_all
  note w = width_bounds [OF assms(1,2)]
  have "?x \<le> of_nat n * width n"
    using w(1) i by (intro mult_right_mono) simp_all
  moreover have "of_nat n * width n = 16384"
    using assms(1) by (simp add: width_def)
  moreover have "0 \<le> ?x" using w(1) by simp
  ultimately have x: "0 \<le> ?x" "?x \<le> 16384" by simp_all
  have "\<bar>?c - ?x\<bar> \<le> of_nat (Suc i) / 2 ^ 36"
    using assms by (intro fcursor_error) simp_all
  also have "of_nat (Suc i) / 2 ^ 36 \<le> (16384 :: rat) / 2 ^ 36"
    using i(1) by (intro divide_right_mono) simp_all
  finally have c: "\<bar>?c - ?x\<bar> \<le> 1 / 2 ^ 22" by simp
  have one: "\<bar>(- 1 :: rat) - - 1\<bar> \<le> 0" and half: "\<bar>1 / 2 - 1 / 2 :: rat\<bar> \<le> 0" by simp_all
  have small: "1 / 2 ^ 22 \<le> (1 :: rat)" by simp
  have "\<bar>?c + - 1\<bar> \<le> 65536" using c x small by arith
  from binary64.rnd_add_error [OF c one this]
  have d: "\<bar>fl (?c - 1) - (?x - 1)\<bar> \<le> 1 / 2 ^ 21" by simp
  then have "\<bar>fl (?c - 1) + 1 / 2\<bar> \<le> 65536"
  proof -
    have "1 / 2 ^ 21 \<le> (1 :: rat)" by simp
    with d x show ?thesis by arith
  qed
  from binary64.rnd_add_error [OF d half this]
  have "\<bar>fboundary n i - (?x - 1 + 1 / 2)\<bar> \<le> 1 / 2 ^ 21 + 0 + 65536 / 2 ^ 53"
    unfolding fboundary_def .
  also have "\<dots> \<le> (1 :: rat) / 2 ^ 20" by simp
  finally show "\<bar>fboundary n i - (?x - 1 / 2)\<bar> \<le> 1 / 2 ^ 20" by simp
  show "0 \<le> fl (?c - 1)"
  proof (rule fl_nonneg, cases "n = 16384")
    case True
    then show "0 \<le> ?c - 1" using fcursor_unit [of "Suc i"] assms(3) by (simp del: fcursor.simps)
  next
    case False
    then have "1 + 1 / 2 ^ 15 \<le> width n" using assms by (intro width_gt_1) simp_all
    moreover have "width n \<le> ?x" using w(1) by (simp add: distrib_right)
    moreover have "1 / 2 ^ 22 \<le> (1 / 2 ^ 15 :: rat)" by simp
    ultimately show "0 \<le> ?c - 1" using c by arith
  qed
qed

text \<open>All boundaries, those of the code inside and the exact ones at both ends.\<close>

definition bnd :: "nat \<Rightarrow> nat \<Rightarrow> rat" where
  "bnd n j = (if j = 0 then - (1 / 2) else if j = n then 16383 + 1 / 2 else fboundary n (j - 1))"

lemma bnd_error:
  assumes "1 \<le> n" and "n \<le> 16384" and "j \<le> n"
  shows "\<bar>bnd n j - (of_nat j * width n - 1 / 2)\<bar> \<le> 1 / 2 ^ 20"
proof (cases "j = 0 \<or> j = n")
  case True
  then show ?thesis using assms(1) by (auto simp: bnd_def width_def)
next
  case False
  then have "j - 1 < n" "Suc (j - 1) = j" using assms(3) by auto
  then show ?thesis
    using False fboundary_error(1) [OF assms(1,2), of "j - 1"] by (simp add: bnd_def)
qed

lemma width_fraction:
  assumes "1 \<le> n" and "n \<le> 16384"
  shows "width n = of_nat (16384 div n)
    \<or> of_nat (16384 div n) + 1 / 2 ^ 14 \<le> width n \<and> width n \<le> of_nat (16384 div n) + 1 - 1 / 2 ^ 14 \<and> 16384 mod n \<noteq> 0"
proof -
  let ?k = "16384 div n" and ?r = "16384 mod n"
  have pos: "0 < (of_nat n :: rat)" using assms(1) by simp
  have "of_nat ?k * of_nat n + of_nat ?r = (16384 :: rat)"
    by (metis div_mult_mod_eq of_nat_add of_nat_mult of_nat_numeral)
  then have w: "width n = of_nat ?k + of_nat ?r / of_nat n"
    using pos by (simp add: width_def field_simps)
  show ?thesis
  proof (cases "?r = 0")
    case False
    have "1 / 2 ^ 14 \<le> (1 :: rat) / of_nat n"
      using assms of_nat_mono [where 'a = rat, OF assms(2)] by (intro divide_left_mono) simp_all
    moreover have "(1 :: rat) / of_nat n \<le> of_nat ?r / of_nat n"
      using False pos by (intro divide_right_mono) (simp_all add: Suc_leI)
    moreover have "of_nat ?r / of_nat n \<le> (1 :: rat) - 1 / of_nat n"
    proof -
      have "?r \<le> n - 1" using assms(1) by (metis Suc_pred' less_Suc_eq_le mod_less_divisor not_less_eq_eq One_nat_def not_gr_zero not_one_le_zero)
      then have "(of_nat ?r :: rat) \<le> of_nat (n - 1)" by (rule of_nat_mono)
      then have "(of_nat ?r :: rat) / of_nat n \<le> (of_nat n - 1) / of_nat n"
        using assms(1) by (intro divide_right_mono) (simp_all add: of_nat_diff)
      then show ?thesis using pos by (simp add: diff_divide_distrib)
    qed
    ultimately show ?thesis using w False by linarith
  qed (use w in simp)
qed

lemma floor_step:
  assumes "1 \<le> n" and "n \<le> 16384" and "j < n"
  shows "\<lfloor>bnd n (Suc j)\<rfloor> - \<lfloor>bnd n j\<rfloor> = int (16384 div n)
    \<or> \<lfloor>bnd n (Suc j)\<rfloor> - \<lfloor>bnd n j\<rfloor> = int (16384 div n) + 1 \<and> 16384 mod n \<noteq> 0"
proof -
  let ?k = "16384 div n"
  have small: "1 / 2 ^ 20 + 1 / 2 ^ 20 < (1 / 2 ^ 14 :: rat)" "1 / 2 ^ 20 < (1 / 2 :: rat)" by simp_all
  have b: "\<bar>bnd n j - (of_nat j * width n - 1 / 2)\<bar> \<le> 1 / 2 ^ 20"
    "\<bar>bnd n (Suc j) - (of_nat j * width n + width n - 1 / 2)\<bar> \<le> 1 / 2 ^ 20"
    using bnd_error [OF assms(1,2), of j] bnd_error [OF assms(1,2), of "Suc j"] assms(3)
    by (simp_all add: algebra_simps)
  from width_fraction [OF assms(1,2)] show ?thesis
  proof (elim disjE conjE)
    assume w: "width n = of_nat ?k"
    have fl: "\<lfloor>bnd n i\<rfloor> = int i * int ?k - 1" if "i \<le> n" for i
    proof -
      have "\<bar>bnd n i - (of_int (int i * int ?k) - 1 / 2)\<bar> \<le> 1 / 2 ^ 20"
        using bnd_error [OF assms(1,2) that] w by simp
      with small(2) show ?thesis by (simp only: floor_eq_iff of_int_diff of_int_1) arith
    qed
    show ?thesis using fl [of j] fl [of "Suc j"] assms(3) by (simp add: algebra_simps)
  next
    assume "of_nat ?k + 1 / 2 ^ 14 \<le> width n" "width n \<le> of_nat ?k + 1 - 1 / 2 ^ 14" "16384 mod n \<noteq> 0"
    then have "bnd n j + of_int (int ?k) < bnd n (Suc j)" "bnd n (Suc j) < bnd n j + of_int (int ?k) + 1"
      using b small(1) unfolding of_int_of_nat_eq by arith+
    then have "\<lfloor>bnd n (Suc j)\<rfloor> - \<lfloor>bnd n j\<rfloor> \<in> {int ?k, int ?k + 1}"
      by simp linarith
    with \<open>16384 mod n \<noteq> 0\<close> show ?thesis by auto
  qed
qed

text \<open>The first slot of the \<open>j\<close>-th range.\<close>

definition slot_start :: "nat \<Rightarrow> nat \<Rightarrow> nat" where
  "slot_start n j = nat (\<lfloor>bnd n j\<rfloor> + 1)"

lemma bnd_0: "\<lfloor>bnd n 0\<rfloor> = - 1"
  by (simp add: bnd_def floor_eq_iff)

lemma bnd_n: "1 \<le> n \<Longrightarrow> \<lfloor>bnd n n\<rfloor> = 16383"
  by (simp add: bnd_def floor_eq_iff)

lemma slot_start_int:
  assumes "1 \<le> n" and "n \<le> 16384" and "j \<le> n"
  shows "int (slot_start n j) = \<lfloor>bnd n j\<rfloor> + 1"
proof -
  have "0 \<le> \<lfloor>bnd n j\<rfloor> + 1"
    using assms(3)
  proof (induction j)
    case (Suc j)
    then show ?case using floor_step [OF assms(1,2), of j] by linarith
  qed (simp add: bnd_0)
  then show ?thesis by (simp add: slot_start_def)
qed

lemma slot_start_step:
  assumes "1 \<le> n" and "n \<le> 16384" and "j < n"
  shows "slot_start n (Suc j) - slot_start n j \<in> {16384 div n, (16384 + n - 1) div n}"
    and "slot_start n j < slot_start n (Suc j)"
proof -
  have "(16384 + n - 1) div n = (if 16384 mod n = 0 then 16384 div n else 16384 div n + 1)"
  proof -
    have "16384 + n - 1 = 16384 div n * n + (16384 mod n + n - 1)" using assms(1) by simp
    then have "(16384 + n - 1) div n = 16384 div n + (16384 mod n + n - 1) div n"
      using assms(1) by (metis add.commute div_mult_self1 less_le_not_le not_gr0 zero_less_one less_numeral_extra(3) mult.commute not_one_le_zero)
    moreover have "(16384 mod n + n - 1) div n = (if 16384 mod n = 0 then 0 else 1)"
    proof -
      define r where "r = 16384 mod n"
      have "r < n" using assms(1) by (simp add: r_def)
      then show ?thesis using assms(1) unfolding r_def [symmetric] by (auto intro!: div_nat_eqI)
    qed
    ultimately show ?thesis by simp
  qed
  moreover have "1 \<le> 16384 div n" using assms(1,2) by (simp add: Suc_leI div_greater_zero_iff)
  moreover note slot_start_int [OF assms(1,2), of j] slot_start_int [OF assms(1,2), of "Suc j"] floor_step [OF assms]
  ultimately show "slot_start n (Suc j) - slot_start n j \<in> {16384 div n, (16384 + n - 1) div n}"
    and "slot_start n j < slot_start n (Suc j)"
    using assms(3) by auto
qed

section \<open>The loop\<close>

text \<open>What \<open>Round\<close> gives for the end of range \<open>i\<close>, before the code looks at the last node.\<close>

lemma Round_boundary:
  assumes "1 \<le> n" and "n \<le> 16384" and "i < n"
  shows "Round (f64_sub (f64_add (Fin (fcursor n i)) (Fin (fwidth n))) (Fin 1)) = \<lfloor>fboundary n i\<rfloor>"
    and "\<lfloor>fboundary n i\<rfloor> \<le> 16384"
proof -
  let ?c = "fl (fcursor n (Suc i) - 1)"
  note e = fboundary_error [OF assms]
  have "of_nat (Suc i) * width n \<le> of_nat n * width n"
  proof (rule mult_right_mono)
    show "(of_nat (Suc i) :: rat) \<le> of_nat n" using assms(3) by (intro of_nat_mono) simp
  qed (use width_bounds(1) [OF assms(1,2)] in simp)
  also have "\<dots> = 16384" using assms(1) by (simp add: width_def)
  finally have x: "of_nat (Suc i) * width n \<le> 16384" .
  have "1 / 2 ^ 20 \<le> (1 / 2 :: rat)" by simp
  with e(1) x have "fboundary n i \<le> 16384" by arith
  then show le: "\<lfloor>fboundary n i\<rfloor> \<le> 16384" by linarith
  have "0 \<le> fboundary n i" unfolding fboundary_def using e(2) by (intro fl_nonneg) simp
  with le show "Round (f64_sub (f64_add (Fin (fcursor n i)) (Fin (fwidth n))) (Fin 1)) = \<lfloor>fboundary n i\<rfloor>"
    using e(2) by (simp add: Round_def f64_sub_def f64_to_int_floor fboundary_def not_less [symmetric]
        del: f64_to_int.simps)
qed

lemma slot_start_mono:
  assumes "1 \<le> n" and "n \<le> 16384" and "i \<le> j" and "j \<le> n"
  shows "slot_start n i \<le> slot_start n j"
  using assms(3,4)
proof (induction rule: dec_induct)
  case (step k)
  then show ?case using slot_start_step(2) [OF assms(1,2), of k] by simp
qed simp

lemma BuildSlotSlice_range:
  assumes "1 \<le> n" and "n \<le> 16384" and "j < n"
  shows "BuildSlotSlice (int_to_Slot (int (slot_start n j))) (int_to_Slot \<lfloor>bnd n (Suc j)\<rfloor>)
     = Some [slot_start n j..<slot_start n (Suc j)]"
proof -
  have "slot_start n n = 16384" using assms(1) by (simp add: slot_start_def bnd_n)
  then have hi: "slot_start n (Suc j) \<le> 16384"
    using slot_start_mono [OF assms(1,2), of "Suc j" n] assms(3) by simp
  have lt: "slot_start n j < slot_start n (Suc j)"
    by (rule slot_start_step(2) [OF assms])
  have "\<lfloor>bnd n (Suc j)\<rfloor> = int (slot_start n (Suc j) - 1)"
    using slot_start_int [OF assms(1,2), of "Suc j"] assms(3) lt by simp
  then have "int_to_Slot \<lfloor>bnd n (Suc j)\<rfloor> = slot_start n (Suc j) - 1" "int_to_Slot (int (slot_start n j)) = slot_start n j"
    using hi lt by (simp_all add: int_to_Slot_def)
  then show ?thesis
    using hi lt by (simp del: upt_Suc)
qed

text \<open>One pass of the loop.\<close>

lemma AllocSlots_step:
  assumes "1 \<le> n" and "n \<le> 16384" and "i < n"
  shows "AllocSlots_loop adm (int n) 16384 (Fin (fwidth n)) (int i) (r # rs) (int (slot_start n i)) (Fin (fcursor n i)) h w
    = (let h = h(r := (h r)\<lparr>Slots := [slot_start n i..<slot_start n (Suc i)]\<rparr>);
           (err, w) = adm_AddSlots adm (IPPort (h r)) (Slots (h r)) w
       in case err of Some e \<Rightarrow> Some (Some e, h, w)
          | None \<Rightarrow> AllocSlots_loop adm (int n) 16384 (Fin (fwidth n)) (int (Suc i)) rs
                      (int (slot_start n (Suc i))) (Fin (fcursor n (Suc i))) h w)"
proof -
  let ?last = "Round (f64_sub (f64_add (Fin (fcursor n i)) (Fin (fwidth n))) (Fin 1))"
  have last: "(if ?last > 16384 \<or> int i = int n - 1 then 16384 - 1 else ?last) = \<lfloor>bnd n (Suc i)\<rfloor>"
    using Round_boundary [OF assms] assms bnd_n [OF assms(1)]
    by (auto simp: bnd_def simp del: f64_add.simps)
  have ge: "\<not> \<lfloor>bnd n (Suc i)\<rfloor> < int (slot_start n i)" and nxt: "\<lfloor>bnd n (Suc i)\<rfloor> + 1 = int (slot_start n (Suc i))"
    using slot_start_int [OF assms(1,2), of "Suc i"] slot_start_step(2) [OF assms] assms(3) by simp_all
  show ?thesis
    unfolding AllocSlots_loop.simps Let_def last if_not_P [OF ge] nxt BuildSlotSlice_range [OF assms]
    by (simp add: add.commute split: option.splits prod.splits)
qed

lemma AllocSlots_loop_ok:
  assumes "1 \<le> n" and "n \<le> 16384" and "i + length rs = n" and "distinct rs"
  shows "\<exists>err h' w'. AllocSlots_loop adm (int n) 16384 (Fin (fwidth n)) (int i) rs (int (slot_start n i))
        (Fin (fcursor n i)) h w = Some (err, h', w')
    \<and> (\<forall>q. h' q = (h q)\<lparr>Slots := Slots (h' q)\<rparr> \<and> (q \<notin> set rs \<longrightarrow> h' q = h q))
    \<and> (err = None \<longrightarrow> map (\<lambda>r. Slots (h' r)) rs = map (\<lambda>j. [slot_start n j..<slot_start n (Suc j)]) [i..<n])
    \<and> ((\<forall>a s w. fst (adm_AddSlots adm a s w) = None) \<longrightarrow> err = None)"
  using assms(3,4)
proof (induction rs arbitrary: i h w)
  case Nil
  then show ?case by simp
next
  case (Cons r rs)
  let ?h = "h(r := (h r)\<lparr>Slots := [slot_start n i..<slot_start n (Suc i)]\<rparr>)"
  obtain err w1 where add: "adm_AddSlots adm (IPPort (?h r)) (Slots (?h r)) w = (err, w1)" by fastforce
  have i: "i < n" using Cons.prems(1) by simp
  note step = AllocSlots_step [OF assms(1,2) i, of adm r rs h w]
  show ?case
  proof (cases err)
    case (Some e)
    then have "\<not> (\<forall>a s w. fst (adm_AddSlots adm a s w) = None)" using add by (metis fst_conv option.distinct(1))
    with Some add show ?thesis unfolding step by (auto simp: Let_def)
  next
    case None
    have "Suc i + length rs = n" "distinct rs" using Cons.prems by simp_all
    from Cons.IH [OF this, of ?h w1] obtain err' h' w' where
      IH: "AllocSlots_loop adm (int n) 16384 (Fin (fwidth n)) (int (Suc i)) rs (int (slot_start n (Suc i)))
        (Fin (fcursor n (Suc i))) ?h w1 = Some (err', h', w')"
      "\<forall>q. h' q = (?h q)\<lparr>Slots := Slots (h' q)\<rparr> \<and> (q \<notin> set rs \<longrightarrow> h' q = ?h q)"
      "err' = None \<longrightarrow> map (\<lambda>r. Slots (h' r)) rs = map (\<lambda>j. [slot_start n j..<slot_start n (Suc j)]) [Suc i..<n]"
      "(\<forall>a s w. fst (adm_AddSlots adm a s w) = None) \<longrightarrow> err' = None"
      by blast
    have "h' q = (h q)\<lparr>Slots := Slots (h' q)\<rparr>" for q
      using IH(2) [rule_format, of q] by (auto split: if_splits)
    moreover have "h' q = h q" if "q \<notin> set (r # rs)" for q
      using IH(2) [rule_format, of q] that by simp
    moreover have "map (\<lambda>r. Slots (h' r)) (r # rs) = map (\<lambda>j. [slot_start n j..<slot_start n (Suc j)]) [i..<n]"
      if "err' = None"
      using IH(2) [rule_format, of r] IH(3) that Cons.prems(2) i by (simp add: upt_conv_Cons)
    moreover have "AllocSlots_loop adm (int n) 16384 (Fin (fwidth n)) (int i) (r # rs) (int (slot_start n i))
        (Fin (fcursor n i)) h w = Some (err', h', w')"
      unfolding step Let_def add prod.case None option.case by (rule IH(1))
    ultimately show ?thesis using IH(4) by blast
  qed
qed

lemma concat_ranges:
  assumes "i \<le> n" and "\<And>j. i \<le> j \<Longrightarrow> j < n \<Longrightarrow> f j \<le> f (Suc j)"
  shows "concat (map (\<lambda>j. [f j..<f (Suc j)]) [i..<n]) = [f i..<f n] \<and> f i \<le> f n"
  using assms
proof (induction n rule: dec_induct)
  case (step n)
  have "concat (map (\<lambda>j. [f j..<f (Suc j)]) [i..<n]) = [f i..<f n] \<and> f i \<le> f n"
    by (rule step.IH) (use step in simp)
  moreover have "f n \<le> f (Suc n)" using step by simp
  ultimately show ?case
    using step.hyps upt_add_eq_append [of "f i" "f n" "f (Suc n) - f n"] by simp
qed simp

lemma AllocSlots_ok:
  assumes "GetHashMaxSlot adm = 16383" and "distinct ms" and "1 \<le> length ms" and "length ms \<le> 16384"
  shows "\<exists>err h' w'. Ctx_AllocSlots adm ms h w = Some (err, h', w')
    \<and> (err = None \<longrightarrow> concat (map (\<lambda>r. Slots (h' r)) ms) = [0..<16384]
         \<and> (\<forall>r\<in>set ms. length (Slots (h' r)) \<in> {16384 div length ms, (16384 + length ms - 1) div length ms}))
    \<and> ((\<forall>a s w. fst (adm_AddSlots adm a s w) = None) \<longrightarrow> err = None)
    \<and> (\<forall>q. h' q = (h q)\<lparr>Slots := Slots (h' q)\<rparr> \<and> (q \<notin> set ms \<longrightarrow> h' q = h q))"
proof -
  let ?n = "length ms"
  have start0: "int (slot_start ?n 0) = 0" "slot_start ?n 0 = 0"
    by (simp_all add: slot_start_def bnd_0)
  have "f64_div (f64_of_int 16384) (f64_of_int (int ?n)) = Fin (fwidth ?n)"
    using assms(3,4) by (auto simp: f64_of_int_small fwidth_def width_def)
  then have eq: "Ctx_AllocSlots adm ms h w
      = AllocSlots_loop adm (int ?n) 16384 (Fin (fwidth ?n)) (int 0) ms (int (slot_start ?n 0)) (Fin (fcursor ?n 0)) h w"
    using assms(1) start0 by (simp add: Ctx_AllocSlots_def Slot_to_int_def Let_def)
  from AllocSlots_loop_ok [OF assms(3,4) add_0 assms(2), of adm h w, folded eq] obtain err h' w' where
    run: "Ctx_AllocSlots adm ms h w = Some (err, h', w')"
    and frame: "\<forall>q. h' q = (h q)\<lparr>Slots := Slots (h' q)\<rparr> \<and> (q \<notin> set ms \<longrightarrow> h' q = h q)"
    and ranges: "err = None \<longrightarrow> map (\<lambda>r. Slots (h' r)) ms = map (\<lambda>j. [slot_start ?n j..<slot_start ?n (Suc j)]) [0..<?n]"
    and ok: "(\<forall>a s w. fst (adm_AddSlots adm a s w) = None) \<longrightarrow> err = None"
    by blast
  have "slot_start ?n ?n = 16384"
    using assms(3) by (simp add: slot_start_def bnd_n)
  moreover have "concat (map (\<lambda>j. [slot_start ?n j..<slot_start ?n (Suc j)]) [0..<?n])
      = [slot_start ?n 0..<slot_start ?n ?n]"
    by (rule conjunct1 [OF concat_ranges]) (use slot_start_step(2) [OF assms(3,4)] in \<open>simp_all add: less_imp_le\<close>)
  ultimately have "concat (map (\<lambda>r. Slots (h' r)) ms) = [0..<16384]" if "err = None"
    using ranges [rule_format, OF that] start0(2) by simp
  moreover have "length (Slots (h' r)) \<in> {16384 div ?n, (16384 + ?n - 1) div ?n}" if "err = None" "r \<in> set ms" for r
  proof -
    have "Slots (h' r) \<in> set (map (\<lambda>j. [slot_start ?n j..<slot_start ?n (Suc j)]) [0..<?n])"
      using that(2) unfolding ranges [rule_format, OF that(1), symmetric] by simp
    then obtain j where "j < ?n" "Slots (h' r) = [slot_start ?n j..<slot_start ?n (Suc j)]" by auto
    then show ?thesis using slot_start_step(1) [OF assms(3,4), of j] by simp
  qed
  ultimately show ?thesis
    by (intro exI [of _ err] exI [of _ h'] exI [of _ w'] conjI run impI ballI frame ok)
qed

text \<open>C1. \<open>AllocSlots\<close> for 1 to 16384 masters always returns. If the admin client accepts the
  \<open>ADDSLOTS\<close> calls, the masters' slot lists, one after the other, are exactly the slots 0 to 16383:
  every slot has one owner, each master a contiguous range, and the sizes of two ranges differ by
  at most one. The rounding errors of the \<open>float64\<close> cursor cannot spoil this. No other field and
  no other node changes.\<close>

theorem AllocSlots_partition:
  assumes "GetHashMaxSlot adm = 16383" and "distinct ms" and "1 \<le> length ms" and "length ms \<le> 16384"
  shows "\<exists>err h' w'. Ctx_AllocSlots adm ms h w = Some (err, h', w')
    \<and> (err = None \<longrightarrow> concat (map (\<lambda>r. Slots (h' r)) ms) = [0..<16384]
         \<and> (\<forall>r\<in>set ms. length (Slots (h' r)) \<in> {16384 div length ms, (16384 + length ms - 1) div length ms}))
    \<and> ((\<forall>a s w. fst (adm_AddSlots adm a s w) = None) \<longrightarrow> err = None)
    \<and> (\<forall>q. h' q = (h q)\<lparr>Slots := Slots (h' q)\<rparr> \<and> (q \<notin> set ms \<longrightarrow> h' q = h q))"
  by (rule AllocSlots_ok [OF assms])

theorem AllocSlots_partition_witness:
  "\<exists>h' w'. Ctx_AllocSlots (recording_admin 16383) [2, 3, 4] (\<lambda>_. NewDefaultNode) [] = Some (None, h', w')
     \<and> Slots (h' 2) @ Slots (h' 3) @ Slots (h' 4) = [0..<16384]
     \<and> length (Slots (h' 3)) \<in> {5461, 5462}"
proof -
  have h: "GetHashMaxSlot (recording_admin 16383) = 16383" "distinct [2, 3, 4 :: nref]"
    "1 \<le> length [2, 3, 4 :: nref]" "length [2, 3, 4 :: nref] \<le> 16384"
    "\<forall>a s w. fst (adm_AddSlots (recording_admin 16383) a s w) = None"
    by (simp_all add: recording_admin_def)
  from AllocSlots_partition [OF h(1-4), of "\<lambda>_. NewDefaultNode" "[]"] h(5) obtain h' w' where
    "Ctx_AllocSlots (recording_admin 16383) [2, 3, 4] (\<lambda>_. NewDefaultNode) [] = Some (None, h', w')"
    "concat (map (\<lambda>r. Slots (h' r)) [2, 3, 4]) = [0..<16384]"
    "\<forall>r\<in>set [2, 3, 4]. length (Slots (h' r))
       \<in> {16384 div length [2, 3, 4 :: nref], (16384 + length [2, 3, 4 :: nref] - 1) div length [2, 3, 4 :: nref]}"
    by blast
  then show ?thesis by (simp del: upt_Suc)
qed

end
