(* ===== verification/Rebalance.thy ===== *)
theory Rebalance
  imports PlacementV2 AllocSlots
begin

text \<open>
  \<open>RebalancedCluster\<close>, \<open>computeReshardTable\<close> and \<open>moveSlot\<close> of
  \<open>pkg/controller/clustering/rebalance.go\<close>: moving slots from the masters that own too many to
  those that own too few when a cluster is scaled up. The two loops of \<open>RebalancedCluster\<close> need not
  end, so they are partial functions (\<open>None\<close> is a loop that runs forever); a run that ends may
  panic in \<open>computeReshardTable\<close>.
\<close>

record MovedNode =
  Source :: nref
  moved_Slot :: Slot

section \<open>The resharding plan\<close>

fun reshard_slots :: "nref \<Rightarrow> Slot list \<Rightarrow> int \<Rightarrow> nat list \<Rightarrow> MovedNode list \<Rightarrow> MovedNode list outcome" where
  "reshard_slots node keys numSlots [] moved = Ret moved"
| "reshard_slots node keys numSlots (i # is) moved =
     (if int (length moved) < numSlots
      then outcome_bind (go_index keys i) (\<lambda>s.
             reshard_slots node keys numSlots is (moved @ [\<lparr>Source = node, moved_Slot = s\<rparr>]))
      else reshard_slots node keys numSlots is moved)"

fun reshard_nodes :: "nheap \<Rightarrow> int \<Rightarrow> int \<Rightarrow> nat \<Rightarrow> Nodes \<Rightarrow> MovedNode list \<Rightarrow> MovedNode list outcome" where
  "reshard_nodes h numSlots sourceTotSlots idx [] moved = Ret moved"
| "reshard_nodes h numSlots sourceTotSlots idx (node # sources) moved =
     (let n = f64_mul (f64_div (f64_of_int numSlots) (f64_of_int sourceTotSlots))
                (f64_of_int (int (TotalSlots (h node))));
          n = (if idx = 0 then f64_Ceil n else f64_Floor n);
          keys = Slots (h node)
      in outcome_bind (reshard_slots node keys numSlots [0..<nat (f64_to_int n)] moved)
           (reshard_nodes h numSlots sourceTotSlots (idx + 1) sources))"

definition computeReshardTable :: "go_env \<Rightarrow> nheap \<Rightarrow> Nodes \<Rightarrow> int \<Rightarrow> MovedNode list outcome" where
  "computeReshardTable env h src numSlots =
     (let sources = SortByFunc env (\<lambda>a b. TotalSlots (h a) < TotalSlots (h b)) src;
          sourceTotSlots = sum_list (map (\<lambda>r. int (TotalSlots (h r))) sources)
      in reshard_nodes h numSlots sourceTotSlots 0 sources [])"

section \<open>Moving slots\<close>

definition Ctx_moveSlot :: "('w, 'm) IAdmin_scheme \<Rightarrow> MovedNode \<Rightarrow> nref \<Rightarrow> nheap \<Rightarrow> 'w
    \<Rightarrow> goerr option \<times> nheap \<times> 'w" where
  "Ctx_moveSlot adm source target h w =
     (let src = Source source; slot = moved_Slot source;
          (err, w) = adm_SetSlot adm (IPPort (h target)) ''IMPORTING'' slot (ID (h target)) w
      in if err \<noteq> None then (err, h, w) else
      let (err, w) = adm_SetSlot adm (IPPort (h src)) ''MIGRATING'' slot (ID (h src)) w
      in if err \<noteq> None then (err, h, w) else
      let ((nb, err), w) = adm_MigrateKeysInSlot adm (IPPort (h src)) (h target) slot 10 30000 True w
      in if err \<noteq> None then (err, h, w) else
      let (err, w) = adm_SetSlot adm (IPPort (h target)) ''NODE'' slot (ID (h target)) w;
          (err, w) = adm_SetSlot adm (IPPort (h src)) ''NODE'' slot (ID (h target)) w
      in (None, h(src := (h src)\<lparr>Slots := RemoveSlot (Slots (h src)) slot\<rparr>), w))"

fun move_table :: "('w, 'm) IAdmin_scheme \<Rightarrow> nref \<Rightarrow> MovedNode list \<Rightarrow> nheap \<Rightarrow> 'w
    \<Rightarrow> goerr option \<times> nheap \<times> 'w" where
  "move_table adm dst [] h w = (None, h, w)"
| "move_table adm dst (e # es) h w =
     (let (err, h, w) = Ctx_moveSlot adm e dst h w
      in if err \<noteq> None then (err, h, w) else move_table adm dst es h w)"

section \<open>Balancing\<close>

definition SetBalance :: "int \<Rightarrow> Node \<Rightarrow> Node" where
  "SetBalance b n = n\<lparr>balance := b\<rparr>"

fun set_balances :: "('w, 'm) IAdmin_scheme \<Rightarrow> int \<Rightarrow> Nodes \<Rightarrow> nheap \<Rightarrow> nheap" where
  "set_balances adm nbNode [] h = h"
| "set_balances adm nbNode (node # ns) h =
     (let expected = f64_to_int (f64_div (f64_of_int (int (u64 (GetHashMaxSlot adm + 1)))) (f64_of_int nbNode))
      in set_balances adm nbNode ns (h(node := SetBalance (int (length (Slots (h node))) - expected) (h node))))"

text \<open>One pass over the nodes, and the loop around it.\<close>

fun balance_pass :: "Nodes \<Rightarrow> nheap \<Rightarrow> int \<Rightarrow> nheap \<times> int" where
  "balance_pass [] h totalBalance = (h, totalBalance)"
| "balance_pass (node # ns) h totalBalance =
     (if balance (h node) < 0 \<and> totalBalance > 0
      then balance_pass ns (h(node := SetBalance (balance (h node) - 1) (h node))) (totalBalance - 1)
      else balance_pass ns h totalBalance)"

partial_function (option) balance_loop :: "Nodes \<Rightarrow> nheap \<Rightarrow> int \<Rightarrow> nheap option" where
  "balance_loop ns h totalBalance =
     (if totalBalance > 0 then let (h, totalBalance) = balance_pass ns h totalBalance in balance_loop ns h totalBalance
      else Some h)"

text \<open>The loop that moves slots. Inside it \<open>0 \<le> dstIdx < srcIdx < len(sn)\<close>, so the indices are in
  range.\<close>

partial_function (option) move_loop :: "('w, 'm) IAdmin_scheme \<Rightarrow> go_env \<Rightarrow> Nodes \<Rightarrow> int \<Rightarrow> int \<Rightarrow> nheap \<Rightarrow> 'w
    \<Rightarrow> (goerr option \<times> nheap \<times> 'w) outcome option" where
  "move_loop adm env sn dstIdx srcIdx h w =
     (if dstIdx < srcIdx then
        let dst = sn ! nat dstIdx; src = sn ! nat srcIdx;
            ab = (\<lambda>r. f64_abs (f64_of_int (balance (h r))));
            numSlots = (if f64_less (ab dst) (ab src) then ab dst else ab src);
            result = (if f64_less (Fin 0) numSlots
                      then outcome_bind (computeReshardTable env h [src] (f64_to_int numSlots))
                             (\<lambda>reshardTable. Ret (move_table adm dst reshardTable h w))
                      else Ret (None, h, w))
        in case result of
             Panic p \<Rightarrow> Some (Panic p)
           | Ret (err, h, w) \<Rightarrow>
               if err \<noteq> None then Some (Ret (err, h, w))
               else
                 let h = h(dst := SetBalance (balance (h dst) + f64_to_int numSlots) (h dst));
                     h = h(src := SetBalance (balance (h src) - f64_to_int numSlots) (h src))
                 in move_loop adm env sn
                      (if balance (h dst) = 0 then dstIdx + 1 else dstIdx)
                      (if balance (h src) = 0 then srcIdx - 1 else srcIdx) h w
      else Some (Ret (None, h, w)))"

definition Ctx_RebalancedCluster :: "('w, 'm) IAdmin_scheme \<Rightarrow> go_env \<Rightarrow> Nodes \<Rightarrow> nheap \<Rightarrow> 'w
    \<Rightarrow> (goerr option \<times> nheap \<times> 'w) outcome option" where
  "Ctx_RebalancedCluster adm env newMasterNodes h w =
     (let nbNode = int (length newMasterNodes);
          h = set_balances adm nbNode newMasterNodes h;
          totalBalance = sum_list (map (\<lambda>r. balance (h r)) newMasterNodes)
      in case balance_loop newMasterNodes h totalBalance of
           None \<Rightarrow> None
         | Some h \<Rightarrow>
             let sn = SortByFunc env (\<lambda>a b. balance (h a) < balance (h b)) newMasterNodes
             in move_loop adm env sn 0 (int (length sn) - 1) h w)"

section \<open>The plan for one source\<close>

lemma reshard_slots_full:
  "numSlots \<le> int (length moved) \<Longrightarrow> reshard_slots node keys numSlots is moved = Ret moved"
  by (induction "is") auto

lemma reshard_slots_take:
  assumes "k \<le> length keys" and "k \<le> m" and "i \<le> k"
  shows "reshard_slots node keys (int k) [i..<m] (map (\<lambda>s. \<lparr>Source = node, moved_Slot = s\<rparr>) (take i keys))
     = Ret (map (\<lambda>s. \<lparr>Source = node, moved_Slot = s\<rparr>) (take k keys))"
  using assms(3)
proof (induction i rule: inc_induct)
  case base
  then show ?case using assms by (simp add: reshard_slots_full)
next
  case (step i)
  then have "[i..<m] = i # [Suc i..<m]" "i < length keys" using assms by (simp_all add: upt_conv_Cons)
  moreover have "take i keys @ [keys ! i] = take (Suc i) keys"
    using \<open>i < length keys\<close> by (simp add: take_Suc_conv_app_nth)
  then have "map (\<lambda>s. \<lparr>Source = node, moved_Slot = s\<rparr>) (take i keys) @ [\<lparr>Source = node, moved_Slot = keys ! i\<rparr>]
      = map (\<lambda>s. \<lparr>Source = node, moved_Slot = s\<rparr>) (take (Suc i) keys)"
    by (metis (no_types, lifting) map_append list.map)
  ultimately show ?case using step assms by (simp add: go_index_def)
qed

lemma SortByFunc_single: "go_runtime env \<Longrightarrow> SortByFunc env lt [r] = [r]"
  using go_runtime.sort_perm [of env lt "[r]"] by (simp add: SortByFunc_def)

text \<open>The float computation may ask for one slot too many, but the guard on the length of the
  plan drops it: the plan for one source is its first \<open>k\<close> slots.\<close>

lemma computeReshardTable_single:
  assumes "go_runtime env" and "0 < k" and "k \<le> length (Slots (h r))" and "length (Slots (h r)) < 2 ^ 50"
  shows "computeReshardTable env h [r] (int k)
     = Ret (map (\<lambda>s. \<lparr>Source = r, moved_Slot = s\<rparr>) (take k (Slots (h r))))"
proof -
  let ?t = "int (length (Slots (h r)))"
  have "int k < 2 ^ 50" "?t < 2 ^ 50" using assms by simp_all
  then have "int k \<le> f64_to_int (f64_Ceil (f64_mul (f64_div (f64_of_int (int k)) (f64_of_int ?t)) (f64_of_int ?t)))"
    using assms by (intro int_Ceil_share) auto
  then have "k \<le> nat (f64_to_int (f64_Ceil (f64_mul (f64_div (f64_of_int (int k)) (f64_of_int ?t)) (f64_of_int ?t))))"
    by simp
  from reshard_slots_take [OF assms(3) this, of 0 r] show ?thesis
    by (simp add: computeReshardTable_def SortByFunc_single [OF assms(1)] TotalSlots_def)
qed

text \<open>Moving the plan takes the moved slots from the source and changes nothing else; after an
  error the moves already done stay done.\<close>

lemma Ctx_moveSlot_cases:
  assumes "Ctx_moveSlot adm e dst h w = (err, h', w')"
  shows "err = None \<and> h' = h(Source e := (h (Source e))\<lparr>Slots := remove1 (moved_Slot e) (Slots (h (Source e)))\<rparr>)
    \<or> err \<noteq> None \<and> h' = h"
  using assms by (auto simp: Ctx_moveSlot_def Let_def split: prod.splits if_splits)

definition accepts_moves :: "('w, 'm) IAdmin_scheme \<Rightarrow> bool" where
  "accepts_moves adm \<longleftrightarrow> (\<forall>a act s i w. fst (adm_SetSlot adm a act s i w) = None)
     \<and> (\<forall>a n s b t r w. snd (fst (adm_MigrateKeysInSlot adm a n s b t r w)) = None)"

lemma accepts_moveSlot:
  "accepts_moves adm \<Longrightarrow> Ctx_moveSlot adm e dst h w = (err, h', w') \<Longrightarrow> err = None"
  unfolding accepts_moves_def Ctx_moveSlot_def Let_def
  by (auto split: prod.splits if_splits) (metis fst_conv snd_conv option.distinct(1))+

lemma accepts_move_table:
  "accepts_moves adm \<Longrightarrow> move_table adm dst es h w = (err, h', w') \<Longrightarrow> err = None"
  by (induction es arbitrary: h w) (auto simp: accepts_moveSlot split: prod.splits if_splits)

lemma move_table_ok:
  assumes "move_table adm dst (map (\<lambda>s. \<lparr>Source = r, moved_Slot = s\<rparr>) (take k (Slots (h r)))) h w = (err, h', w')"
  shows "\<exists>j\<le>k. h' = h(r := (h r)\<lparr>Slots := drop j (Slots (h r))\<rparr>) \<and> (err = None \<longrightarrow> j = k)"
  using assms
proof (induction k arbitrary: h w)
  case (Suc k)
  show ?case
  proof (cases "Slots (h r)")
    case Nil
    with Suc.prems show ?thesis by (intro exI [of _ "Suc k"]) (simp add: fun_upd_idem)
  next
    case (Cons s ss)
    obtain e1 h1 w1 where mv: "Ctx_moveSlot adm \<lparr>Source = r, moved_Slot = s\<rparr> dst h w = (e1, h1, w1)"
      by (metis prod_cases3)
    show ?thesis
    proof (cases e1)
      case None
      then have h1: "h1 = h(r := (h r)\<lparr>Slots := ss\<rparr>)"
        using Ctx_moveSlot_cases [OF mv] Cons by simp
      then have "move_table adm dst (map (\<lambda>s. \<lparr>Source = r, moved_Slot = s\<rparr>) (take k (Slots (h1 r)))) h1 w1 = (err, h', w')"
        using Suc.prems Cons mv None by simp
      from Suc.IH [OF this] obtain j where j: "j \<le> k" "h' = h1(r := (h1 r)\<lparr>Slots := drop j (Slots (h1 r))\<rparr>)"
        "err = None \<longrightarrow> j = k" by blast
      have "h' = h(r := (h r)\<lparr>Slots := drop (Suc j) (Slots (h r))\<rparr>)"
        unfolding j(2) h1 Cons by simp
      with j show ?thesis by (intro exI [of _ "Suc j"]) auto
    next
      case (Some e)
      then have "h' = h" "err = Some e" using Ctx_moveSlot_cases [OF mv] Suc.prems Cons mv by auto
      then show ?thesis by (intro exI [of _ 0]) (simp add: fun_upd_idem)
    qed
  qed
qed (auto simp: fun_upd_idem)

section \<open>Making the balances add up to zero\<close>

abbreviation total :: "Nodes \<Rightarrow> nheap \<Rightarrow> int" where
  "total ns h \<equiv> sum_list (map (\<lambda>r. balance (h r)) ns)"

text \<open>What a pass keeps: only balances of nodes that are short change, and only downwards.\<close>

definition lowered :: "nheap \<Rightarrow> nheap \<Rightarrow> bool" where
  "lowered h h' \<longleftrightarrow> (\<forall>r. h' r = (h r)\<lparr>balance := balance (h' r)\<rparr> \<and>
     (balance (h' r) = balance (h r) \<or> balance (h r) < 0 \<and> balance (h' r) < 0))"

lemma lowered_refl: "lowered h h"
  by (simp add: lowered_def)

lemma lowered_trans: "lowered h h' \<Longrightarrow> lowered h' h'' \<Longrightarrow> lowered h h''"
  unfolding lowered_def by (metis (no_types, lifting) Node.update_convs(12) Node.surjective)

lemma total_upd: "distinct ns \<Longrightarrow> r \<in> set ns \<Longrightarrow> total ns (h(r := SetBalance b (h r))) = total ns h + b - balance (h r)"
proof (induction ns)
  case (Cons q ns)
  have "total ns (h(r := SetBalance b (h r))) = total ns h" if "r \<notin> set ns"
    using that by (intro arg_cong [where f = sum_list] map_cong) auto
  with Cons show ?case by (auto simp: SetBalance_def)
qed simp

lemma conj4: "A \<and> B \<and> C \<and> D \<and> E \<Longrightarrow> A \<and> B \<and> C \<and> D"
  by blast

lemma balance_pass_ok:
  assumes "balance_pass ns h t = (h', t')" and "distinct ms" and "set ns \<subseteq> set ms" and "0 \<le> t"
  shows "lowered h h' \<and> total ms h' - t' = total ms h - t \<and> 0 \<le> t' \<and> t' \<le> t
    \<and> (0 < t \<longrightarrow> (\<exists>r\<in>set ns. balance (h r) < 0) \<longrightarrow> t' < t)"
  using assms(1,3,4)
proof (induction ns arbitrary: h t)
  case (Cons n ns)
  show ?case
  proof (cases "balance (h n) < 0 \<and> t > 0")
    case True
    let ?h = "h(n := SetBalance (balance (h n) - 1) (h n))"
    have "balance_pass ns ?h (t - 1) = (h', t')" using Cons.prems True by simp
    then have IH: "lowered ?h h' \<and> total ms h' - t' = total ms ?h - (t - 1) \<and> 0 \<le> t' \<and> t' \<le> t - 1"
      by (rule Cons.IH [THEN conj4]) (use Cons.prems True in simp_all)
    moreover have "lowered h ?h" using True by (simp add: lowered_def SetBalance_def)
    moreover have "total ms ?h = total ms h - 1" using total_upd [OF assms(2)] Cons.prems by simp
    ultimately show ?thesis using lowered_trans by auto
  next
    case False
    then show ?thesis using Cons.IH [of h t] Cons.prems by auto
  qed
qed (simp add: lowered_refl)

lemma balance_loop_ok:
  assumes "distinct ms" and "r \<in> set ms" and "balance (h r) < 0" and "0 \<le> t"
  shows "\<exists>h'. balance_loop ms h t = Some h' \<and> lowered h h' \<and> total ms h' = total ms h - t"
  using assms(3,4)
proof (induction "nat t" arbitrary: h t rule: less_induct)
  case less
  show ?case
  proof (cases "t > 0")
    case True
    obtain h1 t1 where pass: "balance_pass ms h t = (h1, t1)" by fastforce
    note ok = balance_pass_ok [OF pass assms(1) order_refl less.prems(2)]
    then have "nat t1 < nat t" "0 \<le> t1" using True assms(2) less.prems(1) by auto
    moreover have "balance (h1 r) < 0" using ok less.prems(1) unfolding lowered_def by metis
    ultimately obtain h' where "balance_loop ms h1 t1 = Some h'" "lowered h1 h'" "total ms h' = total ms h1 - t1"
      using less.hyps by blast
    with ok True pass show ?thesis
      by (intro exI [of _ h']) (auto simp: balance_loop.simps [of ms h] intro: lowered_trans)
  qed (use less.prems in \<open>simp add: balance_loop.simps lowered_refl\<close>)
qed

text \<open>A pass that changes nothing is repeated forever.\<close>

lemma balance_loop_diverges:
  assumes "balance_loop ms h t = Some h'" and "0 < t" and "balance_pass ms h t = (h, t)"
  shows False
proof -
  have "0 < t \<and> balance_pass ms h t = (h, t) \<longrightarrow> False"
  proof (rule balance_loop.raw_induct
      [where P = "\<lambda>ms h t h'. 0 < t \<and> balance_pass ms h t = (h, t) \<longrightarrow> False", OF _ assms(1)])
    fix f :: "Nodes \<Rightarrow> nheap \<Rightarrow> int \<Rightarrow> nheap option" and ms h t h'
    assume IH: "\<And>ms h t h'. f ms h t = Some h' \<Longrightarrow> 0 < t \<and> balance_pass ms h t = (h, t) \<longrightarrow> False"
      and eq: "(if 0 < t then let (h, t) = balance_pass ms h t in f ms h t else Some h) = Some h'"
    show "0 < t \<and> balance_pass ms h t = (h, t) \<longrightarrow> False"
      using IH [of ms h t h'] eq by auto
  qed
  with assms(2,3) show False by blast
qed

section \<open>The two pointers\<close>

text \<open>What the node \<open>r\<close> may look like while slots move, compared with the heap \<open>h1\<close> in which the
  moving starts: a node with too many slots has given away some of its first slots, one with too
  few has only been credited.\<close>

definition moving :: "nheap \<Rightarrow> nheap \<Rightarrow> nref \<Rightarrow> bool" where
  "moving h1 h r \<longleftrightarrow>
     (if balance (h1 r) > 0
      then 0 \<le> balance (h r) \<and> balance (h r) \<le> balance (h1 r)
        \<and> h r = (h1 r)\<lparr>balance := balance (h r), Slots := drop (nat (balance (h1 r) - balance (h r))) (Slots (h1 r))\<rparr>
      else balance (h1 r) \<le> balance (h r) \<and> balance (h r) \<le> 0 \<and> h r = (h1 r)\<lparr>balance := balance (h r)\<rparr>)"

definition window :: "nheap \<Rightarrow> Nodes \<Rightarrow> int \<Rightarrow> int \<Rightarrow> nheap \<Rightarrow> bool" where
  "window h1 sn d s h \<longleftrightarrow> 0 \<le> d \<and> s < int (length sn) \<and> total sn h = 0
     \<and> (\<forall>i<length sn. int i < d \<or> s < int i \<longrightarrow> balance (h (sn ! i)) = 0) \<and> (\<forall>r\<in>set sn. moving h1 h r)"

definition movable :: "nheap \<Rightarrow> Nodes \<Rightarrow> bool" where
  "movable h1 sn \<longleftrightarrow> distinct sn \<and> sorted (map (\<lambda>r. balance (h1 r)) sn)
     \<and> (\<forall>r\<in>set sn. balance (h1 r) \<le> int (length (Slots (h1 r))) \<and> length (Slots (h1 r)) < 2 ^ 50 \<and> - (2 ^ 50) < balance (h1 r))"

lemma nonneg_total: "total ns h = 0 \<Longrightarrow> \<forall>r\<in>set ns. 0 \<le> balance (h r) \<Longrightarrow> \<forall>r\<in>set ns. balance (h r) = 0"
proof (induction ns)
  case (Cons n ns)
  have "0 \<le> total ns h" using Cons.prems(2) by (intro sum_list_nonneg) auto
  then have "balance (h n) = 0" "total ns h = 0" using Cons.prems by auto
  with Cons show ?case by auto
qed simp

lemma nonpos_total: "total ns h = 0 \<Longrightarrow> \<forall>r\<in>set ns. balance (h r) \<le> 0 \<Longrightarrow> \<forall>r\<in>set ns. balance (h r) = 0"
proof (induction ns)
  case (Cons n ns)
  have "total ns h \<le> 0" using Cons.prems(2) by (intro sum_list_nonpos) auto
  then have "balance (h n) = 0" "total ns h = 0" using Cons.prems by auto
  with Cons show ?case by auto
qed simp

text \<open>As long as the pointers have not met, the left one is at a node that is short (or done) and
  the right one at a node with too many slots (or done).\<close>

lemma window_signs:
  assumes "window h1 sn d s h" and "movable h1 sn" and "d < s"
  shows "balance (h (sn ! nat d)) \<le> 0" and "0 \<le> balance (h (sn ! nat s))"
proof -
  let ?b1 = "\<lambda>i. balance (h1 (sn ! i))"
  have idx: "nat d < length sn" "nat s < length sn" "nat d < nat s"
    using assms(1,3) by (auto simp: window_def)
  have mono: "?b1 i \<le> ?b1 j" if "i \<le> j" "j < length sn" for i j
    using assms(2) that by (auto simp: movable_def sorted_iff_nth_mono)
  have mv: "moving h1 h (sn ! i)" if "i < length sn" for i
    using assms(1) that by (auto simp: window_def)
  have out: "balance (h (sn ! i)) = 0" if "i < nat d \<or> nat s < i" "i < length sn" for i
    using assms(1,3) that by (auto simp: window_def)
  have sum: "total sn h = 0" using assms(1) by (simp add: window_def)
  show "balance (h (sn ! nat d)) \<le> 0"
  proof (rule ccontr)
    assume neg: "\<not> balance (h (sn ! nat d)) \<le> 0"
    then have "?b1 (nat d) > 0" using mv [OF idx(1)] by (auto simp: moving_def split: if_splits)
    have "0 \<le> balance (h (sn ! i))" if "i < length sn" for i
    proof (cases "i < nat d")
      case False
      then have "?b1 i > 0" using mono [of "nat d" i] that \<open>?b1 (nat d) > 0\<close> by simp
      then show ?thesis using mv [OF that] by (simp add: moving_def)
    qed (use out that in simp)
    then have "balance (h (sn ! nat d)) = 0"
      using nth_mem [OF idx(1)] nth_mem [OF idx(2)]
      by (intro nonneg_total [OF sum, rule_format]) (auto simp: in_set_conv_nth [of _ sn] simp del: nth_mem)
    with neg show False by simp
  qed
  show "0 \<le> balance (h (sn ! nat s))"
  proof (rule ccontr)
    assume neg: "\<not> 0 \<le> balance (h (sn ! nat s))"
    then have "\<not> ?b1 (nat s) > 0" using mv [OF idx(2)] by (auto simp: moving_def split: if_splits)
    have "balance (h (sn ! i)) \<le> 0" if "i < length sn" for i
    proof (cases "nat s < i")
      case False
      then have "\<not> ?b1 i > 0" using mono [of i "nat s"] idx(2) \<open>\<not> ?b1 (nat s) > 0\<close> by simp
      then show ?thesis using mv [OF that] by (auto simp: moving_def split: if_splits)
    qed (use out that in simp)
    then have "balance (h (sn ! nat s)) = 0"
      using nth_mem [OF idx(1)] nth_mem [OF idx(2)]
      by (intro nonpos_total [OF sum, rule_format]) (auto simp: in_set_conv_nth [of _ sn] simp del: nth_mem)
    with neg show False by simp
  qed
qed

lemma window_done:
  assumes "window h1 sn d s h" and "movable h1 sn" and "\<not> d < s" and "r \<in> set sn"
  shows "balance (h r) = 0"
proof -
  obtain i where i: "i < length sn" "r = sn ! i" using assms(4) by (auto simp: in_set_conv_nth)
  have zero: "balance (h q) = 0" if q: "q \<in> set sn" "q \<noteq> r" "\<not> (int i < d \<or> s < int i)" for q
  proof -
    obtain j where "j < length sn" "q = sn ! j" using q(1) by (metis in_set_conv_nth)
    then show ?thesis using assms(1,3) q i by (cases "i = j") (auto simp: window_def)
  qed
  then have "total (remove1 r sn) h = 0" if "\<not> (int i < d \<or> s < int i)"
  proof -
    have "set (remove1 r sn) = set sn - {r}" using assms(2) by (simp add: movable_def)
    with zero that have "map (\<lambda>q. balance (h q)) (remove1 r sn) = map (\<lambda>_. 0) (remove1 r sn)"
      by (intro map_cong refl) blast
    then show ?thesis by (simp only: sum_list_0)
  qed
  then show ?thesis
    using assms(1) i sum_list_map_remove1 [OF assms(4), of "\<lambda>r. balance (h r)"]
    by (auto simp: window_def)
qed

lemma moving_credit:
  assumes "moving h1 h r" and "balance (h r) \<le> 0" and "0 \<le> k" and "k \<le> - balance (h r)"
    and "h' r = (h r)\<lparr>balance := balance (h r) + k\<rparr>"
  shows "moving h1 h' r"
proof (cases "balance (h1 r) > 0")
  case True
  then have "k = 0" using assms(1-4) by (simp add: moving_def)
  then show ?thesis using assms(1,5) by (simp add: moving_def)
next
  case False
  then have "balance (h1 r) \<le> balance (h r)" "h r = (h1 r)\<lparr>balance := balance (h r)\<rparr>"
    using assms(1) by (simp_all add: moving_def)
  moreover from this(2) have "h' r = (h1 r)\<lparr>balance := balance (h' r)\<rparr>"
    unfolding assms(5) by (metis Node.surjective Node.update_convs(12))
  ultimately show ?thesis using False assms by (simp add: moving_def)
qed

lemma moving_give:
  assumes "moving h1 h r" and "0 \<le> balance (h r)" and "0 \<le> k" and "k \<le> balance (h r)"
    and h': "h' r = (h r)\<lparr>Slots := drop (nat k) (Slots (h r)), balance := balance (h r) - k\<rparr>"
  shows "moving h1 h' r"
proof (cases "balance (h1 r) > 0")
  case False
  then have "k = 0" using assms(1-4) by (simp add: moving_def)
  then show ?thesis using assms(1,5) by (simp add: moving_def)
next
  case True
  define j where "j = nat (balance (h1 r) - balance (h r))"
  have h: "h r = (h1 r)\<lparr>balance := balance (h r), Slots := drop j (Slots (h1 r))\<rparr>" and "balance (h r) \<le> balance (h1 r)"
    using assms(1) True by (simp_all add: moving_def j_def)
  then have "nat (balance (h1 r) - balance (h' r)) = nat k + j"
    using assms(3) by (simp add: h' j_def nat_add_distrib [symmetric])
  moreover have "Slots (h r) = drop j (Slots (h1 r))" by (subst h) simp
  then have "h' r = (h1 r)\<lparr>balance := balance (h r) - k, Slots := drop (nat k + j) (Slots (h1 r))\<rparr>"
    unfolding h' by (subst h) (simp add: drop_drop)
  ultimately show ?thesis
    using True assms(3,4) \<open>balance (h r) \<le> balance (h1 r)\<close> by (simp add: moving_def h')
qed

text \<open>One round: either an error of the admin client ends the run, or the window shrinks.\<close>

lemma window_shrink:
  assumes "window h1 sn d s h" and "movable h1 sn" and "d < s"
    and dst: "dst = sn ! nat d" and src: "src = sn ! nat s"
    and k: "k = min (- balance (h dst)) (balance (h src))"
    and h': "h' = h(src := (h src)\<lparr>Slots := drop (nat k) (Slots (h src)), balance := balance (h src) - k\<rparr>,
                     dst := (h dst)\<lparr>balance := balance (h dst) + k\<rparr>)"
  shows "window h1 sn (if balance (h' dst) = 0 then d + 1 else d) (if balance (h' src) = 0 then s - 1 else s) h'"
    and "balance (h' dst) = 0 \<or> balance (h' src) = 0"
proof -
  have idx: "nat d < length sn" "nat s < length sn" and ne: "dst \<noteq> src" and mem: "dst \<in> set sn" "src \<in> set sn"
    using assms(1-3) dst src by (auto simp: window_def movable_def nth_eq_iff_index_eq)
  have sgn: "balance (h dst) \<le> 0" "0 \<le> balance (h src)"
    using window_signs [OF assms(1-3)] dst src by simp_all
  have at: "h' dst = (h dst)\<lparr>balance := balance (h dst) + k\<rparr>"
    "h' src = (h src)\<lparr>Slots := drop (nat k) (Slots (h src)), balance := balance (h src) - k\<rparr>"
    "r \<noteq> dst \<Longrightarrow> r \<noteq> src \<Longrightarrow> h' r = h r" for r
    using ne by (simp_all add: h')
  then have bal: "balance (h' dst) = balance (h dst) + k" "balance (h' src) = balance (h src) - k"
    by simp_all
  show "balance (h' dst) = 0 \<or> balance (h' src) = 0"
    using bal k by (auto simp: min_def)
  have tot: "total sn h' = total sn h"
  proof -
    have "total ns h' = total ns h + (if dst \<in> set ns then k else 0) - (if src \<in> set ns then k else 0)"
      if "distinct ns" for ns
      using that
    proof (induction ns)
      case (Cons r ns)
      then show ?case using bal at(3) [of r] ne by (cases "r = dst"; cases "r = src") auto
    qed simp
    then show ?thesis using mem assms(2) by (simp add: movable_def)
  qed
  have kk: "0 \<le> k" "k \<le> - balance (h dst)" "k \<le> balance (h src)"
    using sgn by (simp_all add: k)
  have "moving h1 h' r" if "r \<in> set sn" for r
  proof -
    have mv: "moving h1 h r" using assms(1) that by (simp add: window_def)
    consider "r = dst" | "r = src" | "r \<noteq> dst" "r \<noteq> src" by blast
    then show ?thesis
    proof cases
      case 1
      show ?thesis unfolding 1 by (rule moving_credit [of _ h _ k]) (fact mv [unfolded 1] sgn kk at)+
    next
      case 2
      show ?thesis unfolding 2 by (rule moving_give [of _ h _ k]) (fact mv [unfolded 2] sgn kk at)+
    next
      case 3
      then show ?thesis using mv at(3) by (simp add: moving_def)
    qed
  qed
  moreover have "balance (h' (sn ! i)) = 0"
    if "i < length sn" "int i < (if balance (h' dst) = 0 then d + 1 else d) \<or> (if balance (h' src) = 0 then s - 1 else s) < int i" for i
  proof (cases "int i < d \<or> s < int i")
    case True
    moreover have "0 \<le> d" using assms(1) by (simp add: window_def)
    ultimately have "i \<noteq> nat d" "i \<noteq> nat s" using assms(3) by linarith+
    moreover have "distinct sn" using assms(2) by (simp add: movable_def)
    ultimately have "sn ! i \<noteq> dst" "sn ! i \<noteq> src"
      unfolding dst src using that(1) idx by (simp_all add: nth_eq_iff_index_eq)
    moreover have "balance (h (sn ! i)) = 0" using assms(1) True that(1) by (auto simp: window_def)
    ultimately show ?thesis using at(3) by simp
  next
    case False
    then have "int i = d \<and> balance (h' dst) = 0 \<or> int i = s \<and> balance (h' src) = 0"
      using that(2) by (auto split: if_splits)
    then show ?thesis using dst src by auto
  qed
  ultimately show "window h1 sn (if balance (h' dst) = 0 then d + 1 else d) (if balance (h' src) = 0 then s - 1 else s) h'"
    using assms(1) tot by (auto simp: window_def)
qed

lemma move_loop_step:
  assumes "go_runtime env" and "window h1 sn d s h" and "movable h1 sn" and "d < s"
  shows "(\<exists>e h' w'. move_loop adm env sn d s h w = Some (Ret (Some e, h', w')) \<and> \<not> accepts_moves adm)
    \<or> (\<exists>d' s' h' w'. move_loop adm env sn d s h w = move_loop adm env sn d' s' h' w'
         \<and> window h1 sn d' s' h' \<and> nat (s' - d' + 1) < nat (s - d + 1))"
proof -
  define dst src where "dst = sn ! nat d" and "src = sn ! nat s"
  define k where "k = min (- balance (h dst)) (balance (h src))"
  define h' where "h' = h(src := (h src)\<lparr>Slots := drop (nat k) (Slots (h src)), balance := balance (h src) - k\<rparr>,
                     dst := (h dst)\<lparr>balance := balance (h dst) + k\<rparr>)"
  note shrink = window_shrink [OF assms(2-4) dst_def src_def k_def h'_def]
  let ?d = "if balance (h' dst) = 0 then d + 1 else d" and ?s = "if balance (h' src) = 0 then s - 1 else s"
  have less: "nat (?s - ?d + 1) < nat (s - d + 1)" using shrink(2) assms(4) by auto
  have ne: "dst \<noteq> src" and mem: "dst \<in> set sn" "src \<in> set sn"
    using assms(2-4) by (auto simp: dst_def src_def window_def movable_def nth_eq_iff_index_eq)
  have sgn: "balance (h dst) \<le> 0" "0 \<le> balance (h src)"
    using window_signs [OF assms(2-4)] by (simp_all add: dst_def src_def)
  have mv: "moving h1 h dst" "moving h1 h src" using assms(2) mem by (auto simp: window_def)
  have small: "\<bar>balance (h dst)\<bar> < 2 ^ 53" "\<bar>balance (h src)\<bar> < 2 ^ 53"
    using mv mem assms(3) sgn unfolding moving_def movable_def by (auto split: if_splits)
  have src_len: "balance (h src) \<le> int (length (Slots (h src)))" "length (Slots (h src)) < 2 ^ 50" if "0 < k"
  proof -
    have "0 < balance (h src)" using that by (simp add: k_def)
    then have b: "balance (h src) \<le> balance (h1 src)"
      and "h src = (h1 src)\<lparr>balance := balance (h src), Slots := drop (nat (balance (h1 src) - balance (h src))) (Slots (h1 src))\<rparr>"
      using mv(2) by (auto simp: moving_def split: if_splits)
    from arg_cong [OF this(2), of Slots]
    have "length (Slots (h src)) = length (Slots (h1 src)) - nat (balance (h1 src) - balance (h src))" by simp
    moreover have "balance (h1 src) \<le> int (length (Slots (h1 src)))" "length (Slots (h1 src)) < 2 ^ 50"
      using assms(3) mem(2) by (auto simp: movable_def)
    ultimately show "balance (h src) \<le> int (length (Slots (h src)))" "length (Slots (h src)) < 2 ^ 50"
      using b by linarith+
  qed
  let ?ab = "\<lambda>r. f64_abs (f64_of_int (balance (h r)))"
  have num: "(if f64_less (?ab dst) (?ab src) then ?ab dst else ?ab src) = Fin (of_int k)"
    using small sgn by (auto simp: f64_of_int_small k_def min_def)
  have k_int: "f64_to_int (Fin (of_int k)) = k"
    using small sgn by (intro f64_to_int_of_int) (auto simp: k_def min_def)
  show ?thesis
  proof (cases "0 < k")
    case False
    then have "k = 0" using sgn by (auto simp: k_def)
    then have "h' = h" by (simp add: h'_def)
    have "move_loop adm env sn d s h w = move_loop adm env sn ?d ?s h' w"
      unfolding \<open>h' = h\<close> using assms(4) \<open>k = 0\<close> k_int
      by (subst move_loop.simps) (simp add: Let_def num SetBalance_def flip: dst_def src_def)
    then show ?thesis using shrink(1) less by blast
  next
    case True
    then have table: "computeReshardTable env h [src] k
        = Ret (map (\<lambda>s. \<lparr>Source = src, moved_Slot = s\<rparr>) (take (nat k) (Slots (h src))))"
      using computeReshardTable_single [OF assms(1), of "nat k" h src] src_len [OF True] by (simp add: k_def)
    obtain err h2 w2 where mt: "move_table adm dst (map (\<lambda>s. \<lparr>Source = src, moved_Slot = s\<rparr>) (take (nat k) (Slots (h src)))) h w
        = (err, h2, w2)" by (metis prod_cases3)
    show ?thesis
    proof (cases err)
      case (Some e)
      have "move_loop adm env sn d s h w = Some (Ret (Some e, h2, w2))"
        using assms(4) True k_int Some
        by (subst move_loop.simps) (simp add: Let_def num table mt flip: dst_def src_def)
      then show ?thesis using accepts_move_table [OF _ mt] Some by blast
    next
      case None
      then have h2: "h2 = h(src := (h src)\<lparr>Slots := drop (nat k) (Slots (h src))\<rparr>)"
        using move_table_ok [OF mt] by auto
      have upd: "(h2(dst := SetBalance (balance (h2 dst) + k) (h2 dst)))
          (src := SetBalance (balance ((h2(dst := SetBalance (balance (h2 dst) + k) (h2 dst))) src) - k)
                   ((h2(dst := SetBalance (balance (h2 dst) + k) (h2 dst))) src)) = h'"
        using ne by (auto simp: h2 h'_def SetBalance_def fun_eq_iff)
      have pos: "f64_less (Fin 0) (Fin (of_int k)) = True" using True by simp
      have "move_loop adm env sn d s h w = move_loop adm env sn ?d ?s h' w2"
        by (subst move_loop.simps) (simp only: assms(4) if_True if_False Let_def dst_def [symmetric] src_def [symmetric]
            num k_int pos table outcome_bind.simps mt [unfolded None] outcome.case prod.case simp_thms upd)
      then show ?thesis using shrink(1) less by blast
    qed
  qed
qed

lemma move_loop_ok:
  assumes "go_runtime env" and "movable h1 sn" and "window h1 sn d s h"
  shows "\<exists>err h' w'. move_loop adm env sn d s h w = Some (Ret (err, h', w'))
    \<and> (err = None \<longrightarrow> (\<forall>r\<in>set sn. balance (h' r) = 0 \<and> moving h1 h' r)) \<and> (accepts_moves adm \<longrightarrow> err = None)"
  using assms(3)
proof (induction "nat (s - d + 1)" arbitrary: d s h w rule: less_induct)
  case less
  show ?case
  proof (cases "d < s")
    case True
    from move_loop_step [OF assms(1) less.prems assms(2) True, of adm w] show ?thesis
    proof (elim disjE exE conjE)
      fix d' s' h' w'
      assume "move_loop adm env sn d s h w = move_loop adm env sn d' s' h' w'"
        "window h1 sn d' s' h'" "nat (s' - d' + 1) < nat (s - d + 1)"
      then show ?thesis using less.hyps [of s' d' h' w'] by simp
    qed blast
  next
    case False
    then show ?thesis
      using window_done [OF less.prems assms(2)] less.prems
      by (simp add: move_loop.simps window_def)
  qed
qed

lemma set_balances_ok:
  assumes "GetHashMaxSlot adm = 16383" and "distinct ns" and "0 < n" and "n < 2 ^ 53"
  shows "set_balances adm (int n) ns h r
    = (if r \<in> set ns then SetBalance (int (length (Slots (h r))) - int (16384 div n)) (h r) else h r)"
  using assms(2)
proof (induction ns arbitrary: h)
  case (Cons q ns)
  have "f64_to_int (f64_div (f64_of_int (int (u64 (GetHashMaxSlot adm + 1)))) (f64_of_int (int n))) = int (16384 div n)"
    using int_quotient [of 16384 "int n"] assms by (simp add: zdiv_int)
  with Cons show ?case by (auto simp: Let_def SetBalance_def)
qed simp

lemma total_lengths:
  "total ns h \<le> int (sum_list (map (\<lambda>r. length (Slots (h r))) ns))"
  if "\<forall>r\<in>set ns. balance (h r) \<le> int (length (Slots (h r)))"
  using that by (induction ns) auto

text \<open>The start of the moving phase.\<close>

lemma rebalance_start:
  fixes h2 :: nheap
  assumes env: "go_runtime env" and "distinct ms" and "total ms h2 = 0"
    and len: "sum_list (map (\<lambda>r. length (Slots (h2 r))) ms) \<le> 16384"
    and le: "\<forall>r\<in>set ms. balance (h2 r) \<le> int (length (Slots (h2 r)))"
  defines "sn \<equiv> SortByFunc env (\<lambda>a b. balance (h2 a) < balance (h2 b)) ms"
  shows "movable h2 sn" and "window h2 sn 0 (int (length sn) - 1) h2" and "set sn = set ms"
proof -
  have sn: "mset sn = mset ms" "distinct sn" and set: "set sn = set ms"
    using go_runtime.sort_perm [OF env] go_runtime.sort_distinct [OF env] go_runtime.sort_set [OF env] assms(2)
    by (simp_all add: sn_def SortByFunc_def)
  show "set sn = set ms" by (rule set)
  have len_r: "length (Slots (h2 r)) \<le> 16384" if "r \<in> set ms" for r
    using len that member_le_sum_list [of "length (Slots (h2 r))" "map (\<lambda>r. length (Slots (h2 r))) ms"] by force
  have lower: "- 16384 \<le> balance (h2 r)" if "r \<in> set ms" for r
  proof -
    have "total (remove1 r ms) h2 \<le> int (sum_list (map (\<lambda>r. length (Slots (h2 r))) (remove1 r ms)))"
      using le by (intro total_lengths) (meson notin_set_remove1)
    moreover have "balance (h2 r) + total (remove1 r ms) h2 = 0"
      using sum_list_map_remove1 [OF that, of "\<lambda>r. balance (h2 r)"] assms(3) by simp
    moreover have "length (Slots (h2 r)) + sum_list (map (\<lambda>r. length (Slots (h2 r))) (remove1 r ms)) \<le> 16384"
      using sum_list_map_remove1 [OF that, of "\<lambda>r. length (Slots (h2 r))"] len by simp
    ultimately show ?thesis by linarith
  qed
  have "sorted (map (\<lambda>r. balance (h2 r)) sn)"
    unfolding sn_def SortByFunc_def by (rule go_runtime.sort_by_key [OF env])
  moreover have "length (Slots (h2 r)) < 2 ^ 50" "- (2 ^ 50) < balance (h2 r)" if "r \<in> set ms" for r
    using len_r [OF that] lower [OF that] by simp_all
  ultimately show "movable h2 sn"
    using sn(2) le set by (simp add: movable_def)
  have "total sn h2 = total ms h2"
    by (metis mset_map sn(1) sum_mset_sum_list)
  then show "window h2 sn 0 (int (length sn) - 1) h2"
    using assms(3) by (auto simp: window_def moving_def)
qed

section \<open>Properties\<close>

text \<open>C2. Scaling up: when the masters own all 16384 slots and at least one of them (a new one) owns
  fewer than its share, \<open>RebalancedCluster\<close> ends, never panics, and, unless the admin client
  reports an error, has moved from every master exactly the slots above its share, the first ones
  of its list, and has brought every balance to zero, so each slot moved has been credited to a
  master that was short.\<close>

theorem RebalancedCluster_correct:
  assumes "go_runtime env" and "GetHashMaxSlot adm = 16383" and "distinct ms"
    and "sum_list (map (\<lambda>r. length (Slots (h r))) ms) = 16384"
    and "\<exists>r\<in>set ms. length (Slots (h r)) < 16384 div length ms"
  shows "\<exists>err h' w'. Ctx_RebalancedCluster adm env ms h w = Some (Ret (err, h', w'))
    \<and> (err = None \<longrightarrow> (\<forall>r\<in>set ms. balance (h' r) = 0
         \<and> Slots (h' r) = drop (length (Slots (h r)) - 16384 div length ms) (Slots (h r))))
    \<and> (accepts_moves adm \<longrightarrow> err = None)"
proof -
  let ?n = "length ms" and ?E = "16384 div length ms"
  obtain q where q: "q \<in> set ms" "length (Slots (h q)) < ?E" using assms(5) by blast
  have n: "0 < ?n" "?n \<le> 16384" using q by (auto simp: div_eq_0_iff intro: ccontr)
  define h1 where "h1 = set_balances adm (int ?n) ms h"
  have h1: "h1 r = (if r \<in> set ms then SetBalance (int (length (Slots (h r))) - int ?E) (h r) else h r)" for r
    unfolding h1_def using n by (intro set_balances_ok assms) simp_all
  have "total ns h1 = int (sum_list (map (\<lambda>r. length (Slots (h r))) ns)) - int (length ns) * int ?E"
    if "set ns \<subseteq> set ms" for ns
    using that by (induction ns) (simp_all add: h1 SetBalance_def algebra_simps)
  then have tot: "total ms h1 = 16384 - int (?n * ?E)" by (simp add: assms(4))
  have "?n * ?E \<le> 16384" by simp
  with tot have "0 \<le> total ms h1" by linarith
  moreover have "balance (h1 q) < 0" using q by (simp add: h1 SetBalance_def)
  ultimately obtain h2 where loop: "balance_loop ms h1 (total ms h1) = Some h2" and low: "lowered h1 h2"
    and zero: "total ms h2 = 0"
    using balance_loop_ok [OF assms(3) q(1)] by fastforce
  have h2: "Slots (h2 r) = Slots (h r)"
    "balance (h2 r) = int (length (Slots (h r))) - int ?E \<or> int (length (Slots (h r))) - int ?E < 0 \<and> balance (h2 r) < 0"
    if "r \<in> set ms" for r
  proof -
    have l: "h2 r = (h1 r)\<lparr>balance := balance (h2 r)\<rparr>" "balance (h2 r) = balance (h1 r) \<or> balance (h1 r) < 0 \<and> balance (h2 r) < 0"
      using low by (auto simp: lowered_def)
    show "Slots (h2 r) = Slots (h r)" by (subst l(1)) (simp add: h1 that SetBalance_def)
    show "balance (h2 r) = int (length (Slots (h r))) - int ?E \<or> int (length (Slots (h r))) - int ?E < 0 \<and> balance (h2 r) < 0"
      using l(2) by (simp add: h1 that SetBalance_def)
  qed
  have "map (\<lambda>r. length (Slots (h2 r))) ms = map (\<lambda>r. length (Slots (h r))) ms"
    using h2(1) by (intro map_cong) simp_all
  then have len: "sum_list (map (\<lambda>r. length (Slots (h2 r))) ms) \<le> 16384" using assms(4) by (simp only: order_refl)
  have le: "\<forall>r\<in>set ms. balance (h2 r) \<le> int (length (Slots (h2 r)))"
    using h2 by fastforce
  note start = rebalance_start [OF assms(1,3) zero len le]
  let ?sn = "SortByFunc env (\<lambda>a b. balance (h2 a) < balance (h2 b)) ms"
  obtain err h' w' where run: "move_loop adm env ?sn 0 (int (length ?sn) - 1) h2 w = Some (Ret (err, h', w'))"
    and fin: "err = None \<longrightarrow> (\<forall>r\<in>set ms. balance (h' r) = 0 \<and> moving h2 h' r)"
    and acc: "accepts_moves adm \<longrightarrow> err = None"
    using move_loop_ok [OF assms(1) start(1,2), of adm w] unfolding start(3) by blast
  have "Slots (h' r) = drop (length (Slots (h r)) - ?E) (Slots (h r))"
    if "r \<in> set ms" "balance (h' r) = 0" "moving h2 h' r" for r
  proof (cases "balance (h2 r) > 0")
    case True
    then have b: "nat (balance (h2 r)) = length (Slots (h r)) - ?E" using h2(2) [OF that(1)] by auto
    have "h' r = (h2 r)\<lparr>balance := balance (h' r), Slots := drop (nat (balance (h2 r) - balance (h' r))) (Slots (h2 r))\<rparr>"
      using that(3) True by (simp add: moving_def)
    from arg_cong [OF this, of Slots] show ?thesis using b that(2) h2(1) [OF that(1)] by simp
  next
    case False
    then have "length (Slots (h r)) - ?E = 0" using h2(2) [OF that(1)] by auto
    moreover have "h' r = (h2 r)\<lparr>balance := balance (h' r)\<rparr>" using that(3) False by (simp add: moving_def)
    from arg_cong [OF this, of Slots] have "Slots (h' r) = Slots (h r)" using h2(1) [OF that(1)] by simp
    ultimately show ?thesis by simp
  qed
  moreover have "Ctx_RebalancedCluster adm env ms h w = Some (Ret (err, h', w'))"
    using loop run unfolding Ctx_RebalancedCluster_def Let_def h1_def [symmetric] by simp
  ultimately show ?thesis using fin acc by blast
qed

text \<open>C26. Without a master that is short the first loop of \<open>RebalancedCluster\<close> cannot make progress:
  if the masters own more slots than their shares add up to and none is below its share (three
  masters with 5461, 5461 and 5462 slots), the call never returns.\<close>

theorem RebalancedCluster_diverges:
  assumes "GetHashMaxSlot adm = 16383" and "distinct ms" and "ms \<noteq> []" and "length ms < 2 ^ 53"
    and "sum_list (map (\<lambda>r. length (Slots (h r))) ms) > length ms * (16384 div length ms)"
    and "\<forall>r\<in>set ms. length (Slots (h r)) \<ge> 16384 div length ms"
  shows "Ctx_RebalancedCluster adm env ms h w = None"
proof -
  let ?n = "length ms" and ?E = "16384 div length ms"
  define h1 where "h1 = set_balances adm (int ?n) ms h"
  have h1: "h1 r = (if r \<in> set ms then SetBalance (int (length (Slots (h r))) - int ?E) (h r) else h r)" for r
    unfolding h1_def using assms by (intro set_balances_ok) simp_all
  have "total ns h1 = int (sum_list (map (\<lambda>r. length (Slots (h r))) ns)) - int (length ns) * int ?E"
    if "set ns \<subseteq> set ms" for ns
    using that by (induction ns) (simp_all add: h1 SetBalance_def algebra_simps)
  then have pos: "0 < total ms h1" using assms(5) by (simp flip: of_nat_mult)
  have ge: "\<forall>r\<in>set ms. 0 \<le> balance (h1 r)" using assms(6) by (simp add: h1 SetBalance_def)
  have pass: "balance_pass ns h1 t = (h1, t)" if "set ns \<subseteq> set ms" for ns t
    using that ge by (induction ns) auto
  have "balance_loop ms h1 (total ms h1) \<noteq> Some h'" for h'
    using balance_loop_diverges [of ms h1 "total ms h1" h'] pass pos by blast
  then have "balance_loop ms h1 (total ms h1) = None" using pos by blast
  then show ?thesis unfolding Ctx_RebalancedCluster_def Let_def h1_def [symmetric] by simp
qed

text \<open>Two masters, the second one new, and three masters that already share the slots.\<close>

definition two_masters :: nheap where
  "two_masters r = NewDefaultNode\<lparr>Slots := (if r = 2 then [0..<16384] else [])\<rparr>"

definition three_masters :: nheap where
  "three_masters r = NewDefaultNode\<lparr>Slots := (if r = 2 then [0..<5461] else if r = 3 then [5461..<10922] else [10922..<16384])\<rparr>"

theorem RebalancedCluster_correct_witness:
  "\<exists>h' w'. Ctx_RebalancedCluster (recording_admin 16383) go_env_det [2, 3] two_masters [] = Some (Ret (None, h', w'))
    \<and> Slots (h' 2) = [8192..<16384] \<and> balance (h' 3) = 0"
proof -
  have two: "16384 div length [2, 3 :: nref] = 8192" by (simp add: numeral_2_eq_2 [symmetric])
  have h: "GetHashMaxSlot (recording_admin 16383) = 16383" "distinct [2, 3 :: nref]"
    "sum_list (map (\<lambda>r. length (Slots (two_masters r))) [2, 3]) = 16384"
    "\<exists>r\<in>set [2, 3]. length (Slots (two_masters r)) < 16384 div length [2, 3 :: nref]"
    unfolding two by (simp_all add: recording_admin_def two_masters_def del: upt_rec_numeral)
  have acc: "accepts_moves (recording_admin 16383)" by (simp add: accepts_moves_def recording_admin_def)
  from RebalancedCluster_correct [OF det.go_runtime_axioms h, of "[]"] acc obtain h' w' where
    "Ctx_RebalancedCluster (recording_admin 16383) go_env_det [2, 3] two_masters [] = Some (Ret (None, h', w'))"
    "\<forall>r\<in>set [2, 3]. balance (h' r) = 0 \<and>
       Slots (h' r) = drop (length (Slots (two_masters r)) - 8192) (Slots (two_masters r))"
    unfolding two by blast
  moreover have "drop (length (Slots (two_masters 2)) - 8192) (Slots (two_masters 2)) = [8192..<16384]"
    by (simp add: two_masters_def del: upt_rec_numeral)
  ultimately show ?thesis by (intro exI [of _ h'] exI [of _ w']) (simp del: upt_rec_numeral)
qed

theorem RebalancedCluster_diverges_witness:
  "Ctx_RebalancedCluster (recording_admin 16383) go_env_det [2, 3, 4] three_masters [] = None"
proof (rule RebalancedCluster_diverges)
  show "length [2, 3, 4 :: nref] * (16384 div length [2, 3, 4 :: nref])
      < sum_list (map (\<lambda>r. length (Slots (three_masters r))) [2, 3, 4])"
    by (simp add: three_masters_def numeral_3_eq_3 [symmetric] del: upt_rec_numeral)
  show "\<forall>r\<in>set [2, 3, 4]. 16384 div length [2, 3, 4 :: nref] \<le> length (Slots (three_masters r))"
    by (simp add: three_masters_def numeral_3_eq_3 [symmetric] del: upt_rec_numeral)
qed (simp_all add: recording_admin_def)

text \<open>The commands one slot move sends, when the admin client accepts them. The keys are migrated
  and both nodes learn the new owner, and the slot leaves the source's list; but \<open>IMPORTING\<close> is
  sent with the target's own id and \<open>MIGRATING\<close> with the source's own id, the other way round than
  in \<open>DispatchSlotToNewMasters\<close>, and the target's slot list is not extended.\<close>

lemma moveSlot_commands:
  "Ctx_moveSlot (recording_admin m) \<lparr>Source = src, moved_Slot = slot\<rparr> target h w
   = (None, h(src := (h src)\<lparr>Slots := remove1 slot (Slots (h src))\<rparr>),
      w @ [CallSetSlot (IPPort (h target)) ''IMPORTING'' slot (ID (h target)),
           CallSetSlot (IPPort (h src)) ''MIGRATING'' slot (ID (h src)),
           CallMigrateKeysInSlot (IPPort (h src)) (ID (h target)) slot,
           CallSetSlot (IPPort (h target)) ''NODE'' slot (ID (h target)),
           CallSetSlot (IPPort (h src)) ''NODE'' slot (ID (h target))])"
  by (simp add: Ctx_moveSlot_def recording_admin_def)

end
