(* ===== verification/Errors.thy ===== *)
theory Errors
  imports GoText
begin

text \<open>
  The text of errors and the typed errors of the cluster controller: \<open>Error()\<close> of
  \<open>pkg/redisutil/errors.go\<close> and \<open>pkg/controller/distributedrediscluster/errors.go\<close>.
  \<open>errors.Wrapf(err, msg)\<close> puts a message in front of an error (\<open>WithMessage\<close>); none of the messages
  the operator wraps with contains a format verb.
\<close>

section \<open>Texts\<close>

text \<open>The errors of a partial view are printed in an order the runtime chooses.\<close>

definition cluster_infos_text :: "go_env \<Rightarrow> (string \<times> string) list \<Rightarrow> bool \<Rightarrow> bool \<Rightarrow> string" where
  "cluster_infos_text env errs partial inconsistent =
     (if partial
      then ''Cluster infos partial: '' @ concat (map (\<lambda>(addr, err). addr @ '': '' @ [CHR 0x27] @ err @ [CHR 0x27])
             (mrange env 12 errs))
      else if inconsistent then ''Cluster view is inconsistent'' else [])"

primrec ErrorText :: "go_env \<Rightarrow> goerr \<Rightarrow> string" where
  "ErrorText env (Errorf s) = s"
| "ErrorText env (NumError fn s msg) = ''strconv.'' @ fn @ '': parsing '' @ [CHR 0x22] @ s @ [CHR 0x22] @ '': '' @ msg"
| "ErrorText env (AddrError addr msg) = ''address '' @ addr @ '': '' @ msg"
| "ErrorText env NodeNotFounded = ''node not founded''"
| "ErrorText env (ClusterInfosError errs partial inconsistent) =
     cluster_infos_text env (map (map_prod (\<lambda>addr. addr) (ErrorText env)) errs) partial inconsistent"
| "ErrorText env (NetTimeout s) = s"
| "ErrorText env (NetOpError s) = s"
| "ErrorText env PipelineEmpty = ''pipeline queue empty''"
| "ErrorText env (K8sError reason s) = s"
| "ErrorText env (Aggregate es) = aggregate_text env (map (ErrorText env) es)"
| "ErrorText env (WithMessage msg e) = msg @ '': '' @ ErrorText env e"
| "ErrorText env (CustomError t e) = ErrorText env e"

section \<open>Typed errors\<close>

definition ErrorType_New :: "ErrorType \<Rightarrow> string \<Rightarrow> goerr" where
  "ErrorType_New errorType msg = CustomError errorType (Errorf msg)"

definition ErrorType_Wrap :: "ErrorType \<Rightarrow> goerr \<Rightarrow> string \<Rightarrow> goerr" where
  "ErrorType_Wrap errorType err msg = CustomError errorType (WithMessage msg err)"

definition errors_New :: "string \<Rightarrow> goerr" where
  "errors_New msg = CustomError NoType (Errorf msg)"

fun GetType :: "goerr \<Rightarrow> ErrorType" where
  "GetType (CustomError errorType originalError) = errorType"
| "GetType _ = NoType"

definition errors_Wrapf :: "goerr \<Rightarrow> string \<Rightarrow> goerr" where
  "errors_Wrapf err msg = CustomError (GetType err) (WithMessage msg err)"

fun Cause :: "goerr \<Rightarrow> goerr" where
  "Cause (WithMessage msg e) = Cause e"
| "Cause e = e"

text \<open>\<open>errors.NewAggregate\<close> of the Kubernetes library: \<open>nil\<close> when there is no error.\<close>

definition NewAggregate :: "goerr list \<Rightarrow> goerr option" where
  "NewAggregate errs = (if errs = [] then None else Some (Aggregate errs))"

fun IsNotFound :: "goerr \<Rightarrow> bool" where
  "IsNotFound (K8sError NotFound s) = True"
| "IsNotFound _ = False"

fun IsRequestRetryable :: "goerr \<Rightarrow> bool" where
  "IsRequestRetryable (K8sError reason s) =
     (reason = ServiceUnavailable \<or> reason = Timeout \<or> reason = ServerTimeout \<or> reason = TooManyRequests)"
| "IsRequestRetryable _ = False"

lemma GetType_Wrap [simp]: "GetType (ErrorType_Wrap t err msg) = t"
  by (simp add: ErrorType_Wrap_def)

lemma GetType_New [simp]: "GetType (ErrorType_New t msg) = t"
  by (simp add: ErrorType_New_def)

lemma GetType_Wrapf [simp]: "GetType (errors_Wrapf err msg) = GetType err"
  by (simp add: errors_Wrapf_def)

lemma NewAggregate_None [simp]: "NewAggregate errs = None \<longleftrightarrow> errs = []"
  by (simp add: NewAggregate_def)

end
