(* ===== verification/K8sTypes.thy ===== *)
theory K8sTypes
  imports Nodes Utils Errors
begin

text \<open>
  The Kubernetes objects the operator reads and writes, with the fields it uses, and the client of the
  controller runtime as a parameter. Parts of a user's manifest that the operator only copies
  (tolerations, security contexts, a probe or an affinity given by the user) are kept as their text,
  \<open>k8s_value\<close>. A pointer is an option, and a map that may be \<open>nil\<close> an optional map.
\<close>

type_synonym labels = "(string, string) gomap"
type_synonym k8s_value = string

section \<open>Quantities and resources\<close>

text \<open>A quantity is its value in thousandths, which \<open>Cmp\<close> compares, and the form it was written in,
  which \<open>reflect.DeepEqual\<close> compares as well.\<close>

record quantity =
  q_milli :: int
  q_form :: string

definition zero_quantity :: quantity where
  "zero_quantity = \<lparr>q_milli = 0, q_form = []\<rparr>"

definition quantity_Cmp :: "quantity \<Rightarrow> quantity \<Rightarrow> int" where
  "quantity_Cmp a b = (if q_milli a < q_milli b then - 1 else if q_milli b < q_milli a then 1 else 0)"

lemma quantity_Cmp_0 [simp]: "quantity_Cmp a b = 0 \<longleftrightarrow> q_milli a = q_milli b"
  by (simp add: quantity_Cmp_def)

type_synonym ResourceList = "(string, quantity) gomap"

record ResourceRequirements =
  Requests :: "ResourceList option"
  Limits :: "ResourceList option"

text \<open>\<open>ResourceList.Cpu\<close> and \<open>ResourceList.Memory\<close>: the entry, or zero when there is none.\<close>

definition resource_of :: "string \<Rightarrow> ResourceList option \<Rightarrow> quantity" where
  "resource_of key m = (case m of None \<Rightarrow> zero_quantity | Some l \<Rightarrow> mget zero_quantity l key)"

text \<open>\<open>reflect.DeepEqual\<close> on two maps: both \<open>nil\<close>, or both not and with the same entries.\<close>

definition opt_map_DeepEqual :: "('a, 'b) gomap option \<Rightarrow> ('a, 'b) gomap option \<Rightarrow> bool" where
  "opt_map_DeepEqual a b = (case (a, b) of
      (None, None) \<Rightarrow> True
    | (Some m, Some m') \<Rightarrow> length m = length m' \<and> list_all (\<lambda>(k, v). map_of m' k = Some v) m
    | _ \<Rightarrow> False)"

definition resources_DeepEqual :: "ResourceRequirements option \<Rightarrow> ResourceRequirements option \<Rightarrow> bool" where
  "resources_DeepEqual a b = (case (a, b) of
      (None, None) \<Rightarrow> True
    | (Some r, Some r') \<Rightarrow> opt_map_DeepEqual (Limits r) (Limits r') \<and> opt_map_DeepEqual (Requests r) (Requests r')
    | _ \<Rightarrow> False)"

lemma opt_map_DeepEqual_refl [simp]: "pred_option wf_map m \<Longrightarrow> opt_map_DeepEqual m m"
  by (cases m) (auto simp: opt_map_DeepEqual_def list_all_iff)

section \<open>Objects\<close>

record OwnerReference =
  owner_Kind :: string
  owner_Name :: string
  owner_UID :: string

text \<open>\<open>EnvVar.ValueFrom\<close>: a plain value, or a reference to a field, a secret or a ConfigMap.\<close>

datatype EnvVarSource = EnvValue string | EnvFieldRef string | EnvSecretKeyRef string string
  | EnvConfigMapKeyRef string string

record EnvVar =
  env_Name :: string
  env_From :: EnvVarSource

record ContainerPort =
  port_Name :: string
  ContainerPort :: int

record VolumeMount =
  mount_Name :: string
  MountPath :: string
  SubPath :: string
  mount_ReadOnly :: bool

text \<open>A probe the operator builds, with its delay, its timeout and its command, or one it copies; the same for
  life cycle hooks (after the start, before the stop), affinities and volumes.\<close>

datatype Probe = ExecProbe int int "string list" | GivenProbe k8s_value

datatype Lifecycle = ExecHooks "string list" "string list" | GivenLifecycle k8s_value

datatype Affinity = AntiAffinity "(int \<times> string \<times> labels) list" "(string \<times> labels) list" | GivenAffinity k8s_value

datatype VolumeSource = ConfigMapVolume string int | SecretVolume string | EmptyDir | ClaimVolume string
  | GivenVolume k8s_value

record Volume =
  vol_Name :: string
  vol_Source :: VolumeSource

record Container =
  cont_Name :: string
  cont_Image :: string
  cont_ImagePullPolicy :: string
  cont_SecurityContext :: "k8s_value option"
  cont_Ports :: "ContainerPort list"
  cont_Command :: "string list"
  cont_Args :: "string list"
  cont_Env :: "EnvVar list"
  cont_Resources :: ResourceRequirements
  cont_VolumeMounts :: "VolumeMount list"
  cont_LivenessProbe :: "Probe option"
  cont_ReadinessProbe :: "Probe option"
  cont_Lifecycle :: "Lifecycle option"

text \<open>\<open>corev1.Container{}\<close>.\<close>

definition no_container :: Container where
  "no_container = \<lparr>cont_Name = [], cont_Image = [], cont_ImagePullPolicy = [], cont_SecurityContext = None,
     cont_Ports = [], cont_Command = [], cont_Args = [], cont_Env = [],
     cont_Resources = \<lparr>Requests = None, Limits = None\<rparr>, cont_VolumeMounts = [],
     cont_LivenessProbe = None, cont_ReadinessProbe = None, cont_Lifecycle = None\<rparr>"

definition PodRunning :: string where "PodRunning = ''Running''"

record Pod =
  pod_Name :: string
  pod_Namespace :: string
  pod_NodeName :: string
  pod_PodIP :: string
  pod_Phase :: string
  pod_OwnerReferences :: "OwnerReference list"
  pod_DeletionTimestamp :: "int option"
  pod_Containers :: "Container list"

record PersistentVolumeClaim =
  pvc_Name :: string
  pvc_Namespace :: string
  pvc_Labels :: "labels option"
  pvc_OwnerReferences :: "OwnerReference list"
  pvc_AccessModes :: "string list"
  pvc_Size :: quantity
  pvc_StorageClassName :: string
  pvc_VolumeMode :: string

record PodTemplate =
  pt_Labels :: "labels option"
  pt_Annotations :: "(string, string) gomap option"
  pt_ImagePullSecrets :: "string list"
  pt_Affinity :: "Affinity option"
  pt_Tolerations :: "k8s_value list"
  pt_SecurityContext :: "k8s_value option"
  pt_NodeSelector :: labels
  pt_SchedulerName :: string
  pt_PriorityClassName :: string
  pt_Priority :: "int option"
  pt_RestartPolicy :: string
  pt_InitContainers :: "Container list"
  pt_Containers :: "Container list"
  pt_Volumes :: "Volume list"

record StatefulSet =
  sts_Name :: string
  sts_Namespace :: string
  sts_Labels :: labels
  sts_OwnerReferences :: "OwnerReference list"
  sts_ServiceName :: string
  sts_Replicas :: int
  sts_UpdateStrategy :: string
  sts_Selector :: labels
  sts_Template :: PodTemplate
  sts_VolumeClaimTemplates :: "PersistentVolumeClaim list"
  sts_ReadyReplicas :: int
  sts_CurrentReplicas :: int

abbreviation sts_Containers :: "StatefulSet \<Rightarrow> Container list" where
  "sts_Containers ss \<equiv> pt_Containers (sts_Template ss)"

record Service =
  svc_Name :: string
  svc_Namespace :: string
  svc_Labels :: labels
  svc_OwnerReferences :: "OwnerReference list"
  svc_Ports :: "(string \<times> int) list"
  svc_Selector :: labels
  svc_ClusterIP :: string

record ConfigMap =
  cm_Name :: string
  cm_Namespace :: string
  cm_Labels :: labels
  cm_OwnerReferences :: "OwnerReference list"
  cm_Data :: "(string, string) gomap"

record Secret =
  secret_Name :: string
  secret_Namespace :: string
  secret_OwnerReferences :: "OwnerReference list"
  secret_Data :: "(string, string) gomap"

record PodDisruptionBudget =
  pdb_Name :: string
  pdb_Namespace :: string
  pdb_Labels :: labels
  pdb_OwnerReferences :: "OwnerReference list"
  pdb_MaxUnavailable :: int
  pdb_MatchLabels :: labels

definition JobComplete :: string where "JobComplete = ''Complete''"
definition JobFailed :: string where "JobFailed = ''Failed''"
definition ConditionTrue :: string where "ConditionTrue = ''True''"

record JobCondition =
  jc_Type :: string
  jc_Status :: string

record Job =
  job_Name :: string
  job_Namespace :: string
  job_Labels :: labels
  job_Annotations :: "(string, string) gomap option"
  job_OwnerReferences :: "OwnerReference list"
  job_ActiveDeadlineSeconds :: "int option"
  job_BackoffLimit :: "int option"
  job_Template :: PodTemplate
  job_Succeeded :: int
  job_Failed :: int
  job_Conditions :: "JobCondition list"

section \<open>The client\<close>

text \<open>\<open>client.Client\<close> at one object type, over the state \<open>'k\<close> of the API server. A successful create or
  update fills in the object from the server's answer, so it returns the object.\<close>

record ('a, 'k) typed_client =
  c_Get :: "string \<Rightarrow> string \<Rightarrow> 'k \<Rightarrow> (goerr + 'a) \<times> 'k"
  c_List :: "string \<Rightarrow> labels \<Rightarrow> 'k \<Rightarrow> (goerr + 'a list) \<times> 'k"
  c_Create :: "'a \<Rightarrow> 'k \<Rightarrow> (goerr + 'a) \<times> 'k"
  c_Update :: "'a \<Rightarrow> 'k \<Rightarrow> (goerr + 'a) \<times> 'k"
  c_StatusUpdate :: "'a \<Rightarrow> 'k \<Rightarrow> (goerr + 'a) \<times> 'k"
  c_Delete :: "'a \<Rightarrow> 'k \<Rightarrow> goerr option \<times> 'k"

definition only_err :: "(goerr + 'a) \<times> 'k \<Rightarrow> goerr option \<times> 'k" where
  "only_err r = (case r of (Inl e, k) \<Rightarrow> (Some e, k) | (Inr _, k) \<Rightarrow> (None, k))"

end
