(* ===== verification/Api.thy ===== *)
theory Api
  imports K8sTypes
begin

text \<open>
  \<open>pkg/apis/redis/v1alpha1\<close>: the custom resources \<open>DistributedRedisCluster\<close> and \<open>RedisClusterBackup\<close>, their
  defaults (\<open>default.go\<close>), the constants (\<open>constants.go\<close>) and the admission checks of the web hook.
  A pointer field is an option, a map that may be \<open>nil\<close> an optional map.
\<close>

section \<open>Constants\<close>

definition PersistentClaim :: string where "PersistentClaim = ''persistent-claim''"
definition Ephemeral :: string where "Ephemeral = ''ephemeral''"
definition OperatorName :: string where "OperatorName = ''redis-cluster-operator''"
definition LabelManagedByKey :: string where "LabelManagedByKey = ''managed-by''"
definition LabelNameKey :: string where "LabelNameKey = ''distributed-redis-cluster''"
definition StatefulSetLabel :: string where "StatefulSetLabel = ''statefulSet''"
definition PasswordENV :: string where "PasswordENV = ''REDIS_PASSWORD''"

type_synonym ClusterStatus = string

definition ClusterStatusOK :: ClusterStatus where "ClusterStatusOK = ''Healthy''"
definition ClusterStatusKO :: ClusterStatus where "ClusterStatusKO = ''Failed''"
definition ClusterStatusCreating :: ClusterStatus where "ClusterStatusCreating = ''Creating''"
definition ClusterStatusScaling :: ClusterStatus where "ClusterStatusScaling = ''Scaling''"
definition ClusterStatusCalculatingRebalancing :: ClusterStatus where
  "ClusterStatusCalculatingRebalancing = ''Calculating Rebalancing''"
definition ClusterStatusRollingUpdate :: ClusterStatus where "ClusterStatusRollingUpdate = ''RollingUpdate''"
definition ClusterStatusResetPassword :: ClusterStatus where "ClusterStatusResetPassword = ''ResetPassword''"

type_synonym RestorePhase = string

definition RestorePhaseRunning :: RestorePhase where "RestorePhaseRunning = ''Running''"
definition RestorePhaseRestart :: RestorePhase where "RestorePhaseRestart = ''Restart''"
definition RestorePhaseSucceeded :: RestorePhase where "RestorePhaseSucceeded = ''Succeeded''"

lemmas restore_phase_defs = RestorePhaseRunning_def RestorePhaseRestart_def RestorePhaseSucceeded_def

lemma restore_phases_distinct [simp]:
  "RestorePhaseRunning \<noteq> RestorePhaseRestart" "RestorePhaseRestart \<noteq> RestorePhaseRunning"
  "RestorePhaseRunning \<noteq> RestorePhaseSucceeded" "RestorePhaseSucceeded \<noteq> RestorePhaseRunning"
  "RestorePhaseRestart \<noteq> RestorePhaseSucceeded" "RestorePhaseSucceeded \<noteq> RestorePhaseRestart"
  "RestorePhaseRunning \<noteq> []" "RestorePhaseRestart \<noteq> []" "RestorePhaseSucceeded \<noteq> []"
  by (simp_all add: restore_phase_defs)

definition DatabaseNamePrefix :: string where "DatabaseNamePrefix = ''redis''"
definition GenericKey :: string where "GenericKey = ''redis.kun''"
definition ResourceSingularBackup :: string where "ResourceSingularBackup = ''backup''"
definition LabelClusterName :: string where "LabelClusterName = GenericKey @ ''/name''"
definition BackupKey :: string where "BackupKey = ResourceSingularBackup @ ''.'' @ GenericKey"
definition LabelBackupStatus :: string where "LabelBackupStatus = BackupKey @ ''/status''"
definition AnnotationJobType :: string where "AnnotationJobType = GenericKey @ ''/job-type''"
definition JobTypeBackup :: string where "JobTypeBackup = ''backup''"
definition JobTypeRestore :: string where "JobTypeRestore = ''restore''"
definition PrometheusExporterPortNumber :: int where "PrometheusExporterPortNumber = 9100"
definition PrometheusExporterTelemetryPath :: string where "PrometheusExporterTelemetryPath = ''/metrics''"
definition BackupDumpDir :: string where "BackupDumpDir = ''/data''"
definition UtilVolumeName :: string where "UtilVolumeName = ''util-volume''"
definition DistributedRedisClusterKind :: string where "DistributedRedisClusterKind = ''DistributedRedisCluster''"
definition RedisClusterBackupKind :: string where "RedisClusterBackupKind = ''RedisClusterBackup''"

type_synonym BackupPhase = string

definition BackupPhaseRunning :: BackupPhase where "BackupPhaseRunning = ''Running''"
definition BackupPhaseSucceeded :: BackupPhase where "BackupPhaseSucceeded = ''Succeeded''"
definition BackupPhaseFailed :: BackupPhase where "BackupPhaseFailed = ''Failed''"
definition BackupPhaseIgnored :: BackupPhase where "BackupPhaseIgnored = ''Ignored''"

section \<open>Types\<close>

record PrometheusSpec =
  prom_Port :: int
  prom_Namespace :: string
  prom_Labels :: labels
  prom_Interval :: string

record AgentSpec =
  mon_Image :: string
  mon_Prometheus :: "PrometheusSpec option"
  mon_Args :: "string list"
  mon_Env :: "EnvVar list"
  mon_Resources :: ResourceRequirements
  mon_SecurityContext :: "k8s_value option"

record BackupSourceSpec =
  src_Namespace :: string
  src_Name :: string
  src_Args :: "string list"

record InitSpec =
  BackupSource :: "BackupSourceSpec option"

record RedisStorage =
  storage_Size :: quantity
  storage_Type :: string
  storage_Class :: string
  storage_DeleteClaim :: bool

record DistributedRedisClusterSpec =
  sp_Image :: string
  sp_ImagePullPolicy :: string
  sp_ImagePullSecrets :: "string list"
  sp_Command :: "string list"
  sp_Env :: "EnvVar list"
  sp_MasterSize :: int
  sp_ClusterReplicas :: int
  sp_ServiceName :: string
  sp_Config :: "(string, string) gomap option"
  sp_RequiredAntiAffinity :: bool
  sp_Affinity :: "Affinity option"
  sp_NodeSelector :: labels
  sp_ToleRations :: "k8s_value list"
  sp_SecurityContext :: "k8s_value option"
  sp_ContainerSecurityContext :: "k8s_value option"
  sp_Annotations :: "(string, string) gomap option"
  sp_Storage :: "RedisStorage option"
  sp_Resources :: "ResourceRequirements option"
  sp_PasswordSecret :: "string option"
  sp_Monitor :: "AgentSpec option"
  sp_Init :: "InitSpec option"

record RedisClusterNode =
  an_ID :: string
  an_Role :: RedisRole
  an_IP :: string
  an_Port :: string
  an_Slots :: "string list"
  an_MasterRef :: string
  an_PodName :: string
  an_NodeName :: string
  an_StatefulSet :: string

text \<open>The storage back end of a backup is a type of the package \<open>objectstore-api\<close>; these are the fields the
  operator looks at.\<close>

record ObjectStore =
  store_Endpoint :: string
  store_Bucket :: string
  store_Prefix :: string

record LocalStore =
  local_MountPath :: string
  local_SubPath :: string
  local_VolumeSource :: VolumeSource

record Backend =
  StorageSecretName :: string
  S3 :: "ObjectStore option"
  GCS :: "ObjectStore option"
  Azure :: "ObjectStore option"
  Swift :: "ObjectStore option"
  Local :: "LocalStore option"

record PodSpec =
  ps_ServiceAccountName :: string
  ps_Args :: "string list"
  ps_NodeSelector :: labels
  ps_Resources :: ResourceRequirements
  ps_Affinity :: "Affinity option"
  ps_SchedulerName :: string
  ps_Tolerations :: "k8s_value list"
  ps_ImagePullSecrets :: "string list"
  ps_Env :: "EnvVar list"
  ps_InitContainers :: "Container list"
  ps_PriorityClassName :: string
  ps_Priority :: "int option"
  ps_SecurityContext :: "k8s_value option"
  ps_LivenessProbe :: "Probe option"
  ps_ReadinessProbe :: "Probe option"
  ps_Lifecycle :: "Lifecycle option"

record RedisClusterBackupSpec =
  bs_Image :: string
  bs_RedisClusterName :: string
  bs_Storage :: "RedisStorage option"
  bs_Backend :: Backend
  bs_PodSpec :: "PodSpec option"
  bs_ActiveDeadlineSeconds :: "int option"

record RedisClusterBackupStatus =
  bst_StartTime :: "int option"
  bst_CompletionTime :: "int option"
  bst_Phase :: BackupPhase
  bst_Reason :: string
  bst_MasterSize :: int
  bst_ClusterReplicas :: int
  bst_ClusterImage :: string

record RedisClusterBackup =
  bk_Name :: string
  bk_Namespace :: string
  bk_UID :: string
  bk_Labels :: "labels option"
  bk_Spec :: RedisClusterBackupSpec
  bk_Status :: RedisClusterBackupStatus

record Restore =
  restore_Phase :: RestorePhase
  restore_Backup :: "RedisClusterBackup option"

record DistributedRedisClusterStatus =
  st_Status :: ClusterStatus
  st_Reason :: string
  st_NumberOfMaster :: int
  st_MinReplicationFactor :: int
  st_MaxReplicationFactor :: int
  st_NodesPlacement :: string
  st_Nodes :: "RedisClusterNode list"
  st_Restore :: Restore

record DistributedRedisCluster =
  drc_Name :: string
  drc_Namespace :: string
  drc_UID :: string
  drc_Annotations :: "(string, string) gomap option"
  drc_Labels :: "labels option"
  drc_Spec :: DistributedRedisClusterSpec
  drc_Status :: DistributedRedisClusterStatus

type_synonym drc = DistributedRedisCluster

abbreviation upd_spec :: "(DistributedRedisClusterSpec \<Rightarrow> DistributedRedisClusterSpec) \<Rightarrow> drc \<Rightarrow> drc" where
  "upd_spec f c \<equiv> c\<lparr>drc_Spec := f (drc_Spec c)\<rparr>"

abbreviation upd_status :: "(DistributedRedisClusterStatus \<Rightarrow> DistributedRedisClusterStatus) \<Rightarrow> drc \<Rightarrow> drc" where
  "upd_status f c \<equiv> c\<lparr>drc_Status := f (drc_Status c)\<rparr>"

text \<open>\<open>ToAPINode\<close> of \<open>node.go\<close>.\<close>

definition ToAPINode :: "Node \<Rightarrow> RedisClusterNode" where
  "ToAPINode n = \<lparr>an_ID = ID n, an_Role = GetRole n, an_IP = IP n, an_Port = [], an_Slots = [], an_MasterRef = [],
     an_PodName = PodName n, an_NodeName = [], an_StatefulSet = []\<rparr>"

section \<open>Defaults\<close>

definition minMasterSize :: int where "minMasterSize = 3"
definition minClusterReplicas :: int where "minClusterReplicas = 1"
definition defaultRedisImage :: string where "defaultRedisImage = ''redis:5.0.4-alpine''"
definition defaultMonitorImage :: string where "defaultMonitorImage = ''oliver006/redis_exporter:latest''"

definition defaultResource :: ResourceRequirements where
  "defaultResource = \<lparr>
     Requests = Some [(''cpu'', \<lparr>q_milli = 200, q_form = ''200m''\<rparr>), (''memory'', \<lparr>q_milli = 2 * 1024 ^ 3 * 1000, q_form = ''2Gi''\<rparr>)],
     Limits = Some [(''cpu'', \<lparr>q_milli = 1000, q_form = ''1000m''\<rparr>), (''memory'', \<lparr>q_milli = 4 * 1024 ^ 3 * 1000, q_form = ''4Gi''\<rparr>)]\<rparr>"

text \<open>\<open>Resources.Size()\<close> is zero when no request and no limit is given.\<close>

definition resources_empty :: "ResourceRequirements \<Rightarrow> bool" where
  "resources_empty r \<longleftrightarrow> (case Requests r of None \<Rightarrow> True | Some m \<Rightarrow> m = [])
     \<and> (case Limits r of None \<Rightarrow> True | Some m \<Rightarrow> m = [])"

definition default_monitor :: "AgentSpec \<Rightarrow> bool \<times> AgentSpec" where
  "default_monitor mon =
     (let (update, mon) = (if mon_Image mon = [] then (True, mon\<lparr>mon_Image := defaultMonitorImage\<rparr>) else (False, mon));
          (update, prom) = (case mon_Prometheus mon of
             None \<Rightarrow> (True, \<lparr>prom_Port = 0, prom_Namespace = [], prom_Labels = [], prom_Interval = []\<rparr>)
           | Some p \<Rightarrow> (update, p));
          (update, prom) = (if prom_Port prom = 0 then (True, prom\<lparr>prom_Port := PrometheusExporterPortNumber\<rparr>)
                            else (update, prom))
      in (update, mon\<lparr>mon_Prometheus := Some prom\<rparr>))"

definition prometheus_annotations :: "int \<Rightarrow> (string, string) gomap \<Rightarrow> (string, string) gomap" where
  "prometheus_annotations port m =
     mput ''prometheus.io/port'' (FormatInt port)
       (mput ''prometheus.io/path'' PrometheusExporterTelemetryPath (mput ''prometheus.io/scrape'' ''true'' m))"

text \<open>\<open>DefaultSpec\<close> is a sequence of steps \<open>if in.Spec.F is missing { in.Spec.F = ...; update = true }\<close>; the
  last one, for the exporter, also writes the annotations.\<close>

definition default_if :: "('s \<Rightarrow> bool) \<Rightarrow> ('s \<Rightarrow> 's) \<Rightarrow> bool \<times> 's \<Rightarrow> bool \<times> 's" where
  "default_if missing fill st = (case st of (update, sp) \<Rightarrow> if missing sp then (True, fill sp) else (update, sp))"

definition default_exporter :: "bool \<times> DistributedRedisClusterSpec \<Rightarrow> bool \<times> DistributedRedisClusterSpec" where
  "default_exporter st =
     (case st of (update, sp) \<Rightarrow>
        (case sp_Monitor sp of
           None \<Rightarrow> (update, sp)
         | Some mon \<Rightarrow>
             let (u, mon) = default_monitor mon;
                 (u, ann) = (case sp_Annotations sp of None \<Rightarrow> (True, []) | Some m \<Rightarrow> (u, m));
                 port = (case mon_Prometheus mon of Some p \<Rightarrow> prom_Port p | None \<Rightarrow> 0)
             in (update \<or> u, sp\<lparr>sp_Monitor := Some mon, sp_Annotations := Some (prometheus_annotations port ann)\<rparr>)))"

definition no_resources :: "DistributedRedisClusterSpec \<Rightarrow> bool" where
  "no_resources sp \<longleftrightarrow> (case sp_Resources sp of None \<Rightarrow> True | Some r \<Rightarrow> resources_empty r)"

definition DefaultSpec :: "drc \<Rightarrow> bool \<times> drc" where
  "DefaultSpec c =
     (let st = (False, drc_Spec c);
          st = default_if (\<lambda>sp. sp_MasterSize sp < minMasterSize) (sp_MasterSize_update (\<lambda>_. minMasterSize)) st;
          st = default_if (\<lambda>sp. sp_Image sp = []) (sp_Image_update (\<lambda>_. defaultRedisImage)) st;
          st = default_if (\<lambda>sp. sp_ServiceName sp = []) (sp_ServiceName_update (\<lambda>_. drc_Name c)) st;
          st = default_if no_resources (sp_Resources_update (\<lambda>_. Some defaultResource)) st;
          (update, sp) = default_exporter st
      in (update, c\<lparr>drc_Spec := sp\<rparr>))"

definition IsRestoreFromBackup :: "drc \<Rightarrow> bool" where
  "IsRestoreFromBackup c =
     (case sp_Init (drc_Spec c) of Some i \<Rightarrow> if BackupSource i \<noteq> None then True else False | None \<Rightarrow> False)"

abbreviation restore_phase :: "drc \<Rightarrow> RestorePhase" where
  "restore_phase c \<equiv> restore_Phase (st_Restore (drc_Status c))"

definition IsRestored :: "drc \<Rightarrow> bool" where
  "IsRestored c \<longleftrightarrow> restore_phase c = RestorePhaseSucceeded"

definition ShouldInitRestorePhase :: "drc \<Rightarrow> bool" where
  "ShouldInitRestorePhase c \<longleftrightarrow> restore_phase c = []"

definition IsRestoreRunning :: "drc \<Rightarrow> bool" where
  "IsRestoreRunning c \<longleftrightarrow> restore_phase c = RestorePhaseRunning"

definition IsRestoreRestarting :: "drc \<Rightarrow> bool" where
  "IsRestoreRestarting c \<longleftrightarrow> restore_phase c = RestorePhaseRestart"

definition DefaultOwnerReferences :: "drc \<Rightarrow> OwnerReference list" where
  "DefaultOwnerReferences c = [\<lparr>owner_Kind = DistributedRedisClusterKind, owner_Name = drc_Name c, owner_UID = drc_UID c\<rparr>]"

section \<open>Backups\<close>

definition Backup_Validate :: "RedisClusterBackup \<Rightarrow> goerr option" where
  "Backup_Validate b =
     (let sp = bk_Spec b; be = bs_Backend sp in
      if bs_RedisClusterName sp = [] then Some (Errorf ''bakcup [RedisClusterName] is missing'')
      else if S3 be = None \<and> GCS be = None \<and> Azure be = None \<and> Swift be = None \<and> Local be = None
      then Some (Errorf ''no storage provider is configured'')
      else if (Azure be \<noteq> None \<or> Swift be \<noteq> None) \<and> StorageSecretName be = []
      then Some (Errorf ''bakcup [SecretName] is missing'')
      else None)"

text \<open>\<open>filepath.Join\<close>: the elements that are not empty, joined and cleaned of empty, \<open>.\<close> and \<open>..\<close> parts.\<close>

fun clean_parts :: "bool \<Rightarrow> string list \<Rightarrow> string list \<Rightarrow> string list" where
  "clean_parts rooted out [] = rev out"
| "clean_parts rooted out (p # ps) =
     (if p = [] \<or> p = ''.'' then clean_parts rooted out ps
      else if p = ''..'' then
        (case out of
           q # qs \<Rightarrow> if q \<noteq> ''..'' then clean_parts rooted qs ps else clean_parts rooted (p # out) ps
         | [] \<Rightarrow> clean_parts rooted (if rooted then [] else [p]) ps)
      else clean_parts rooted (p # out) ps)"

definition path_Clean :: "string \<Rightarrow> string" where
  "path_Clean s =
     (let rooted = HasPrefix s ''/'';
          body = join_with ''/'' (clean_parts rooted [] (split_on (CHR ''/'') s))
      in if rooted then ''/'' @ body else if body = [] then ''.'' else body)"

definition filepath_Join :: "string list \<Rightarrow> string" where
  "filepath_Join elems =
     (let es = filter (\<lambda>e. e \<noteq> []) elems in if es = [] then [] else path_Clean (join_with ''/'' es))"

text \<open>\<open>RemotePath\<close>; \<open>stamp\<close> is \<open>Format("20060102150405")\<close> of package \<open>time\<close>. A backup without a start time
  dereferences \<open>nil\<close>.\<close>

definition RemotePath :: "(int \<Rightarrow> string) \<Rightarrow> RedisClusterBackup \<Rightarrow> (goerr + string) outcome" where
  "RemotePath stamp b =
     (case bst_StartTime (bk_Status b) of
        None \<Rightarrow> Panic NilDereference
      | Some t \<Rightarrow>
          let be = bs_Backend (bk_Spec b);
              tail = [DatabaseNamePrefix, bk_Namespace b, bs_RedisClusterName (bk_Spec b), stamp t];
              path = (\<lambda>s. Inr (filepath_Join (store_Prefix s # tail)))
          in Ret (case S3 be of Some s \<Rightarrow> path s | None \<Rightarrow>
                  (case GCS be of Some s \<Rightarrow> path s | None \<Rightarrow>
                  (case Azure be of Some s \<Rightarrow> path s | None \<Rightarrow>
                  (case Local be of Some l \<Rightarrow> Inr (filepath_Join tail) | None \<Rightarrow>
                  (case Swift be of Some s \<Rightarrow> path s | None \<Rightarrow>
                   Inl (Errorf ''no storage provider is configured'')))))))"

definition RCloneSecretName :: "RedisClusterBackup \<Rightarrow> string" where
  "RCloneSecretName b = ''rcloneconfig-'' @ bk_Name b"

definition JobName :: "RedisClusterBackup \<Rightarrow> string" where
  "JobName b = ''redisbackup-'' @ bk_Name b"

definition IsRefLocalPVC :: "RedisClusterBackup \<Rightarrow> bool" where
  "IsRefLocalPVC b = (case Local (bs_Backend (bk_Spec b)) of Some l \<Rightarrow> (case local_VolumeSource l of ClaimVolume _ \<Rightarrow> True | _ \<Rightarrow> False) | None \<Rightarrow> False)"

section \<open>Admission\<close>

text \<open>The two checks of the Kubernetes validation packages are parameters: the errors of a service name
  and of resource requirements.\<close>

record validators =
  IsDNS1035Label :: "string \<Rightarrow> string list"
  ValidateResourceRequirements :: "ResourceRequirements \<Rightarrow> goerr list"

definition compareObj :: "drc \<Rightarrow> drc \<Rightarrow> bool" where
  "compareObj new old =
     (if CompareInt32 (sp_MasterSize (drc_Spec new)) (sp_MasterSize (drc_Spec old)) then True
      else if CompareStringValue (sp_Image (drc_Spec new)) (sp_Image (drc_Spec old)) then True
      else if \<not> resources_DeepEqual (sp_Resources (drc_Spec new)) (sp_Resources (drc_Spec old)) then True
      else if sp_PasswordSecret (drc_Spec new) \<noteq> sp_PasswordSecret (drc_Spec old) then True
      else False)"

definition ValidateCreate :: "validators \<Rightarrow> drc \<Rightarrow> goerr option" where
  "ValidateCreate v c =
     (let sp = drc_Spec c; errs = IsDNS1035Label v (sp_ServiceName sp) in
      if length (sp_ServiceName sp) > 0 \<and> length errs > 0
      then Some (Errorf (''the custom service is invalid: invalid value: '' @ sp_ServiceName sp @ '', '' @ join_with '','' errs))
      else case sp_Resources sp of
        None \<Rightarrow> None
      | Some r \<Rightarrow> NewAggregate (ValidateResourceRequirements v r))"

text \<open>The old object is \<open>None\<close> when it is not a \<open>DistributedRedisCluster\<close>.\<close>

definition ValidateUpdate :: "validators \<Rightarrow> drc \<Rightarrow> drc option \<Rightarrow> goerr option" where
  "ValidateUpdate v c old =
     (case old of
        None \<Rightarrow> Some (Errorf ''invalid obj type'')
      | Some oldObj \<Rightarrow>
          let sp = drc_Spec c; errs = IsDNS1035Label v (sp_ServiceName sp) in
          if length (sp_ServiceName sp) > 0 \<and> length errs > 0
          then Some (Errorf (''the custom service is invalid: invalid value: '' @ sp_ServiceName sp @ '', '' @ join_with '','' errs))
          else case (case sp_Resources sp of None \<Rightarrow> None | Some r \<Rightarrow> NewAggregate (ValidateResourceRequirements v r)) of
            Some e \<Rightarrow> Some e
          | None \<Rightarrow>
              if st_Status (drc_Status oldObj) = [] then None
              else if compareObj c oldObj \<and> st_Status (drc_Status oldObj) \<noteq> ClusterStatusOK
              then Some (Errorf (''redis cluster status: ['' @ st_Status (drc_Status oldObj)
                @ ''], wait for the status to become '' @ ClusterStatusOK @ '' before operating''))
              else None)"

definition ValidateDelete :: "drc \<Rightarrow> goerr option" where
  "ValidateDelete c = None"

section \<open>What the defaults establish\<close>

text \<open>A spec the resource constructors can use: enough masters, and every pointer they follow is set.\<close>

definition good_monitor :: "AgentSpec \<Rightarrow> bool" where
  "good_monitor mon \<longleftrightarrow> mon_Image mon \<noteq> []
     \<and> (case mon_Prometheus mon of None \<Rightarrow> False | Some p \<Rightarrow> prom_Port p \<noteq> 0)"

definition good_spec :: "DistributedRedisClusterSpec \<Rightarrow> bool" where
  "good_spec sp \<longleftrightarrow> minMasterSize \<le> sp_MasterSize sp \<and> sp_Image sp \<noteq> [] \<and> sp_ServiceName sp \<noteq> [] \<and> \<not> no_resources sp
     \<and> (case sp_Monitor sp of None \<Rightarrow> True | Some mon \<Rightarrow> good_monitor mon \<and> sp_Annotations sp \<noteq> None)"

text \<open>The annotations by which Prometheus finds the exporter.\<close>

definition scraped :: "DistributedRedisClusterSpec \<Rightarrow> bool" where
  "scraped sp \<longleftrightarrow> (case sp_Monitor sp of None \<Rightarrow> True | Some mon \<Rightarrow>
     (case (sp_Annotations sp, mon_Prometheus mon) of
        (Some ann, Some p) \<Rightarrow> map_of ann ''prometheus.io/scrape'' = Some ''true''
          \<and> map_of ann ''prometheus.io/path'' = Some PrometheusExporterTelemetryPath
          \<and> map_of ann ''prometheus.io/port'' = Some (FormatInt (prom_Port p))
      | _ \<Rightarrow> False))"

lemma mput_present [simp]: "map_of m k = Some v \<Longrightarrow> mput k v m = m"
  by (induction m) (auto split: if_splits)

lemma prometheus_annotations_present:
  "map_of m ''prometheus.io/scrape'' = Some ''true'' \<Longrightarrow>
   map_of m ''prometheus.io/path'' = Some PrometheusExporterTelemetryPath \<Longrightarrow>
   map_of m ''prometheus.io/port'' = Some (FormatInt port) \<Longrightarrow> prometheus_annotations port m = m"
  by (simp add: prometheus_annotations_def)

lemma map_of_prometheus_annotations [simp]:
  "map_of (prometheus_annotations port m) ''prometheus.io/scrape'' = Some ''true''"
  "map_of (prometheus_annotations port m) ''prometheus.io/path'' = Some PrometheusExporterTelemetryPath"
  "map_of (prometheus_annotations port m) ''prometheus.io/port'' = Some (FormatInt port)"
  by (simp_all add: prometheus_annotations_def)

lemma defaultResource_not_empty [simp]: "\<not> resources_empty defaultResource"
  by (simp add: resources_empty_def defaultResource_def)

lemma default_names [simp]: "defaultRedisImage \<noteq> []" "defaultMonitorImage \<noteq> []" "PrometheusExporterPortNumber \<noteq> 0"
  by (simp_all add: defaultRedisImage_def defaultMonitorImage_def PrometheusExporterPortNumber_def)

lemma default_monitor_good: "good_monitor (snd (default_monitor mon))"
  by (auto simp: default_monitor_def good_monitor_def Let_def split: option.splits)

lemma default_monitor_id: "good_monitor mon \<Longrightarrow> default_monitor mon = (False, mon)"
  by (auto simp: default_monitor_def good_monitor_def Let_def split: option.splits if_splits)

lemma default_if_eq: "default_if p f (u, sp) = (u \<or> p sp, if p sp then f sp else sp)"
  by (simp add: default_if_def)

text \<open>The specification before the exporter, field by field.\<close>

definition filled :: "drc \<Rightarrow> DistributedRedisClusterSpec" where
  "filled c = (let sp = drc_Spec c in sp\<lparr>
     sp_MasterSize := max minMasterSize (sp_MasterSize sp),
     sp_Image := (if sp_Image sp = [] then defaultRedisImage else sp_Image sp),
     sp_ServiceName := (if sp_ServiceName sp = [] then drc_Name c else sp_ServiceName sp),
     sp_Resources := (if no_resources sp then Some defaultResource else sp_Resources sp)\<rparr>)"

definition incomplete :: "DistributedRedisClusterSpec \<Rightarrow> bool" where
  "incomplete sp \<longleftrightarrow> sp_MasterSize sp < minMasterSize \<or> sp_Image sp = [] \<or> sp_ServiceName sp = [] \<or> no_resources sp"

lemma no_resources_frame [simp]:
  "no_resources (sp_MasterSize_update f sp) = no_resources sp"
  "no_resources (sp_Image_update g sp) = no_resources sp"
  "no_resources (sp_ServiceName_update g sp) = no_resources sp"
  "no_resources (sp_Monitor_update h sp) = no_resources sp"
  "no_resources (sp_Annotations_update k sp) = no_resources sp"
  by (simp_all add: no_resources_def)

lemma field_if:
  "(if b then sp_MasterSize_update (\<lambda>_. v) sp else sp) = sp\<lparr>sp_MasterSize := if b then v else sp_MasterSize sp\<rparr>"
  "(if b then sp_Image_update (\<lambda>_. s) sp else sp) = sp\<lparr>sp_Image := if b then s else sp_Image sp\<rparr>"
  "(if b then sp_ServiceName_update (\<lambda>_. s) sp else sp) = sp\<lparr>sp_ServiceName := if b then s else sp_ServiceName sp\<rparr>"
  "(if b then sp_Resources_update (\<lambda>_. r) sp else sp) = sp\<lparr>sp_Resources := if b then r else sp_Resources sp\<rparr>"
  by simp_all

lemma DefaultSpec_eq:
  "DefaultSpec c = (case default_exporter (incomplete (drc_Spec c), filled c) of (u, sp) \<Rightarrow> (u, c\<lparr>drc_Spec := sp\<rparr>))"
  by (simp add: DefaultSpec_def default_if_eq field_if filled_def incomplete_def Let_def max_def not_le disj_assoc
      del: if_split_eq1 if_split_eq2)

lemma filled_id: "\<not> incomplete (drc_Spec c) \<Longrightarrow> filled c = drc_Spec c"
  by (simp add: filled_def incomplete_def Let_def max_def)

lemma filled_fields [simp]:
  "sp_Monitor (filled c) = sp_Monitor (drc_Spec c)" "sp_Annotations (filled c) = sp_Annotations (drc_Spec c)"
  by (simp_all add: filled_def Let_def)

lemma filled_complete: "drc_Name c \<noteq> [] \<Longrightarrow> \<not> incomplete (filled c)"
  by (auto simp: filled_def incomplete_def no_resources_def Let_def minMasterSize_def)

lemma good_spec_split: "good_spec sp \<longleftrightarrow> \<not> incomplete sp
    \<and> (case sp_Monitor sp of None \<Rightarrow> True | Some mon \<Rightarrow> good_monitor mon \<and> sp_Annotations sp \<noteq> None)"
  by (auto simp: good_spec_def incomplete_def)

lemma incomplete_frame [simp]:
  "incomplete (sp_Monitor_update h sp) = incomplete sp" "incomplete (sp_Annotations_update k sp) = incomplete sp"
  by (simp_all add: incomplete_def)

lemma default_exporter_good:
  "\<not> incomplete sp \<Longrightarrow> good_spec (snd (default_exporter (u, sp)))"
  using default_monitor_good
  by (simp add: default_exporter_def good_spec_split Let_def split: option.splits prod.splits)
    (metis snd_conv)

lemma default_exporter_scraped: "scraped (snd (default_exporter (u, sp)))"
proof (cases "sp_Monitor sp")
  case (Some mon)
  obtain b m where m: "default_monitor mon = (b, m)" by (cases "default_monitor mon")
  have "good_monitor m" using default_monitor_good [of mon] by (simp add: m)
  then obtain p where "mon_Prometheus m = Some p" by (auto simp: good_monitor_def split: option.splits)
  then show ?thesis by (cases "sp_Annotations sp") (simp_all add: default_exporter_def scraped_def Some m Let_def)
qed (simp add: default_exporter_def scraped_def)

lemma default_exporter_id:
  assumes "good_spec sp" and "scraped sp"
  shows "default_exporter (u, sp) = (u, sp)"
proof (cases "sp_Monitor sp")
  case (Some mon)
  obtain p where p: "mon_Prometheus mon = Some p" and "good_monitor mon"
    using assms(1) Some by (auto simp: good_spec_def good_monitor_def split: option.splits)
  then have m: "default_monitor mon = (False, mon)" by (simp add: default_monitor_id)
  obtain ann where a: "sp_Annotations sp = Some ann" using assms(1) Some by (auto simp: good_spec_def)
  have "prometheus_annotations (prom_Port p) ann = ann"
    using assms(2) by (intro prometheus_annotations_present) (simp_all add: scraped_def Some a p)
  moreover have "sp\<lparr>sp_Monitor := Some mon, sp_Annotations := Some ann\<rparr> = sp"
    by (simp flip: Some a)
  ultimately show ?thesis by (simp add: default_exporter_def Some m a p Let_def)
qed (simp add: default_exporter_def)

lemma default_exporter_report:
  "fst (default_exporter (u, sp)) \<longleftrightarrow> u \<or> (case sp_Monitor sp of None \<Rightarrow> False
     | Some mon \<Rightarrow> \<not> good_monitor mon \<or> sp_Annotations sp = None)"
  by (auto simp: default_exporter_def default_monitor_def good_monitor_def Let_def split: option.splits prod.splits if_splits)

text \<open>C33. \<open>DefaultSpec\<close> makes the spec usable whatever the user left out: at least three masters, an image, a
  service name, resources and, with a monitor, an exporter port and the annotations Prometheus looks for.
  It reports an update exactly when a required field was missing, so a missing annotation alone is filled in
  but not reported, and a second call changes nothing.\<close>

theorem DefaultSpec_establishes:
  assumes "drc_Name c \<noteq> []" and "DefaultSpec c = (update, c')"
  shows "good_spec (drc_Spec c') \<and> scraped (drc_Spec c') \<and> DefaultSpec c' = (False, c')
    \<and> (update \<longleftrightarrow> \<not> good_spec (drc_Spec c))
    \<and> sp_MasterSize (drc_Spec c') = max 3 (sp_MasterSize (drc_Spec c)) \<and> drc_Status c' = drc_Status c"
proof -
  obtain sp where e: "default_exporter (incomplete (drc_Spec c), filled c) = (update, sp)" and c': "c' = c\<lparr>drc_Spec := sp\<rparr>"
    using assms(2) by (auto simp: DefaultSpec_eq split: prod.splits)
  have good: "good_spec sp"
    using default_exporter_good [OF filled_complete [OF assms(1)], of "incomplete (drc_Spec c)"] by (simp add: e)
  have scr: "scraped sp" using default_exporter_scraped [of "incomplete (drc_Spec c)" "filled c"] by (simp add: e)
  have "filled c' = sp" and "\<not> incomplete sp"
    using good by (simp_all add: c' good_spec_split filled_id)
  then have "DefaultSpec c' = (False, c')"
    using default_exporter_id [OF good scr] by (simp add: DefaultSpec_eq c')
  moreover have "update \<longleftrightarrow> \<not> good_spec (drc_Spec c)"
    using default_exporter_report [of "incomplete (drc_Spec c)" "filled c"]
    by (auto simp: e good_spec_split split: option.splits)
  moreover have "sp_MasterSize sp = max 3 (sp_MasterSize (drc_Spec c))"
    using e by (auto simp: default_exporter_def filled_def minMasterSize_def Let_def split: option.splits prod.splits)
  ultimately show ?thesis using good scr by (simp add: c')
qed

text \<open>A manifest that gives a name and a monitor and leaves the rest open.\<close>

definition sample_spec :: DistributedRedisClusterSpec where
  "sample_spec = \<lparr>sp_Image = [], sp_ImagePullPolicy = [], sp_ImagePullSecrets = [], sp_Command = [], sp_Env = [],
     sp_MasterSize = 0, sp_ClusterReplicas = 1, sp_ServiceName = [], sp_Config = None, sp_RequiredAntiAffinity = False,
     sp_Affinity = None, sp_NodeSelector = [], sp_ToleRations = [], sp_SecurityContext = None,
     sp_ContainerSecurityContext = None, sp_Annotations = None, sp_Storage = None, sp_Resources = None,
     sp_PasswordSecret = None,
     sp_Monitor = Some \<lparr>mon_Image = [], mon_Prometheus = None, mon_Args = [], mon_Env = [],
       mon_Resources = \<lparr>Requests = None, Limits = None\<rparr>, mon_SecurityContext = None\<rparr>,
     sp_Init = None\<rparr>"

definition sample_status :: DistributedRedisClusterStatus where
  "sample_status = \<lparr>st_Status = [], st_Reason = [], st_NumberOfMaster = 0, st_MinReplicationFactor = 0,
     st_MaxReplicationFactor = 0, st_NodesPlacement = [], st_Nodes = [],
     st_Restore = \<lparr>restore_Phase = [], restore_Backup = None\<rparr>\<rparr>"

definition sample_cluster :: drc where
  "sample_cluster = \<lparr>drc_Name = ''example'', drc_Namespace = ''default'', drc_UID = ''u1'', drc_Annotations = None,
     drc_Labels = None, drc_Spec = sample_spec, drc_Status = sample_status\<rparr>"

lemma sample_cluster_simps [simp]: "drc_Name sample_cluster = ''example''" "drc_Spec sample_cluster = sample_spec"
    "drc_Status sample_cluster = sample_status" "drc_Namespace sample_cluster = ''default''"
  by (simp_all add: sample_cluster_def)

lemma sample_not_good: "\<not> good_spec sample_spec"
  by (simp add: good_spec_def sample_spec_def)

theorem DefaultSpec_establishes_witness:
  "drc_Name sample_cluster \<noteq> [] \<and> fst (DefaultSpec sample_cluster)
    \<and> good_spec (drc_Spec (snd (DefaultSpec sample_cluster)))
    \<and> sp_MasterSize (drc_Spec (snd (DefaultSpec sample_cluster))) = 3
    \<and> DefaultSpec (snd (DefaultSpec sample_cluster)) = (False, snd (DefaultSpec sample_cluster))"
  using DefaultSpec_establishes [of sample_cluster "fst (DefaultSpec sample_cluster)" "snd (DefaultSpec sample_cluster)"]
  by (simp add: sample_not_good) (simp add: sample_spec_def)

section \<open>What the admission checks guarantee\<close>

lemma compareObj_iff:
  "compareObj new old \<longleftrightarrow> \<not> (sp_MasterSize (drc_Spec new) = sp_MasterSize (drc_Spec old)
     \<and> sp_Image (drc_Spec new) = sp_Image (drc_Spec old)
     \<and> resources_DeepEqual (sp_Resources (drc_Spec new)) (sp_Resources (drc_Spec old))
     \<and> sp_PasswordSecret (drc_Spec new) = sp_PasswordSecret (drc_Spec old))"
  by (auto simp: compareObj_def CompareInt32_def CompareStringValue_def)

text \<open>C34. The web hook on a cluster whose status is set: an update is admitted exactly when the service name, if given, is a
  DNS label, the resources, if given, are valid, and either the cluster is healthy or the update leaves the master
  count, the image, the resources and the password secret alone. Other fields, the replica count among them, may change
  at any time.\<close>

theorem ValidateUpdate_admits:
  assumes "st_Status (drc_Status old) \<noteq> []"
  shows "ValidateUpdate v c (Some old) = None \<longleftrightarrow>
     (sp_ServiceName (drc_Spec c) = [] \<or> IsDNS1035Label v (sp_ServiceName (drc_Spec c)) = [])
     \<and> (\<forall>r. sp_Resources (drc_Spec c) = Some r \<longrightarrow> ValidateResourceRequirements v r = [])
     \<and> (st_Status (drc_Status old) = ''Healthy''
        \<or> (sp_MasterSize (drc_Spec c) = sp_MasterSize (drc_Spec old) \<and> sp_Image (drc_Spec c) = sp_Image (drc_Spec old)
           \<and> resources_DeepEqual (sp_Resources (drc_Spec c)) (sp_Resources (drc_Spec old))
           \<and> sp_PasswordSecret (drc_Spec c) = sp_PasswordSecret (drc_Spec old)))"
  using assms
  by (auto simp: ValidateUpdate_def compareObj_iff NewAggregate_def ClusterStatusOK_def Let_def split: option.splits)

text \<open>C27. The defaults and the web hook disagree on names. A cluster with no service name of its own is admitted at creation whatever
  its name; \<open>DefaultSpec\<close> then takes the name of the cluster as the service name and asks for an update, and when that
  name is no DNS label (such as one that starts with a digit) the web hook refuses that update whatever the old object was.\<close>

theorem DefaultSpec_refused:
  assumes "sp_ServiceName (drc_Spec c) = []" and "IsDNS1035Label v (drc_Name c) \<noteq> []" and "drc_Name c \<noteq> []"
    and "\<forall>r. sp_Resources (drc_Spec c) = Some r \<longrightarrow> ValidateResourceRequirements v r = []"
  shows "ValidateCreate v c = None \<and> fst (DefaultSpec c) \<and> (\<forall>old. ValidateUpdate v (snd (DefaultSpec c)) old \<noteq> None)"
proof -
  obtain u c' where d: "DefaultSpec c = (u, c')" by fastforce
  have "sp_ServiceName (drc_Spec c') = drc_Name c" and "u"
    using d assms(1)
    by (auto simp: DefaultSpec_eq default_exporter_def filled_def incomplete_def Let_def split: option.splits prod.splits)
  moreover have "ValidateCreate v c = None"
    using assms(1,4) by (auto simp: ValidateCreate_def NewAggregate_def split: option.split)
  ultimately show ?thesis
    using assms(2,3) by (auto simp: d ValidateUpdate_def split: option.split)
qed

text \<open>The label check of the Kubernetes package: a lower-case letter, then letters, digits and dashes, no dash at the end, at
  most 63 characters.\<close>

definition label_char :: "char \<Rightarrow> bool" where
  "label_char c \<longleftrightarrow> c \<in> set ''abcdefghijklmnopqrstuvwxyz''"

definition dns1035 :: "string \<Rightarrow> bool" where
  "dns1035 s \<longleftrightarrow> s \<noteq> [] \<and> length s \<le> 63 \<and> label_char (hd s) \<and> last s \<noteq> CHR ''-''
     \<and> list_all (\<lambda>c. label_char c \<or> c \<in> set ''0123456789-'') s"

definition label_validators :: validators where
  "label_validators = \<lparr>IsDNS1035Label = (\<lambda>s. if dns1035 s then [] else [''a DNS-1035 label is expected'']),
     ValidateResourceRequirements = (\<lambda>r. [])\<rparr>"

theorem ValidateUpdate_admits_witness:
  "let old = sample_cluster\<lparr>drc_Status := sample_status\<lparr>st_Status := ClusterStatusScaling\<rparr>\<rparr>;
       set_spec = (\<lambda>f. sample_cluster\<lparr>drc_Spec := f sample_spec\<rparr>) in
   ValidateUpdate label_validators (set_spec (sp_ClusterReplicas_update (\<lambda>_. 2))) (Some old) = None
   \<and> ValidateUpdate label_validators (set_spec (sp_MasterSize_update (\<lambda>_. 5))) (Some old) \<noteq> None
   \<and> ValidateUpdate label_validators (set_spec (sp_ServiceName_update (\<lambda>_. ''0-db''))) (Some old) \<noteq> None"
proof -
  let ?old = "sample_cluster\<lparr>drc_Status := sample_status\<lparr>st_Status := ClusterStatusScaling\<rparr>\<rparr>"
  have "st_Status (drc_Status ?old) \<noteq> []" by (simp add: ClusterStatusScaling_def)
  note admits = ValidateUpdate_admits [OF this]
  have "IsDNS1035Label label_validators ''0-db'' \<noteq> []" by (simp add: label_validators_def dns1035_def label_char_def)
  then show ?thesis
    unfolding Let_def admits by (simp add: sample_spec_def resources_DeepEqual_def ClusterStatusScaling_def)
qed

theorem DefaultSpec_refused_witness:
  "let c = sample_cluster\<lparr>drc_Name := ''0-db''\<rparr> in
   ValidateCreate label_validators c = None \<and> fst (DefaultSpec c)
   \<and> ValidateUpdate label_validators (snd (DefaultSpec c)) (Some c) \<noteq> None"
  using DefaultSpec_refused [of "sample_cluster\<lparr>drc_Name := ''0-db''\<rparr>" label_validators]
  by (simp add: sample_spec_def label_validators_def dns1035_def label_char_def)

end
