(* ===== verification/Placement.thy ===== *)
theory Placement
  imports PlacementV2 Api
begin

text \<open>
  \<open>pkg/controller/clustering/placement.go\<close> and \<open>DispatchMasters\<close> of \<open>migration.go\<close>: the placement of masters and slaves by the
  virtual machine their pods run on, before placement by StatefulSet replaced it. The operator no longer calls these functions; their
  tests do.
\<close>

section \<open>Nodes by VM\<close>

definition vm_name :: "nheap \<Rightarrow> nref \<Rightarrow> string" where
  "vm_name h cnode = (if NodeName (h cnode) \<noteq> [] then NodeName (h cnode) else unknownVMName)"

fun sort_by_vm :: "nheap \<Rightarrow> Cluster \<Rightarrow> (string, Nodes) gomap \<Rightarrow> Nodes \<Rightarrow> (string, Nodes) gomap" where
  "sort_by_vm h cluster nodesByVM [] = nodesByVM"
| "sort_by_vm h cluster nodesByVM (rnode # nodes) =
     (case Cluster_GetNodeByID cluster (ID (h rnode)) of
        Inl err \<Rightarrow> sort_by_vm h cluster nodesByVM nodes
      | Inr cnode \<Rightarrow>
          let vmName = vm_name h cnode;
              m = (if map_of nodesByVM vmName = None then mput vmName [] nodesByVM else nodesByVM)
          in sort_by_vm h cluster (mappend vmName [rnode] m) nodes)"

definition sortRedisNodeByVM :: "nheap \<Rightarrow> Cluster \<Rightarrow> Nodes \<Rightarrow> (string, Nodes) gomap" where
  "sortRedisNodeByVM h cluster nodes = sort_by_vm h cluster [] nodes"

definition checkIfSameVM :: "nheap \<Rightarrow> Cluster \<Rightarrow> string \<Rightarrow> string \<Rightarrow> bool" where
  "checkIfSameVM h cluster redisID vmName =
     (let nodeVMName = (case Cluster_GetNodeByID cluster redisID of Inr vmNode \<Rightarrow> NodeName (h vmNode) | Inl err \<Rightarrow> unknownVMName)
      in if vmName = nodeVMName then True else False)"

section \<open>Masters\<close>

text \<open>One pass over the VMs. The first component tells whether there are enough masters, so that the function returns; the
  last whether a master was added.\<close>

fun place_pass :: "bool \<Rightarrow> int \<Rightarrow> (string, Nodes) gomap \<Rightarrow> string list \<Rightarrow> (string, Nodes) gomap \<Rightarrow> Nodes \<Rightarrow> bool
    \<Rightarrow> bool \<times> (string, Nodes) gomap \<times> Nodes \<times> bool" where
  "place_pass besteffort nbMaster vmWithAlreadyMaster [] masterByVM selection isProgress = (False, masterByVM, selection, isProgress)"
| "place_pass besteffort nbMaster vmWithAlreadyMaster (vmName # vms) masterByVM selection isProgress =
     (if \<not> besteffort \<and> map_of vmWithAlreadyMaster vmName \<noteq> None
      then place_pass besteffort nbMaster vmWithAlreadyMaster vms masterByVM selection isProgress
      else case mget [] masterByVM vmName of
        [] \<Rightarrow> place_pass besteffort nbMaster vmWithAlreadyMaster vms masterByVM selection isProgress
      | node # nodes \<Rightarrow>
          let selection = selection @ [node]; masterByVM = mput vmName nodes masterByVM
          in if int (length selection) \<ge> nbMaster then (True, masterByVM, selection, True)
             else place_pass besteffort nbMaster vmWithAlreadyMaster vms masterByVM selection True)"

definition free_nodes :: "(string, Nodes) gomap \<Rightarrow> Nodes" where
  "free_nodes m = concat (map snd m)"

lemma free_nodes_take:
  "mget [] m k = n # rest \<Longrightarrow> mset (free_nodes m) = add_mset n (mset (free_nodes (mput k rest m)))"
  by (induction m) (auto simp: free_nodes_def mget_def split: if_splits)

lemma place_pass_mset:
  "place_pass be nb used vms m sel p = (d, m', sel', p') \<Longrightarrow>
   mset (free_nodes m') + mset sel' = mset (free_nodes m) + mset sel
   \<and> length sel \<le> length sel' \<and> (p' \<longrightarrow> p \<or> length sel < length sel')"
proof (induction be nb used vms m sel p rule: place_pass.induct)
  case (2 be nb used vm vms m sel p)
  show ?case
  proof (cases "\<not> be \<and> map_of used vm \<noteq> None")
    case True
    then show ?thesis using 2 by simp
  next
    case False
    show ?thesis
    proof (cases "mget [] m vm")
      case Nil
      then show ?thesis using 2(2) [OF False Nil] 2(4) False by auto
    next
      case (Cons n rest)
      note f = free_nodes_take [OF Cons]
      show ?thesis
        using 2(3) [OF False Cons refl refl] 2(4) False Cons f by (auto simp: Let_def split: if_splits)
    qed
  qed
qed simp

lemma place_pass_less:
  "place_pass be nb used vms m sel False = (d, m', sel', True) \<Longrightarrow> length (free_nodes m') < length (free_nodes m)"
proof -
  assume "place_pass be nb used vms m sel False = (d, m', sel', True)"
  note p = place_pass_mset [OF this]
  then have "size (mset (free_nodes m') + mset sel') = size (mset (free_nodes m) + mset sel)" by metis
  then have "length (free_nodes m') + length sel' = length (free_nodes m) + length sel" by (simp only: size_union size_mset)
  with p show ?thesis by simp
qed

lemma place_pass_le:
  "place_pass be nb used vms m sel p = (d, m', sel', p') \<Longrightarrow> length (free_nodes m') \<le> length (free_nodes m)"
proof -
  assume "place_pass be nb used vms m sel p = (d, m', sel', p')"
  note p = place_pass_mset [OF this]
  then have "size (mset (free_nodes m') + mset sel') = size (mset (free_nodes m) + mset sel)" by metis
  then have "length (free_nodes m') + length sel' = length (free_nodes m) + length sel" by (simp only: size_union size_mset)
  with p show ?thesis by simp
qed

text \<open>The outer loop; \<open>t\<close> counts the passes, each of which may visit the VMs in another order.\<close>

function place_loop :: "go_env \<Rightarrow> nat \<Rightarrow> bool \<Rightarrow> int \<Rightarrow> (string, Nodes) gomap \<Rightarrow> (string, Nodes) gomap \<Rightarrow> Nodes \<Rightarrow> Nodes \<times> bool" where
  "place_loop env t besteffort nbMaster vmWithAlreadyMaster masterByVM selection =
     (if int (length selection) < nbMaster then
        (case place_pass besteffort nbMaster vmWithAlreadyMaster (range_keys env (1000 + t) (mkeys masterByVM)) masterByVM selection False of
           (enough, masterByVM, selection, isProgress) \<Rightarrow>
             if enough then (selection, besteffort)
             else if besteffort \<and> \<not> isProgress then (selection, besteffort)
             else place_loop env (t + 1) True nbMaster vmWithAlreadyMaster masterByVM selection)
      else (selection, besteffort))"
  by pat_completeness auto

termination
  by (relation "measure (\<lambda>(env, t, be, nb, used, m, sel). 2 * length (free_nodes m) + (if be then 0 else 1))")
    (auto dest: place_pass_less [OF sym] place_pass_le [OF sym])

declare place_loop.simps [simp del]

text \<open>\<open>selection[0:nbMaster]\<close> panics for a negative number.\<close>

definition PlaceMasters :: "go_env \<Rightarrow> nheap \<Rightarrow> Cluster \<Rightarrow> Nodes \<Rightarrow> Nodes \<Rightarrow> int \<Rightarrow> (Nodes \<times> bool \<times> goerr option) outcome" where
  "PlaceMasters env h cluster currentMaster allPossibleMasters nbMaster =
     (if int (length currentMaster) > nbMaster \<and> nbMaster < 0 then Panic IndexOutOfRange
      else
        let selection = (if int (length currentMaster) > nbMaster then take (nat nbMaster) currentMaster else currentMaster);
            masterByVM = sortRedisNodeByVM h cluster allPossibleMasters;
            vmWithAlreadyMaster = sortRedisNodeByVM h cluster currentMaster;
            (selection, besteffort) = place_loop env 0 False nbMaster vmWithAlreadyMaster masterByVM selection
        in Ret (selection, besteffort,
             if int (length selection) \<ge> nbMaster then None
             else Some (Errorf ''unable to found enough node for have the request number of master'')))"

section \<open>Slaves\<close>

text \<open>A surplus slave of a master is looked up, but the result is only used when the lookup failed, so that \<open>nil\<close> is dereferenced;
  a slave that is found is dropped. The loop over the masters goes on in both cases.\<close>

fun keep_slave :: "nheap \<Rightarrow> Cluster \<Rightarrow> int \<Rightarrow> Nodes \<Rightarrow> nref \<Rightarrow> (string, Nodes) gomap \<Rightarrow> (string, Nodes) gomap outcome" where
  "keep_slave h cluster replicationFactor [] slave slavesOf = Ret slavesOf"
| "keep_slave h cluster replicationFactor (master # masters) slave slavesOf =
     (if MasterReferent (h slave) = ID (h master) then
        if int (length (mget [] slavesOf (MasterReferent (h slave)))) \<ge> replicationFactor then
          (case Cluster_GetNodeByID cluster (ID (h slave)) of
             Inl err \<Rightarrow> Panic NilDereference
           | Inr node \<Rightarrow> keep_slave h cluster replicationFactor masters slave slavesOf)
        else Ret (mappend (MasterReferent (h slave)) [slave] slavesOf)
      else keep_slave h cluster replicationFactor masters slave slavesOf)"

fun keep_slaves :: "nheap \<Rightarrow> Cluster \<Rightarrow> int \<Rightarrow> Nodes \<Rightarrow> Nodes \<Rightarrow> (string, Nodes) gomap \<Rightarrow> (string, Nodes) gomap outcome" where
  "keep_slaves h cluster replicationFactor masters [] slavesOf = Ret slavesOf"
| "keep_slaves h cluster replicationFactor masters (slave # oldSlaves) slavesOf =
     outcome_bind (keep_slave h cluster replicationFactor masters slave slavesOf)
       (keep_slaves h cluster replicationFactor masters oldSlaves)"

definition vm_used :: "nheap \<Rightarrow> Cluster \<Rightarrow> string \<Rightarrow> Nodes \<Rightarrow> bool" where
  "vm_used h cluster vmName currentSlaves \<longleftrightarrow>
     list_ex (\<lambda>currentSlave. case Cluster_GetNodeByID cluster (ID (h currentSlave)) of
        Inl err \<Rightarrow> False | Inr vmSlaveNode \<Rightarrow> vmName = NodeName (h vmSlaveNode)) currentSlaves"

fun find_master :: "nheap \<Rightarrow> Cluster \<Rightarrow> int \<Rightarrow> string \<Rightarrow> (string \<times> Nodes) list \<Rightarrow> string option" where
  "find_master h cluster replicationFactor vmName [] = None"
| "find_master h cluster replicationFactor vmName ((idMaster, currentSlaves) # rest) =
     (if int (length currentSlaves) \<ge> replicationFactor then find_master h cluster replicationFactor vmName rest
      else if checkIfSameVM h cluster idMaster vmName then find_master h cluster replicationFactor vmName rest
      else if \<not> vm_used h cluster vmName currentSlaves then Some idMaster
      else find_master h cluster replicationFactor vmName rest)"

text \<open>The slaves of one VM; \<open>t\<close> counts the inner loops. The slaves without a master are kept for the second attempt.\<close>

fun spread_slaves :: "go_env \<Rightarrow> nat \<Rightarrow> nheap \<Rightarrow> Cluster \<Rightarrow> int \<Rightarrow> string \<Rightarrow> Nodes \<Rightarrow> (string, Nodes) gomap \<Rightarrow> (string, Nodes) gomap
    \<Rightarrow> (string, Nodes) gomap \<times> (string, Nodes) gomap \<times> nat" where
  "spread_slaves env t h cluster replicationFactor vmName [] slavesOf notUsed = (slavesOf, notUsed, t)"
| "spread_slaves env t h cluster replicationFactor vmName (possibleSlave # slaves) slavesOf notUsed =
     (case find_master h cluster replicationFactor vmName (mrange env (2000 + t) slavesOf) of
        Some idMaster \<Rightarrow>
          spread_slaves env (t + 1) h cluster replicationFactor vmName slaves (mappend idMaster [possibleSlave] slavesOf) notUsed
      | None \<Rightarrow>
          spread_slaves env (t + 1) h cluster replicationFactor vmName slaves slavesOf (mappend vmName [possibleSlave] notUsed))"

fun spread_vms :: "go_env \<Rightarrow> nat \<Rightarrow> nheap \<Rightarrow> Cluster \<Rightarrow> int \<Rightarrow> (string \<times> Nodes) list \<Rightarrow> (string, Nodes) gomap \<Rightarrow> (string, Nodes) gomap
    \<Rightarrow> (string, Nodes) gomap \<times> (string, Nodes) gomap \<times> nat" where
  "spread_vms env t h cluster replicationFactor [] slavesOf notUsed = (slavesOf, notUsed, t)"
| "spread_vms env t h cluster replicationFactor ((vmName, slaves) # vms) slavesOf notUsed =
     (case spread_slaves env t h cluster replicationFactor vmName slaves slavesOf notUsed of
        (slavesOf, notUsed, t) \<Rightarrow> spread_vms env t h cluster replicationFactor vms slavesOf notUsed)"

text \<open>The second attempt: any master that has room. A slave for which there is none is dropped.\<close>

fun fill_masters :: "go_env \<Rightarrow> nat \<Rightarrow> int \<Rightarrow> Nodes \<Rightarrow> (string, Nodes) gomap \<Rightarrow> (string, Nodes) gomap" where
  "fill_masters env t replicationFactor [] slavesOf = slavesOf"
| "fill_masters env t replicationFactor (freeSlave # rest) slavesOf =
     fill_masters env (t + 1) replicationFactor rest
       (case List.find (\<lambda>(masterID, slaves). \<not> int (length slaves) \<ge> replicationFactor) (mrange env (2000 + t) slavesOf) of
          Some (masterID, slaves) \<Rightarrow> mappend masterID [freeSlave] slavesOf
        | None \<Rightarrow> slavesOf)"

text \<open>The first loop of the function filters \<open>newSlaves\<close> and drops the result, so it does nothing.\<close>

definition PlaceSlaves :: "go_env \<Rightarrow> nheap \<Rightarrow> Cluster \<Rightarrow> Nodes \<Rightarrow> Nodes \<Rightarrow> Nodes \<Rightarrow> int \<Rightarrow> ((string, Nodes) gomap \<times> bool) outcome" where
  "PlaceSlaves env h cluster masters oldSlaves newSlaves replicationFactor =
     (let newSlavesByVM = sortRedisNodeByVM h cluster newSlaves;
          slavesOf = foldl (\<lambda>m node. mput (ID (h node)) [] m) [] masters
      in outcome_bind (keep_slaves h cluster replicationFactor masters oldSlaves slavesOf) (\<lambda>slavesOf.
           case spread_vms env 1 h cluster replicationFactor (mrange env 2000 newSlavesByVM) slavesOf [] of
             (slavesOf, notUsed, t) \<Rightarrow>
               if notUsed \<noteq> [] then
                 Ret (fill_masters env (t + 1) replicationFactor (concat (map snd (mrange env (2000 + t) notUsed))) slavesOf, True)
               else Ret (slavesOf, False)))"

section \<open>DispatchMasters of migration.go\<close>

definition NodesPlacementInfoBestEffort :: string where "NodesPlacementInfoBestEffort = ''BestEffort''"
definition NodesPlacementInfoOptimal :: string where "NodesPlacementInfoOptimal = ''Optimal''"

definition DispatchMasters ::
  "go_env \<Rightarrow> nheap \<Rightarrow> Cluster \<Rightarrow> Nodes \<Rightarrow> int \<Rightarrow> ((Nodes \<times> Nodes \<times> Nodes \<times> goerr option) \<times> Cluster) outcome" where
  "DispatchMasters env h cluster nodes nbMaster =
     (let currentMasterNodes = FilterByFunc IsMasterWithSlot h nodes;
          currentMasterWithNoSlot = FilterByFunc IsMasterWithNoSlot h nodes;
          allMasterNodes = currentMasterNodes @ currentMasterWithNoSlot
      in outcome_bind (PlaceMasters env h cluster currentMasterNodes currentMasterWithNoSlot nbMaster) (\<lambda>(newMasters, besteffort, err).
           case err of
             Some e \<Rightarrow> Ret (([], [], [], Some (Errorf (''not enough master available current:'' @ FormatUint (length allMasterNodes)
               @ '' target:'' @ FormatInt nbMaster @ '', err:'' @ ErrorText env e))), cluster)
           | None \<Rightarrow> Ret ((SortByFunc env (LessByID h) newMasters, currentMasterNodes, allMasterNodes, None),
               cluster\<lparr>cluster_Status := ClusterStatusCalculatingRebalancing,
                 cluster_NodesPlacement := (if besteffort then NodesPlacementInfoBestEffort else NodesPlacementInfoOptimal)\<rparr>)))"

section \<open>What PlaceMasters chooses\<close>

text \<open>The VM of a node; \<open>None\<close> for a node the cluster does not know.\<close>

definition vm_of :: "nheap \<Rightarrow> Cluster \<Rightarrow> nref \<Rightarrow> string option" where
  "vm_of h cl q = (case Cluster_GetNodeByID cl (ID (h q)) of Inl _ \<Rightarrow> None | Inr c \<Rightarrow> Some (vm_name h c))"

lemma free_nodes_mappend: "mset (free_nodes (mappend k xs m)) = mset (free_nodes m) + mset xs"
proof -
  have "mset (free_nodes (mput k (ys @ xs) m)) = mset (free_nodes m) + mset xs" if "mget [] m k = ys" for ys
    using that by (induction m) (auto simp: free_nodes_def mget_def split: if_splits)
  then show ?thesis by (simp add: mappend_def)
qed

lemma free_nodes_mput_Nil: "map_of m k = None \<Longrightarrow> free_nodes (mput k [] m) = free_nodes m"
  by (induction m) (auto simp: free_nodes_def split: if_splits)

lemma sort_by_vm_ok:
  "(\<forall>k. mget [] (sort_by_vm h cl m ns) k = mget [] m k @ filter (\<lambda>q. vm_of h cl q = Some k) ns)
   \<and> (\<forall>k. map_of (sort_by_vm h cl m ns) k = None \<longleftrightarrow> map_of m k = None \<and> (\<forall>q \<in> set ns. vm_of h cl q \<noteq> Some k))
   \<and> (wf_map m \<longrightarrow> wf_map (sort_by_vm h cl m ns))
   \<and> mset (free_nodes (sort_by_vm h cl m ns)) = mset (free_nodes m) + mset (filter (\<lambda>q. vm_of h cl q \<noteq> None) ns)"
proof (induction ns arbitrary: m)
  case (Cons q ns)
  show ?case
  proof (cases "Cluster_GetNodeByID cl (ID (h q))")
    case (Inl e)
    then show ?thesis using Cons.IH [of m] by (simp add: vm_of_def)
  next
    case (Inr c)
    define k where "k = vm_name h c"
    define m1 where "m1 = mappend k [q] (if map_of m k = None then mput k [] m else m)"
    have vm: "vm_of h cl q = Some k" by (simp add: vm_of_def Inr k_def)
    have step: "sort_by_vm h cl m (q # ns) = sort_by_vm h cl m1 ns" by (simp add: Inr m1_def k_def Let_def)
    have "mget [] m1 k' = mget [] m k' @ (if k' = k then [q] else [])" for k' by (auto simp: m1_def mget_def map_of_mappend)
    moreover have "map_of m1 k' = None \<longleftrightarrow> map_of m k' = None \<and> k' \<noteq> k" for k' by (auto simp: m1_def map_of_mappend)
    moreover have "wf_map m \<Longrightarrow> wf_map m1" by (auto simp: m1_def)
    moreover have "mset (free_nodes m1) = add_mset q (mset (free_nodes m))"
      by (simp add: m1_def free_nodes_mappend free_nodes_mput_Nil)
    ultimately show ?thesis unfolding step using Cons.IH [of m1] vm by auto
  qed
qed simp

text \<open>Each node of the map is filed under its VM.\<close>

definition filed :: "(nref \<Rightarrow> string option) \<Rightarrow> (string, Nodes) gomap \<Rightarrow> bool" where
  "filed F m \<longleftrightarrow> (\<forall>k. \<forall>q \<in> set (mget [] m k). F q = Some k)"

lemma filed_mput: "filed F m \<Longrightarrow> mget [] m k = n # rest \<Longrightarrow> filed F (mput k rest m)"
  by (auto simp: filed_def mget_mput)

lemma place_pass_progress: "place_pass be nb used vms m sel True = (d, m', sel', p') \<Longrightarrow> p'"
  by (induction vms arbitrary: m sel) (auto simp: Let_def split: if_splits list.splits)

lemma place_pass_result:
  assumes "place_pass be nb used vms m sel p = (d, m', sel', p')" and "filed F m" and "distinct vms" and "int (length sel) < nb"
  shows "\<exists>ns. sel' = sel @ ns \<and> filed F m' \<and> (wf_map m \<longrightarrow> wf_map m')
    \<and> (d \<longrightarrow> int (length sel') = nb) \<and> (\<not> d \<longrightarrow> int (length sel') < nb)
    \<and> (\<not> be \<longrightarrow> distinct (map F ns) \<and> (\<forall>q \<in> set ns. \<exists>k \<in> set vms. F q = Some k \<and> map_of used k = None))
    \<and> (be \<longrightarrow> \<not> d \<longrightarrow> \<not> p' \<longrightarrow> (\<forall>k \<in> set vms. mget [] m k = []))"
  using assms
proof (induction be nb used vms m sel p rule: place_pass.induct)
  case (1 be nb used m sel p)
  then show ?case by (intro exI [of _ "[]"]) auto
next
  case (2 be nb used vm vms m sel p)
  consider (skip) "\<not> be \<and> map_of used vm \<noteq> None" | (none) "\<not> (\<not> be \<and> map_of used vm \<noteq> None)" "mget [] m vm = []"
    | (some) n rest where "\<not> (\<not> be \<and> map_of used vm \<noteq> None)" "mget [] m vm = n # rest" by (cases "mget [] m vm") auto
  then show ?case
  proof cases
    case skip
    then show ?thesis using 2(1) [OF skip] 2(4-) by auto
  next
    case none
    then show ?thesis using 2(2) [OF none] 2(4-) by auto
  next
    case some
    have F: "F n = Some vm" using 2(5) some(2) by (auto simp: filed_def)
    have filed: "filed F (mput vm rest m)" using filed_mput [OF 2(5) some(2)] .
    show ?thesis
    proof (cases "int (length (sel @ [n])) \<ge> nb")
      case True
      then have "d" "m' = mput vm rest m" "sel' = sel @ [n]" using 2(4) some by (auto simp: Let_def split: if_splits)
      then show ?thesis using True 2(7) F filed some(1) by (intro exI [of _ "[n]"]) auto
    next
      case False
      then have run: "place_pass be nb used vms (mput vm rest m) (sel @ [n]) True = (d, m', sel', p')"
        using 2(4) some by (auto simp: Let_def split: if_splits)
      from 2(3) [OF some(1) some(2) refl refl False run filed] 2(6,7) False obtain ns where
        ns: "sel' = (sel @ [n]) @ ns" "filed F m'" "wf_map (mput vm rest m) \<longrightarrow> wf_map m'" "d \<longrightarrow> int (length sel') = nb"
          "\<not> d \<longrightarrow> int (length sel') < nb"
          "\<not> be \<longrightarrow> distinct (map F ns) \<and> (\<forall>q \<in> set ns. \<exists>k \<in> set vms. F q = Some k \<and> map_of used k = None)" by auto
      have "\<not> d \<longrightarrow> p'" using place_pass_progress [OF run] by simp
      moreover have "F n \<notin> F ` set ns" if "\<not> be" using ns(6) that F 2(6) by auto
      ultimately show ?thesis using ns F some(1) by (intro exI [of _ "n # ns"]) auto
    qed
  qed
qed

lemma free_nodes_empty:
  assumes "wf_map m" and "\<forall>k \<in> set (mkeys m). mget [] m k = []"
  shows "free_nodes m = []"
proof -
  have "v = []" if "(k, v) \<in> set m" for k v
    using assms that mget_in [of m k v "[]"] by force
  then show ?thesis by (auto simp: free_nodes_def)
qed

lemma distinct_mset_perm: "mset xs = mset ys \<Longrightarrow> distinct xs \<longleftrightarrow> distinct ys"
  by (metis distinct_count_atmost_1 set_mset_mset)

lemma place_loop_best: "place_loop env t True nb used m sel = (sel', be') \<Longrightarrow> be'"
proof (induction env t True nb used m sel rule: place_loop.induct)
  case (1 env t nb used m sel)
  then show ?case by (subst (asm) (2) place_loop.simps) (auto split: if_splits prod.splits)
qed

lemma place_loop_result:
  assumes "go_runtime env" and "place_loop env t be nb used m sel = (sel', be')" and "filed F m" and "wf_map m" and "int (length sel) \<le> nb"
  shows "\<exists>ns left. sel' = sel @ ns \<and> mset ns + mset left = mset (free_nodes m)
    \<and> (int (length sel') = nb \<or> int (length sel') < nb \<and> left = [])
    \<and> (\<not> be' \<longrightarrow> int (length sel') = nb \<and> distinct (map F ns) \<and> (\<forall>q \<in> set ns. \<exists>k. F q = Some k \<and> map_of used k = None))"
  using assms
proof (induction env t be nb used m sel rule: place_loop.induct)
  case (1 env t be nb used m sel)
  show ?case
  proof (cases "int (length sel) < nb")
    case False
    then have "sel' = sel" using 1(3) by (subst (asm) place_loop.simps) simp
    then show ?thesis using False 1(6) by (intro exI [of _ "[]"] exI [of _ "free_nodes m"]) auto
  next
    case True
    let ?vms = "range_keys env (1000 + t) (mkeys m)"
    obtain d m1 sel1 p where pass: "place_pass be nb used ?vms m sel False = (d, m1, sel1, p)" by (metis prod_cases4)
    have keys: "distinct ?vms" "set ?vms = set (mkeys m)"
      using 1(5) distinct_mset_perm [OF go_runtime.range_perm [OF 1(2)]] go_runtime.range_set [OF 1(2)] by auto
    from place_pass_result [OF pass 1(4) keys(1) True] obtain ns where
      ns: "sel1 = sel @ ns" "filed F m1" "wf_map m1" "d \<longrightarrow> int (length sel1) = nb" "\<not> d \<longrightarrow> int (length sel1) < nb"
        "\<not> be \<longrightarrow> distinct (map F ns) \<and> (\<forall>q \<in> set ns. \<exists>k \<in> set ?vms. F q = Some k \<and> map_of used k = None)"
        "be \<longrightarrow> \<not> d \<longrightarrow> \<not> p \<longrightarrow> (\<forall>k \<in> set ?vms. mget [] m k = [])" using 1(5) by auto
    have ms: "mset ns + mset (free_nodes m1) = mset (free_nodes m)"
      using place_pass_mset [OF pass] ns(1) by (simp add: ac_simps)
    consider (enough) d | (stuck) "\<not> d" be "\<not> p" | (again) "\<not> d" "\<not> (be \<and> \<not> p)" by blast
    then show ?thesis
    proof cases
      case enough
      then have "sel' = sel1" "be' = be" using 1(3) True pass by (simp_all add: place_loop.simps [of env t])
      then show ?thesis using ns ms enough by (intro exI [of _ ns] exI [of _ "free_nodes m1"]) auto
    next
      case stuck
      then have r: "sel' = sel1" "be' = be" using 1(3) True pass by (simp_all add: place_loop.simps [of env t])
      have "free_nodes m = []" using ns(7) stuck keys(2) 1(5) by (intro free_nodes_empty) auto
      then show ?thesis using r ns ms stuck by (intro exI [of _ ns] exI [of _ "[]"]) auto
    next
      case again
      then have run: "place_loop env (t + 1) True nb used m1 sel1 = (sel', be')"
        using 1(3) True pass by (auto simp: place_loop.simps [of env t] split: if_splits)
      have "int (length sel1) \<le> nb" using ns(5) again(1) by simp
      from 1(1) [OF True pass [symmetric] refl refl again(1) again(2) 1(2) run ns(2,3) this] obtain ns2 left where
        r: "sel' = sel1 @ ns2" "mset ns2 + mset left = mset (free_nodes m1)" "int (length sel') = nb \<or> int (length sel') < nb \<and> left = []"
        by blast
      have "mset (ns @ ns2) + mset left = mset (free_nodes m)" using ms r(2) by (metis add.assoc mset_append)
      then show ?thesis using ns(1) r(1,3) place_loop_best [OF run] by (rule_tac exI [of _ "ns @ ns2"], rule_tac exI [of _ left]) auto
    qed
  qed
qed


text \<open>C35.
  The masters chosen by VM. \<open>PlaceMasters\<close> always returns: the current masters, as many as are wanted, followed by new masters, each a
  different one of the given candidates the cluster knows. It fails exactly when the current masters and the
  candidates are too few, and otherwise returns exactly the wanted number. When it does not report a best effort, the
  new masters run on different VMs and on none that hosts a current master.\<close>

theorem PlaceMasters_correct:
  assumes "go_runtime env" and "0 \<le> nb" and "known = filter (\<lambda>q. vm_of h cl q \<noteq> None) poss"
  shows "\<exists>ns be err. PlaceMasters env h cl cur poss nb = Ret (take (nat nb) cur @ ns, be, err)
    \<and> mset ns \<subseteq># mset known
    \<and> (err = None \<longleftrightarrow> nb \<le> int (length cur + length known))
    \<and> (err = None \<longrightarrow> length (take (nat nb) cur @ ns) = nat nb)
    \<and> (\<not> be \<longrightarrow> err = None \<and> distinct (map (vm_of h cl) ns) \<and> vm_of h cl ` set ns \<inter> vm_of h cl ` set cur = {})"
proof -
  define sel where "sel = take (nat nb) cur"
  define used where "used = sortRedisNodeByVM h cl cur"
  define m where "m = sortRedisNodeByVM h cl poss"
  obtain sel' be where run: "place_loop env 0 False nb used m sel = (sel', be)" by (cases "place_loop env 0 False nb used m sel")
  have m: "filed (vm_of h cl) m" "wf_map m" "mset (free_nodes m) = mset known"
    using sort_by_vm_ok [of h cl "[]" poss] assms(3) by (auto simp: m_def sortRedisNodeByVM_def filed_def mget_def free_nodes_def)
  have used: "map_of used k = None \<longleftrightarrow> (\<forall>q \<in> set cur. vm_of h cl q \<noteq> Some k)" for k
    using sort_by_vm_ok [of h cl "[]" cur] by (simp add: used_def sortRedisNodeByVM_def)
  have "int (length sel) \<le> nb" using assms(2) by (simp add: sel_def)
  from place_loop_result [OF assms(1) run m(1,2) this, unfolded m(3)] obtain ns left where
    ns: "sel' = sel @ ns" "mset ns + mset left = mset known" "int (length sel') = nb \<or> int (length sel') < nb \<and> left = []"
      "\<not> be \<longrightarrow> int (length sel') = nb \<and> distinct (map (vm_of h cl) ns) \<and> (\<forall>q \<in> set ns. \<exists>k. vm_of h cl q = Some k \<and> map_of used k = None)"
    by blast
  have len: "length ns + length left = length known" using ns(2) by (metis size_mset size_union)
  have place: "PlaceMasters env h cl cur poss nb = Ret (sel @ ns, be, if int (length sel') \<ge> nb then None
      else Some (Errorf ''unable to found enough node for have the request number of master''))"
    using run assms(2) ns(1) by (auto simp: PlaceMasters_def Let_def used_def m_def sel_def)
  have "(int (length sel') \<ge> nb) \<longleftrightarrow> nb \<le> int (length cur + length known)"
    using ns(1,3) len by (auto simp: sel_def)
  moreover have "mset ns \<subseteq># mset known" using ns(2) by (metis mset_subset_eq_add_left)
  moreover have "vm_of h cl ` set ns \<inter> vm_of h cl ` set cur = {}" if "\<not> be" using ns(4) that used by fastforce
  ultimately show ?thesis using place ns unfolding sel_def [symmetric] by (intro exI [of _ ns] exI [of _ be]) auto
qed

text \<open>Two candidates on different VMs, and one on the VM of the first.\<close>

definition place_heap :: nheap where
  "place_heap = (\<lambda>_. NewDefaultNode)(0 := NewDefaultNode\<lparr>ID := ''a'', NodeName := ''vm1''\<rparr>, 1 := NewDefaultNode\<lparr>ID := ''b'', NodeName := ''vm1''\<rparr>,
     2 := NewDefaultNode\<lparr>ID := ''c'', NodeName := ''vm2''\<rparr>)"

definition place_cluster :: Cluster where
  "place_cluster = (NewCluster ''example'' ''default'')\<lparr>cluster_Nodes := [(''a'', 0), (''b'', 1), (''c'', 2)]\<rparr>"

definition spread_found :: bool where
  "spread_found = (case PlaceMasters go_env_det place_heap place_cluster [0] [1, 2] 2 of Ret (sel, be, err) \<Rightarrow> sel = [0, 2] \<and> \<not> be | Panic _ \<Rightarrow> False)"

lemma spread_found: spread_found
  by code_simp

theorem PlaceMasters_correct_witness:
  "\<exists>ns. PlaceMasters go_env_det place_heap place_cluster [0] [1, 2] 2 = Ret ([0] @ ns, False, None) \<and> length ns = 1
     \<and> vm_of place_heap place_cluster ` set ns \<inter> vm_of place_heap place_cluster ` {0} = {}"
proof -
  from PlaceMasters_correct [OF det.go_runtime_axioms, of 2 _ place_heap place_cluster "[1, 2]" "[0]"] obtain ns be err where
    r: "PlaceMasters go_env_det place_heap place_cluster [0] [1, 2] 2 = Ret (take (nat 2) [0] @ ns, be, err)"
    "err = None \<longrightarrow> length (take (nat 2) [0] @ ns) = nat 2"
    "\<not> be \<longrightarrow> err = None \<and> vm_of place_heap place_cluster ` set ns \<inter> vm_of place_heap place_cluster ` set [0] = {}"
    by auto
  have "\<not> be" using spread_found r(1) by (simp add: spread_found_def)
  then show ?thesis using r by (intro exI [of _ ns]) auto
qed

section \<open>What PlaceSlaves promises and what it loses\<close>

definition bounded :: "int \<Rightarrow> (string, Nodes) gomap \<Rightarrow> bool" where
  "bounded rf m \<longleftrightarrow> (\<forall>k. int (length (mget [] m k)) \<le> rf)"

lemma bounded_append: "bounded rf m \<Longrightarrow> int (length (mget [] m k)) < rf \<Longrightarrow> bounded rf (mappend k [q] m)"
  by (auto simp: bounded_def mappend_def mget_mput)

lemma keep_slave_bounded: "keep_slave h cl rf masters slave m = Ret m' \<Longrightarrow> bounded rf m \<Longrightarrow> bounded rf m'"
  by (induction masters) (auto intro: bounded_append split: if_splits sum.splits)

lemma keep_slaves_bounded: "keep_slaves h cl rf masters old m = Ret m' \<Longrightarrow> bounded rf m \<Longrightarrow> bounded rf m'"
  by (induction old arbitrary: m) (auto dest: keep_slave_bounded)

lemma mrange_mget: "(k, v) \<in> set (mrange env i m) \<Longrightarrow> mget [] m k = v"
  by (auto simp: mrange_def List.map_filter_def mget_def)

lemma find_master_room: "find_master h cl rf vm l = Some k \<Longrightarrow> \<exists>v. (k, v) \<in> set l \<and> int (length v) < rf"
  by (induction l) (auto split: if_splits, force+)

lemma spread_slaves_bounded: "spread_slaves env t h cl rf vm slaves m u = (m', u', t') \<Longrightarrow> bounded rf m \<Longrightarrow> bounded rf m'"
proof (induction slaves arbitrary: t m u)
  case (Cons q slaves)
  have "bounded rf (mappend k [q] m)" if "find_master h cl rf vm (mrange env (2000 + t) m) = Some k" for k
    using find_master_room [OF that] Cons.prems(2) by (auto dest: mrange_mget intro: bounded_append)
  then show ?case using Cons by (auto split: option.splits)
qed simp

lemma spread_vms_bounded: "spread_vms env t h cl rf vms m u = (m', u', t') \<Longrightarrow> bounded rf m \<Longrightarrow> bounded rf m'"
  by (induction env t h cl rf vms m u rule: spread_vms.induct) (auto split: prod.splits dest: spread_slaves_bounded)

lemma fill_masters_bounded: "bounded rf m \<Longrightarrow> bounded rf (fill_masters env t rf slaves m)"
proof (induction slaves arbitrary: t m)
  case (Cons q slaves)
  have "bounded rf (mappend k [q] m)"
    if "List.find (\<lambda>(k, v). \<not> int (length v) \<ge> rf) (mrange env (2000 + t) m) = Some (k, v)" for k v
    using find_SomeD [OF that] Cons.prems by (intro bounded_append) (auto dest: mrange_mget)
  then show ?case using Cons by (auto split: option.split)
qed simp

lemma PlaceSlaves_bounded:
  assumes "PlaceSlaves env h cl masters old new rf = Ret (m, be)" and "0 \<le> rf"
  shows "int (length (mget [] m k)) \<le> rf"
proof -
  have "mget [] (foldl (\<lambda>m node. mput (ID (h node)) [] m) ([] :: (string, Nodes) gomap) ms) k = []" for ms k
    by (induction ms rule: rev_induct) (auto simp: mget_mput)
  then have "bounded rf (foldl (\<lambda>m node. mput (ID (h node)) [] m) [] masters)" using assms(2) by (simp add: bounded_def)
  moreover from assms(1) obtain m1 where keep: "keep_slaves h cl rf masters old (foldl (\<lambda>m node. mput (ID (h node)) [] m) [] masters) = Ret m1"
    and rest: "(case spread_vms env 1 h cl rf (mrange env 2000 (sortRedisNodeByVM h cl new)) m1 [] of (m2, notUsed, t) \<Rightarrow>
      if notUsed \<noteq> [] then Ret (fill_masters env (t + 1) rf (concat (map snd (mrange env (2000 + t) notUsed))) m2, True) else Ret (m2, False)) = Ret (m, be)"
    by (auto simp: PlaceSlaves_def Let_def)
  obtain m2 u t where spread: "spread_vms env 1 h cl rf (mrange env 2000 (sortRedisNodeByVM h cl new)) m1 [] = (m2, u, t)" by (metis prod_cases3)
  ultimately have "bounded rf m2" using keep_slaves_bounded [OF keep] spread_vms_bounded [OF spread] by blast
  then have "bounded rf m" using rest spread by (auto intro: fill_masters_bounded split: if_splits)
  then show ?thesis by (simp add: bounded_def)
qed

text \<open>An old slave beyond the replication factor is given to no master.\<close>

lemma surplus_slave_lost:
  assumes "MasterReferent (h slave) = ID (h master)" and "int (length (mget [] m (ID (h master)))) \<ge> rf"
    and "Cluster_GetNodeByID cl (ID (h slave)) = Inr q"
  shows "keep_slave h cl rf [master] slave m = Ret m"
  using assms by simp

end
