(* ===== verification/Resources.thy ===== *)
theory Resources
  imports Api
begin

text \<open>
  The constructors of the objects around a cluster: \<open>pkg/resources/configmaps\<close>, \<open>services\<close> and
  \<open>poddisruptionbudgets\<close>. The label map is shared by all objects; each object holds its content at the time
  it was built, which is when the client sends it.
\<close>

section \<open>configmaps\<close>

definition RestoreSucceeded :: string where "RestoreSucceeded = ''succeeded''"
definition RedisConfKey :: string where "RedisConfKey = ''redis.conf''"

abbreviation newline_char :: char where "newline_char \<equiv> CHR ''\<newline>''"
abbreviation tab_char :: char where "tab_char \<equiv> CHR 0x09"

definition shutdownContent :: string where
  \<open>shutdownContent = join_with [newline_char] [
     ''#!/bin/sh'',
     ''CLUSTER_CONFIG="/data/nodes.conf"'',
     ''failover() {'',
     tab_char # ''echo "Do CLUSTER FAILOVER"'',
     tab_char # ''masterID=$(cat ${CLUSTER_CONFIG} | grep "myself" | awk '{print $1}')'',
     tab_char # ''echo "Master: ${masterID}"'',
     tab_char # ''slave=$(cat ${CLUSTER_CONFIG} | grep ${masterID} | grep "slave" | awk 'NR==1{print $2}' | sed 's/:6379@16379//')'',
     tab_char # ''echo "Slave: ${slave}"'',
     tab_char # ''password=$(cat /data/redis_password)'',
     tab_char # ''if [[ -z "${password}" ]]; then'',
     tab_char # tab_char # ''redis-cli -h ${slave} CLUSTER FAILOVER'',
     tab_char # ''else'',
     tab_char # tab_char # ''redis-cli -h ${slave} -a "${password}" CLUSTER FAILOVER'',
     tab_char # ''fi'',
     tab_char # ''echo "Wait for MASTER <-> SLAVE syncFinished"'',
     tab_char # ''sleep 20'',
     ''}'',
     ''if [ -f ${CLUSTER_CONFIG} ]; then'',
     tab_char # ''cat ${CLUSTER_CONFIG} | grep "myself" | grep "master" && '' @ [CHR 0x5C],
     tab_char # ''failover'',
     ''fi'']\<close>

definition fixIPContent :: string where
  \<open>fixIPContent = join_with [newline_char] [
     ''#!/bin/sh'',
     ''CLUSTER_CONFIG="/data/nodes.conf"'',
     ''if [ -f ${CLUSTER_CONFIG} ]; then'',
     ''    if [ -z "${POD_IP}" ]; then'',
     ''    echo "Unable to determine Pod IP address!"'',
     ''    exit 1'',
     ''    fi'',
     ''    echo "Updating my IP to ${POD_IP} in ${CLUSTER_CONFIG}"'',
     ''    sed -i.bak -e "/myself/ s/ .*:6379@16379/ ${POD_IP}:6379@16379/" ${CLUSTER_CONFIG}'',
     ''fi'',
     ''exec "$@"'']\<close>

text \<open>The keys are collected in an order the runtime chooses and then sorted.\<close>

definition conf_line :: "(string, string) gomap \<Rightarrow> string \<Rightarrow> string" where
  "conf_line m k = (let v = mget [] m k in if length v = 0 then [] else k @ '' '' @ v @ [newline_char])"

definition generateRedisConfContent :: "go_env \<Rightarrow> (string, string) gomap option \<Rightarrow> string" where
  "generateRedisConfContent env configMap =
     (case configMap of
        None \<Rightarrow> []
      | Some m \<Rightarrow> concat (map (conf_line m) (sort (range_keys env 20 (mkeys m)))))"

definition RedisConfigMapName :: "string \<Rightarrow> string" where
  "RedisConfigMapName clusterName = ''redis-cluster'' @ ''-'' @ clusterName"

definition NewConfigMapForCR :: "go_env \<Rightarrow> drc \<Rightarrow> labels \<Rightarrow> ConfigMap" where
  "NewConfigMapForCR env cluster labels = \<lparr>cm_Name = RedisConfigMapName (drc_Name cluster), cm_Namespace = drc_Namespace cluster,
     cm_Labels = labels, cm_OwnerReferences = DefaultOwnerReferences cluster,
     cm_Data = [(''shutdown.sh'', shutdownContent), (''fix-ip.sh'', fixIPContent),
       (RedisConfKey, generateRedisConfContent env (sp_Config (drc_Spec cluster)))]\<rparr>"

definition RestoreConfigMapName :: "string \<Rightarrow> string" where
  "RestoreConfigMapName clusterName = ''rediscluster-restore'' @ ''-'' @ clusterName"

definition NewConfigMapForRestore :: "drc \<Rightarrow> labels \<Rightarrow> ConfigMap" where
  "NewConfigMapForRestore cluster labels = \<lparr>cm_Name = RestoreConfigMapName (drc_Name cluster), cm_Namespace = drc_Namespace cluster,
     cm_Labels = labels, cm_OwnerReferences = DefaultOwnerReferences cluster,
     cm_Data = [(RestoreSucceeded, FormatInt 0)]\<rparr>"

section \<open>services\<close>

definition ClusterIPNone :: string where "ClusterIPNone = ''None''"

definition NewHeadLessSvcForCR :: "drc \<Rightarrow> string \<Rightarrow> labels \<Rightarrow> Service" where
  "NewHeadLessSvcForCR cluster name labels = \<lparr>svc_Name = name, svc_Namespace = drc_Namespace cluster, svc_Labels = labels,
     svc_OwnerReferences = DefaultOwnerReferences cluster, svc_Ports = [(''client'', 6379), (''gossip'', 16379)],
     svc_Selector = labels, svc_ClusterIP = ClusterIPNone\<rparr>"

text \<open>A monitor without Prometheus settings dereferences \<open>nil\<close>.\<close>

definition NewSvcForCR :: "drc \<Rightarrow> string \<Rightarrow> labels \<Rightarrow> Service outcome" where
  "NewSvcForCR cluster name labels =
     outcome_bind
       (case sp_Monitor (drc_Spec cluster) of
          None \<Rightarrow> Ret [(''client'', 6379), (''gossip'', 16379)]
        | Some mon \<Rightarrow> (case mon_Prometheus mon of
            None \<Rightarrow> Panic NilDereference
          | Some p \<Rightarrow> Ret [(''client'', 6379), (''gossip'', 16379), (''prom-http'', prom_Port p)]))
       (\<lambda>ports. Ret \<lparr>svc_Name = name, svc_Namespace = drc_Namespace cluster, svc_Labels = labels,
          svc_OwnerReferences = DefaultOwnerReferences cluster, svc_Ports = ports, svc_Selector = labels, svc_ClusterIP = []\<rparr>)"

section \<open>poddisruptionbudgets\<close>

definition NewPodDisruptionBudgetForCR :: "drc \<Rightarrow> string \<Rightarrow> labels \<Rightarrow> PodDisruptionBudget" where
  "NewPodDisruptionBudgetForCR cluster name labels = \<lparr>pdb_Name = name, pdb_Namespace = drc_Namespace cluster, pdb_Labels = labels,
     pdb_OwnerReferences = DefaultOwnerReferences cluster, pdb_MaxUnavailable = 1, pdb_MatchLabels = labels\<rparr>"

section \<open>Detecting a changed configuration\<close>

text \<open>\<open>isRedisConfChanged\<close> of \<open>pkg/controller/manager/ensurer.go\<close>, which reads the text back;
  \<open>SplitN2\<close> is \<open>strings.SplitN(s, sep, 2)\<close>.\<close>

definition SplitN2 :: "string \<Rightarrow> char \<Rightarrow> string list" where
  "SplitN2 s c = (case index_of c s of None \<Rightarrow> [s] | Some i \<Rightarrow> [take i s, drop (i + 1) s])"

fun conf_lines_changed :: "(string, string) gomap \<Rightarrow> string list \<Rightarrow> bool" where
  "conf_lines_changed currentConf [] = False"
| "conf_lines_changed currentConf (line # lines) =
     (case SplitN2 (TrimSuffix line '' '') (CHR '' '') of
        [key, val] \<Rightarrow>
          (case map_of currentConf key of
             None \<Rightarrow> True
           | Some valueInCurrentConf \<Rightarrow> if valueInCurrentConf \<noteq> val then True else conf_lines_changed currentConf lines)
      | _ \<Rightarrow> conf_lines_changed currentConf lines)"

definition isRedisConfChanged :: "string \<Rightarrow> (string, string) gomap \<Rightarrow> bool" where
  "isRedisConfChanged confInCm currentConf =
     (let lines = split_on newline_char (TrimSuffix confInCm [newline_char]) in
      if length lines \<noteq> length currentConf then True else conf_lines_changed currentConf lines)"

section \<open>Writing a configuration and reading it back\<close>

lemma concat_lines: "ls \<noteq> [] \<Longrightarrow> concat (map (\<lambda>l. l @ [c]) ls) = join_with [c] ls @ [c]"
  by (induction ls rule: join_with.induct [of _ "[c]"]) auto

lemma split_on_join: "ls \<noteq> [] \<Longrightarrow> \<forall>l\<in>set ls. c \<notin> set l \<Longrightarrow> split_on c (join_with [c] ls) = ls"
  by (induction "[c]" ls rule: join_with.induct) (auto simp: go_str)

lemma read_lines:
  "\<forall>l\<in>set ls. c \<notin> set l \<Longrightarrow>
   split_on c (TrimSuffix (concat (map (\<lambda>l. l @ [c]) ls)) [c]) = (if ls = [] then [[]] else ls)"
  by (simp add: concat_lines split_on_join) (simp add: TrimSuffix_def HasSuffix_def)

lemma SplitN2_sep: "c \<notin> set k \<Longrightarrow> SplitN2 (k @ c # v) c = [k, v]"
  using index_of_None [of c k] by (simp add: SplitN2_def index_of_append del: index_of_None)

lemma TrimSuffix_tail: "length p \<le> length v \<Longrightarrow> TrimSuffix (k @ v) p = k @ TrimSuffix v p"
  by (auto simp: TrimSuffix_def HasSuffix_def)

lemma TrimSuffix_char: "TrimSuffix v [c] = (if v \<noteq> [] \<and> last v = c then butlast v else v)"
proof (cases v rule: rev_cases)
  case (snoc w d)
  then show ?thesis using TrimSuffix_append [of w "[c]"] by (auto simp: TrimSuffix_def HasSuffix_def)
qed (simp add: TrimSuffix_def HasSuffix_def)

lemma read_conf_line:
  assumes "CHR '' '' \<notin> set k" and "v \<noteq> []"
  shows "SplitN2 (TrimSuffix (k @ '' '' @ v) '' '') (CHR '' '') = [k, TrimSuffix v '' '']"
proof -
  have "TrimSuffix (k @ '' '' @ v) '' '' = (k @ '' '') @ TrimSuffix v '' ''"
    using assms(2) by (subst TrimSuffix_tail [symmetric]) (cases v, simp_all)
  then show ?thesis using SplitN2_sep [OF assms(1)] by simp
qed

text \<open>A configuration that can be written line by line: no key has a blank or a line break, no value a line break.\<close>

definition printable_conf :: "(string, string) gomap \<Rightarrow> bool" where
  "printable_conf m \<longleftrightarrow> wf_map m \<and> list_all (\<lambda>(k, v). set k \<inter> {CHR '' '', newline_char} = {} \<and> newline_char \<notin> set v) m"

text \<open>The keys that get a line, in order.\<close>

definition written_keys :: "go_env \<Rightarrow> (string, string) gomap \<Rightarrow> string list" where
  "written_keys env m = filter (\<lambda>k. mget [] m k \<noteq> []) (sort (range_keys env 20 (mkeys m)))"

abbreviation conf_text :: "(string, string) gomap \<Rightarrow> string \<Rightarrow> string" where
  "conf_text m k \<equiv> k @ '' '' @ mget [] m k"

lemma generate_lines:
  "generateRedisConfContent env (Some m) = concat (map (\<lambda>l. l @ [newline_char]) (map (conf_text m) (written_keys env m)))"
proof -
  have "concat (map (conf_line m) ks) = concat (map (\<lambda>l. l @ [newline_char]) (map (conf_text m) (filter (\<lambda>k. mget [] m k \<noteq> []) ks)))" for ks
    by (induction ks) (auto simp: conf_line_def Let_def)
  then show ?thesis by (simp add: generateRedisConfContent_def written_keys_def)
qed

lemma conf_lines_changed_iff:
  assumes "\<forall>k\<in>set ks. CHR '' '' \<notin> set k \<and> mget [] m k \<noteq> []"
  shows "conf_lines_changed cur (map (conf_text m) ks)
    \<longleftrightarrow> (\<exists>k\<in>set ks. map_of cur k \<noteq> Some (TrimSuffix (mget [] m k) '' ''))"
  using assms
proof (induction ks)
  case (Cons k ks)
  have "SplitN2 (TrimSuffix (conf_text m k) '' '') (CHR '' '') = [k, TrimSuffix (mget [] m k) '' '']"
    using Cons.prems by (intro read_conf_line) auto
  then show ?case using Cons by (auto split: option.splits)
qed simp

context go_runtime
begin

lemma set_written_keys: "wf_map m \<Longrightarrow> set (written_keys env m) = {k. \<exists>v. (k, v) \<in> set m \<and> v \<noteq> []}"
  by (force simp: written_keys_def mget_in)

lemma distinct_written_keys: "wf_map m \<Longrightarrow> distinct (written_keys env m)"
  by (simp add: written_keys_def)

lemma length_written_keys:
  assumes "wf_map m"
  shows "length (written_keys env m) = length (filter (\<lambda>(k, v). v \<noteq> []) m)"
proof -
  have "length (written_keys env m) = card (set (written_keys env m))"
    using distinct_written_keys [OF assms] by (simp add: distinct_card)
  also have "set (written_keys env m) = set (map fst (filter (\<lambda>(k, v). v \<noteq> []) m))"
    using set_written_keys [OF assms] by force
  also have "card \<dots> = length (filter (\<lambda>(k, v). v \<noteq> []) m)"
    using assms by (subst distinct_card) (auto simp: distinct_map_filter)
  finally show ?thesis .
qed

lemma read_generated:
  assumes "printable_conf m"
  shows "isRedisConfChanged (generateRedisConfContent env (Some m)) cur \<longleftrightarrow>
    (if written_keys env m = [] then length cur \<noteq> 1
     else length cur \<noteq> length (filter (\<lambda>(k, v). v \<noteq> []) m)
       \<or> (\<exists>(k, v)\<in>set m. v \<noteq> [] \<and> map_of cur k \<noteq> Some (TrimSuffix v '' '')))"
proof -
  have wf: "wf_map m" using assms by (simp add: printable_conf_def)
  let ?ks = "written_keys env m"
  have nl: "\<forall>l\<in>set (map (conf_text m) ?ks). newline_char \<notin> set l"
    and sp: "\<forall>k\<in>set ?ks. CHR '' '' \<notin> set k \<and> mget [] m k \<noteq> []"
    using assms by (auto simp: set_written_keys [OF wf] mget_in [OF wf] printable_conf_def list_all_iff)
  have "(\<exists>k\<in>set ?ks. map_of cur k \<noteq> Some (TrimSuffix (mget [] m k) '' ''))
      \<longleftrightarrow> (\<exists>(k, v)\<in>set m. v \<noteq> [] \<and> map_of cur k \<noteq> Some (TrimSuffix v '' ''))"
    by (auto simp: set_written_keys [OF wf] mget_in [OF wf])
  then have chg: "conf_lines_changed cur (map (conf_text m) ?ks)
      \<longleftrightarrow> (\<exists>(k, v)\<in>set m. v \<noteq> [] \<and> map_of cur k \<noteq> Some (TrimSuffix v '' ''))"
    by (simp only: conf_lines_changed_iff [OF sp])
  have lines: "split_on newline_char (TrimSuffix (generateRedisConfContent env (Some m)) [newline_char])
      = (if ?ks = [] then [[]] else map (conf_text m) ?ks)"
    by (simp only: generate_lines read_lines [OF nl] map_is_Nil_conv)
  show ?thesis
  proof (cases "?ks = []")
    case True
    have "\<not> conf_lines_changed cur [[]]" by (simp add: SplitN2_def TrimSuffix_char)
    then show ?thesis by (simp only: isRedisConfChanged_def Let_def lines True if_True) auto
  next
    case False
    then show ?thesis
      by (simp only: isRedisConfChanged_def Let_def lines if_False chg length_map length_written_keys [OF wf]) auto
  qed
qed

end

text \<open>A configuration that survives: it has an entry, no value is empty and no value ends in a blank.\<close>

definition stable_conf :: "(string, string) gomap \<Rightarrow> bool" where
  "stable_conf m \<longleftrightarrow> m \<noteq> [] \<and> list_all (\<lambda>(k, v). v \<noteq> [] \<and> last v \<noteq> CHR '' '') m"

lemma same_map_iff:
  assumes "wf_map m" and "wf_map cur"
  shows "length cur = length m \<and> (\<forall>(k, v)\<in>set m. map_of cur k = Some v) \<longleftrightarrow> map_of cur = map_of m"
proof
  assume "length cur = length m \<and> (\<forall>(k, v)\<in>set m. map_of cur k = Some v)"
  then have "set m \<subseteq> set cur" and "card (set m) = card (set cur)"
    using assms by (auto dest: map_of_SomeD simp: distinct_card distinct_map)
  then have "set m = set cur" by (simp add: card_subset_eq)
  then show "map_of cur = map_of m" using assms map_of_inject_set by metis
next
  assume "map_of cur = map_of m"
  then have "set cur = set m" using assms map_of_inject_set by blast
  then have "length cur = length m" using assms by (metis distinct_card distinct_map)
  with \<open>map_of cur = map_of m\<close> show "length cur = length m \<and> (\<forall>(k, v)\<in>set m. map_of cur k = Some v)"
    using assms(1) by auto
qed


context go_runtime
begin

lemma written_keys_Nil: "wf_map m \<Longrightarrow> written_keys env m = [] \<longleftrightarrow> (\<forall>(k, v)\<in>set m. v = [])"
  by (simp only: set_empty [symmetric] set_written_keys) auto

lemma stable_conf_read:
  assumes "printable_conf m" and "stable_conf m" and "wf_map cur"
  shows "isRedisConfChanged (generateRedisConfContent env (Some m)) cur \<longleftrightarrow> map_of cur \<noteq> map_of m"
proof -
  have wf: "wf_map m" using assms(1) by (simp add: printable_conf_def)
  obtain k v where "(k, v) \<in> set m" "v \<noteq> []" using assms(2) by (cases m) (auto simp: stable_conf_def)
  then have "written_keys env m \<noteq> []" using written_keys_Nil [OF wf] by auto
  moreover have "filter (\<lambda>(k, v). v \<noteq> []) m = m" and t: "\<forall>(k, v)\<in>set m. v \<noteq> [] \<and> TrimSuffix v '' '' = v"
    using assms(2) by (auto simp: stable_conf_def list_all_iff TrimSuffix_char intro: filter_True)
  ultimately show ?thesis
    using read_generated [OF assms(1), of cur] same_map_iff [OF wf assms(3)] by (auto split: prod.splits)
qed

lemma unstable_conf_read:
  assumes "printable_conf m" and "\<not> stable_conf m"
  shows "isRedisConfChanged (generateRedisConfContent env (Some m)) m \<longleftrightarrow> \<not> (\<exists>k. m = [(k, [])])"
proof -
  have wf: "wf_map m" using assms(1) by (simp add: printable_conf_def)
  show ?thesis
  proof (cases "written_keys env m = []")
    case True
    then have "\<forall>(k, v)\<in>set m. v = []" using written_keys_Nil [OF wf] by blast
    then have "length m = 1 \<longleftrightarrow> (\<exists>k. m = [(k, [])])" by (cases m) auto
    then show ?thesis using read_generated [OF assms(1), of m] True by simp
  next
    case False
    obtain k v where kv: "(k, v) \<in> set m" and v: "v = [] \<or> last v = CHR '' ''"
      using assms(2) False written_keys_Nil [OF wf] by (auto simp: stable_conf_def list_all_iff)
    have "length m \<noteq> length (filter (\<lambda>(k, v). v \<noteq> []) m)
        \<or> (\<exists>(k, v)\<in>set m. v \<noteq> [] \<and> map_of m k \<noteq> Some (TrimSuffix v '' ''))"
    proof (cases "v = []")
      case True
      then show ?thesis using length_filter_less [OF kv, of "\<lambda>(k, v). v \<noteq> []"] by auto
    next
      case ne: False
      then have "TrimSuffix v '' '' = butlast v" using v by (simp add: TrimSuffix_char)
      also have "\<dots> \<noteq> v" using ne by (metis append_butlast_last_id append_self_conv not_Cons_self2)
      finally have "v \<noteq> [] \<and> map_of m k \<noteq> Some (TrimSuffix v '' '')" using kv ne wf by simp
      with kv show ?thesis by blast
    qed
    moreover have "\<not> (\<exists>k. m = [(k, [])])" using False written_keys_Nil [OF wf] by auto
    ultimately show ?thesis using read_generated [OF assms(1), of m] False by simp
  qed
qed

end

text \<open>C32. The text in the ConfigMap and the check that reads it back, for keys without blanks and line breaks and values
  without line breaks (\<open>printable_conf\<close>). For a configuration with at least one entry and no value that is
  empty or ends in a blank, a change is reported exactly when the wanted configuration differs from the written one. For
  every other configuration but one of a single entry with an empty value, a change is reported although nothing changed;
  a single entry with an empty value is not reported, and no configuration at all is.\<close>

theorem redis_conf_round_trip:
  assumes "go_runtime env" and "printable_conf m" and "wf_map cur"
  shows "(stable_conf m \<longrightarrow>
      (isRedisConfChanged (generateRedisConfContent env (Some m)) cur \<longleftrightarrow> map_of cur \<noteq> map_of m))
    \<and> (\<not> stable_conf m \<longrightarrow>
      (isRedisConfChanged (generateRedisConfContent env (Some m)) m \<longleftrightarrow> \<not> (\<exists>k. m = [(k, [])])))
    \<and> isRedisConfChanged (generateRedisConfContent env None) []"
  using go_runtime.stable_conf_read [OF assms(1,2) _ assms(3)] go_runtime.unstable_conf_read [OF assms(1,2)]
  by (simp add: generateRedisConfContent_def isRedisConfChanged_def)

theorem redis_conf_round_trip_witness:
  "(let m = [(''maxmemory'', ''1gb''), (''appendonly'', ''yes'')]; e = [(''save'', []), (''appendonly'', ''yes'')];
        text = generateRedisConfContent go_env_det (Some m) in
    \<not> isRedisConfChanged text m \<and> isRedisConfChanged text [(''maxmemory'', ''2gb''), (''appendonly'', ''yes'')]
    \<and> isRedisConfChanged (generateRedisConfContent go_env_det (Some e)) e)"
proof -
  define m e where "m = [(''maxmemory'', ''1gb''), (''appendonly'', ''yes'')]" and "e = [(''save'', [] :: string), (''appendonly'', ''yes'')]"
  define cur where "cur = [(''maxmemory'', ''2gb''), (''appendonly'', ''yes'')]"
  have m: "printable_conf m" "stable_conf m" "wf_map m" "wf_map cur" "map_of cur \<noteq> map_of m"
    by (simp_all add: m_def cur_def printable_conf_def stable_conf_def fun_eq_iff)
  have e: "printable_conf e" "\<not> stable_conf e" "wf_map e" "\<not> (\<exists>k. e = [(k, [])])"
    by (simp_all add: e_def printable_conf_def stable_conf_def)
  show ?thesis
    using redis_conf_round_trip [OF det.go_runtime_axioms m(1,3)] redis_conf_round_trip [OF det.go_runtime_axioms m(1,4)]
      redis_conf_round_trip [OF det.go_runtime_axioms e(1,3)] m e
    by (simp add: Let_def flip: m_def e_def cur_def)
qed

end
