(* ===== verification/StatefulSets.thy ===== *)
theory StatefulSets
  imports Resources
begin

text \<open>
  \<open>pkg/resources/statefulsets\<close> and \<open>pkg/config/redis.go\<close>: the StatefulSet of one shard, with its containers, volumes,
  command line and password, and the comparison of a StatefulSet with the wanted password.

  The parameters: \<open>Location\<close> and \<open>Provider\<close> are methods of \<open>Backend\<close> of package \<open>objectstore-api\<close>, \<open>Stamp\<close> prints a time in the
  format \<open>20060102150405\<close>, \<open>ReadFile\<close> is the content of a file of the operator, if it can be opened, and the two keys
  are constants of package \<open>kmodules.xyz/constants/aws\<close>.
\<close>

record build_env =
  Location :: "Backend \<Rightarrow> goerr + string"
  Provider :: "Backend \<Rightarrow> goerr + string"
  AWS_ACCESS_KEY_ID :: string
  AWS_SECRET_ACCESS_KEY :: string
  Stamp :: "int \<Rightarrow> string"
  ReadFile :: "string \<Rightarrow> string option"

section \<open>The Redis settings of the operator\<close>

record Redis =
  DialTimeout :: int
  ClusterNodeTimeout :: int
  ConfigFileName :: string
  RenameCommandsPath :: string
  RenameCommandsFile :: string
  HTTPServerAddr :: string
  ServerBin :: string
  ServerPort :: string
  ServerIP :: string
  MaxMemory :: nat
  MaxMemoryPolicy :: string
  ConfigFiles :: "string list"

text \<open>The settings when no flag is given: \<open>AddFlags\<close> on the empty structure.\<close>

definition AddFlags :: "Redis \<Rightarrow> Redis" where
  "AddFlags r = r\<lparr>DialTimeout := 2000, ClusterNodeTimeout := 2000, ConfigFileName := ''/redis-conf/redis.conf'',
     RenameCommandsPath := ''/etc/secret-volume'', RenameCommandsFile := [], MaxMemory := 0,
     MaxMemoryPolicy := ''noeviction'', ServerBin := ''redis-server'', ServerPort := ''6379'', ServerIP := [], ConfigFiles := []\<rparr>"

definition GetRenameCommandsFile :: "Redis \<Rightarrow> string" where
  "GetRenameCommandsFile r =
     (if RenameCommandsFile r = [] then [] else filepath_Join [RenameCommandsPath r, RenameCommandsFile r])"

section \<open>Names\<close>

definition redisStorageVolumeName :: string where "redisStorageVolumeName = ''redis-data''"
definition redisRestoreLocalVolumeName :: string where "redisRestoreLocalVolumeName = ''redis-local''"
definition redisServerName :: string where "redisServerName = ''redis''"
definition hostnameTopologyKey :: string where "hostnameTopologyKey = ''kubernetes.io/hostname''"
definition ExporterContainerName :: string where "ExporterContainerName = ''exporter''"
definition graceTime :: int where "graceTime = 30"
definition configMapVolumeName :: string where "configMapVolumeName = ''conf''"
definition passwordKey :: string where "passwordKey = ''password''"
definition SecretMountPath :: string where "SecretMountPath = ''/etc/rclone''"
definition PullAlways :: string where "PullAlways = ''Always''"

definition ClusterHeadlessSvcName :: "string \<Rightarrow> nat \<Rightarrow> string" where
  "ClusterHeadlessSvcName name i = name @ ''-'' @ FormatUint i"

section \<open>The command line\<close>

definition keep_user_cmd :: "(string, string) gomap \<Rightarrow> string \<Rightarrow> bool" where
  "keep_user_cmd systemRenameCmdMap cmd =
     (case Fields cmd of
        [a, b, c] \<Rightarrow> if map to_lower a = ''--rename-command'' then map_of systemRenameCmdMap b = None else True
      | _ \<Rightarrow> True)"

definition rename_option :: "string \<times> string \<Rightarrow> string" where
  "rename_option kv = (case kv of (key, value) \<Rightarrow> ''--rename-command '' @ key @ '' '' @ value)"

definition mergeRenameCmds :: "go_env \<Rightarrow> string list \<Rightarrow> (string, string) gomap \<Rightarrow> string list" where
  "mergeRenameCmds env userCmds systemRenameCmdMap =
     (let cmds = filter (keep_user_cmd systemRenameCmdMap) userCmds;
          renameCmdSlice = map rename_option (mrange env 21 systemRenameCmdMap)
      in cmds @ sort renameCmdSlice)"

definition getRedisCommand :: "build_env \<Rightarrow> Redis \<Rightarrow> go_env \<Rightarrow> drc \<Rightarrow> EnvVar option \<Rightarrow> string list" where
  "getRedisCommand bld conf env cluster password =
     (let quoted = [CHR 0x27] @ ''$('' @ PasswordENV @ '')'' @ [CHR 0x27];
          cmd = [''/conf/fix-ip.sh'', ''redis-server'', ''/conf/redis.conf'', ''--cluster-enabled yes'',
                 ''--cluster-config-file /data/nodes.conf''];
          cmd = (if password \<noteq> None then cmd @ [''--requirepass '' @ quoted, ''--masterauth '' @ quoted] else cmd);
          renameCmdMap = BuildCommandReplaceMapping (ReadFile bld (GetRenameCommandsFile conf));
          mergedCmd = mergeRenameCmds env (sp_Command (drc_Spec cluster)) renameCmdMap
      in if length mergedCmd > 0 then cmd @ mergedCmd else cmd)"

section \<open>Containers\<close>

definition customContainerEnv :: "EnvVar list \<Rightarrow> EnvVar list \<Rightarrow> EnvVar list" where
  "customContainerEnv env customEnv = env @ customEnv"

definition volumeMounts :: "VolumeMount list" where
  "volumeMounts = [\<lparr>mount_Name = redisStorageVolumeName, MountPath = ''/data'', SubPath = [], mount_ReadOnly = False\<rparr>,
     \<lparr>mount_Name = configMapVolumeName, MountPath = ''/conf'', SubPath = [], mount_ReadOnly = False\<rparr>]"

definition redisPassword :: "drc \<Rightarrow> EnvVar option" where
  "redisPassword cluster =
     (case sp_PasswordSecret (drc_Spec cluster) of
        None \<Rightarrow> None
      | Some secretName \<Rightarrow> Some \<lparr>env_Name = PasswordENV, env_From = EnvSecretKeyRef secretName ''password''\<rparr>)"

text \<open>\<open>if password != nil { container.Env = append(container.Env, *password) }\<close>, then the custom variables.\<close>

definition add_env :: "drc \<Rightarrow> EnvVar option \<Rightarrow> Container \<Rightarrow> Container" where
  "add_env cluster password container =
     container\<lparr>cont_Env := customContainerEnv (cont_Env container @ (case password of None \<Rightarrow> [] | Some p \<Rightarrow> [p]))
        (sp_Env (drc_Spec cluster))\<rparr>"

definition ping_probe :: Probe where
  "ping_probe = ExecProbe graceTime 5 [''sh'', ''-c'', ''redis-cli -h $(hostname) ping'']"

definition redisServerContainer :: "build_env \<Rightarrow> Redis \<Rightarrow> go_env \<Rightarrow> drc \<Rightarrow> EnvVar option \<Rightarrow> Container outcome" where
  "redisServerContainer bld conf env cluster password =
     (case sp_Resources (drc_Spec cluster) of
        None \<Rightarrow> Panic NilDereference
      | Some res \<Rightarrow> Ret (add_env cluster password \<lparr>cont_Name = redisServerName, cont_Image = sp_Image (drc_Spec cluster),
          cont_ImagePullPolicy = sp_ImagePullPolicy (drc_Spec cluster),
          cont_SecurityContext = sp_ContainerSecurityContext (drc_Spec cluster),
          cont_Ports = [\<lparr>port_Name = ''client'', ContainerPort = 6379\<rparr>, \<lparr>port_Name = ''gossip'', ContainerPort = 16379\<rparr>],
          cont_Command = getRedisCommand bld conf env cluster password, cont_Args = [],
          cont_Env = [\<lparr>env_Name = ''POD_IP'', env_From = EnvFieldRef ''status.podIP''\<rparr>],
          cont_Resources = res, cont_VolumeMounts = volumeMounts,
          cont_LivenessProbe = Some ping_probe, cont_ReadinessProbe = Some ping_probe,
          cont_Lifecycle = Some (ExecHooks [''/bin/sh'', ''-c'', ''echo ${REDIS_PASSWORD} > /data/redis_password'']
            [''/bin/sh'', ''/conf/shutdown.sh''])\<rparr>))"

definition redisExporterContainer :: "drc \<Rightarrow> EnvVar option \<Rightarrow> Container outcome" where
  "redisExporterContainer cluster password =
     (case sp_Monitor (drc_Spec cluster) of
        None \<Rightarrow> Panic NilDereference
      | Some mon \<Rightarrow> (case mon_Prometheus mon of
          None \<Rightarrow> Panic NilDereference
        | Some prom \<Rightarrow> Ret (add_env cluster password (no_container\<lparr>cont_Name := ExporterContainerName,
            cont_Args := [''--web.listen-address=:'' @ FormatInt (prom_Port prom),
              ''--web.telemetry-path='' @ PrometheusExporterTelemetryPath] @ mon_Args mon,
            cont_Image := mon_Image mon, cont_ImagePullPolicy := PullAlways,
            cont_Ports := [\<lparr>port_Name = ''prom-http'', ContainerPort = prom_Port prom\<rparr>],
            cont_Env := mon_Env mon, cont_Resources := mon_Resources mon,
            cont_SecurityContext := mon_SecurityContext mon\<rparr>))))"

definition with_pod_spec :: "PodSpec option \<Rightarrow> Container \<Rightarrow> Container" where
  "with_pod_spec ps container = (case ps of None \<Rightarrow> container | Some p \<Rightarrow>
     container\<lparr>cont_Resources := ps_Resources p, cont_LivenessProbe := ps_LivenessProbe p,
       cont_ReadinessProbe := ps_ReadinessProbe p, cont_Lifecycle := ps_Lifecycle p\<rparr>)"

definition restore_container :: "drc \<Rightarrow> RedisClusterBackup \<Rightarrow> string \<Rightarrow> string \<Rightarrow> Container" where
  "restore_container cluster backup location folderName = no_container\<lparr>cont_Name := JobTypeRestore,
     cont_Image := bs_Image (bk_Spec backup), cont_ImagePullPolicy := PullAlways,
     cont_Args := [JobTypeRestore, ''--data-dir='' @ BackupDumpDir, ''--location='' @ location, ''--folder='' @ folderName,
       ''--snapshot='' @ bk_Name backup, ''--''],
     cont_Env := [\<lparr>env_Name = ''POD_NAME'', env_From = EnvFieldRef ''metadata.name''\<rparr>,
       \<lparr>env_Name = ''REDIS_RESTORE_SUCCEEDED'', env_From = EnvConfigMapKeyRef (RestoreConfigMapName (drc_Name cluster)) RestoreSucceeded\<rparr>],
     cont_VolumeMounts := [\<lparr>mount_Name = redisStorageVolumeName, MountPath = BackupDumpDir, SubPath = [], mount_ReadOnly = False\<rparr>,
         \<lparr>mount_Name = ''rcloneconfig'', MountPath = SecretMountPath, SubPath = [], mount_ReadOnly = True\<rparr>]
       @ (if IsRefLocalPVC backup then (case Local (bs_Backend (bk_Spec backup)) of
            None \<Rightarrow> []
          | Some l \<Rightarrow> [\<lparr>mount_Name = redisRestoreLocalVolumeName, MountPath = local_MountPath l, SubPath = local_SubPath l,
              mount_ReadOnly = True\<rparr>]) else [])\<rparr>"

definition redisInitContainer :: "build_env \<Rightarrow> drc \<Rightarrow> EnvVar option \<Rightarrow> (goerr + Container) outcome" where
  "redisInitContainer bld cluster password =
     (case restore_Backup (st_Restore (drc_Status cluster)) of
        None \<Rightarrow> Panic NilDereference
      | Some backup \<Rightarrow>
          (case Location bld (bs_Backend (bk_Spec backup)) of
             Inl err \<Rightarrow> Ret (Inl err)
           | Inr location \<Rightarrow> outcome_bind (RemotePath (Stamp bld) backup) (\<lambda>r. case r of
               Inl err \<Rightarrow> Ret (Inl err)
             | Inr folderName \<Rightarrow>
                 let c = restore_container cluster backup location folderName;
                     c = c\<lparr>cont_Env := cont_Env c @ (case password of None \<Rightarrow> [] | Some p \<Rightarrow> [p])\<rparr>;
                     c = with_pod_spec (bs_PodSpec (bk_Spec backup)) c
                 in Ret (Inr (c\<lparr>cont_Env := customContainerEnv (cont_Env c) (sp_Env (drc_Spec cluster))\<rparr>)))))"

section \<open>Volumes\<close>

definition emptyVolume :: Volume where
  "emptyVolume = \<lparr>vol_Name = redisStorageVolumeName, vol_Source = EmptyDir\<rparr>"

definition redisDataVolume :: "drc \<Rightarrow> Volume option" where
  "redisDataVolume cluster =
     (case sp_Storage (drc_Spec cluster) of
        None \<Rightarrow> Some emptyVolume
      | Some st \<Rightarrow>
          if storage_Type st = Ephemeral then Some emptyVolume
          else if storage_Type st = PersistentClaim then None
          else Some emptyVolume)"

definition redisVolumes :: "drc \<Rightarrow> Volume list" where
  "redisVolumes cluster =
     (let volumes = [\<lparr>vol_Name = configMapVolumeName, vol_Source = ConfigMapVolume (RedisConfigMapName (drc_Name cluster)) 493\<rparr>]
            @ (case redisDataVolume cluster of None \<Rightarrow> [] | Some v \<Rightarrow> [v])
      in case restore_Backup (st_Restore (drc_Status cluster)) of
           None \<Rightarrow> volumes
         | Some backup \<Rightarrow>
             if \<not> IsRestoreFromBackup cluster \<or> \<not> IsRestoreRunning cluster then volumes
             else volumes @ [\<lparr>vol_Name = ''rcloneconfig'', vol_Source = SecretVolume (RCloneSecretName backup)\<rparr>]
               @ (if IsRefLocalPVC backup then (case Local (bs_Backend (bk_Spec backup)) of
                    None \<Rightarrow> []
                  | Some l \<Rightarrow> [\<lparr>vol_Name = redisRestoreLocalVolumeName, vol_Source = local_VolumeSource l\<rparr>]) else []))"

definition persistentClaim :: "RedisStorage \<Rightarrow> labels \<Rightarrow> PersistentVolumeClaim" where
  "persistentClaim st labels = \<lparr>pvc_Name = redisStorageVolumeName, pvc_Namespace = [], pvc_Labels = Some labels,
     pvc_OwnerReferences = [], pvc_AccessModes = [''ReadWriteOnce''], pvc_Size = storage_Size st,
     pvc_StorageClassName = storage_Class st, pvc_VolumeMode = ''Filesystem''\<rparr>"

section \<open>The StatefulSet\<close>

definition getAffinity :: "drc \<Rightarrow> labels \<Rightarrow> Affinity" where
  "getAffinity cluster labels =
     (case sp_Affinity (drc_Spec cluster) of
        Some affinity \<Rightarrow> affinity
      | None \<Rightarrow>
          let soft = [(100, hostnameTopologyKey, [(LabelClusterName, drc_Name cluster)])]
          in if sp_RequiredAntiAffinity (drc_Spec cluster) then AntiAffinity soft [(hostnameTopologyKey, labels)]
             else AntiAffinity soft [])"

definition volume_claims :: "drc \<Rightarrow> labels \<Rightarrow> PersistentVolumeClaim list" where
  "volume_claims cluster labels =
     (case sp_Storage (drc_Spec cluster) of
        None \<Rightarrow> []
      | Some st \<Rightarrow>
          if storage_Type st = PersistentClaim then
            let claim = persistentClaim st labels
            in [if storage_DeleteClaim st then claim\<lparr>pvc_OwnerReferences := DefaultOwnerReferences cluster\<rparr> else claim]
          else [])"

definition base_statefulset :: "drc \<Rightarrow> string \<Rightarrow> string \<Rightarrow> labels \<Rightarrow> Container \<Rightarrow> StatefulSet" where
  "base_statefulset cluster ssName svcName labels server = (let spec = drc_Spec cluster in
     \<lparr>sts_Name = ssName, sts_Namespace = drc_Namespace cluster, sts_Labels = labels,
      sts_OwnerReferences = DefaultOwnerReferences cluster, sts_ServiceName = svcName,
      sts_Replicas = i32 (sp_ClusterReplicas spec + 1), sts_UpdateStrategy = ''RollingUpdate'', sts_Selector = labels,
      sts_Template = \<lparr>pt_Labels = Some labels, pt_Annotations = sp_Annotations spec, pt_ImagePullSecrets = sp_ImagePullSecrets spec,
        pt_Affinity = Some (getAffinity cluster labels), pt_Tolerations = sp_ToleRations spec,
        pt_SecurityContext = sp_SecurityContext spec, pt_NodeSelector = sp_NodeSelector spec, pt_SchedulerName = [],
        pt_PriorityClassName = [], pt_Priority = None, pt_RestartPolicy = [], pt_InitContainers = [],
        pt_Containers = [server], pt_Volumes = redisVolumes cluster\<rparr>,
      sts_VolumeClaimTemplates = volume_claims cluster labels, sts_ReadyReplicas = 0, sts_CurrentReplicas = 0\<rparr>)"

definition add_container :: "Container \<Rightarrow> StatefulSet \<Rightarrow> StatefulSet" where
  "add_container c ss = ss\<lparr>sts_Template := (sts_Template ss)\<lparr>pt_Containers := pt_Containers (sts_Template ss) @ [c]\<rparr>\<rparr>"

definition add_init_container :: "Container \<Rightarrow> StatefulSet \<Rightarrow> StatefulSet" where
  "add_init_container c ss = ss\<lparr>sts_Template := (sts_Template ss)\<lparr>pt_InitContainers := pt_InitContainers (sts_Template ss) @ [c]\<rparr>\<rparr>"

definition with_exporter :: "drc \<Rightarrow> EnvVar option \<Rightarrow> StatefulSet \<Rightarrow> StatefulSet outcome" where
  "with_exporter cluster password ss =
     (if sp_Monitor (drc_Spec cluster) \<noteq> None
      then outcome_bind (redisExporterContainer cluster password) (\<lambda>c. Ret (add_container c ss)) else Ret ss)"

definition with_restore :: "build_env \<Rightarrow> drc \<Rightarrow> EnvVar option \<Rightarrow> StatefulSet \<Rightarrow> (goerr + StatefulSet) outcome" where
  "with_restore bld cluster password ss =
     (if IsRestoreFromBackup cluster \<and> IsRestoreRunning cluster \<and> restore_Backup (st_Restore (drc_Status cluster)) \<noteq> None
      then outcome_bind (redisInitContainer bld cluster password) (\<lambda>r. case r of
             Inl err \<Rightarrow> Ret (Inl err)
           | Inr initContainer \<Rightarrow> Ret (Inr (add_init_container initContainer ss)))
      else Ret (Inr ss))"

definition NewStatefulSetForCR :: "build_env \<Rightarrow> Redis \<Rightarrow> go_env \<Rightarrow> drc \<Rightarrow> string \<Rightarrow> string \<Rightarrow> labels \<Rightarrow> (goerr + StatefulSet) outcome" where
  "NewStatefulSetForCR bld conf env cluster ssName svcName labels =
     (let password = redisPassword cluster in
      outcome_bind (redisServerContainer bld conf env cluster password) (\<lambda>server.
      outcome_bind (with_exporter cluster password (base_statefulset cluster ssName svcName labels server)) (\<lambda>ss.
      with_restore bld cluster password ss)))"

section \<open>Passwords\<close>

fun getSecretKeyRefByKey :: "string \<Rightarrow> EnvVar list \<Rightarrow> string" where
  "getSecretKeyRefByKey key [] = []"
| "getSecretKeyRefByKey key (v # envSet) =
     (if key = env_Name v then
        (case env_From v of EnvSecretKeyRef name k \<Rightarrow> name | _ \<Rightarrow> getSecretKeyRefByKey key envSet)
      else getSecretKeyRefByKey key envSet)"

definition IsPasswordChanged :: "drc \<Rightarrow> StatefulSet \<Rightarrow> bool outcome" where
  "IsPasswordChanged cluster sts =
     (case sp_PasswordSecret (drc_Spec cluster) of
        None \<Rightarrow> Ret False
      | Some wanted \<Rightarrow> outcome_bind (go_index (sts_Containers sts) 0) (\<lambda>c.
          let secretName = getSecretKeyRefByKey PasswordENV (cont_Env c)
          in Ret (if secretName = [] then True else if secretName \<noteq> wanted then True else False)))"

definition password_of :: "(goerr + Secret) \<times> 'k \<Rightarrow> (goerr + string) \<times> 'k" where
  "password_of r = (case r of (Inl err, k) \<Rightarrow> (Inl err, k) | (Inr secret, k) \<Rightarrow> (Inr (mget [] (secret_Data secret) passwordKey), k))"

definition GetOldRedisClusterPassword :: "(Secret, 'k) typed_client \<Rightarrow> StatefulSet \<Rightarrow> 'k \<Rightarrow> ((goerr + string) \<times> 'k) outcome" where
  "GetOldRedisClusterPassword client sts k =
     outcome_bind (go_index (sts_Containers sts) 0) (\<lambda>c.
       let secretName = getSecretKeyRefByKey PasswordENV (cont_Env c)
       in Ret (if secretName = [] then (Inr [], k) else password_of (c_Get client (sts_Namespace sts) secretName k)))"

definition GetClusterPassword :: "(Secret, 'k) typed_client \<Rightarrow> drc \<Rightarrow> 'k \<Rightarrow> (goerr + string) \<times> 'k" where
  "GetClusterPassword client cluster k =
     (case sp_PasswordSecret (drc_Spec cluster) of
        None \<Rightarrow> (Inr [], k)
      | Some name \<Rightarrow> password_of (c_Get client (drc_Namespace cluster) name k))"

end
