(* ===== verification/K8sUtil.thy ===== *)
theory K8sUtil
  imports Api
begin

text \<open>
  \<open>pkg/k8sutil\<close>: the controls through which the operator reads and writes Kubernetes objects. Each is a thin
  layer over the client of the controller runtime, which is a parameter here: one \<open>typed_client\<close> per object type,
  over one state of the API server. The locale \<open>api_server\<close> states what the server promises about one object
  type when nobody else writes; it may refuse any call, and it may fill in an object it stores.
\<close>

record 'k kube_client =
  statefulsets :: "(StatefulSet, 'k) typed_client"
  pods :: "(Pod, 'k) typed_client"
  services :: "(Service, 'k) typed_client"
  configmaps :: "(ConfigMap, 'k) typed_client"
  pdbs :: "(PodDisruptionBudget, 'k) typed_client"
  pvcs :: "(PersistentVolumeClaim, 'k) typed_client"
  secrets :: "(Secret, 'k) typed_client"
  jobs :: "(Job, 'k) typed_client"
  clusters :: "(drc, 'k) typed_client"
  backups :: "(RedisClusterBackup, 'k) typed_client"

section \<open>statefulset.go\<close>

definition CreateStatefulSet :: "'k kube_client \<Rightarrow> StatefulSet \<Rightarrow> 'k \<Rightarrow> goerr option \<times> 'k" where
  "CreateStatefulSet client ss k = only_err (c_Create (statefulsets client) ss k)"

definition UpdateStatefulSet :: "'k kube_client \<Rightarrow> StatefulSet \<Rightarrow> 'k \<Rightarrow> goerr option \<times> 'k" where
  "UpdateStatefulSet client ss k = only_err (c_Update (statefulsets client) ss k)"

definition DeleteStatefulSet :: "'k kube_client \<Rightarrow> StatefulSet \<Rightarrow> 'k \<Rightarrow> goerr option \<times> 'k" where
  "DeleteStatefulSet client ss k = c_Delete (statefulsets client) ss k"

definition GetStatefulSet :: "'k kube_client \<Rightarrow> string \<Rightarrow> string \<Rightarrow> 'k \<Rightarrow> (goerr + StatefulSet) \<times> 'k" where
  "GetStatefulSet client namespace name k = c_Get (statefulsets client) namespace name k"

definition DeleteStatefulSetByName :: "'k kube_client \<Rightarrow> string \<Rightarrow> string \<Rightarrow> 'k \<Rightarrow> goerr option \<times> 'k" where
  "DeleteStatefulSetByName client namespace name k =
     (case GetStatefulSet client namespace name k of
        (Inl err, k) \<Rightarrow> (Some err, k)
      | (Inr sts, k) \<Rightarrow> DeleteStatefulSet client sts k)"

text \<open>The selector is copied entry by entry into the list option.\<close>

definition GetStatefulSetPods :: "'k kube_client \<Rightarrow> go_env \<Rightarrow> string \<Rightarrow> string \<Rightarrow> 'k \<Rightarrow> (goerr + Pod list) \<times> 'k" where
  "GetStatefulSetPods client env namespace name k =
     (case GetStatefulSet client namespace name k of
        (Inl err, k) \<Rightarrow> (Inl err, k)
      | (Inr statefulSet, k) \<Rightarrow>
          c_List (pods client) namespace (fold (\<lambda>(l, v) match. mput l v match) (mrange env 22 (sts_Selector statefulSet)) []) k)"

definition GetStatefulSetPodsByLabels :: "'k kube_client \<Rightarrow> string \<Rightarrow> labels \<Rightarrow> 'k \<Rightarrow> (goerr + Pod list) \<times> 'k" where
  "GetStatefulSetPodsByLabels client namespace labels k = c_List (pods client) namespace labels k"

definition ListStatefulSetByLabels :: "'k kube_client \<Rightarrow> string \<Rightarrow> labels \<Rightarrow> 'k \<Rightarrow> (goerr + StatefulSet list) \<times> 'k" where
  "ListStatefulSetByLabels client namespace labels k = c_List (statefulsets client) namespace labels k"

section \<open>pod.go\<close>

definition CreatePod :: "'k kube_client \<Rightarrow> Pod \<Rightarrow> 'k \<Rightarrow> goerr option \<times> 'k" where
  "CreatePod client pod k = only_err (c_Create (pods client) pod k)"

definition UpdatePod :: "'k kube_client \<Rightarrow> Pod \<Rightarrow> 'k \<Rightarrow> goerr option \<times> 'k" where
  "UpdatePod client pod k = only_err (c_Update (pods client) pod k)"

definition DeletePod :: "'k kube_client \<Rightarrow> Pod \<Rightarrow> 'k \<Rightarrow> goerr option \<times> 'k" where
  "DeletePod client pod k = c_Delete (pods client) pod k"

definition GetPod :: "'k kube_client \<Rightarrow> string \<Rightarrow> string \<Rightarrow> 'k \<Rightarrow> (goerr + Pod) \<times> 'k" where
  "GetPod client namespace name k = c_Get (pods client) namespace name k"

definition DeletePodByName :: "'k kube_client \<Rightarrow> string \<Rightarrow> string \<Rightarrow> 'k \<Rightarrow> goerr option \<times> 'k" where
  "DeletePodByName client namespace name k =
     (case GetPod client namespace name k of
        (Inl err, k) \<Rightarrow> (Some err, k)
      | (Inr pod, k) \<Rightarrow> c_Delete (pods client) pod k)"

section \<open>service.go\<close>

definition CreateService :: "'k kube_client \<Rightarrow> Service \<Rightarrow> 'k \<Rightarrow> goerr option \<times> 'k" where
  "CreateService client svc k = only_err (c_Create (services client) svc k)"

definition UpdateService :: "'k kube_client \<Rightarrow> Service \<Rightarrow> 'k \<Rightarrow> goerr option \<times> 'k" where
  "UpdateService client svc k = only_err (c_Update (services client) svc k)"

definition DeleteService :: "'k kube_client \<Rightarrow> Service \<Rightarrow> 'k \<Rightarrow> goerr option \<times> 'k" where
  "DeleteService client svc k = c_Delete (services client) svc k"

definition GetService :: "'k kube_client \<Rightarrow> string \<Rightarrow> string \<Rightarrow> 'k \<Rightarrow> (goerr + Service) \<times> 'k" where
  "GetService client namespace name k = c_Get (services client) namespace name k"

definition DeleteServiceByName :: "'k kube_client \<Rightarrow> string \<Rightarrow> string \<Rightarrow> 'k \<Rightarrow> goerr option \<times> 'k" where
  "DeleteServiceByName client namespace name k =
     (case GetService client namespace name k of
        (Inl err, k) \<Rightarrow> (Some err, k)
      | (Inr svc, k) \<Rightarrow> DeleteService client svc k)"

section \<open>configmap.go\<close>

definition CreateConfigMap :: "'k kube_client \<Rightarrow> ConfigMap \<Rightarrow> 'k \<Rightarrow> goerr option \<times> 'k" where
  "CreateConfigMap client cm k = only_err (c_Create (configmaps client) cm k)"

definition UpdateConfigMap :: "'k kube_client \<Rightarrow> ConfigMap \<Rightarrow> 'k \<Rightarrow> goerr option \<times> 'k" where
  "UpdateConfigMap client cm k = only_err (c_Update (configmaps client) cm k)"

definition DeleteConfigMap :: "'k kube_client \<Rightarrow> ConfigMap \<Rightarrow> 'k \<Rightarrow> goerr option \<times> 'k" where
  "DeleteConfigMap client cm k = c_Delete (configmaps client) cm k"

definition GetConfigMap :: "'k kube_client \<Rightarrow> string \<Rightarrow> string \<Rightarrow> 'k \<Rightarrow> (goerr + ConfigMap) \<times> 'k" where
  "GetConfigMap client namespace name k = c_Get (configmaps client) namespace name k"

section \<open>poddisruptionbudget.go\<close>

definition CreatePodDisruptionBudget :: "'k kube_client \<Rightarrow> PodDisruptionBudget \<Rightarrow> 'k \<Rightarrow> goerr option \<times> 'k" where
  "CreatePodDisruptionBudget client pb k = only_err (c_Create (pdbs client) pb k)"

definition UpdatePodDisruptionBudget :: "'k kube_client \<Rightarrow> PodDisruptionBudget \<Rightarrow> 'k \<Rightarrow> goerr option \<times> 'k" where
  "UpdatePodDisruptionBudget client pb k = only_err (c_Update (pdbs client) pb k)"

definition DeletePodDisruptionBudget :: "'k kube_client \<Rightarrow> PodDisruptionBudget \<Rightarrow> 'k \<Rightarrow> goerr option \<times> 'k" where
  "DeletePodDisruptionBudget client pb k = c_Delete (pdbs client) pb k"

definition GetPodDisruptionBudget :: "'k kube_client \<Rightarrow> string \<Rightarrow> string \<Rightarrow> 'k \<Rightarrow> (goerr + PodDisruptionBudget) \<times> 'k" where
  "GetPodDisruptionBudget client namespace name k = c_Get (pdbs client) namespace name k"

definition DeletePodDisruptionBudgetByName :: "'k kube_client \<Rightarrow> string \<Rightarrow> string \<Rightarrow> 'k \<Rightarrow> goerr option \<times> 'k" where
  "DeletePodDisruptionBudgetByName client namespace name k =
     (case GetPodDisruptionBudget client namespace name k of
        (Inl err, k) \<Rightarrow> (Some err, k)
      | (Inr pdb, k) \<Rightarrow> DeletePodDisruptionBudget client pdb k)"

section \<open>pvc.go\<close>

definition DeletePvc :: "'k kube_client \<Rightarrow> PersistentVolumeClaim \<Rightarrow> 'k \<Rightarrow> goerr option \<times> 'k" where
  "DeletePvc client pvc k = c_Delete (pvcs client) pvc k"

fun delete_pvcs :: "'k kube_client \<Rightarrow> PersistentVolumeClaim list \<Rightarrow> 'k \<Rightarrow> goerr option \<times> 'k" where
  "delete_pvcs client [] k = (None, k)"
| "delete_pvcs client (pvc # items) k =
     (case c_Delete (pvcs client) pvc k of
        (Some err, k) \<Rightarrow> (Some err, k)
      | (None, k) \<Rightarrow> delete_pvcs client items k)"

definition DeletePvcByLabels :: "'k kube_client \<Rightarrow> string \<Rightarrow> labels \<Rightarrow> 'k \<Rightarrow> goerr option \<times> 'k" where
  "DeletePvcByLabels client namespace labels k =
     (case c_List (pvcs client) namespace labels k of
        (Inl err, k) \<Rightarrow> (Some err, k)
      | (Inr items, k) \<Rightarrow> delete_pvcs client items k)"

definition GetPvc :: "'k kube_client \<Rightarrow> string \<Rightarrow> string \<Rightarrow> 'k \<Rightarrow> (goerr + PersistentVolumeClaim) \<times> 'k" where
  "GetPvc client namespace name k = c_Get (pvcs client) namespace name k"

section \<open>batchjob.go\<close>

definition CreateJob :: "'k kube_client \<Rightarrow> Job \<Rightarrow> 'k \<Rightarrow> goerr option \<times> 'k" where
  "CreateJob client job k = only_err (c_Create (jobs client) job k)"

definition UpdateJob :: "'k kube_client \<Rightarrow> Job \<Rightarrow> 'k \<Rightarrow> goerr option \<times> 'k" where
  "UpdateJob client job k = only_err (c_Update (jobs client) job k)"

definition DeleteJob :: "'k kube_client \<Rightarrow> Job \<Rightarrow> 'k \<Rightarrow> goerr option \<times> 'k" where
  "DeleteJob client job k = c_Delete (jobs client) job k"

definition GetJob :: "'k kube_client \<Rightarrow> string \<Rightarrow> string \<Rightarrow> 'k \<Rightarrow> (goerr + Job) \<times> 'k" where
  "GetJob client namespace name k = c_Get (jobs client) namespace name k"

definition ListJobByLabels :: "'k kube_client \<Rightarrow> string \<Rightarrow> labels \<Rightarrow> 'k \<Rightarrow> (goerr + Job list) \<times> 'k" where
  "ListJobByLabels client namespace labs k = c_List (jobs client) namespace labs k"

section \<open>customresource.go\<close>

text \<open>The update of a resource writes the server's answer into the object, so the new object is returned.\<close>

definition written :: "'a \<Rightarrow> (goerr + 'a) \<times> 'k \<Rightarrow> (goerr option \<times> 'a) \<times> 'k" where
  "written obj r = (case r of (Inl err, k) \<Rightarrow> ((Some err, obj), k) | (Inr obj', k) \<Rightarrow> ((None, obj'), k))"

definition UpdateCRStatus :: "('a, 'k) typed_client \<Rightarrow> 'a \<Rightarrow> 'k \<Rightarrow> (goerr option \<times> 'a) \<times> 'k" where
  "UpdateCRStatus client obj k = written obj (c_StatusUpdate client obj k)"

definition UpdateCR :: "('a, 'k) typed_client \<Rightarrow> 'a \<Rightarrow> 'k \<Rightarrow> (goerr option \<times> 'a) \<times> 'k" where
  "UpdateCR client obj k = written obj (c_Update client obj k)"

definition GetRedisClusterBackup :: "'k kube_client \<Rightarrow> string \<Rightarrow> string \<Rightarrow> 'k \<Rightarrow> (goerr + RedisClusterBackup) \<times> 'k" where
  "GetRedisClusterBackup client namespace name k = c_Get (backups client) namespace name k"

definition GetDistributedRedisCluster :: "'k kube_client \<Rightarrow> string \<Rightarrow> string \<Rightarrow> 'k \<Rightarrow> (goerr + drc) \<times> 'k" where
  "GetDistributedRedisCluster client namespace name k = c_Get (clusters client) namespace name k"

section \<open>util.go\<close>

definition CreateSecret :: "'k kube_client \<Rightarrow> Secret \<Rightarrow> 'k \<Rightarrow> goerr option \<times> 'k" where
  "CreateSecret client secret k =
     (case c_Get (secrets client) (secret_Namespace secret) (secret_Name secret) k of
        (Inl err, k) \<Rightarrow> if IsNotFound err then only_err (c_Create (secrets client) secret k) else (Some err, k)
      | (Inr s, k) \<Rightarrow> (None, k))"

section \<open>What the API server promises\<close>

text \<open>
  \<open>objs\<close> reads off the objects of one type by namespace and name, \<open>rest\<close> everything else of the server. A
  stored object agrees with the one that was sent (\<open>agrees\<close>): the server fills in what was left open.
\<close>

locale api_server =
  fixes cl :: "('a, 'k) typed_client" and objs :: "'k \<Rightarrow> string \<times> string \<Rightarrow> 'a option"
    and key :: "'a \<Rightarrow> string \<times> string" and agrees :: "'a \<Rightarrow> 'a \<Rightarrow> bool" and rest :: "'k \<Rightarrow> 'r"
  assumes get_ok: "c_Get cl ns n k = (Inr x, k') \<Longrightarrow> objs k (ns, n) = Some x"
    and get_missing: "c_Get cl ns n k = (Inl e, k') \<Longrightarrow> IsNotFound e \<Longrightarrow> objs k (ns, n) = None"
    and get_frame: "c_Get cl ns n k = (r, k') \<Longrightarrow> objs k' = objs k \<and> rest k' = rest k"
    and create_ok: "c_Create cl x k = (Inr x', k') \<Longrightarrow>
      objs k' = (objs k)(key x \<mapsto> x') \<and> agrees x x' \<and> rest k' = rest k"
    and create_err: "c_Create cl x k = (Inl e, k') \<Longrightarrow> objs k' = objs k \<and> rest k' = rest k"
    and update_ok: "c_Update cl x k = (Inr x', k') \<Longrightarrow>
      objs k' = (objs k)(key x \<mapsto> x') \<and> agrees x x' \<and> rest k' = rest k"
    and update_err: "c_Update cl x k = (Inl e, k') \<Longrightarrow> objs k' = objs k \<and> rest k' = rest k"
begin

lemma only_err_create:
  "only_err (c_Create cl x k) = (None, k') \<Longrightarrow> \<exists>x'. objs k' = (objs k)(key x \<mapsto> x') \<and> agrees x x' \<and> rest k' = rest k"
  by (auto simp: only_err_def split: prod.splits sum.splits dest: create_ok)

lemma only_err_create_err:
  "only_err (c_Create cl x k) = (Some e, k') \<Longrightarrow> objs k' = objs k \<and> rest k' = rest k"
  by (auto simp: only_err_def split: prod.splits sum.splits dest: create_err)

lemma only_err_update:
  "only_err (c_Update cl x k) = (None, k') \<Longrightarrow> \<exists>x'. objs k' = (objs k)(key x \<mapsto> x') \<and> agrees x x' \<and> rest k' = rest k"
  by (auto simp: only_err_def split: prod.splits sum.splits dest: update_ok)

lemma only_err_update_err:
  "only_err (c_Update cl x k) = (Some e, k') \<Longrightarrow> objs k' = objs k \<and> rest k' = rest k"
  by (auto simp: only_err_def split: prod.splits sum.splits dest: update_err)

text \<open>Creating an object only when it is missing: the object is there afterwards and nothing else changed.\<close>

lemma get_or_create:
  assumes "c_Get cl (fst (key x)) (snd (key x)) k = (r, k1)"
    and "(case r of Inl e \<Rightarrow> if IsNotFound e then only_err (c_Create cl x k1) else (Some e, k1) | Inr y \<Rightarrow> (None, k1)) = (err, k')"
  shows "rest k' = rest k \<and> (\<forall>q. q \<noteq> key x \<longrightarrow> objs k' q = objs k q)
    \<and> (err = None \<longrightarrow> (objs k (key x) \<noteq> None \<and> objs k' = objs k)
        \<or> (objs k (key x) = None \<and> (\<exists>x'. objs k' (key x) = Some x' \<and> agrees x x')))"
proof -
  have f: "objs k1 = objs k" "rest k1 = rest k" using get_frame [OF assms(1)] by auto
  show ?thesis
  proof (cases r)
    case (Inl e)
    show ?thesis
    proof (cases "IsNotFound e")
      case True
      then have c: "only_err (c_Create cl x k1) = (err, k')" and "objs k (key x) = None"
        using assms Inl get_missing [of "fst (key x)" "snd (key x)" k e k1] by auto
      then show ?thesis
        using only_err_create [of x k1 k'] only_err_create_err [of x k1 _ k'] f by (cases err) auto
    next
      case False
      then show ?thesis using assms Inl f by auto
    qed
  next
    case (Inr y)
    then show ?thesis using assms f get_ok [of "fst (key x)" "snd (key x)" k y k1] by auto
  qed
qed

end

text \<open>A server that keeps the objects in a list and accepts every well-formed request.\<close>


definition mem_client :: "('a \<Rightarrow> string \<times> string) \<Rightarrow> (labels \<Rightarrow> 'a \<Rightarrow> bool) \<Rightarrow> ('k \<Rightarrow> 'a list) \<Rightarrow> ('a list \<Rightarrow> 'k \<Rightarrow> 'k)
    \<Rightarrow> ('a, 'k) typed_client" where
  "mem_client key matches get put =
     (let missing = K8sError NotFound ''not found'';
          store = (\<lambda>x k. put (x # filter (\<lambda>y. key y \<noteq> key x) (get k)) k)
      in \<lparr>c_Get = (\<lambda>ns n k. (case List.find (\<lambda>y. key y = (ns, n)) (get k) of None \<Rightarrow> Inl missing | Some y \<Rightarrow> Inr y, k)),
          c_List = (\<lambda>ns ls k. (Inr (filter (\<lambda>y. fst (key y) = ns \<and> matches ls y) (get k)), k)),
          c_Create = (\<lambda>x k. if List.find (\<lambda>y. key y = key x) (get k) = None then (Inr x, store x k)
                            else (Inl (K8sError OtherReason ''already exists''), k)),
          c_Update = (\<lambda>x k. if List.find (\<lambda>y. key y = key x) (get k) = None then (Inl missing, k) else (Inr x, store x k)),
          c_StatusUpdate = (\<lambda>x k. if List.find (\<lambda>y. key y = key x) (get k) = None then (Inl missing, k) else (Inr x, store x k)),
          c_Delete = (\<lambda>x k. if List.find (\<lambda>y. key y = key x) (get k) = None then (Some missing, k)
                            else (None, put (filter (\<lambda>y. key y \<noteq> key x) (get k)) k))\<rparr>)"

definition mem_objs :: "('a \<Rightarrow> string \<times> string) \<Rightarrow> ('k \<Rightarrow> 'a list) \<Rightarrow> 'k \<Rightarrow> string \<times> string \<Rightarrow> 'a option" where
  "mem_objs key get k q = List.find (\<lambda>y. key y = q) (get k)"

lemma find_filter_key:
  "List.find (\<lambda>y. key y = q) (filter (\<lambda>y. key y \<noteq> p) xs) = (if q = p then None else List.find (\<lambda>y. key y = q) xs)"
  by (induction xs) auto

text \<open>Two fields of a state that can be set independently.\<close>

locale state_part =
  fixes get :: "'k \<Rightarrow> 'a list" and put :: "'a list \<Rightarrow> 'k \<Rightarrow> 'k" and rest :: "'k \<Rightarrow> 'r"
  assumes get_put: "get (put xs k) = xs" and rest_put: "rest (put xs k) = rest k"
begin

lemma store_objs:
  "mem_objs key get (put (x # filter (\<lambda>y. key y \<noteq> key x) (get k)) k) = (mem_objs key get k)(key x \<mapsto> x)"
  by (rule ext) (auto simp: mem_objs_def get_put find_filter_key)

lemma mem_api_server:
  assumes "\<And>x. agrees x x"
  shows "api_server (mem_client key matches get put) (mem_objs key get) key agrees rest"
  by unfold_locales
    (use assms in \<open>auto simp: mem_client_def Let_def store_objs rest_put split: option.splits if_splits\<close>, auto simp: mem_objs_def)

end

text \<open>The whole server: a list for each type.\<close>

record mem_kube =
  m_statefulsets :: "StatefulSet list"
  m_pods :: "Pod list"
  m_services :: "Service list"
  m_configmaps :: "ConfigMap list"
  m_pdbs :: "PodDisruptionBudget list"
  m_pvcs :: "PersistentVolumeClaim list"
  m_secrets :: "Secret list"
  m_jobs :: "Job list"
  m_clusters :: "drc list"
  m_backups :: "RedisClusterBackup list"

definition has_labels :: "labels \<Rightarrow> labels \<Rightarrow> bool" where
  "has_labels wanted m \<longleftrightarrow> list_all (\<lambda>(k, v). map_of m k = Some v) wanted"

abbreviation sts_key :: "StatefulSet \<Rightarrow> string \<times> string" where "sts_key x \<equiv> (sts_Namespace x, sts_Name x)"
abbreviation pod_key :: "Pod \<Rightarrow> string \<times> string" where "pod_key x \<equiv> (pod_Namespace x, pod_Name x)"
abbreviation svc_key :: "Service \<Rightarrow> string \<times> string" where "svc_key x \<equiv> (svc_Namespace x, svc_Name x)"
abbreviation cm_key :: "ConfigMap \<Rightarrow> string \<times> string" where "cm_key x \<equiv> (cm_Namespace x, cm_Name x)"
abbreviation pdb_key :: "PodDisruptionBudget \<Rightarrow> string \<times> string" where "pdb_key x \<equiv> (pdb_Namespace x, pdb_Name x)"
abbreviation pvc_key :: "PersistentVolumeClaim \<Rightarrow> string \<times> string" where "pvc_key x \<equiv> (pvc_Namespace x, pvc_Name x)"
abbreviation secret_key :: "Secret \<Rightarrow> string \<times> string" where "secret_key x \<equiv> (secret_Namespace x, secret_Name x)"
abbreviation job_key :: "Job \<Rightarrow> string \<times> string" where "job_key x \<equiv> (job_Namespace x, job_Name x)"
abbreviation drc_key :: "drc \<Rightarrow> string \<times> string" where "drc_key x \<equiv> (drc_Namespace x, drc_Name x)"
abbreviation bk_key :: "RedisClusterBackup \<Rightarrow> string \<times> string" where "bk_key x \<equiv> (bk_Namespace x, bk_Name x)"

definition labels_of :: "labels option \<Rightarrow> labels" where
  "labels_of m = (case m of None \<Rightarrow> [] | Some l \<Rightarrow> l)"

text \<open>Pods carry the labels of their StatefulSet; here every pod matches every selector.\<close>

definition mem_kube_client :: "mem_kube kube_client" where
  "mem_kube_client = \<lparr>
     statefulsets = mem_client sts_key (\<lambda>ls x. has_labels ls (sts_Labels x)) m_statefulsets (\<lambda>xs k. k\<lparr>m_statefulsets := xs\<rparr>),
     pods = mem_client pod_key (\<lambda>ls x. True) m_pods (\<lambda>xs k. k\<lparr>m_pods := xs\<rparr>),
     services = mem_client svc_key (\<lambda>ls x. has_labels ls (svc_Labels x)) m_services (\<lambda>xs k. k\<lparr>m_services := xs\<rparr>),
     configmaps = mem_client cm_key (\<lambda>ls x. has_labels ls (cm_Labels x)) m_configmaps (\<lambda>xs k. k\<lparr>m_configmaps := xs\<rparr>),
     pdbs = mem_client pdb_key (\<lambda>ls x. has_labels ls (pdb_Labels x)) m_pdbs (\<lambda>xs k. k\<lparr>m_pdbs := xs\<rparr>),
     pvcs = mem_client pvc_key (\<lambda>ls x. has_labels ls (labels_of (pvc_Labels x))) m_pvcs (\<lambda>xs k. k\<lparr>m_pvcs := xs\<rparr>),
     secrets = mem_client secret_key (\<lambda>ls x. ls = []) m_secrets (\<lambda>xs k. k\<lparr>m_secrets := xs\<rparr>),
     jobs = mem_client job_key (\<lambda>ls x. has_labels ls (job_Labels x)) m_jobs (\<lambda>xs k. k\<lparr>m_jobs := xs\<rparr>),
     clusters = mem_client drc_key (\<lambda>ls x. has_labels ls (labels_of (drc_Labels x))) m_clusters (\<lambda>xs k. k\<lparr>m_clusters := xs\<rparr>),
     backups = mem_client bk_key (\<lambda>ls x. has_labels ls (labels_of (bk_Labels x))) m_backups (\<lambda>xs k. k\<lparr>m_backups := xs\<rparr>)\<rparr>"

definition empty_kube :: mem_kube where
  "empty_kube = \<lparr>m_statefulsets = [], m_pods = [], m_services = [], m_configmaps = [], m_pdbs = [], m_pvcs = [],
     m_secrets = [], m_jobs = [], m_clusters = [], m_backups = []\<rparr>"

interpretation sts_part: state_part m_statefulsets "\<lambda>xs k. k\<lparr>m_statefulsets := xs\<rparr>" "mem_objs pdb_key m_pdbs"
  by unfold_locales (simp_all add: mem_objs_def fun_eq_iff)

interpretation pdb_part: state_part m_pdbs "\<lambda>xs k. k\<lparr>m_pdbs := xs\<rparr>" "mem_objs sts_key m_statefulsets"
  by unfold_locales (simp_all add: mem_objs_def fun_eq_iff)

end
