(* ===== verification/Ensurer.thy ===== *)
theory Ensurer
  imports PlacementV2 StatefulSets K8sUtil
begin

text \<open>
  \<open>pkg/osm/rclone.go\<close>, which writes the configuration of rclone into a secret, and \<open>pkg/controller/manager/ensurer.go\<close>,
  which brings the Kubernetes objects of a cluster in line with its spec. The label map the functions are
  given is changed in place, so it is part of the state they return.
\<close>

section \<open>rclone.go\<close>

definition cephContext :: "build_env \<Rightarrow> (string, string) gomap \<Rightarrow> string \<Rightarrow> ObjectStore \<Rightarrow> string" where
  "cephContext bld config provider s3 = join_with [newline_char] [
     ''['' @ provider @ '']'', ''type = s3'', ''provider = Ceph'', ''env_auth = false'',
     ''access_key_id = '' @ mget [] config (AWS_ACCESS_KEY_ID bld),
     ''secret_access_key = '' @ mget [] config (AWS_SECRET_ACCESS_KEY bld),
     ''region ='', ''endpoint = '' @ store_Endpoint s3, ''location_constraint ='', ''acl ='', ''server_side_encryption ='',
     ''storage_class ='', []]"

definition localContext :: "string \<Rightarrow> string" where
  "localContext provider = join_with [newline_char] [''['' @ provider @ '']'', ''type = local'', []]"

definition rclone_context :: "build_env \<Rightarrow> (string, string) gomap \<Rightarrow> Backend \<Rightarrow> goerr + string" where
  "rclone_context bld config spec =
     (case Provider bld spec of
        Inl err \<Rightarrow> Inl err
      | Inr provider \<Rightarrow>
          (case S3 spec of
             Some s3 \<Rightarrow> Inr (cephContext bld config provider s3)
           | None \<Rightarrow> (case Local spec of
               Some l \<Rightarrow> Inr (localContext provider)
             | None \<Rightarrow> Inl (Errorf ''no storage provider is configured''))))"

definition newContext :: "'k kube_client \<Rightarrow> build_env \<Rightarrow> Backend \<Rightarrow> string \<Rightarrow> 'k \<Rightarrow> (goerr + string) \<times> 'k" where
  "newContext kc bld spec namespace k =
     (if StorageSecretName spec \<noteq> [] then
        (case c_Get (secrets kc) namespace (StorageSecretName spec) k of
           (Inl err, k) \<Rightarrow> (Inl err, k)
         | (Inr secret, k) \<Rightarrow> (rclone_context bld (secret_Data secret) spec, k))
      else (rclone_context bld [] spec, k))"

definition NewRcloneSecret :: "'k kube_client \<Rightarrow> build_env \<Rightarrow> string \<Rightarrow> string \<Rightarrow> Backend \<Rightarrow> OwnerReference list \<Rightarrow> 'k
    \<Rightarrow> (goerr + Secret) \<times> 'k" where
  "NewRcloneSecret kc bld name namespace spec ownerReference k =
     (case newContext kc bld spec namespace k of
        (Inl err, k) \<Rightarrow> (Inl err, k)
      | (Inr rcloneCtx, k) \<Rightarrow> (Inr \<lparr>secret_Name = name, secret_Namespace = namespace,
          secret_OwnerReferences = ownerReference, secret_Data = [(''config'', rcloneCtx)]\<rparr>, k))"

section \<open>What has to be updated\<close>

definition monitorChanged :: "drc \<Rightarrow> StatefulSet \<Rightarrow> bool" where
  "monitorChanged cluster sts =
     (if sp_Monitor (drc_Spec cluster) \<noteq> None
      then \<not> list_ex (\<lambda>container. cont_Name container = ExporterContainerName) (sts_Containers sts)
      else list_ex (\<lambda>container. cont_Name container = ExporterContainerName) (sts_Containers sts))"

definition resources_changed :: "ResourceRequirements \<Rightarrow> ResourceRequirements \<Rightarrow> bool" where
  "resources_changed expect current =
     (if quantity_Cmp (resource_of ''memory'' (Requests expect)) (resource_of ''memory'' (Requests current)) \<noteq> 0 then True
      else if quantity_Cmp (resource_of ''cpu'' (Requests expect)) (resource_of ''cpu'' (Requests current)) \<noteq> 0 then True
      else if quantity_Cmp (resource_of ''memory'' (Limits expect)) (resource_of ''memory'' (Limits current)) \<noteq> 0 then True
      else if quantity_Cmp (resource_of ''cpu'' (Limits expect)) (resource_of ''cpu'' (Limits current)) \<noteq> 0 then True
      else False)"

definition shouldUpdateRedis :: "drc \<Rightarrow> StatefulSet \<Rightarrow> bool outcome" where
  "shouldUpdateRedis cluster sts =
     (if i32 (sp_ClusterReplicas (drc_Spec cluster) + 1) \<noteq> sts_Replicas sts then Ret True
      else outcome_bind (go_index (sts_Containers sts) 0) (\<lambda>c.
        if sp_Image (drc_Spec cluster) \<noteq> cont_Image c then Ret True
        else outcome_bind (IsPasswordChanged cluster sts) (\<lambda>changed.
          if changed then Ret True
          else case sp_Resources (drc_Spec cluster) of
            None \<Rightarrow> Panic NilDereference
          | Some expectResource \<Rightarrow>
              if resources_changed expectResource (cont_Resources c) then Ret True
              else Ret (monitorChanged cluster sts))))"

section \<open>Ensuring the objects\<close>

definition ensureRedisPDB :: "'k kube_client \<Rightarrow> drc \<Rightarrow> string \<Rightarrow> labels \<Rightarrow> 'k \<Rightarrow> goerr option \<times> 'k" where
  "ensureRedisPDB client cluster name labels k =
     (case GetPodDisruptionBudget client (drc_Namespace cluster) name k of
        (Inl err, k) \<Rightarrow>
          if IsNotFound err
          then CreatePodDisruptionBudget client (NewPodDisruptionBudgetForCR cluster name labels) k
          else (Some err, k)
      | (Inr _, k) \<Rightarrow> (None, k))"

definition ensureRedisStatefulset :: "'k kube_client \<Rightarrow> build_env \<Rightarrow> Redis \<Rightarrow> go_env \<Rightarrow> drc \<Rightarrow> string \<Rightarrow> string \<Rightarrow> labels \<Rightarrow> 'k
    \<Rightarrow> ((bool \<times> goerr option) \<times> 'k) outcome" where
  "ensureRedisStatefulset client bld conf env cluster ssName svcName labels k =
     (case ensureRedisPDB client cluster ssName labels k of
        (Some err, k) \<Rightarrow> Ret ((False, Some err), k)
      | (None, k) \<Rightarrow>
          (case GetStatefulSet client (drc_Namespace cluster) ssName k of
             (Inr ss, k) \<Rightarrow>
               outcome_bind (shouldUpdateRedis cluster ss) (\<lambda>b.
                 if b then
                   outcome_bind (NewStatefulSetForCR bld conf env cluster ssName svcName labels) (\<lambda>r. case r of
                     Inl err \<Rightarrow> Ret ((False, Some err), k)
                   | Inr newSS \<Rightarrow> let (err, k) = UpdateStatefulSet client newSS k in Ret ((True, err), k))
                 else Ret ((False, None), k))
           | (Inl err, k) \<Rightarrow>
               if IsNotFound err then
                 outcome_bind (NewStatefulSetForCR bld conf env cluster ssName svcName labels) (\<lambda>r. case r of
                   Inl err \<Rightarrow> Ret ((False, Some err), k)
                 | Inr newSS \<Rightarrow> let (err, k) = CreateStatefulSet client newSS k in Ret ((False, err), k))
               else Ret ((False, Some err), k)))"

fun ensure_statefulsets_loop :: "'k kube_client \<Rightarrow> build_env \<Rightarrow> Redis \<Rightarrow> go_env \<Rightarrow> drc \<Rightarrow> bool \<Rightarrow> nat list \<Rightarrow> labels \<Rightarrow> 'k
    \<Rightarrow> ((bool \<times> goerr option) \<times> labels \<times> 'k) outcome" where
  "ensure_statefulsets_loop client bld conf env cluster updated [] labels k = Ret ((updated, None), labels, k)"
| "ensure_statefulsets_loop client bld conf env cluster updated (i # js) labels k =
     (let name = ClusterStatefulSetName (drc_Name cluster) i;
          svcName = ClusterHeadlessSvcName (sp_ServiceName (drc_Spec cluster)) i;
          labels = mput StatefulSetLabel name labels
      in outcome_bind (ensureRedisStatefulset client bld conf env cluster name svcName labels k) (\<lambda>r. case r of
           ((stsUpdated, Some err), k) \<Rightarrow> Ret ((False, Some err), labels, k)
         | ((stsUpdated, None), k) \<Rightarrow>
             ensure_statefulsets_loop client bld conf env cluster (if stsUpdated then stsUpdated else updated) js labels k))"

abbreviation shards :: "drc \<Rightarrow> nat list" where
  "shards cluster \<equiv> [0..<nat (sp_MasterSize (drc_Spec cluster))]"

definition EnsureRedisStatefulsets :: "'k kube_client \<Rightarrow> build_env \<Rightarrow> Redis \<Rightarrow> go_env \<Rightarrow> drc \<Rightarrow> labels \<Rightarrow> 'k
    \<Rightarrow> ((bool \<times> goerr option) \<times> labels \<times> 'k) outcome" where
  "EnsureRedisStatefulsets client bld conf env cluster labels k =
     ensure_statefulsets_loop client bld conf env cluster False (shards cluster) labels k"

definition ensureRedisHeadLessSvc :: "'k kube_client \<Rightarrow> drc \<Rightarrow> string \<Rightarrow> labels \<Rightarrow> 'k \<Rightarrow> goerr option \<times> 'k" where
  "ensureRedisHeadLessSvc client cluster name labels k =
     (case GetService client (drc_Namespace cluster) name k of
        (Inl err, k) \<Rightarrow>
          if IsNotFound err then CreateService client (NewHeadLessSvcForCR cluster name labels) k else (Some err, k)
      | (Inr _, k) \<Rightarrow> (None, k))"

fun ensure_headless_loop :: "'k kube_client \<Rightarrow> drc \<Rightarrow> nat list \<Rightarrow> labels \<Rightarrow> 'k \<Rightarrow> goerr option \<times> labels \<times> 'k" where
  "ensure_headless_loop client cluster [] labels k = (None, labels, k)"
| "ensure_headless_loop client cluster (i # js) labels k =
     (let svcName = ClusterHeadlessSvcName (sp_ServiceName (drc_Spec cluster)) i;
          name = ClusterStatefulSetName (drc_Name cluster) i;
          labels = mput StatefulSetLabel name labels
      in case ensureRedisHeadLessSvc client cluster svcName labels k of
           (Some err, k) \<Rightarrow> (Some err, labels, k)
         | (None, k) \<Rightarrow> ensure_headless_loop client cluster js labels k)"

definition EnsureRedisHeadLessSvcs :: "'k kube_client \<Rightarrow> drc \<Rightarrow> labels \<Rightarrow> 'k \<Rightarrow> goerr option \<times> labels \<times> 'k" where
  "EnsureRedisHeadLessSvcs client cluster labels k = ensure_headless_loop client cluster (shards cluster) labels k"

definition EnsureRedisSvc :: "'k kube_client \<Rightarrow> drc \<Rightarrow> labels \<Rightarrow> 'k \<Rightarrow> (goerr option \<times> labels \<times> 'k) outcome" where
  "EnsureRedisSvc client cluster labels k =
     (let name = sp_ServiceName (drc_Spec cluster); labels = mdel StatefulSetLabel labels in
      case GetService client (drc_Namespace cluster) name k of
        (Inl err, k) \<Rightarrow>
          if IsNotFound err then outcome_bind (NewSvcForCR cluster name labels) (\<lambda>svc.
            let (err, k) = CreateService client svc k in Ret (err, labels, k))
          else Ret (Some err, labels, k)
      | (Inr _, k) \<Rightarrow> Ret (None, labels, k))"

definition conf_of :: "drc \<Rightarrow> (string, string) gomap" where
  "conf_of cluster = (case sp_Config (drc_Spec cluster) of None \<Rightarrow> [] | Some m \<Rightarrow> m)"

definition ensure_conf_map :: "'k kube_client \<Rightarrow> go_env \<Rightarrow> drc \<Rightarrow> labels \<Rightarrow> 'k \<Rightarrow> goerr option \<times> 'k" where
  "ensure_conf_map client env cluster labels k =
     (case GetConfigMap client (drc_Namespace cluster) (RedisConfigMapName (drc_Name cluster)) k of
        (Inl err, k) \<Rightarrow>
          if IsNotFound err then CreateConfigMap client (NewConfigMapForCR env cluster labels) k else (Some err, k)
      | (Inr drcCm, k) \<Rightarrow>
          if isRedisConfChanged (mget [] (cm_Data drcCm) RedisConfKey) (conf_of cluster)
          then UpdateConfigMap client (NewConfigMapForCR env cluster labels) k else (None, k))"

definition ensure_restore_map :: "'k kube_client \<Rightarrow> drc \<Rightarrow> labels \<Rightarrow> 'k \<Rightarrow> goerr option \<times> 'k" where
  "ensure_restore_map client cluster labels k =
     (case GetConfigMap client (drc_Namespace cluster) (RestoreConfigMapName (drc_Name cluster)) k of
        (Inl err, k) \<Rightarrow>
          if IsNotFound err then CreateConfigMap client (NewConfigMapForRestore cluster labels) k else (Some err, k)
      | (Inr restoreCm, k) \<Rightarrow>
          if restore_phase cluster = RestorePhaseRestart \<and> mget [] (cm_Data restoreCm) RestoreSucceeded = ''0''
          then UpdateConfigMap client (NewConfigMapForRestore cluster labels) k else (None, k))"

definition EnsureRedisConfigMap :: "'k kube_client \<Rightarrow> go_env \<Rightarrow> drc \<Rightarrow> labels \<Rightarrow> 'k \<Rightarrow> goerr option \<times> 'k" where
  "EnsureRedisConfigMap client env cluster labels k =
     (case ensure_conf_map client env cluster labels k of
        (Some err, k) \<Rightarrow> (Some err, k)
      | (None, k) \<Rightarrow> if IsRestoreFromBackup cluster then ensure_restore_map client cluster labels k else (None, k))"

definition EnsureRedisRCloneSecret :: "'k kube_client \<Rightarrow> build_env \<Rightarrow> drc \<Rightarrow> 'k \<Rightarrow> (goerr option \<times> 'k) outcome" where
  "EnsureRedisRCloneSecret client bld cluster k =
     (if \<not> IsRestoreFromBackup cluster \<or> IsRestored cluster then Ret (None, k)
      else case restore_Backup (st_Restore (drc_Status cluster)) of
        None \<Rightarrow> Panic NilDereference
      | Some backup \<Rightarrow>
          Ret (case NewRcloneSecret client bld (RCloneSecretName backup) (drc_Namespace cluster) (bs_Backend (bk_Spec backup))
                      (DefaultOwnerReferences cluster) k of
                 (Inl err, k) \<Rightarrow> (Some err, k)
               | (Inr secret, k) \<Rightarrow> CreateSecret client secret k))"

definition updateRedisStatefulset :: "'k kube_client \<Rightarrow> build_env \<Rightarrow> Redis \<Rightarrow> go_env \<Rightarrow> drc \<Rightarrow> string \<Rightarrow> string \<Rightarrow> labels \<Rightarrow> 'k
    \<Rightarrow> (goerr option \<times> 'k) outcome" where
  "updateRedisStatefulset client bld conf env cluster ssName svcName labels k =
     outcome_bind (NewStatefulSetForCR bld conf env cluster ssName svcName labels) (\<lambda>r. case r of
       Inl err \<Rightarrow> Ret (Some err, k)
     | Inr newSS \<Rightarrow> Ret (UpdateStatefulSet client newSS k))"

fun update_statefulsets_loop :: "'k kube_client \<Rightarrow> build_env \<Rightarrow> Redis \<Rightarrow> go_env \<Rightarrow> drc \<Rightarrow> nat list \<Rightarrow> labels \<Rightarrow> 'k
    \<Rightarrow> (goerr option \<times> labels \<times> 'k) outcome" where
  "update_statefulsets_loop client bld conf env cluster [] labels k = Ret (None, labels, k)"
| "update_statefulsets_loop client bld conf env cluster (i # js) labels k =
     (let name = ClusterStatefulSetName (drc_Name cluster) i;
          svcName = ClusterHeadlessSvcName (sp_ServiceName (drc_Spec cluster)) i;
          labels = mput StatefulSetLabel name labels
      in outcome_bind (updateRedisStatefulset client bld conf env cluster name svcName labels k) (\<lambda>r. case r of
           (Some err, k) \<Rightarrow> Ret (Some err, labels, k)
         | (None, k) \<Rightarrow> update_statefulsets_loop client bld conf env cluster js labels k))"

definition UpdateRedisStatefulsets :: "'k kube_client \<Rightarrow> build_env \<Rightarrow> Redis \<Rightarrow> go_env \<Rightarrow> drc \<Rightarrow> labels \<Rightarrow> 'k
    \<Rightarrow> (goerr option \<times> labels \<times> 'k) outcome" where
  "UpdateRedisStatefulsets client bld conf env cluster labels k =
     update_statefulsets_loop client bld conf env cluster (shards cluster) labels k"

section \<open>A StatefulSet built from the spec needs no update\<close>

definition named_secret :: "drc \<Rightarrow> bool" where
  "named_secret cluster \<longleftrightarrow> sp_PasswordSecret (drc_Spec cluster) \<noteq> Some []"

lemma sts_accessors [simp]:
  "sts_Containers (base_statefulset c n s l x) = [x]"
  "sts_Replicas (base_statefulset c n s l x) = i32 (sp_ClusterReplicas (drc_Spec c) + 1)"
  "sts_Namespace (base_statefulset c n s l x) = drc_Namespace c" "sts_Name (base_statefulset c n s l x) = n"
  "sts_Containers (add_container y ss) = sts_Containers ss @ [y]"
  "sts_Replicas (add_container y ss) = sts_Replicas ss" 
  "sts_Namespace (add_container y ss) = sts_Namespace ss" "sts_Name (add_container y ss) = sts_Name ss"
  "sts_Containers (add_init_container y ss) = sts_Containers ss"
  "sts_Replicas (add_init_container y ss) = sts_Replicas ss" "sts_Namespace (add_init_container y ss) = sts_Namespace ss"
  "sts_Name (add_init_container y ss) = sts_Name ss"
  by (simp_all add: base_statefulset_def add_container_def add_init_container_def Let_def)

definition exporters :: "drc \<Rightarrow> Container list outcome" where
  "exporters c = (if sp_Monitor (drc_Spec c) \<noteq> None
     then outcome_bind (redisExporterContainer c (redisPassword c)) (\<lambda>e. Ret [e]) else Ret [])"

lemma with_exporter_Ret:
  assumes "with_exporter c (redisPassword c) ss = Ret ss'"
  obtains es where "exporters c = Ret es" "sts_Containers ss' = sts_Containers ss @ es" "sts_Replicas ss' = sts_Replicas ss"
    "sts_key ss' = sts_key ss"
  using assms by (auto simp: with_exporter_def exporters_def split: if_splits)

lemma with_restore_Ret:
  assumes "with_restore bld c pw ss = Ret (Inr ss')"
  shows "sts_Containers ss' = sts_Containers ss \<and> sts_Replicas ss' = sts_Replicas ss \<and> sts_key ss' = sts_key ss"
proof -
  have "ss' = ss \<or> (\<exists>x. ss' = add_init_container x ss)"
    using assms by (cases "redisInitContainer bld c pw") (auto simp: with_restore_def split: if_splits sum.splits)
  then show ?thesis by auto
qed

lemma NewStatefulSet_shape:
  assumes "NewStatefulSetForCR bld conf env c ssName svcName labels = Ret (Inr ss)"
  obtains server es where "redisServerContainer bld conf env c (redisPassword c) = Ret server" "exporters c = Ret es"
    "sts_Containers ss = server # es" "sts_Replicas ss = i32 (sp_ClusterReplicas (drc_Spec c) + 1)"
    "sts_key ss = (drc_Namespace c, ssName)"
proof -
  obtain server ss1 where 1: "redisServerContainer bld conf env c (redisPassword c) = Ret server"
    and 2: "with_exporter c (redisPassword c) (base_statefulset c ssName svcName labels server) = Ret ss1"
    and 3: "with_restore bld c (redisPassword c) ss1 = Ret (Inr ss)"
    using assms by (auto simp: NewStatefulSetForCR_def Let_def)
  obtain es where "exporters c = Ret es" "sts_Containers ss1 = server # es"
      "sts_Replicas ss1 = i32 (sp_ClusterReplicas (drc_Spec c) + 1)" "sts_key ss1 = (drc_Namespace c, ssName)"
    by (rule with_exporter_Ret [OF 2]) simp
  with 1 with_restore_Ret [OF 3] show thesis by (intro that) simp_all
qed

lemma getSecretKeyRef_password:
  "redisPassword c = Some p \<Longrightarrow> getSecretKeyRefByKey PasswordENV (\<lparr>env_Name = ''POD_IP'', env_From = f\<rparr> # p # vs)
     = the (sp_PasswordSecret (drc_Spec c))"
  by (auto simp: redisPassword_def PasswordENV_def split: option.splits)

lemma resources_unchanged [simp]: "\<not> resources_changed r r"
  by (simp add: resources_changed_def)

lemma exporters_monitor:
  assumes "exporters c = Ret es" and "cont_Name server = redisServerName" and "sts_Containers ss = server # es"
  shows "\<not> monitorChanged c ss"
  using assms
  by (auto simp: exporters_def monitorChanged_def redisExporterContainer_def add_env_def redisServerName_def ExporterContainerName_def
      split: if_splits option.splits)

lemma redisServerContainer_fields:
  assumes "redisServerContainer bld conf env c pw = Ret server"
  shows "cont_Name server = redisServerName \<and> cont_Image server = sp_Image (drc_Spec c)
    \<and> sp_Resources (drc_Spec c) = Some (cont_Resources server)
    \<and> cont_Env server = [\<lparr>env_Name = ''POD_IP'', env_From = EnvFieldRef ''status.podIP''\<rparr>]
        @ (case pw of None \<Rightarrow> [] | Some p \<Rightarrow> [p]) @ sp_Env (drc_Spec c)"
  using assms by (auto simp: redisServerContainer_def add_env_def customContainerEnv_def split: option.splits)

lemma password_unchanged:
  assumes "redisServerContainer bld conf env c (redisPassword c) = Ret server" and "sts_Containers ss = server # es" and "named_secret c"
  shows "IsPasswordChanged c ss = Ret False"
proof (cases "sp_PasswordSecret (drc_Spec c)")
  case (Some s)
  then obtain p where p: "redisPassword c = Some p" by (simp add: redisPassword_def)
  have "getSecretKeyRefByKey PasswordENV (cont_Env server) = s"
    using redisServerContainer_fields [OF assms(1)] getSecretKeyRef_password [OF p] by (simp add: p Some)
  then show ?thesis using assms(2,3) Some by (simp add: IsPasswordChanged_def go_index_def named_secret_def)
qed (simp add: IsPasswordChanged_def)

lemma NewStatefulSet_settled:
  assumes "NewStatefulSetForCR bld conf env c ssName svcName labels = Ret (Inr ss)" and "named_secret c"
  shows "shouldUpdateRedis c ss = Ret False"
proof -
  obtain server es where s: "redisServerContainer bld conf env c (redisPassword c) = Ret server" "exporters c = Ret es"
    "sts_Containers ss = server # es" "sts_Replicas ss = i32 (sp_ClusterReplicas (drc_Spec c) + 1)"
    using NewStatefulSet_shape [OF assms(1)] by metis
  then show ?thesis
    using redisServerContainer_fields [OF s(1)] password_unchanged [OF s(1,3) assms(2)] exporters_monitor [OF s(2) _ s(3)]
    by (auto simp: shouldUpdateRedis_def go_index_def)
qed

text \<open>When the constructor can panic: never on a spec with defaults, unless the backup to restore from has no start time.\<close>

lemma NewStatefulSet_no_panic:
  assumes "good_spec (drc_Spec c)"
    and "\<And>b. restore_Backup (st_Restore (drc_Status c)) = Some b \<Longrightarrow> bst_StartTime (bk_Status b) \<noteq> None"
  shows "\<exists>r. NewStatefulSetForCR bld conf env c ssName svcName labels = Ret r"
proof -
  obtain res where "sp_Resources (drc_Spec c) = Some res"
    using assms(1) by (auto simp: good_spec_def no_resources_def split: option.splits)
  then obtain server where 1: "redisServerContainer bld conf env c (redisPassword c) = Ret server"
    by (simp add: redisServerContainer_def)
  have 2: "\<exists>e. redisExporterContainer c (redisPassword c) = Ret e" if "sp_Monitor (drc_Spec c) \<noteq> None"
    using assms(1) that by (auto simp: good_spec_def good_monitor_def redisExporterContainer_def split: option.splits)
  have 3: "\<exists>r. redisInitContainer bld c (redisPassword c) = Ret r" if "restore_Backup (st_Restore (drc_Status c)) \<noteq> None"
    using assms(2) that by (auto simp: redisInitContainer_def RemotePath_def Let_def split: option.splits sum.splits)
  have 4: "\<exists>ss'. with_exporter c (redisPassword c) ss = Ret ss'" for ss
    using 2 by (auto simp: with_exporter_def)
  have 5: "\<exists>r. with_restore bld c (redisPassword c) ss = Ret r" for ss
  proof (cases "IsRestoreFromBackup c \<and> IsRestoreRunning c \<and> restore_Backup (st_Restore (drc_Status c)) \<noteq> None")
    case True
    then obtain r where "redisInitContainer bld c (redisPassword c) = Ret r" using 3 by blast
    then show ?thesis using True by (cases r) (simp_all add: with_restore_def)
  qed (auto simp: with_restore_def)
  obtain ss' where "with_exporter c (redisPassword c) (base_statefulset c ssName svcName labels server) = Ret ss'"
    using 4 by blast
  then show ?thesis using 1 5 by (simp add: NewStatefulSetForCR_def)
qed

section \<open>The StatefulSets after a pass\<close>

declare split_paired_All [simp del] split_paired_Ex [simp del]

text \<open>When a StatefulSet matches the spec: the number of pods; the image, the password secret and the resources of the
  Redis container, which is the first one; and an exporter next to it exactly when a monitor is wanted.\<close>

definition env_secrets :: "string \<Rightarrow> EnvVar list \<Rightarrow> string list" where
  "env_secrets key es = concat (map (\<lambda>v. case env_From v of EnvSecretKeyRef name k \<Rightarrow> if env_Name v = key then [name] else [] | _ \<Rightarrow> []) es)"

definition same_quantities :: "ResourceRequirements \<Rightarrow> ResourceRequirements \<Rightarrow> bool" where
  "same_quantities a b \<longleftrightarrow> (\<forall>r \<in> {''cpu'', ''memory''}.
     q_milli (resource_of r (Requests a)) = q_milli (resource_of r (Requests b))
     \<and> q_milli (resource_of r (Limits a)) = q_milli (resource_of r (Limits b)))"

definition matches_spec :: "drc \<Rightarrow> StatefulSet \<Rightarrow> bool" where
  "matches_spec c ss \<longleftrightarrow> sts_Replicas ss = i32 (sp_ClusterReplicas (drc_Spec c) + 1)
     \<and> (\<exists>server others want. sts_Containers ss = server # others \<and> sp_Resources (drc_Spec c) = Some want
          \<and> cont_Image server = sp_Image (drc_Spec c)
          \<and> (\<forall>s. sp_PasswordSecret (drc_Spec c) = Some s \<longrightarrow>
               s \<noteq> [] \<and> (\<exists>rest. env_secrets ''REDIS_PASSWORD'' (cont_Env server) = s # rest))
          \<and> same_quantities want (cont_Resources server))
     \<and> (sp_Monitor (drc_Spec c) \<noteq> None \<longleftrightarrow> (\<exists>x \<in> set (sts_Containers ss). cont_Name x = ''exporter''))"

lemma getSecretKeyRef_first: "getSecretKeyRefByKey key es = (case env_secrets key es of [] \<Rightarrow> [] | s # ss \<Rightarrow> s)"
  by (induction es) (auto simp: env_secrets_def split: EnvVarSource.splits)

lemma resources_changed_iff: "resources_changed a b \<longleftrightarrow> \<not> same_quantities a b"
  by (auto simp: resources_changed_def same_quantities_def)

lemma password_matches:
  assumes "sts_Containers ss = server # others"
  shows "IsPasswordChanged c ss = Ret (\<not> (\<forall>s. sp_PasswordSecret (drc_Spec c) = Some s \<longrightarrow>
      s \<noteq> [] \<and> (\<exists>rest. env_secrets ''REDIS_PASSWORD'' (cont_Env server) = s # rest)))"
  using assms
  by (auto simp: IsPasswordChanged_def go_index_def getSecretKeyRef_first PasswordENV_def split: option.split list.split)

lemma shouldUpdateRedis_matches: "shouldUpdateRedis c ss = Ret b \<Longrightarrow> b \<longleftrightarrow> \<not> matches_spec c ss"
  by (cases "sts_Containers ss")
    (auto simp: shouldUpdateRedis_def matches_spec_def go_index_def password_matches resources_changed_iff monitorChanged_def list_ex_iff
      ExporterContainerName_def split: if_splits option.splits)

text \<open>The server may fill in fields that were left open, such as the pull policy of a container, and may write a quantity in
  another way. It keeps the number of replicas, the order of the containers, their names, images and environment, and
  the amounts of the resources.\<close>

definition container_agrees :: "Container \<Rightarrow> Container \<Rightarrow> bool" where
  "container_agrees x x' \<longleftrightarrow> cont_Name x' = cont_Name x \<and> cont_Image x' = cont_Image x \<and> cont_Env x' = cont_Env x
     \<and> same_quantities (cont_Resources x) (cont_Resources x')"

definition sts_agrees :: "StatefulSet \<Rightarrow> StatefulSet \<Rightarrow> bool" where
  "sts_agrees x x' \<longleftrightarrow> sts_Replicas x' = sts_Replicas x \<and> list_all2 container_agrees (sts_Containers x) (sts_Containers x')"

lemma sts_agrees_refl: "sts_agrees x x"
  by (simp add: sts_agrees_def container_agrees_def same_quantities_def list_all2_same)

lemma matches_agrees:
  assumes "sts_agrees x x'" and "matches_spec c x"
  shows "matches_spec c x'"
proof -
  have l: "list_all2 container_agrees (sts_Containers x) (sts_Containers x')" and r: "sts_Replicas x' = sts_Replicas x"
    using assms(1) by (simp_all add: sts_agrees_def)
  obtain server others want where x: "sts_Containers x = server # others" "sp_Resources (drc_Spec c) = Some want"
      "same_quantities want (cont_Resources server)" using assms(2) by (auto simp: matches_spec_def)
  obtain server' others' where x': "sts_Containers x' = server' # others'" "container_agrees server server'"
    using l x(1) by (auto simp: list_all2_Cons1)
  have "same_quantities want (cont_Resources server')"
    using x(3) x'(2) by (simp add: container_agrees_def same_quantities_def)
  moreover have "map cont_Name (sts_Containers x') = map cont_Name (sts_Containers x)"
    using l by (induction rule: list_all2_induct) (simp_all add: container_agrees_def)
  then have "cont_Name ` set (sts_Containers x') = cont_Name ` set (sts_Containers x)" by (metis set_map)
  then have "(\<exists>y \<in> set (sts_Containers x'). cont_Name y = n) \<longleftrightarrow> (\<exists>y \<in> set (sts_Containers x). cont_Name y = n)" for n
    by (metis (no_types, lifting) imageE imageI)
  ultimately show ?thesis using assms(2) x x' r unfolding matches_spec_def container_agrees_def by force
qed

definition sts_at :: "drc \<Rightarrow> nat \<Rightarrow> string \<times> string" where
  "sts_at c i = (drc_Namespace c, ClusterStatefulSetName (drc_Name c) i)"

lemma sts_at_inj [simp]: "sts_at c i = sts_at c j \<longleftrightarrow> i = j"
  by (simp add: sts_at_def)

text \<open>The abstract specification of a pass over some shards. A StatefulSet that matches the spec is left alone,
  one that does not is replaced, and a missing one created; other StatefulSets are not touched, and the
  result tells whether one was replaced.\<close>

definition settled :: "drc \<Rightarrow> StatefulSet option \<Rightarrow> bool" where
  "settled c s \<longleftrightarrow> (case s of None \<Rightarrow> False | Some ss \<Rightarrow> matches_spec c ss)"

definition outdated :: "drc \<Rightarrow> StatefulSet option \<Rightarrow> bool" where
  "outdated c s \<longleftrightarrow> s \<noteq> None \<and> \<not> settled c s"

definition ensure_spec :: "drc \<Rightarrow> nat set \<Rightarrow> (string \<times> string \<Rightarrow> StatefulSet option) \<Rightarrow> (string \<times> string \<Rightarrow> StatefulSet option)
    \<Rightarrow> bool \<Rightarrow> bool" where
  "ensure_spec c I S S' updated \<longleftrightarrow>
     (\<forall>q. q \<notin> sts_at c ` I \<longrightarrow> S' q = S q)
     \<and> (\<forall>i\<in>I. settled c (S' (sts_at c i)) \<and> (settled c (S (sts_at c i)) \<longrightarrow> S' (sts_at c i) = S (sts_at c i)))
     \<and> (updated \<longleftrightarrow> (\<exists>i\<in>I. outdated c (S (sts_at c i))))"

lemma ensure_spec_empty [simp]: "ensure_spec c {} S S' u \<longleftrightarrow> S' = S \<and> \<not> u"
  by (auto simp: ensure_spec_def)

lemma ensure_spec_insert:
  assumes "ensure_spec c {i} S S1 u1" and "ensure_spec c I S1 S' u2" and "i \<notin> I"
  shows "ensure_spec c (insert i I) S S' (u1 \<or> u2)"
proof -
  have S1: "S1 q = S q" if "q \<noteq> sts_at c i" for q using assms(1) that by (auto simp: ensure_spec_def)
  have "S1 (sts_at c j) = S (sts_at c j)" if "j \<in> I" for j
    by (rule S1) (use assms(3) that in auto)
  moreover have "sts_at c i \<notin> sts_at c ` I" using assms(3) by auto
  then have "S' (sts_at c i) = S1 (sts_at c i)" using assms(2) by (simp add: ensure_spec_def)
  ultimately show ?thesis using assms(1,2) S1 unfolding ensure_spec_def by auto
qed

text \<open>A pass over a settled cluster writes nothing.\<close>

lemma ensure_spec_settled:
  assumes "ensure_spec c I S S' u" and "\<And>i. i \<in> I \<Longrightarrow> settled c (S (sts_at c i))"
  shows "S' = S \<and> \<not> u"
proof
  show "S' = S"
  proof
    fix q show "S' q = S q" using assms by (cases "q \<in> sts_at c ` I") (auto simp: ensure_spec_def)
  qed
  show "\<not> u" using assms by (auto simp: ensure_spec_def outdated_def)
qed

lemma sts_sent:
  assumes "outcome_bind m (\<lambda>r. case r of Inl err \<Rightarrow> Ret ((False, Some err), k)
      | Inr n \<Rightarrow> case send n of (err, k) \<Rightarrow> Ret ((b, err), k)) = Ret ((u, None), k')"
  obtains n where "m = Ret (Inr n)" "send n = (None, k')" "u = b"
  using assms by (cases m) (auto simp: Let_def split: sum.splits prod.splits)

locale shard_api =
  fixes client :: "'k kube_client" and S_of :: "'k \<Rightarrow> string \<times> string \<Rightarrow> StatefulSet option"
    and P_of :: "'k \<Rightarrow> string \<times> string \<Rightarrow> PodDisruptionBudget option"
  assumes sts_server: "api_server (statefulsets client) S_of sts_key sts_agrees P_of"
    and pdb_server: "api_server (pdbs client) P_of pdb_key (\<lambda>_ _. True) S_of"
begin

lemmas sts_get = api_server.get_ok [OF sts_server] api_server.get_missing [OF sts_server] 
lemmas sts_get_frame = api_server.get_frame [OF sts_server]
lemmas sts_create = api_server.only_err_create [OF sts_server]
lemmas sts_update = api_server.only_err_update [OF sts_server]

lemma ensureRedisPDB_ok:
  assumes "ensureRedisPDB client c name labels k = (None, k')"
  shows "S_of k' = S_of k \<and> P_of k' (drc_Namespace c, name) \<noteq> None
    \<and> (\<forall>q. P_of k q \<noteq> None \<longrightarrow> P_of k' q = P_of k q)"
proof -
  define x where "x = NewPodDisruptionBudgetForCR c name labels"
  have key: "pdb_key x = (drc_Namespace c, name)" by (simp add: x_def NewPodDisruptionBudgetForCR_def)
  obtain r k1 where g: "c_Get (pdbs client) (drc_Namespace c) name k = (r, k1)" by fastforce
  have "(case r of Inl e \<Rightarrow> if IsNotFound e then only_err (c_Create (pdbs client) x k1) else (Some e, k1) | Inr y \<Rightarrow> (None, k1)) = (None, k')"
    using assms by (auto simp: ensureRedisPDB_def GetPodDisruptionBudget_def CreatePodDisruptionBudget_def g x_def split: sum.splits)
  then have "S_of k' = S_of k \<and> (\<forall>q. q \<noteq> pdb_key x \<longrightarrow> P_of k' q = P_of k q)
      \<and> ((P_of k (pdb_key x) \<noteq> None \<and> P_of k' = P_of k)
        \<or> (P_of k (pdb_key x) = None \<and> (\<exists>x'. P_of k' (pdb_key x) = Some x')))"
    using api_server.get_or_create [OF pdb_server, of x k r k1 None k'] g key by auto
  then show ?thesis unfolding key by (metis option.distinct(1))
qed

lemma ensureRedisStatefulset_ok:
  assumes "ensureRedisStatefulset client bld conf env c ssName svcName labels k = Ret ((u, None), k')"
    and "named_secret c" and "ssName = ClusterStatefulSetName (drc_Name c) i"
  shows "ensure_spec c {i} (S_of k) (S_of k') u \<and> P_of k' (sts_at c i) \<noteq> None
    \<and> (\<forall>q. P_of k q \<noteq> None \<longrightarrow> P_of k' q = P_of k q)"
proof -
  let ?q = "sts_at c i"
  obtain k1 where 1: "ensureRedisPDB client c ssName labels k = (None, k1)"
    using assms(1) by (auto simp: ensureRedisStatefulset_def split: prod.splits option.splits)
  have pdb1: "S_of k1 = S_of k" "P_of k1 ?q \<noteq> None" "\<forall>q. P_of k q \<noteq> None \<longrightarrow> P_of k1 q = P_of k q"
    using ensureRedisPDB_ok [OF 1] assms(3) by (auto simp: sts_at_def)
  obtain g k2 where 2: "c_Get (statefulsets client) (drc_Namespace c) ssName k1 = (g, k2)" by fastforce
  have f2: "S_of k2 = S_of k" "P_of k2 = P_of k1" using sts_get_frame [OF 2] pdb1 by auto
  have new: "S_of k' = (S_of k2)(?q \<mapsto> x') \<and> settled c (Some x') \<and> P_of k' = P_of k2"
    if "NewStatefulSetForCR bld conf env c ssName svcName labels = Ret (Inr ss)"
      and "S_of k' = (S_of k2)(sts_key ss \<mapsto> x') \<and> sts_agrees ss x' \<and> P_of k' = P_of k2" for ss x'
  proof -
    have "sts_key ss = ?q" using that(1) assms(3) by (auto elim: NewStatefulSet_shape simp: sts_at_def)
    then show ?thesis
      using that(2) shouldUpdateRedis_matches [OF NewStatefulSet_settled [OF that(1) assms(2)]] matches_agrees [of ss x' c]
      by (simp add: settled_def)
  qed
  show ?thesis
  proof (cases g)
    case (Inr ss)
    then have S: "S_of k ?q = Some ss" using sts_get(1) [OF 2 [unfolded Inr]] pdb1 assms(3) by (simp add: sts_at_def)
    obtain b where b: "shouldUpdateRedis c ss = Ret b"
      using assms(1) by (auto simp: ensureRedisStatefulset_def GetStatefulSet_def 1 2 Inr)
    note match = shouldUpdateRedis_matches [OF b]
    show ?thesis
    proof (cases b)
      case True
      then have e: "outcome_bind (NewStatefulSetForCR bld conf env c ssName svcName labels) (\<lambda>r. case r of
            Inl err \<Rightarrow> Ret ((False, Some err), k2)
          | Inr newSS \<Rightarrow> case only_err (c_Update (statefulsets client) newSS k2) of (err, k) \<Rightarrow> Ret ((True, err), k)) = Ret ((u, None), k')"
        using assms(1) b unfolding ensureRedisStatefulset_def GetStatefulSet_def UpdateStatefulSet_def Let_def 1 by (simp add: 2 Inr)
      obtain n where n: "NewStatefulSetForCR bld conf env c ssName svcName labels = Ret (Inr n)"
          and "only_err (c_Update (statefulsets client) n k2) = (None, k')" and u
        by (rule sts_sent [OF e]) auto
      then obtain x' where "S_of k' = (S_of k2)(?q \<mapsto> x')" "settled c (Some x')" "P_of k' = P_of k2"
        using sts_update new [OF n] by blast
      moreover have "outdated c (S_of k ?q)" using S match True by (simp add: outdated_def settled_def)
      ultimately show ?thesis using f2 pdb1 \<open>u\<close> by (auto simp: ensure_spec_def outdated_def)
    next
      case False
      then have "k' = k2" "\<not> u" using assms(1) b by (auto simp: ensureRedisStatefulset_def GetStatefulSet_def 1 2 Inr)
      moreover have "settled c (S_of k ?q)" using S match False by (simp add: settled_def)
      ultimately show ?thesis using f2 pdb1 by (auto simp: ensure_spec_def outdated_def)
    qed
  next
    case (Inl e)
    then have nf: "IsNotFound e"
      and e: "outcome_bind (NewStatefulSetForCR bld conf env c ssName svcName labels) (\<lambda>r. case r of
            Inl err \<Rightarrow> Ret ((False, Some err), k2)
          | Inr newSS \<Rightarrow> case only_err (c_Create (statefulsets client) newSS k2) of (err, k) \<Rightarrow> Ret ((False, err), k)) = Ret ((u, None), k')"
      using assms(1) unfolding ensureRedisStatefulset_def GetStatefulSet_def CreateStatefulSet_def Let_def 1
      by (auto simp: 2 simp del: outcome_bind_Ret_iff split: if_splits)
    obtain n where n: "NewStatefulSetForCR bld conf env c ssName svcName labels = Ret (Inr n)"
        and "only_err (c_Create (statefulsets client) n k2) = (None, k')" and "\<not> u"
      by (rule sts_sent [OF e]) auto
    then obtain x' where "S_of k' = (S_of k2)(?q \<mapsto> x')" "settled c (Some x')" "P_of k' = P_of k2"
      using sts_create new [OF n] by blast
    moreover have "S_of k ?q = None" using sts_get(2) [OF 2 [unfolded Inl] nf] pdb1 assms(3) by (simp add: sts_at_def)
    ultimately show ?thesis using f2 pdb1 \<open>\<not> u\<close> by (auto simp: ensure_spec_def outdated_def settled_def)
  qed
qed

lemma ensure_loop_ok:
  assumes "ensure_statefulsets_loop client bld conf env c u0 js labels k = Ret ((u, None), labels', k')"
    and "named_secret c" and "distinct js"
  shows "\<exists>u1. u = (u0 \<or> u1) \<and> ensure_spec c (set js) (S_of k) (S_of k') u1
    \<and> (\<forall>i\<in>set js. P_of k' (sts_at c i) \<noteq> None) \<and> (\<forall>q. P_of k q \<noteq> None \<longrightarrow> P_of k' q = P_of k q)"
  using assms(1,3)
proof (induction js arbitrary: u0 labels k)
  case Nil
  then show ?case by (intro exI [of _ False]) simp
next
  case (Cons i js)
  define name where "name = ClusterStatefulSetName (drc_Name c) i"
  define svc where "svc = ClusterHeadlessSvcName (sp_ServiceName (drc_Spec c)) i"
  define ls where "ls = mput StatefulSetLabel name labels"
  obtain b k1 where 1: "ensureRedisStatefulset client bld conf env c name svc ls k = Ret ((b, None), k1)"
    and 2: "ensure_statefulsets_loop client bld conf env c (if b then b else u0) js ls k1 = Ret ((u, None), labels', k')"
    using Cons.prems(1)
    by (cases "ensureRedisStatefulset client bld conf env c name svc ls k")
      (auto simp: Let_def name_def svc_def ls_def split: prod.splits option.splits)
  note one = ensureRedisStatefulset_ok [OF 1 assms(2) name_def]
  obtain u1 where u1: "u = ((if b then b else u0) \<or> u1)" and rest: "ensure_spec c (set js) (S_of k1) (S_of k') u1"
      "\<forall>i\<in>set js. P_of k' (sts_at c i) \<noteq> None" "\<forall>q. P_of k1 q \<noteq> None \<longrightarrow> P_of k' q = P_of k1 q"
    using Cons.IH [OF 2] Cons.prems(2) by auto
  have "ensure_spec c (set (i # js)) (S_of k) (S_of k') (b \<or> u1)"
    using ensure_spec_insert [OF _ rest(1)] one Cons.prems(2) by auto
  moreover have "P_of k' (sts_at c i) \<noteq> None" using one rest(3) by auto
  moreover have "\<forall>q. P_of k q \<noteq> None \<longrightarrow> P_of k' q = P_of k q" using one rest(3) by auto
  ultimately show ?case using u1 rest(2) by (intro exI [of _ "b \<or> u1"]) auto
qed

end

text \<open>The server that keeps lists.\<close>

interpretation mem_shards: shard_api mem_kube_client "mem_objs sts_key m_statefulsets" "mem_objs pdb_key m_pdbs"
proof (rule shard_api.intro)
  show "api_server (statefulsets mem_kube_client) (mem_objs sts_key m_statefulsets) sts_key sts_agrees (mem_objs pdb_key m_pdbs)"
    by (simp add: mem_kube_client_def sts_part.mem_api_server sts_agrees_refl)
  show "api_server (pdbs mem_kube_client) (mem_objs pdb_key m_pdbs) pdb_key (\<lambda>_ _. True) (mem_objs sts_key m_statefulsets)"
    by (simp add: mem_kube_client_def pdb_part.mem_api_server)
qed

text \<open>On this server a pass over shards that do not exist yet succeeds.\<close>

lemma mem_get_missing:
  "mem_objs sts_key m_statefulsets k (ns, n) = None \<Longrightarrow>
   c_Get (statefulsets mem_kube_client) ns n k = (Inl (K8sError NotFound ''not found''), k)"
  by (simp add: mem_kube_client_def mem_client_def mem_objs_def Let_def)

lemma mem_create_missing:
  "mem_objs sts_key m_statefulsets k (sts_key x) = None \<Longrightarrow> \<exists>k'. only_err (c_Create (statefulsets mem_kube_client) x k) = (None, k')"
  by (simp add: mem_kube_client_def mem_client_def mem_objs_def only_err_def Let_def)

lemma mem_pdb_succeeds: "\<exists>k'. ensureRedisPDB mem_kube_client c n l k = (None, k')"
proof (cases "List.find (\<lambda>y. pdb_key y = (drc_Namespace c, n)) (m_pdbs k)")
  case None
  then show ?thesis
    by (auto simp: ensureRedisPDB_def GetPodDisruptionBudget_def CreatePodDisruptionBudget_def mem_kube_client_def mem_client_def
        only_err_def Let_def NewPodDisruptionBudgetForCR_def)
qed (simp add: ensureRedisPDB_def GetPodDisruptionBudget_def mem_kube_client_def mem_client_def Let_def)

lemma NewStatefulSet_succeeds:
  assumes "good_spec (drc_Spec c)" and "\<not> IsRestoreFromBackup c"
  shows "\<exists>ss. NewStatefulSetForCR bld conf env c n s l = Ret (Inr ss)"
proof -
  obtain res where "sp_Resources (drc_Spec c) = Some res"
    using assms(1) by (auto simp: good_spec_def no_resources_def split: option.splits)
  then obtain server where "redisServerContainer bld conf env c (redisPassword c) = Ret server"
    by (simp add: redisServerContainer_def)
  moreover have "\<exists>ss'. with_exporter c (redisPassword c) ss = Ret ss'" for ss
    using assms(1) by (auto simp: good_spec_def good_monitor_def redisExporterContainer_def with_exporter_def split: option.splits)
  ultimately show ?thesis using assms(2) by (auto simp: NewStatefulSetForCR_def with_restore_def)
qed

lemma mem_create_shard:
  assumes "good_spec (drc_Spec c)" and "\<not> IsRestoreFromBackup c"
    and "mem_objs sts_key m_statefulsets k (drc_Namespace c, n) = None"
  shows "\<exists>k'. ensureRedisStatefulset mem_kube_client bld conf env c n s l k = Ret ((False, None), k')"
proof -
  obtain k1 where 1: "ensureRedisPDB mem_kube_client c n l k = (None, k1)" using mem_pdb_succeeds by blast
  have m: "mem_objs sts_key m_statefulsets k1 (drc_Namespace c, n) = None"
    using mem_shards.ensureRedisPDB_ok [OF 1] assms(3) by simp
  obtain ss where ss: "NewStatefulSetForCR bld conf env c n s l = Ret (Inr ss)"
    using NewStatefulSet_succeeds [OF assms(1,2)] by blast
  then have "sts_key ss = (drc_Namespace c, n)" by (auto elim: NewStatefulSet_shape)
  then have "mem_objs sts_key m_statefulsets k1 (sts_key ss) = None" using m by simp
  then obtain k2 where "only_err (c_Create (statefulsets mem_kube_client) ss k1) = (None, k2)"
    using mem_create_missing by blast
  then show ?thesis
    by (simp add: ensureRedisStatefulset_def 1 GetStatefulSet_def mem_get_missing [OF m] CreateStatefulSet_def ss)
qed

lemma mem_create_shards:
  assumes "good_spec (drc_Spec c)" and "\<not> IsRestoreFromBackup c" and "named_secret c"
  shows "distinct js \<Longrightarrow> \<forall>i\<in>set js. mem_objs sts_key m_statefulsets k (sts_at c i) = None \<Longrightarrow>
    \<exists>l' k'. ensure_statefulsets_loop mem_kube_client bld conf env c u js l k = Ret ((u, None), l', k')"
proof (induction js arbitrary: l k)
  case (Cons i js)
  define name where "name = ClusterStatefulSetName (drc_Name c) i"
  define svc where "svc = ClusterHeadlessSvcName (sp_ServiceName (drc_Spec c)) i"
  define ls where "ls = mput StatefulSetLabel name l"
  have "mem_objs sts_key m_statefulsets k (drc_Namespace c, name) = None"
    using Cons.prems(2) by (simp add: sts_at_def name_def)
  then obtain k1 where 1: "ensureRedisStatefulset mem_kube_client bld conf env c name svc ls k = Ret ((False, None), k1)"
    using mem_create_shard [OF assms(1,2)] by blast
  have spec: "ensure_spec c {i} (mem_objs sts_key m_statefulsets k) (mem_objs sts_key m_statefulsets k1) False"
    using mem_shards.ensureRedisStatefulset_ok [OF 1 assms(3) name_def] by blast
  have "mem_objs sts_key m_statefulsets k1 (sts_at c j) = None" if "j \<in> set js" for j
  proof -
    have "j \<noteq> i" using Cons.prems(1) that by auto
    then show ?thesis using spec Cons.prems(2) that by (auto simp: ensure_spec_def)
  qed
  then obtain l' k' where "ensure_statefulsets_loop mem_kube_client bld conf env c u js ls k1 = Ret ((u, None), l', k')"
    using Cons.IH [of k1 ls] Cons.prems(1) by auto
  then show ?case using 1 by (simp add: Let_def flip: name_def svc_def ls_def)
qed simp

text \<open>C31. \<open>EnsureRedisStatefulsets\<close> implements its specification against every API server that keeps the replica count and
  the names, images, environment and resource amounts of the containers, however often the server refuses and whatever
  other fields it fills in. When the pass reports success, every shard has its StatefulSet and its disruption budget; each
  StatefulSet matches the spec in the number of pods, the image, the password secret, the CPU and memory of the Redis
  container and the presence of the exporter; one that already did is untouched, as is every other StatefulSet of the
  server; and the flag tells whether one was replaced. A second pass then writes nothing.\<close>

theorem EnsureRedisStatefulsets_refines:
  assumes "shard_api client S_of P_of" and "named_secret c"
    and "EnsureRedisStatefulsets client bld conf env c labels k = Ret ((updated, None), labels', k')"
  shows "ensure_spec c {..<nat (sp_MasterSize (drc_Spec c))} (S_of k) (S_of k') updated
    \<and> (\<forall>i<nat (sp_MasterSize (drc_Spec c)). P_of k' (sts_at c i) \<noteq> None)
    \<and> (\<forall>q. P_of k q \<noteq> None \<longrightarrow> P_of k' q = P_of k q)
    \<and> (\<forall>l u l' k''. EnsureRedisStatefulsets client bld conf env c l k' = Ret ((u, None), l', k'') \<longrightarrow>
        S_of k'' = S_of k' \<and> \<not> u)"
proof -
  let ?I = "{..<nat (sp_MasterSize (drc_Spec c))}"
  have pass: "ensure_spec c ?I (S_of k1) (S_of k2) u \<and> (\<forall>i\<in>?I. P_of k2 (sts_at c i) \<noteq> None)
      \<and> (\<forall>q. P_of k1 q \<noteq> None \<longrightarrow> P_of k2 q = P_of k1 q)"
    if "EnsureRedisStatefulsets client bld conf env c l k1 = Ret ((u, None), l', k2)" for l k1 u l' k2
    using shard_api.ensure_loop_ok [OF assms(1) that [unfolded EnsureRedisStatefulsets_def] assms(2)]
    by (auto simp: atLeast0LessThan)
  have "settled c (S_of k' (sts_at c i))" if "i \<in> ?I" for i
    using pass [OF assms(3)] that by (auto simp: ensure_spec_def)
  then have "S_of k'' = S_of k' \<and> \<not> u"
    if "EnsureRedisStatefulsets client bld conf env c l k' = Ret ((u, None), l', k'')" for l u l' k''
    using ensure_spec_settled [of c ?I "S_of k'" "S_of k''" u] pass [OF that] by blast
  then show ?thesis using pass [OF assms(3)] by blast
qed

definition sample_build :: build_env where
  "sample_build = \<lparr>Location = (\<lambda>b. Inr ''s3:bucket''), Provider = (\<lambda>b. Inr ''s3''), AWS_ACCESS_KEY_ID = ''AWS_ACCESS_KEY_ID'',
     AWS_SECRET_ACCESS_KEY = ''AWS_SECRET_ACCESS_KEY'', Stamp = FormatInt, ReadFile = (\<lambda>f. None)\<rparr>"

definition no_redis :: Redis where
  "no_redis = \<lparr>DialTimeout = 0, ClusterNodeTimeout = 0, ConfigFileName = [], RenameCommandsPath = [], RenameCommandsFile = [],
     HTTPServerAddr = [], ServerBin = [], ServerPort = [], ServerIP = [], MaxMemory = 0, MaxMemoryPolicy = [], ConfigFiles = []\<rparr>"

definition sample_defaulted :: drc where
  "sample_defaulted = snd (DefaultSpec sample_cluster)"

lemma sample_defaulted_good: "good_spec (drc_Spec sample_defaulted)" "sp_MasterSize (drc_Spec sample_defaulted) = 3"
    "drc_Status sample_defaulted = sample_status"
  by (simp_all add: sample_defaulted_def DefaultSpec_eq default_exporter_def filled_def sample_spec_def good_spec_def no_resources_def
      minMasterSize_def good_monitor_def default_monitor_def Let_def)

lemma sample_defaulted_frame: "sp_Init (drc_Spec sample_defaulted) = None" "sp_PasswordSecret (drc_Spec sample_defaulted) = None"
  by (simp_all add: sample_defaulted_def DefaultSpec_eq default_exporter_def filled_def sample_spec_def default_monitor_def Let_def)

theorem EnsureRedisStatefulsets_refines_witness:
  "\<exists>labels k. EnsureRedisStatefulsets mem_kube_client sample_build (AddFlags no_redis) go_env_det sample_defaulted [] empty_kube
        = Ret ((False, None), labels, k)
    \<and> settled sample_defaulted (mem_objs sts_key m_statefulsets k (sts_at sample_defaulted 0))
    \<and> settled sample_defaulted (mem_objs sts_key m_statefulsets k (sts_at sample_defaulted 2))
    \<and> mem_objs pdb_key m_pdbs k (sts_at sample_defaulted 1) \<noteq> None
    \<and> mem_objs sts_key m_statefulsets k (sts_at sample_defaulted 3) = None"
proof -
  let ?c = sample_defaulted
  have n: "named_secret ?c" by (simp add: named_secret_def sample_defaulted_frame)
  have r: "\<not> IsRestoreFromBackup ?c" by (simp add: IsRestoreFromBackup_def sample_defaulted_frame)
  have e: "mem_objs sts_key m_statefulsets empty_kube q = None" for q by (simp add: mem_objs_def empty_kube_def)
  obtain l k where p: "EnsureRedisStatefulsets mem_kube_client sample_build (AddFlags no_redis) go_env_det ?c [] empty_kube
      = Ret ((False, None), l, k)"
    using mem_create_shards [OF sample_defaulted_good(1) r n, of "shards ?c" empty_kube sample_build "AddFlags no_redis" go_env_det False "[]"]
    by (auto simp: EnsureRedisStatefulsets_def e)
  have "ensure_spec ?c {..<3} (mem_objs sts_key m_statefulsets empty_kube) (mem_objs sts_key m_statefulsets k) False"
    and "mem_objs pdb_key m_pdbs k (sts_at ?c 1) \<noteq> None"
    using EnsureRedisStatefulsets_refines [OF mem_shards.shard_api_axioms n p] by (simp_all add: sample_defaulted_good)
  moreover have "sts_at ?c 3 \<notin> sts_at ?c ` {..<3}" by auto
  ultimately show ?thesis using p e unfolding ensure_spec_def by (intro exI [of _ l] exI [of _ k]) auto
qed

end
