(* ===== verification/Connections.thy ===== *)
theory Connections
  imports Nodes Utils Errors "HOL-Library.Monad_Syntax"
begin

text \<open>
  \<open>pkg/redisutil/client.go\<close> and \<open>connections.go\<close>: one client per Redis address, created on demand,
  reconnected after a network error. The Redis driver (package \<open>radix.v2\<close>) and the servers behind it
  are the parameter \<open>rx\<close>, a record of functions over a state \<open>'w\<close>; nothing is assumed of it here.

  A method that may not return has the result \<open>None\<close>: \<open>connect\<close> names the connection with a command,
  a network error of that command makes \<open>ValidateResp\<close> reconnect, and that calls \<open>connect\<close> again.
\<close>

section \<open>The driver\<close>

text \<open>Command arguments keep the types the operator passes; the driver prints and flattens them.\<close>

datatype arg = ArgStr string | ArgInt int | ArgSlot Slot | ArgSlots "Slot list" | ArgStrs "string list"

text \<open>A reply: its error, and what its conversion methods return.\<close>

record Resp =
  resp_Err :: "goerr option"
  resp_Str :: "goerr + string"
  resp_List :: "goerr + string list"
  resp_Map :: "goerr + (string, string) gomap"

type_synonym conn = nat

record 'w radix =
  DialTimeout :: "string \<Rightarrow> int \<Rightarrow> 'w \<Rightarrow> (goerr + conn) \<times> 'w"
  radix_Cmd :: "conn \<Rightarrow> string \<Rightarrow> arg list \<Rightarrow> 'w \<Rightarrow> Resp \<times> 'w"
  radix_PipeAppend :: "conn \<Rightarrow> string \<Rightarrow> arg list \<Rightarrow> 'w \<Rightarrow> 'w"
  radix_PipeResp :: "conn \<Rightarrow> 'w \<Rightarrow> Resp option \<times> 'w"
  radix_PipeClear :: "conn \<Rightarrow> 'w \<Rightarrow> (int \<times> int) \<times> 'w"
  radix_ReadResp :: "conn \<Rightarrow> 'w \<Rightarrow> Resp option \<times> 'w"
  radix_Close :: "conn \<Rightarrow> 'w \<Rightarrow> goerr option \<times> 'w"

section \<open>client.go\<close>

record Client =
  client_mapping :: "(string, string) gomap"
  client_conn :: conn

text \<open>\<open>NewClient\<close>: the client that comes with an error is never used by a caller and left out.\<close>

definition NewClient :: "'w radix \<Rightarrow> string \<Rightarrow> string \<Rightarrow> int \<Rightarrow> (string, string) gomap \<Rightarrow> 'w \<Rightarrow> (goerr + Client) \<times> 'w" where
  "NewClient rx addr password cnxTimeout commandsMapping w =
     (case DialTimeout rx addr cnxTimeout w of
        (Inl err, w) \<Rightarrow> (Inl err, w)
      | (Inr c, w) \<Rightarrow>
          if password \<noteq> [] then
            let (resp, w) = radix_Cmd rx c ''AUTH'' [ArgStr password] w
            in case resp_Err resp of Some err \<Rightarrow> (Inl err, w)
               | None \<Rightarrow> (Inr \<lparr>client_mapping = commandsMapping, client_conn = c\<rparr>, w)
          else (Inr \<lparr>client_mapping = commandsMapping, client_conn = c\<rparr>, w))"

definition getCommand :: "Client \<Rightarrow> string \<Rightarrow> string" where
  "getCommand c cmd =
     (let upperCmd = map to_upper cmd
      in case map_of (client_mapping c) upperCmd of Some renamed \<Rightarrow> renamed | None \<Rightarrow> upperCmd)"

definition Client_Close :: "'w radix \<Rightarrow> Client \<Rightarrow> 'w \<Rightarrow> goerr option \<times> 'w" where
  "Client_Close rx c w = radix_Close rx (client_conn c) w"

definition Client_Cmd :: "'w radix \<Rightarrow> Client \<Rightarrow> string \<Rightarrow> arg list \<Rightarrow> 'w \<Rightarrow> Resp \<times> 'w" where
  "Client_Cmd rx c cmd args w = radix_Cmd rx (client_conn c) (getCommand c cmd) args w"

definition Client_PipeAppend :: "'w radix \<Rightarrow> Client \<Rightarrow> string \<Rightarrow> arg list \<Rightarrow> 'w \<Rightarrow> 'w" where
  "Client_PipeAppend rx c cmd args w = radix_PipeAppend rx (client_conn c) (getCommand c cmd) args w"

definition Client_PipeResp :: "'w radix \<Rightarrow> Client \<Rightarrow> 'w \<Rightarrow> Resp option \<times> 'w" where
  "Client_PipeResp rx c w = radix_PipeResp rx (client_conn c) w"

definition Client_PipeClear :: "'w radix \<Rightarrow> Client \<Rightarrow> 'w \<Rightarrow> (int \<times> int) \<times> 'w" where
  "Client_PipeClear rx c w = radix_PipeClear rx (client_conn c) w"

definition Client_ReadResp :: "'w radix \<Rightarrow> Client \<Rightarrow> 'w \<Rightarrow> Resp option \<times> 'w" where
  "Client_ReadResp rx c w = radix_ReadResp rx (client_conn c) w"

section \<open>connections.go\<close>

definition defaultClientTimeout :: int where "defaultClientTimeout = 2 * 10 ^ 9"
definition defaultClientName :: string where "defaultClientName = []"
definition ErrNotFound :: string where "ErrNotFound = ''unable to find a node to connect''"

record AdminOptions =
  ConnectionTimeout :: int
  opt_ClientName :: string
  RenameCommandsFile :: string
  opt_Password :: string

record AdminConnections =
  clients :: "(string, Client) gomap"
  connectionTimeout :: int
  commandsMapping :: "(string, string) gomap"
  cnx_clientName :: string
  cnx_password :: string

type_synonym 'w cw = "AdminConnections \<times> 'w"

definition GetAUTH :: "AdminConnections \<Rightarrow> string \<times> bool" where
  "GetAUTH cnx = (if length (cnx_password cnx) > 0 then (cnx_password cnx, True) else ([], False))"

definition Remove :: "'w radix \<Rightarrow> string \<Rightarrow> 'w cw \<Rightarrow> 'w cw" where
  "Remove rx addr s =
     (let (cnx, w) = s in
      case map_of (clients cnx) addr of
        Some c \<Rightarrow> let (_, w) = Client_Close rx c w in (cnx\<lparr>clients := mdel addr (clients cnx)\<rparr>, w)
      | None \<Rightarrow> (cnx, w))"

text \<open>The errors on which \<open>handleError\<close> reconnects.\<close>

fun is_network_error :: "goerr \<Rightarrow> bool" where
  "is_network_error (NetTimeout s) = True"
| "is_network_error (NetOpError s) = True"
| "is_network_error _ = False"

definition unexpected_error :: "go_env \<Rightarrow> string \<Rightarrow> string \<Rightarrow> goerr \<Rightarrow> goerr" where
  "unexpected_error env errMessage addr err =
     Errorf (errMessage @ '': unexpected error on node '' @ addr @ '': '' @ ErrorText env err)"

definition register :: "string \<Rightarrow> Client option \<times> goerr option \<Rightarrow> 'w cw \<Rightarrow> 'w cw" where
  "register addr r s =
     (case r of (Some c, None) \<Rightarrow> ((fst s)\<lparr>clients := mput addr c (clients (fst s))\<rparr>, snd s) | _ \<Rightarrow> s)"

text \<open>\<open>connect\<close>, with the cycle \<open>ValidateResp\<close>, \<open>handleError\<close>, \<open>Reconnect\<close>, \<open>Add\<close>, \<open>Update\<close>, \<open>connect\<close> written
  out; lemma \<open>connect_source\<close> below folds it back into the calls of the source.\<close>

partial_function (option) connect ::
  "'w radix \<Rightarrow> go_env \<Rightarrow> string \<Rightarrow> 'w cw \<Rightarrow> ((Client option \<times> goerr option) \<times> 'w cw) option" where
  "connect rx env addr s =
     (let cnx = fst s;
          (r, w) = NewClient rx addr (cnx_password cnx) (connectionTimeout cnx) (commandsMapping cnx) (snd s)
      in case r of
           Inl err \<Rightarrow> Some ((None, Some err), (cnx, w))
         | Inr c \<Rightarrow>
             if cnx_clientName cnx \<noteq> [] then
               let (resp, w) = Client_Cmd rx c ''CLIENT'' [ArgStr ''SETNAME'', ArgStr (cnx_clientName cnx)] w
               in case resp_Err resp of
                    None \<Rightarrow> Some ((Some c, None), (cnx, w))
                  | Some e \<Rightarrow>
                      let failure = unexpected_error env ''Unable to run command CLIENT SETNAME'' addr e
                      in if is_network_error e then
                           Option.bind (connect rx env addr (Remove rx addr (cnx, w))) (\<lambda>(r, s).
                             Some ((Some c, Some failure), register addr r s))
                         else Some ((Some c, Some failure), (cnx, w))
             else Some ((Some c, None), (cnx, w)))"

definition Update :: "'w radix \<Rightarrow> go_env \<Rightarrow> string \<Rightarrow> 'w cw \<Rightarrow> ((Client option \<times> goerr option) \<times> 'w cw) option" where
  "Update rx env addr s =
     (let (cnx, w) = s;
          w = (case map_of (clients cnx) addr of Some c \<Rightarrow> snd (Client_Close rx c w) | None \<Rightarrow> w)
      in Option.bind (connect rx env addr (cnx, w)) (\<lambda>(r, s). Some (r, register addr r s)))"

definition Add :: "'w radix \<Rightarrow> go_env \<Rightarrow> string \<Rightarrow> 'w cw \<Rightarrow> (goerr option \<times> 'w cw) option" where
  "Add rx env addr s = Option.bind (Update rx env addr s) (\<lambda>((_, err), s). Some (err, s))"

definition Reconnect :: "'w radix \<Rightarrow> go_env \<Rightarrow> string \<Rightarrow> 'w cw \<Rightarrow> (goerr option \<times> 'w cw) option" where
  "Reconnect rx env addr s = Add rx env addr (Remove rx addr s)"

definition handleError :: "'w radix \<Rightarrow> go_env \<Rightarrow> string \<Rightarrow> goerr option \<Rightarrow> 'w cw \<Rightarrow> (bool \<times> 'w cw) option" where
  "handleError rx env addr err s =
     (case err of
        None \<Rightarrow> Some (False, s)
      | Some e \<Rightarrow>
          if is_network_error e then Option.bind (Reconnect rx env addr s) (\<lambda>(_, s). Some (True, s))
          else Some (False, s))"

definition ValidateResp ::
  "'w radix \<Rightarrow> go_env \<Rightarrow> Resp option \<Rightarrow> string \<Rightarrow> string \<Rightarrow> 'w cw \<Rightarrow> (goerr option \<times> 'w cw) option" where
  "ValidateResp rx env resp addr errMessage s =
     (case resp of
        None \<Rightarrow> Some (Some (Errorf (errMessage @ '': unable to connect to node '' @ addr)), s)
      | Some r \<Rightarrow>
          (case resp_Err r of
             Some e \<Rightarrow> Option.bind (handleError rx env addr (Some e) s) (\<lambda>(_, s).
                         Some (Some (unexpected_error env errMessage addr e), s))
           | None \<Rightarrow> Some (None, s)))"

text \<open>The loop of \<open>ValidatePipeResp\<close>, which also may not end: it reads until the driver reports the
  empty pipeline, a \<open>nil\<close> reply or a network error.\<close>

partial_function (option) ValidatePipeResp_loop ::
  "'w radix \<Rightarrow> go_env \<Rightarrow> Client \<Rightarrow> string \<Rightarrow> bool \<Rightarrow> 'w cw \<Rightarrow> (bool \<times> 'w cw) option" where
  "ValidatePipeResp_loop rx env client addr ok s =
     (let (resp, w) = Client_PipeResp rx client (snd s); s = (fst s, w)
      in case resp of
           None \<Rightarrow> Some (False, s)
         | Some r \<Rightarrow>
             (case resp_Err r of
                None \<Rightarrow> ValidatePipeResp_loop rx env client addr ok s
              | Some e \<Rightarrow>
                  if e = PipelineEmpty then Some (ok, s)
                  else Option.bind (handleError rx env addr (Some e) s) (\<lambda>(reconnected, s).
                         if reconnected then Some (False, s)
                         else ValidatePipeResp_loop rx env client addr False s)))"

definition ValidatePipeResp :: "'w radix \<Rightarrow> go_env \<Rightarrow> Client \<Rightarrow> string \<Rightarrow> 'w cw \<Rightarrow> (bool \<times> 'w cw) option" where
  "ValidatePipeResp rx env client addr s = ValidatePipeResp_loop rx env client addr True s"

fun AddAll :: "'w radix \<Rightarrow> go_env \<Rightarrow> string list \<Rightarrow> 'w cw \<Rightarrow> 'w cw option" where
  "AddAll rx env [] s = Some s"
| "AddAll rx env (addr # addrs) s = Option.bind (Add rx env addr s) (\<lambda>(_, s). AddAll rx env addrs s)"

definition close_all :: "'w radix \<Rightarrow> (string \<times> Client) list \<Rightarrow> 'w \<Rightarrow> 'w" where
  "close_all rx cs w = fold (\<lambda>(_, c) w. snd (Client_Close rx c w)) cs w"

definition Reset :: "'w radix \<Rightarrow> go_env \<Rightarrow> 'w cw \<Rightarrow> 'w cw" where
  "Reset rx env s = ((fst s)\<lparr>clients := []\<rparr>, close_all rx (mrange env 20 (clients (fst s))) (snd s))"

definition Close :: "'w radix \<Rightarrow> go_env \<Rightarrow> 'w cw \<Rightarrow> 'w cw" where
  "Close rx env s = (fst s, close_all rx (mrange env 21 (clients (fst s))) (snd s))"

definition ReplaceAll :: "'w radix \<Rightarrow> go_env \<Rightarrow> string list \<Rightarrow> 'w cw \<Rightarrow> 'w cw option" where
  "ReplaceAll rx env addrs s = AddAll rx env addrs (Reset rx env s)"

definition GetAll :: "AdminConnections \<Rightarrow> (string, Client) gomap" where
  "GetAll cnx = clients cnx"

fun GetSelected_from :: "AdminConnections \<Rightarrow> string list \<Rightarrow> (string, Client) gomap \<Rightarrow> (string, Client) gomap" where
  "GetSelected_from cnx [] sel = sel"
| "GetSelected_from cnx (addr # addrs) sel =
     GetSelected_from cnx addrs
       (case map_of (clients cnx) addr of Some client \<Rightarrow> mput addr client sel | None \<Rightarrow> sel)"

definition GetSelected :: "AdminConnections \<Rightarrow> string list \<Rightarrow> (string, Client) gomap" where
  "GetSelected cnx addrs = GetSelected_from cnx addrs []"

definition Get :: "'w radix \<Rightarrow> go_env \<Rightarrow> string \<Rightarrow> 'w cw \<Rightarrow> ((Client option \<times> goerr option) \<times> 'w cw) option" where
  "Get rx env addr s =
     (case map_of (clients (fst s)) addr of
        Some c \<Rightarrow> Some ((Some c, None), s)
      | None \<Rightarrow> Option.bind (connect rx env addr s) (\<lambda>(r, s). Some (r, register addr r s)))"

text \<open>Random choice: \<open>rnd i\<close> is the i-th number the generator returns, \<open>rand.Intn(n)\<close> its remainder.\<close>

fun nth_client :: "nat \<Rightarrow> (string \<times> Client) list \<Rightarrow> goerr + (string \<times> Client)" where
  "nth_client n [] = Inl (Errorf ErrNotFound)"
| "nth_client n (kc # kcs) = (if n = 0 then Inr kc else nth_client (n - 1) kcs)"

definition getRandomKeyClient :: "go_env \<Rightarrow> (nat \<Rightarrow> nat) \<Rightarrow> nat \<Rightarrow> AdminConnections \<Rightarrow> goerr + (string \<times> Client)" where
  "getRandomKeyClient env rnd i cnx =
     (let nbClient = length (clients cnx) in
      if nbClient = 0 then Inl (Errorf ErrNotFound)
      else nth_client (rnd i mod nbClient) (mrange env (30 + i) (clients cnx)))"

definition GetRandom :: "go_env \<Rightarrow> (nat \<Rightarrow> nat) \<Rightarrow> AdminConnections \<Rightarrow> goerr + Client" where
  "GetRandom env rnd cnx = (case getRandomKeyClient env rnd 0 cnx of Inl e \<Rightarrow> Inl e | Inr (_, c) \<Rightarrow> Inr c)"

partial_function (option) GetDifferentFrom_loop ::
  "go_env \<Rightarrow> (nat \<Rightarrow> nat) \<Rightarrow> nat \<Rightarrow> string \<Rightarrow> AdminConnections \<Rightarrow> (goerr + Client) option" where
  "GetDifferentFrom_loop env rnd i addr cnx =
     (case getRandomKeyClient env rnd i cnx of
        Inl err \<Rightarrow> Some (Inl err)
      | Inr (a, c) \<Rightarrow> if a \<noteq> addr then Some (Inr c) else GetDifferentFrom_loop env rnd (i + 1) addr cnx)"

definition GetDifferentFrom :: "go_env \<Rightarrow> (nat \<Rightarrow> nat) \<Rightarrow> string \<Rightarrow> AdminConnections \<Rightarrow> (goerr + Client) option" where
  "GetDifferentFrom env rnd addr cnx =
     (case mrange env 29 (clients cnx) of
        [(a, c)] \<Rightarrow> Some (if a \<noteq> addr then Inr c else Inl (Errorf ErrNotFound))
      | _ \<Rightarrow> GetDifferentFrom_loop env rnd 0 addr cnx)"

text \<open>\<open>files\<close> gives the content of the files that exist.\<close>

definition NewAdminConnections ::
  "'w radix \<Rightarrow> go_env \<Rightarrow> (string \<Rightarrow> string option) \<Rightarrow> string list \<Rightarrow> AdminOptions option \<Rightarrow> 'w \<Rightarrow> 'w cw option" where
  "NewAdminConnections rx env files addrs options w =
     (let cnx = \<lparr>clients = [], connectionTimeout = defaultClientTimeout, commandsMapping = [],
                 cnx_clientName = defaultClientName, cnx_password = []\<rparr>;
          cnx = (case options of
             None \<Rightarrow> cnx
           | Some opts \<Rightarrow>
               let cnx = (if ConnectionTimeout opts \<noteq> 0 then cnx\<lparr>connectionTimeout := ConnectionTimeout opts\<rparr> else cnx);
                   cnx = (case files (RenameCommandsFile opts) of
                            Some content \<Rightarrow> cnx\<lparr>commandsMapping := BuildCommandReplaceMapping (Some content)\<rparr>
                          | None \<Rightarrow> cnx)
               in cnx\<lparr>cnx_clientName := opt_ClientName opts, cnx_password := opt_Password opts\<rparr>)
      in AddAll rx env addrs (cnx, w))"

section \<open>The cycle of connect\<close>

lemma Remove_clients [simp]: "map_of (clients (fst (Remove rx addr s))) addr = None"
  by (cases s) (auto simp: Remove_def Let_def split: option.splits prod.splits)

text \<open>\<open>connect\<close> in the words of the source: the reply to \<open>CLIENT SETNAME\<close> goes through \<open>ValidateResp\<close>.\<close>

lemma connect_source:
  "connect rx env addr s =
     (let (r, w) = NewClient rx addr (cnx_password (fst s)) (connectionTimeout (fst s)) (commandsMapping (fst s)) (snd s)
      in case r of
           Inl err \<Rightarrow> Some ((None, Some err), (fst s, w))
         | Inr c \<Rightarrow>
             if cnx_clientName (fst s) \<noteq> [] then
               let (resp, w) = Client_Cmd rx c ''CLIENT'' [ArgStr ''SETNAME'', ArgStr (cnx_clientName (fst s))] w
               in Option.bind (ValidateResp rx env (Some resp) addr ''Unable to run command CLIENT SETNAME'' (fst s, w))
                    (\<lambda>(err, s). Some ((Some c, err), s))
             else Some ((Some c, None), (fst s, w)))"
proof -
  have re: "Reconnect rx env addr s
      = Option.bind (connect rx env addr (Remove rx addr s)) (\<lambda>(r, s). Some (snd r, register addr r s))" for s
    using Remove_clients [of rx addr s]
    by (cases "Remove rx addr s") (auto simp: Reconnect_def Add_def Update_def Let_def split: bind_splits)
  show ?thesis
    by (subst connect.simps)
      (auto simp: Let_def ValidateResp_def handleError_def re split: prod.splits sum.splits option.splits bind_splits)
qed

text \<open>The operator never sets a client name, and then \<open>connect\<close> is one attempt and always returns.\<close>

lemma connect_unnamed:
  assumes "cnx_clientName (fst s) = []"
  shows "connect rx env addr s =
    (case NewClient rx addr (cnx_password (fst s)) (connectionTimeout (fst s)) (commandsMapping (fst s)) (snd s) of
       (Inl err, w) \<Rightarrow> Some ((None, Some err), (fst s, w)) | (Inr c, w) \<Rightarrow> Some ((Some c, None), (fst s, w)))"
  using assms by (subst connect.simps) (auto simp: Let_def split: prod.splits sum.splits)

section \<open>The pool invariant\<close>

text \<open>One client per address, and every client renames commands the way the pool was told to.\<close>

definition pool_ok :: "AdminConnections \<Rightarrow> bool" where
  "pool_ok cnx \<longleftrightarrow> wf_map (clients cnx) \<and> list_all (\<lambda>(_, c). client_mapping c = commandsMapping cnx) (clients cnx)"

text \<open>What an operation on the address \<open>addr\<close> may change.\<close>

definition touches_only :: "string \<Rightarrow> 'w cw \<Rightarrow> 'w cw \<Rightarrow> bool" where
  "touches_only addr s s' \<longleftrightarrow> (\<exists>cs. fst s' = (fst s)\<lparr>clients := cs\<rparr>)
     \<and> (\<forall>b. b \<noteq> addr \<longrightarrow> map_of (clients (fst s')) b = map_of (clients (fst s)) b)
     \<and> (pool_ok (fst s) \<longrightarrow> pool_ok (fst s'))"

lemma touches_only_refl [simp]: "touches_only addr s (fst s, w)" "touches_only addr s s"
  by (auto simp: touches_only_def intro: exI [of _ "clients (fst s)"])

lemma touches_only_trans [trans]: "touches_only addr s s' \<Longrightarrow> touches_only addr s' s'' \<Longrightarrow> touches_only addr s s''"
  by (auto simp: touches_only_def)

lemma pool_ok_delete: "pool_ok cnx \<Longrightarrow> pool_ok (cnx\<lparr>clients := mdel addr (clients cnx)\<rparr>)"
  using set_mdel_subset [of addr "clients cnx"] by (fastforce simp: pool_ok_def list_all_iff)

lemma pool_ok_put:
  assumes "pool_ok cnx" and "client_mapping c = commandsMapping cnx"
  shows "pool_ok (cnx\<lparr>clients := mput addr c (clients cnx)\<rparr>)"
  using assms set_mput_subset [of addr c "clients cnx"] by (fastforce simp: pool_ok_def list_all_iff)

lemma register_touches:
  "(\<And>c. fst r = Some c \<Longrightarrow> client_mapping c = commandsMapping (fst s)) \<Longrightarrow> touches_only addr s (register addr r s)"
  by (cases r) (auto simp: touches_only_def register_def pool_ok_put split: option.splits
      intro: exI [of _ "clients (fst s)"])

lemma Remove_touches: "touches_only addr s (Remove rx addr s)"
  by (cases s) (auto simp: touches_only_def Remove_def Let_def pool_ok_delete split: option.splits prod.splits
      intro: exI [of _ "clients (fst s)"])

lemma NewClient_mapping: "NewClient rx addr pw t mapping w = (Inr c, w') \<Longrightarrow> client_mapping c = mapping"
  by (auto simp: NewClient_def Let_def split: prod.splits sum.splits if_splits option.splits)

definition connect_ok :: "string \<Rightarrow> 'w cw \<Rightarrow> (Client option \<times> goerr option) \<times> 'w cw \<Rightarrow> bool" where
  "connect_ok addr s r \<longleftrightarrow> touches_only addr s (snd r)
     \<and> (\<forall>c. fst (fst r) = Some c \<longrightarrow> client_mapping c = commandsMapping (fst s))
     \<and> (snd (fst r) = None \<longrightarrow> fst (fst r) \<noteq> None)"

lemma touches_mapping: "touches_only addr s s' \<Longrightarrow> commandsMapping (fst s') = commandsMapping (fst s)"
  by (auto simp: touches_only_def)

lemma connect_touches_step:
  assumes "\<And>rx env addr s r. rec rx env addr s = Some r \<Longrightarrow> connect_ok addr s r"
    and "(let cnx = fst s;
          (r, w) = NewClient rx addr (cnx_password cnx) (connectionTimeout cnx) (commandsMapping cnx) (snd s)
      in case r of
           Inl err \<Rightarrow> Some ((None, Some err), (cnx, w))
         | Inr c \<Rightarrow>
             if cnx_clientName cnx \<noteq> [] then
               let (resp, w) = Client_Cmd rx c ''CLIENT'' [ArgStr ''SETNAME'', ArgStr (cnx_clientName cnx)] w
               in case resp_Err resp of
                    None \<Rightarrow> Some ((Some c, None), (cnx, w))
                  | Some e \<Rightarrow>
                      let failure = unexpected_error env ''Unable to run command CLIENT SETNAME'' addr e
                      in if is_network_error e then
                           Option.bind (rec rx env addr (Remove rx addr (cnx, w))) (\<lambda>(r, s).
                             Some ((Some c, Some failure), register addr r s))
                         else Some ((Some c, Some failure), (cnx, w))
             else Some ((Some c, None), (cnx, w))) = Some r"
  shows "connect_ok addr s r"
proof -
  obtain q w where q: "NewClient rx addr (cnx_password (fst s)) (connectionTimeout (fst s))
      (commandsMapping (fst s)) (snd s) = (q, w)" by fastforce
  show ?thesis
  proof (cases q)
    case (Inl err)
    then show ?thesis using assms(2) q by (auto simp: connect_ok_def)
  next
    case (Inr c)
    note c = NewClient_mapping [OF q [unfolded Inr]]
    obtain resp w' where cmd: "Client_Cmd rx c ''CLIENT'' [ArgStr ''SETNAME'', ArgStr (cnx_clientName (fst s))] w = (resp, w')"
      by fastforce
    consider (plain) "snd r = (fst s, w) \<or> snd r = (fst s, w')" "fst (fst r) = Some c"
      | (retry) r2 s2 where "rec rx env addr (Remove rx addr (fst s, w')) = Some (r2, s2)"
          "snd r = register addr r2 s2" "fst (fst r) = Some c"
      using assms(2) q Inr cmd by (auto simp: Let_def split: option.splits if_splits bind_splits)
    then show ?thesis
    proof cases
      case plain
      with c show ?thesis by (auto simp: connect_ok_def)
    next
      case retry
      have ok: "connect_ok addr (Remove rx addr (fst s, w')) (r2, s2)" by (rule assms(1) [OF retry(1)])
      have "touches_only addr s (Remove rx addr (fst s, w'))"
        using touches_only_trans [OF touches_only_refl(1) Remove_touches] .
      also have "touches_only addr \<dots> s2" using ok by (simp add: connect_ok_def)
      also have "touches_only addr s2 (register addr r2 s2)"
        using ok touches_mapping [of addr "Remove rx addr (fst s, w')" s2]
        by (intro register_touches) (simp add: connect_ok_def)
      finally show ?thesis using retry(2,3) c by (simp add: connect_ok_def)
    qed
  qed
qed

lemma connect_touches:
  assumes "connect rx env addr s = Some r"
  shows "connect_ok addr s r"
  by (rule connect.raw_induct [of "\<lambda>rx env addr s r. connect_ok addr s r" rx env addr s r, OF _ assms])
    (rule connect_touches_step)

lemma connect_register:
  assumes "connect rx env addr s = Some (r, s')"
  shows "touches_only addr s (register addr r s')"
proof -
  have ok: "connect_ok addr s (r, s')" by (rule connect_touches [OF assms])
  then have "touches_only addr s s'" by (simp add: connect_ok_def)
  also have "touches_only addr s' (register addr r s')"
    using ok touches_mapping [OF \<open>touches_only addr s s'\<close>] by (intro register_touches) (simp add: connect_ok_def)
  finally show ?thesis .
qed

lemma Get_touches: "Get rx env addr s = Some (r, s') \<Longrightarrow> touches_only addr s s'"
  by (auto simp: Get_def connect_register split: option.splits bind_splits)

lemma Get_known:
  "Get rx env addr s = Some ((Some c, None), s') \<Longrightarrow> map_of (clients (fst s')) addr = Some c"
  by (auto simp: Get_def register_def split: option.splits bind_splits)

lemma Update_touches: "Update rx env addr s = Some (r, s') \<Longrightarrow> touches_only addr s s'"
proof -
  assume "Update rx env addr s = Some (r, s')"
  then obtain w s1 where "connect rx env addr (fst s, w) = Some (r, s1)" "s' = register addr r s1"
    by (cases s) (auto simp: Update_def Let_def split: bind_splits)
  then show ?thesis
    using touches_only_trans [OF touches_only_refl(1), of addr s w, OF connect_register] by simp
qed

lemma Add_touches: "Add rx env addr s = Some (e, s') \<Longrightarrow> touches_only addr s s'"
  by (auto simp: Add_def split: bind_splits dest: Update_touches)

lemma Reconnect_touches: "Reconnect rx env addr s = Some (e, s') \<Longrightarrow> touches_only addr s s'"
  unfolding Reconnect_def by (rule touches_only_trans [OF Remove_touches Add_touches])

lemma handleError_touches: "handleError rx env addr e s = Some (b, s') \<Longrightarrow> touches_only addr s s'"
  by (auto simp: handleError_def split: option.splits if_splits bind_splits dest: Reconnect_touches)

lemma ValidateResp_touches: "ValidateResp rx env resp addr m s = Some (e, s') \<Longrightarrow> touches_only addr s s'"
  by (auto simp: ValidateResp_def split: option.splits bind_splits dest: handleError_touches)

section \<open>The interface of the pool\<close>

text \<open>What the administration code relies on: a client that \<open>Get\<close> hands out is the one registered for
  the address, no operation on one address changes another, and a reply counts as accepted exactly
  when it carries no error.\<close>

locale client_pool =
  fixes get :: "string \<Rightarrow> 's \<Rightarrow> ((Client option \<times> goerr option) \<times> 's) option"
    and validate :: "Resp option \<Rightarrow> string \<Rightarrow> string \<Rightarrow> 's \<Rightarrow> (goerr option \<times> 's) option"
    and known :: "'s \<Rightarrow> string \<Rightarrow> Client option"
  assumes get_known: "get a s = Some ((Some c, None), s') \<Longrightarrow> known s' a = Some c"
    and get_frame: "get a s = Some (r, s') \<Longrightarrow> b \<noteq> a \<Longrightarrow> known s' b = known s b"
    and validate_ok: "resp_Err q = None \<Longrightarrow> validate (Some q) a m s = Some (None, s)"
    and validate_err: "resp_Err q = Some e \<Longrightarrow> validate (Some q) a m s \<noteq> Some (None, s')"
    and validate_frame: "validate resp a m s = Some (err, s') \<Longrightarrow> b \<noteq> a \<Longrightarrow> known s' b = known s b"
begin

lemma validate_None_iff: "validate (Some q) a m s = Some (None, s') \<longleftrightarrow> resp_Err q = None \<and> s' = s"
  using validate_ok [of q a m s] validate_err [of q _ a m s s'] by (cases "resp_Err q") auto

lemma get_validate_frame:
  "get a s = Some (r, s') \<Longrightarrow> validate resp a m s' = Some (err, s'') \<Longrightarrow> b \<noteq> a \<Longrightarrow> known s'' b = known s b"
  by (metis get_frame validate_frame)

end

interpretation pool: client_pool "Get rx env" "ValidateResp rx env" "\<lambda>s. map_of (clients (fst s))"
  for rx env
proof
  show "map_of (clients (fst s')) b = map_of (clients (fst s)) b"
    if "Get rx env a s = Some (r, s')" and "b \<noteq> a" for a s r s' b
    using Get_touches [OF that(1)] that(2) by (simp add: touches_only_def)
  show "map_of (clients (fst s')) b = map_of (clients (fst s)) b"
    if "ValidateResp rx env resp a m s = Some (err, s')" and "b \<noteq> a" for resp a m s err s' b
    using ValidateResp_touches [OF that(1)] that(2) by (simp add: touches_only_def)
qed (auto simp: Get_known ValidateResp_def split: bind_splits)

section \<open>Termination\<close>

lemma Remove_name [simp]: "cnx_clientName (fst (Remove rx addr s)) = cnx_clientName (fst s)"
  by (cases s) (auto simp: Remove_def Let_def split: option.splits prod.splits)

lemma connect_returns: "cnx_clientName (fst s) = [] \<Longrightarrow> connect rx env addr s \<noteq> None"
  by (simp add: connect_unnamed split: prod.splits sum.splits)

lemma Get_returns: "cnx_clientName (fst s) = [] \<Longrightarrow> Get rx env addr s \<noteq> None"
  using connect_returns [of s rx env addr] by (auto simp: Get_def split: option.splits)

lemma Add_returns: "cnx_clientName (fst s) = [] \<Longrightarrow> Add rx env addr s \<noteq> None"
proof -
  assume name: "cnx_clientName (fst s) = []"
  obtain cnx w where s: "s = (cnx, w)" by fastforce
  define w' where "w' = (case map_of (clients cnx) addr of Some c \<Rightarrow> snd (Client_Close rx c w) | None \<Rightarrow> w)"
  have "connect rx env addr (cnx, w') \<noteq> None"
    by (rule connect_returns) (use name s in simp)
  then show ?thesis by (auto simp: Add_def Update_def s Let_def w'_def [symmetric])
qed

lemma Reconnect_returns: "cnx_clientName (fst s) = [] \<Longrightarrow> Reconnect rx env addr s \<noteq> None"
  unfolding Reconnect_def by (rule Add_returns) simp

lemma handleError_returns: "cnx_clientName (fst s) = [] \<Longrightarrow> handleError rx env addr err s \<noteq> None"
  using Reconnect_returns [of s rx env addr] by (auto simp: handleError_def split: option.splits)

lemma ValidateResp_returns: "cnx_clientName (fst s) = [] \<Longrightarrow> ValidateResp rx env resp addr m s \<noteq> None"
  using handleError_returns [of s rx env addr "case resp of Some r \<Rightarrow> resp_Err r | None \<Rightarrow> None"]
  by (auto simp: ValidateResp_def split: option.splits)

lemma touches_name: "touches_only addr s s' \<Longrightarrow> cnx_clientName (fst s') = cnx_clientName (fst s)"
  by (auto simp: touches_only_def)

lemma AddAll_returns: "cnx_clientName (fst s) = [] \<Longrightarrow> AddAll rx env addrs s \<noteq> None"
proof (induction addrs arbitrary: s)
  case (Cons a addrs)
  obtain e s1 where add: "Add rx env a s = Some (e, s1)"
    using Add_returns [OF Cons.prems, of rx env a] by auto
  have "cnx_clientName (fst s1) = []"
    using touches_name [OF Add_touches [OF add]] Cons.prems by simp
  with Cons.IH add show ?case by simp
qed simp

lemma connect_loops:
  fixes rx :: "'w radix" and s :: "'w cw"
  assumes "cnx_clientName (fst s) \<noteq> []"
    and "\<And>(cnx :: AdminConnections) w. cnx_clientName cnx = cnx_clientName (fst s) \<Longrightarrow>
           \<exists>c w'. NewClient rx addr (cnx_password cnx) (connectionTimeout cnx) (commandsMapping cnx) w = (Inr c, w')"
    and "\<And>c w. \<exists>e. resp_Err (fst (Client_Cmd rx c ''CLIENT''
           [ArgStr ''SETNAME'', ArgStr (cnx_clientName (fst s))] w)) = Some e \<and> is_network_error e"
  shows "connect rx env addr s = None"
proof (rule ccontr)
  assume "connect rx env addr s \<noteq> None"
  then obtain r where r: "connect rx env addr s = Some r" by blast
  have "rx' = rx \<longrightarrow> env' = env \<longrightarrow> addr' = addr \<longrightarrow> cnx_clientName (fst s') = cnx_clientName (fst s) \<longrightarrow> False"
    if "connect rx' env' addr' s' = Some r'" for rx' :: "'w radix" and env' addr' and s' :: "'w cw" and r'
  proof (rule connect.raw_induct [OF _ that], intro impI)
    fix rec :: "'w radix \<Rightarrow> go_env \<Rightarrow> string \<Rightarrow> 'w cw \<Rightarrow> ((Client option \<times> goerr option) \<times> 'w cw) option"
      and rx'' :: "'w radix" and env'' addr'' and s'' :: "'w cw" and r''
    assume IH: "\<And>rx' env' addr' s' r'. rec rx' env' addr' s' = Some r' \<Longrightarrow>
      rx' = rx \<longrightarrow> env' = env \<longrightarrow> addr' = addr \<longrightarrow> cnx_clientName (fst s') = cnx_clientName (fst s) \<longrightarrow> False"
    assume eqs: "rx'' = rx" "env'' = env" "addr'' = addr" and name: "cnx_clientName (fst s'') = cnx_clientName (fst s)"
    obtain c w' where "NewClient rx addr (cnx_password (fst s'')) (connectionTimeout (fst s''))
        (commandsMapping (fst s'')) (snd s'') = (Inr c, w')"
      using assms(2) [OF name] by blast
    moreover obtain resp w2 e where "Client_Cmd rx c ''CLIENT'' [ArgStr ''SETNAME'', ArgStr (cnx_clientName (fst s))] w' = (resp, w2)"
      "resp_Err resp = Some e" "is_network_error e"
      using assms(3) [of c w'] by (metis fst_conv surj_pair)
    moreover assume "(let cnx = fst s'';
          (r, w) = NewClient rx'' addr'' (cnx_password cnx) (connectionTimeout cnx) (commandsMapping cnx) (snd s'')
      in case r of
           Inl err \<Rightarrow> Some ((None, Some err), (cnx, w))
         | Inr c \<Rightarrow>
             if cnx_clientName cnx \<noteq> [] then
               let (resp, w) = Client_Cmd rx'' c ''CLIENT'' [ArgStr ''SETNAME'', ArgStr (cnx_clientName cnx)] w
               in case resp_Err resp of
                    None \<Rightarrow> Some ((Some c, None), (cnx, w))
                  | Some e \<Rightarrow>
                      let failure = unexpected_error env'' ''Unable to run command CLIENT SETNAME'' addr'' e
                      in if is_network_error e then
                           Option.bind (rec rx'' env'' addr'' (Remove rx'' addr'' (cnx, w))) (\<lambda>(r, s).
                             Some ((Some c, Some failure), register addr'' r s))
                         else Some ((Some c, Some failure), (cnx, w))
             else Some ((Some c, None), (cnx, w))) = Some r''"
    ultimately obtain q where "rec rx env addr (Remove rx addr (fst s'', w2)) = Some q"
      using eqs name assms(1) by (auto split: bind_splits)
    from IH [OF this] show False using name by simp
  qed
  with r show False by blast
qed

section \<open>A driver that answers from a table\<close>

text \<open>Connections are numbered, replies come from the table \<open>answer\<close>, and every command is logged;
  a pipeline is a queue per connection.\<close>

record table_world =
  next_conn :: conn
  sent :: "(conn \<times> string \<times> arg list) list"
  pipes :: "conn \<Rightarrow> Resp list"

definition reply :: "goerr option \<Rightarrow> Resp" where
  "reply err = \<lparr>resp_Err = err, resp_Str = Inr [], resp_List = Inr [], resp_Map = Inr []\<rparr>"

definition table_radix :: "(string \<Rightarrow> arg list \<Rightarrow> Resp) \<Rightarrow> table_world radix" where
  "table_radix answer = \<lparr>
     DialTimeout = (\<lambda>addr t w. (Inr (next_conn w), w\<lparr>next_conn := next_conn w + 1\<rparr>)),
     radix_Cmd = (\<lambda>c cmd args w. (answer cmd args, w\<lparr>sent := sent w @ [(c, cmd, args)]\<rparr>)),
     radix_PipeAppend = (\<lambda>c cmd args w. w\<lparr>sent := sent w @ [(c, cmd, args)],
       pipes := (pipes w)(c := pipes w c @ [answer cmd args])\<rparr>),
     radix_PipeResp = (\<lambda>c w. case pipes w c of [] \<Rightarrow> (Some (reply (Some PipelineEmpty)), w)
       | r # rs \<Rightarrow> (Some r, w\<lparr>pipes := (pipes w)(c := rs)\<rparr>)),
     radix_PipeClear = (\<lambda>c w. ((0, int (length (pipes w c))), w\<lparr>pipes := (pipes w)(c := [])\<rparr>)),
     radix_ReadResp = (\<lambda>c w. (None, w)),
     radix_Close = (\<lambda>c w. (None, w))\<rparr>"

definition empty_world :: table_world where
  "empty_world = \<lparr>next_conn = 0, sent = [], pipes = (\<lambda>c. [])\<rparr>"

definition demo_cnx :: "string \<Rightarrow> AdminConnections" where
  "demo_cnx name = \<lparr>clients = [], connectionTimeout = 5, commandsMapping = [(''CLUSTER'', ''KLUSTER'')],
     cnx_clientName = name, cnx_password = []\<rparr>"

section \<open>Properties\<close>

text \<open>C17. Without a client name, which the operator never sets, every operation of the pool returns.
  With one, a server that accepts connections but whose replies to \<open>CLIENT SETNAME\<close> time out sends
  \<open>connect\<close> into a reconnect cycle without end, and with it \<open>Get\<close> and \<open>Add\<close>.\<close>

theorem connections_return:
  fixes rx :: "'w radix" and s :: "'w cw"
  shows "(cnx_clientName (fst s) = [] \<longrightarrow>
       Get rx env addr s \<noteq> None \<and> Add rx env addr s \<noteq> None \<and> Reconnect rx env addr s \<noteq> None
     \<and> AddAll rx env addrs s \<noteq> None \<and> ValidateResp rx env resp addr m s \<noteq> None)
   \<and> (cnx_clientName (fst s) \<noteq> [] \<and> map_of (clients (fst s)) addr = None
      \<and> (\<forall>w t pw mapping. \<exists>c w'. NewClient rx addr pw t mapping w = (Inr c, w'))
      \<and> (\<forall>c w name. \<exists>e. resp_Err (fst (Client_Cmd rx c ''CLIENT'' [ArgStr ''SETNAME'', ArgStr name] w)) = Some e
           \<and> is_network_error e)
      \<longrightarrow> Get rx env addr s = None \<and> Add rx env addr s = None)"
proof (intro conjI impI; (elim conjE)?)
  assume h: "cnx_clientName (fst s) \<noteq> []" "map_of (clients (fst s)) addr = None"
    "\<forall>w t pw mapping. \<exists>c w'. NewClient rx addr pw t mapping w = (Inr c, w')"
    "\<forall>c w name. \<exists>e. resp_Err (fst (Client_Cmd rx c ''CLIENT'' [ArgStr ''SETNAME'', ArgStr name] w)) = Some e
       \<and> is_network_error e"
  have "connect rx env addr s = None" by (rule connect_loops) (use h in blast)+
  then show "Get rx env addr s = None" and "Add rx env addr s = None"
    using h(2) by (cases s; simp add: Get_def Add_def Update_def)+
qed (rule Get_returns Add_returns Reconnect_returns AddAll_returns ValidateResp_returns, assumption)+

theorem connections_return_witness:
  "Get (table_radix (\<lambda>cmd args. reply None)) go_env_det ''10.0.0.1:6379'' (demo_cnx [], empty_world) \<noteq> None
   \<and> Get (table_radix (\<lambda>cmd args. reply (if length args = 2 then Some (NetTimeout ''i/o timeout'') else None)))
       go_env_det ''10.0.0.1:6379'' (demo_cnx ''op'', empty_world) = None"
proof -
  define rx where "rx = table_radix (\<lambda>cmd args. reply (if length args = 2 then Some (NetTimeout ''i/o timeout'') else None))"
  have "\<forall>w t pw mapping. \<exists>c w'. NewClient rx ''10.0.0.1:6379'' pw t mapping w = (Inr c, w')"
    by (simp add: NewClient_def rx_def table_radix_def reply_def)
  moreover have "\<forall>c w name. \<exists>e. resp_Err (fst (Client_Cmd rx c ''CLIENT'' [ArgStr ''SETNAME'', ArgStr name] w)) = Some e
       \<and> is_network_error e"
    by (simp add: Client_Cmd_def rx_def table_radix_def reply_def)
  ultimately have "Get rx go_env_det ''10.0.0.1:6379'' (demo_cnx ''op'', empty_world) = None"
    using connections_return [of "(demo_cnx ''op'', empty_world)" rx go_env_det "''10.0.0.1:6379''"]
    by (simp add: demo_cnx_def)
  moreover have "Get (table_radix (\<lambda>cmd args. reply None)) go_env_det ''10.0.0.1:6379'' (demo_cnx [], empty_world) \<noteq> None"
    using connections_return [of "(demo_cnx [], empty_world)" "table_radix (\<lambda>cmd args. reply None)"]
    by (simp add: demo_cnx_def)
  ultimately show ?thesis by (simp add: rx_def)
qed

section \<open>The connections behind the pool\<close>

text \<open>What the driver promises about connections. \<open>peer w\<close> maps a connection the operator has opened and not closed to its address: a
  successful dial opens one that was not open, a failed dial none, \<open>Close\<close> closes it, and commands open and close none.\<close>

locale conn_driver =
  fixes rx :: "'w radix" and peer :: "'w \<Rightarrow> conn \<rightharpoonup> string"
  assumes dial_ok: "DialTimeout rx addr t w = (Inr c, w') \<Longrightarrow> peer w c = None \<and> peer w' = (peer w)(c \<mapsto> addr)"
    and dial_err: "DialTimeout rx addr t w = (Inl e, w') \<Longrightarrow> peer w' = peer w"
    and cmd_peer: "radix_Cmd rx c cmd args w = (resp, w') \<Longrightarrow> peer w' = peer w"
    and pipe_peer: "radix_PipeResp rx c w = (r, w') \<Longrightarrow> peer w' = peer w"
    and close_peer: "radix_Close rx c w = (err, w') \<Longrightarrow> peer w' = (peer w)(c := None)"

text \<open>The pool holds exactly the open connections: every client in it is open and leads to its address, and no other connection is
  open.\<close>

definition tight :: "('w \<Rightarrow> conn \<rightharpoonup> string) \<Rightarrow> 'w cw \<Rightarrow> bool" where
  "tight peer s \<longleftrightarrow> wf_map (clients (fst s))
     \<and> (\<forall>k addr. peer (snd s) k = Some addr \<longleftrightarrow> (\<exists>c. map_of (clients (fst s)) addr = Some c \<and> client_conn c = k))"

text \<open>The settings under which \<open>connect\<close> is a single attempt that leaves no connection behind: no client name, and no password or one
  that the servers accept.\<close>

definition accepted :: "'w radix \<Rightarrow> AdminConnections \<Rightarrow> bool" where
  "accepted rx cnx \<longleftrightarrow> cnx_clientName cnx = []
     \<and> (cnx_password cnx = [] \<or> (\<forall>c w. resp_Err (fst (radix_Cmd rx c ''AUTH'' [ArgStr (cnx_password cnx)] w)) = None))"

lemma accepted_clients [simp]: "accepted rx (cnx\<lparr>clients := cs\<rparr>) = accepted rx cnx"
  by (simp add: accepted_def)

lemma tightD: "tight peer s \<Longrightarrow> map_of (clients (fst s)) addr = Some c \<Longrightarrow> peer (snd s) (client_conn c) = Some addr"
  by (auto simp: tight_def)

context conn_driver
begin

lemma NewClient_peer:
  assumes "NewClient rx addr pw t mapping w = (r, w')"
    and "pw = [] \<or> (\<forall>c w. resp_Err (fst (radix_Cmd rx c ''AUTH'' [ArgStr pw] w)) = None)"
  shows "case r of Inl e \<Rightarrow> peer w' = peer w
    | Inr c \<Rightarrow> peer w (client_conn c) = None \<and> peer w' = (peer w)(client_conn c \<mapsto> addr)"
proof (cases "DialTimeout rx addr t w")
  case (Pair d w1)
  show ?thesis
  proof (cases d)
    case (Inl e)
    then show ?thesis using assms Pair dial_err by (auto simp: NewClient_def)
  next
    case (Inr k)
    note d = dial_ok [OF Pair [unfolded Inr]]
    show ?thesis
    proof (cases "pw = []")
      case True
      then show ?thesis using assms Pair Inr d by (auto simp: NewClient_def)
    next
      case False
      obtain resp w2 where cmd: "radix_Cmd rx k ''AUTH'' [ArgStr pw] w1 = (resp, w2)" by fastforce
      have "resp_Err resp = None" using assms(2) False cmd by (metis fst_conv)
      then show ?thesis using assms(1) Pair Inr d cmd cmd_peer [OF cmd] False by (auto simp: NewClient_def)
    qed
  qed
qed

text \<open>Connecting to an address the pool does not have.\<close>

lemma connect_tight:
  assumes "tight peer s" and "accepted rx (fst s)" and "map_of (clients (fst s)) addr = None"
    and "connect rx env addr s = Some (r, s1)"
  shows "tight peer (register addr r s1)" and "accepted rx (fst (register addr r s1))"
    and "snd r = None \<Longrightarrow> \<exists>c. fst r = Some c \<and> map_of (clients (fst (register addr r s1))) addr = Some c"
    and "snd r \<noteq> None \<Longrightarrow> clients (fst (register addr r s1)) = clients (fst s)"
proof -
  obtain q w where q: "NewClient rx addr (cnx_password (fst s)) (connectionTimeout (fst s)) (commandsMapping (fst s)) (snd s) = (q, w)"
    by fastforce
  have acc: "cnx_clientName (fst s) = []"
    "cnx_password (fst s) = [] \<or> (\<forall>c w. resp_Err (fst (radix_Cmd rx c ''AUTH'' [ArgStr (cnx_password (fst s))] w)) = None)"
    using assms(2) by (simp_all add: accepted_def)
  note p = NewClient_peer [OF q acc(2)]
  have "tight peer (register addr r s1) \<and> accepted rx (fst (register addr r s1))
    \<and> (snd r = None \<longrightarrow> (\<exists>c. fst r = Some c \<and> map_of (clients (fst (register addr r s1))) addr = Some c))
    \<and> (snd r \<noteq> None \<longrightarrow> clients (fst (register addr r s1)) = clients (fst s))"
  proof (cases q)
    case (Inl e)
    then have "r = (None, Some e)" "s1 = (fst s, w)" using assms(4) q by (simp_all add: connect_unnamed [OF acc(1)])
    then show ?thesis using p Inl assms(1,2) by (simp add: register_def tight_def)
  next
    case (Inr c)
    then have r: "r = (Some c, None)" "s1 = (fst s, w)" using assms(4) q by (simp_all add: connect_unnamed [OF acc(1)])
    have c: "peer (snd s) (client_conn c) = None" "peer w = (peer (snd s))(client_conn c \<mapsto> addr)" using p Inr by simp_all
    have old: "client_conn c' \<noteq> client_conn c" if "map_of (clients (fst s)) b = Some c'" for b c'
      using tightD [OF assms(1) that] c(1) by auto
    have "peer w k = Some b \<longleftrightarrow> (\<exists>c'. map_of (mput addr c (clients (fst s))) b = Some c' \<and> client_conn c' = k)" for k b
      using assms(1,3) c old by (auto simp: tight_def map_of_mput)
    then show ?thesis using r assms(1,2) by (simp add: register_def tight_def wf_mput)
  qed
  then show "tight peer (register addr r s1)" "accepted rx (fst (register addr r s1))"
    "snd r = None \<Longrightarrow> \<exists>c. fst r = Some c \<and> map_of (clients (fst (register addr r s1))) addr = Some c"
    "snd r \<noteq> None \<Longrightarrow> clients (fst (register addr r s1)) = clients (fst s)" by blast+
qed

lemma Get_tight:
  assumes "tight peer s" and "accepted rx (fst s)" and "Get rx env addr s = Some (r, s')"
  shows "tight peer s'" and "accepted rx (fst s')" and "snd r = None \<Longrightarrow> \<exists>c. fst r = Some c \<and> peer (snd s') (client_conn c) = Some addr"
proof -
  have "tight peer s' \<and> accepted rx (fst s') \<and> (snd r = None \<longrightarrow> (\<exists>c. fst r = Some c \<and> map_of (clients (fst s')) addr = Some c))"
  proof (cases "map_of (clients (fst s)) addr")
    case None
    then obtain s1 where "connect rx env addr s = Some (r, s1)" "s' = register addr r s1"
      using assms(3) by (auto simp: Get_def split: bind_splits)
    then show ?thesis using connect_tight [OF assms(1,2) None] by blast
  qed (use assms in \<open>auto simp: Get_def\<close>)
  then show "tight peer s'" "accepted rx (fst s')" "snd r = None \<Longrightarrow> \<exists>c. fst r = Some c \<and> peer (snd s') (client_conn c) = Some addr"
    using tightD by fastforce+
qed

lemma Remove_tight:
  assumes "tight peer s"
  shows "tight peer (Remove rx addr s)" and "accepted rx (fst (Remove rx addr s)) = accepted rx (fst s)"
proof -
  have "tight peer (Remove rx addr s) \<and> accepted rx (fst (Remove rx addr s)) = accepted rx (fst s)"
  proof (cases "map_of (clients (fst s)) addr")
    case None
    then show ?thesis using assms by (cases s) (simp add: Remove_def)
  next
    case (Some c)
    obtain e w' where cl: "radix_Close rx (client_conn c) (snd s) = (e, w')" by fastforce
    have "peer w' k = Some b \<longleftrightarrow> (\<exists>c'. map_of (mdel addr (clients (fst s))) b = Some c' \<and> client_conn c' = k)" for k b
    proof -
      have "peer w' k = Some b \<longleftrightarrow> k \<noteq> client_conn c \<and> peer (snd s) k = Some b" by (simp add: close_peer [OF cl])
      also have "\<dots> \<longleftrightarrow> b \<noteq> addr \<and> (\<exists>c'. map_of (clients (fst s)) b = Some c' \<and> client_conn c' = k)"
      proof -
        have "peer (snd s) k = Some b \<longleftrightarrow> (\<exists>c'. map_of (clients (fst s)) b = Some c' \<and> client_conn c' = k)" using assms by (simp add: tight_def)
        then show ?thesis using Some tightD [OF assms Some] by auto
      qed
      finally show ?thesis using assms by (auto simp: map_of_mdel tight_def)
    qed
    then show ?thesis using assms Some cl by (cases s) (simp add: Remove_def Client_Close_def tight_def wf_mdel)
  qed
  then show "tight peer (Remove rx addr s)" "accepted rx (fst (Remove rx addr s)) = accepted rx (fst s)" by simp_all
qed

lemma Add_new_tight:
  assumes "tight peer s" and "accepted rx (fst s)" and "map_of (clients (fst s)) addr = None" and "Add rx env addr s = Some (e, s')"
  shows "tight peer s'" and "accepted rx (fst s')"
    and "dom (map_of (clients (fst s'))) = dom (map_of (clients (fst s))) \<union> (if e = None then {addr} else {})"
proof -
  obtain r s1 where run: "connect rx env addr s = Some (r, s1)" and s': "s' = register addr r s1" and e: "e = snd r"
    using assms(3,4) that by (cases s) (fastforce simp: Add_def Update_def split: bind_splits)
  note ct = connect_tight [OF assms(1-3) run]
  show "tight peer s'" "accepted rx (fst s')" using ct(1,2) s' by simp_all
  have frame: "map_of (clients (fst s')) b = map_of (clients (fst s)) b" if "b \<noteq> addr" for b
    using connect_register [OF run] that s' by (simp add: touches_only_def)
  show "dom (map_of (clients (fst s'))) = dom (map_of (clients (fst s))) \<union> (if e = None then {addr} else {})"
  proof (cases e)
    case None
    then obtain c where "map_of (clients (fst s')) addr = Some c" using ct(3) s' e by auto
    with None frame have "map_of (clients (fst s')) b = None \<longleftrightarrow> map_of (clients (fst s)) b = None \<and> b \<noteq> addr" for b by (cases "b = addr") auto
    then show ?thesis using None by (auto simp: dom_def)
  next
    case (Some x)
    then show ?thesis using ct(4) s' e by simp
  qed
qed

lemma Reconnect_tight:
  assumes "tight peer s" and "accepted rx (fst s)" and "Reconnect rx env addr s = Some (e, s')"
  shows "tight peer s' \<and> accepted rx (fst s')"
  using Add_new_tight(1,2) [of "Remove rx addr s" addr env e s'] Remove_tight [OF assms(1)] assms(2,3)
  by (simp add: Reconnect_def)

lemma handleError_tight:
  assumes "tight peer s" and "accepted rx (fst s)" and "handleError rx env addr err s = Some (b, s')"
  shows "tight peer s' \<and> accepted rx (fst s')"
  using assms by (auto simp: handleError_def split: option.splits if_splits bind_splits dest: Reconnect_tight)

lemma ValidateResp_tight:
  assumes "tight peer s" and "accepted rx (fst s)" and "ValidateResp rx env resp addr m s = Some (e, s')"
  shows "tight peer s' \<and> accepted rx (fst s')"
  using assms by (auto simp: ValidateResp_def split: option.splits bind_splits dest: handleError_tight)

lemma close_all_peer: "peer (close_all rx cs w) = (\<lambda>k. if k \<in> (client_conn \<circ> snd) ` set cs then None else peer w k)"
proof (induction cs arbitrary: w)
  case (Cons p cs)
  obtain e w' where "radix_Close rx (client_conn (snd p)) w = (e, w')" by fastforce
  then show ?case
    using Cons.IH [of w'] close_peer [of "client_conn (snd p)" w e w']
    by (auto simp: close_all_def Client_Close_def case_prod_unfold fun_eq_iff)
qed (simp add: close_all_def)

lemma Reset_tight:
  assumes "go_runtime env" and "tight peer s"
  shows "tight peer (Reset rx env s)" and "peer (snd (Reset rx env s)) = Map.empty" and "clients (fst (Reset rx env s)) = []"
proof -
  have wf: "wf_map (clients (fst s))" using assms(2) by (simp add: tight_def)
  have "set (mrange env 20 (clients (fst s))) = set (clients (fst s))" by (rule go_runtime.mrange_set [OF assms(1) wf])
  moreover have "k \<in> (client_conn \<circ> snd) ` set (clients (fst s))" if "peer (snd s) k = Some b" for k b
    using assms(2) that by (force simp: tight_def dest: map_of_SomeD)
  ultimately show closed: "peer (snd (Reset rx env s)) = Map.empty"
    by (auto simp: Reset_def close_all_peer fun_eq_iff) (metis not_None_eq)
  then show "tight peer (Reset rx env s)" by (simp add: tight_def) (simp add: Reset_def)
  show "clients (fst (Reset rx env s)) = []" by (simp add: Reset_def)
qed

lemma AddAll_tight:
  assumes "tight peer s" and "accepted rx (fst s)" and "distinct addrs" and "set addrs \<inter> dom (map_of (clients (fst s))) = {}"
    and "AddAll rx env addrs s = Some s'"
  shows "tight peer s' \<and> accepted rx (fst s') \<and> dom (map_of (clients (fst s'))) \<subseteq> dom (map_of (clients (fst s))) \<union> set addrs"
  using assms
proof (induction addrs arbitrary: s)
  case (Cons a addrs)
  then obtain e s1 where add: "Add rx env a s = Some (e, s1)" and rest: "AddAll rx env addrs s1 = Some s'"
    by (auto split: bind_splits)
  have "map_of (clients (fst s)) a = None" using Cons.prems(4) by auto
  note t = Add_new_tight [OF Cons.prems(1,2) this add]
  have "set addrs \<inter> dom (map_of (clients (fst s1))) = {}" using t(3) Cons.prems(3,4) by (auto split: if_splits)
  from Cons.IH [OF t(1,2) _ this rest] Cons.prems(3) t(3) show ?case by (auto split: if_splits)
qed simp

lemma pipe_tight:
  assumes "ValidatePipeResp_loop rx env client addr ok s = Some r" and "tight peer s" and "accepted rx (fst s)"
  shows "tight peer (snd r) \<and> accepted rx (fst (snd r))"
proof -
  have "rx' = rx \<longrightarrow> tight peer s' \<longrightarrow> accepted rx (fst s') \<longrightarrow> tight peer (snd r') \<and> accepted rx (fst (snd r'))"
    if "ValidatePipeResp_loop rx' env' client' addr' ok' s' = Some r'" for rx' env' client' addr' ok' s' r'
  proof (rule ValidatePipeResp_loop.raw_induct [OF _ that], intro impI, goal_cases)
    case (1 rec rx' env' client' addr' ok' s' r')
    obtain resp w where p: "Client_PipeResp rx client' (snd s') = (resp, w)" by fastforce
    have t: "tight peer (fst s', w)"
      using 1(4) pipe_peer [of "client_conn client'" "snd s'" resp w] p by (simp add: tight_def Client_PipeResp_def)
    consider "snd r' = (fst s', w)" | ok'' where "rec rx env' client' addr' ok'' (fst s', w) = Some r'"
      | e b s2 where "handleError rx env' addr' (Some e) (fst s', w) = Some (b, s2)"
          "snd r' = s2 \<or> rec rx env' client' addr' False s2 = Some r'"
      using 1(2,3) p by (auto simp: Let_def split: option.splits if_splits bind_splits)
    then show ?case
    proof cases
      case 1
      then show ?thesis using t \<open>accepted rx (fst s')\<close> by simp
    next
      case 2
      then show ?thesis using 1(1) t 1(5) by simp
    next
      case 3
      have "tight peer s2 \<and> accepted rx (fst s2)" using handleError_tight [OF t _ 3(1)] 1(5) by simp
      then show ?thesis using 3(2) 1(1) by blast
    qed
  qed
  with assms show ?thesis by blast
qed

end

text \<open>The operations of the admin on its pool as steps. \<open>AddAll\<close> is called on a new pool or, by \<open>ReplaceAll\<close>, on an emptied one. The servers may
  change at any time; they do not open or close connections of the operator.\<close>

inductive pool_step :: "'w radix \<Rightarrow> ('w \<Rightarrow> conn \<rightharpoonup> string) \<Rightarrow> go_env \<Rightarrow> 'w cw \<Rightarrow> 'w cw \<Rightarrow> bool" for rx peer env where
  step_remove: "pool_step rx peer env s (Remove rx addr s)"
| step_get: "Get rx env addr s = Some (r, s') \<Longrightarrow> pool_step rx peer env s s'"
| step_reconnect: "Reconnect rx env addr s = Some (e, s') \<Longrightarrow> pool_step rx peer env s s'"
| step_add: "Add rx env addr s = Some (e, s') \<Longrightarrow> map_of (clients (fst s)) addr = None \<Longrightarrow> pool_step rx peer env s s'"
| step_reset: "pool_step rx peer env s (Reset rx env s)"
| step_replace: "ReplaceAll rx env addrs s = Some s' \<Longrightarrow> distinct addrs \<Longrightarrow> pool_step rx peer env s s'"
| step_validate: "ValidateResp rx env resp addr m s = Some (e, s') \<Longrightarrow> pool_step rx peer env s s'"
| step_pipe: "ValidatePipeResp rx env client addr s = Some (b, s') \<Longrightarrow> pool_step rx peer env s s'"
| step_server: "peer w = peer (snd s) \<Longrightarrow> pool_step rx peer env s (fst s, w)"

inductive pool_reach :: "'w radix \<Rightarrow> ('w \<Rightarrow> conn \<rightharpoonup> string) \<Rightarrow> go_env \<Rightarrow> 'w cw \<Rightarrow> bool" for rx peer env where
  reach_new: "NewAdminConnections rx env files addrs options w = Some s \<Longrightarrow> distinct addrs \<Longrightarrow> peer w = Map.empty \<Longrightarrow> accepted rx (fst s)
    \<Longrightarrow> pool_reach rx peer env s"
| reach_step: "pool_reach rx peer env s \<Longrightarrow> pool_step rx peer env s s' \<Longrightarrow> pool_reach rx peer env s'"

lemma keeps_settings_AddAll: "AddAll rx env addrs s = Some s' \<Longrightarrow> \<exists>cs. fst s' = (fst s)\<lparr>clients := cs\<rparr>"
proof (induction addrs arbitrary: s)
  case Nil
  then show ?case by (auto intro: exI [of _ "clients (fst s)"])
next
  case (Cons a addrs)
  then obtain e s1 where add: "Add rx env a s = Some (e, s1)" and rest: "AddAll rx env addrs s1 = Some s'"
    by (auto split: bind_splits)
  from Add_touches [OF add] obtain cs where "fst s1 = (fst s)\<lparr>clients := cs\<rparr>" by (auto simp: touches_only_def)
  with Cons.IH [OF rest] show ?case by auto
qed

lemma ReplaceAll_tight:
  assumes "conn_driver rx peer" and "go_runtime env" and "tight peer s" and "accepted rx (fst s)" and "distinct addrs"
    and "ReplaceAll rx env addrs s = Some s'"
  shows "tight peer s' \<and> accepted rx (fst s') \<and> dom (map_of (clients (fst s'))) \<subseteq> set addrs"
proof -
  note rs = conn_driver.Reset_tight [OF assms(1-3)]
  have "accepted rx (fst (Reset rx env s))" using assms(4) by (simp add: Reset_def)
  from conn_driver.AddAll_tight [OF assms(1) rs(1) this assms(5) _ assms(6) [unfolded ReplaceAll_def]] rs(3) show ?thesis by simp
qed

lemma pool_reach_tight:
  assumes "conn_driver rx peer" and "go_runtime env" and "pool_reach rx peer env s"
  shows "tight peer s \<and> accepted rx (fst s)"
  using assms(3)
proof (induction rule: pool_reach.induct)
  case (reach_new files addrs options w s)
  then obtain cnx where run: "AddAll rx env addrs (cnx, w) = Some s" and empty: "clients cnx = []"
    by (fastforce simp: NewAdminConnections_def Let_def split: option.splits if_splits)
  have "accepted rx (fst (cnx, w))" using keeps_settings_AddAll [OF run] reach_new(4) by auto
  moreover have "tight peer (cnx, w)" using empty reach_new(3) by (simp add: tight_def)
  ultimately show ?case using conn_driver.AddAll_tight [OF assms(1) _ _ reach_new(2) _ run] empty by simp
next
  case (reach_step s s')
  then have t: "tight peer s" "accepted rx (fst s)" by simp_all
  from reach_step(2) show ?case
  proof cases
    case (step_replace addrs)
    then show ?thesis using ReplaceAll_tight [OF assms(1,2) t] by blast
  next
    case (step_pipe client addr b)
    then show ?thesis using conn_driver.pipe_tight [OF assms(1) _ t] by (fastforce simp: ValidatePipeResp_def)
  next
    case step_reset
    then show ?thesis using conn_driver.Reset_tight(1) [OF assms(1,2) t(1)] t(2) by (simp add: Reset_def)
  next
    case (step_server w)
    then show ?thesis using t by (simp add: tight_def)
  next
    case (step_remove addr)
    then show ?thesis using conn_driver.Remove_tight [OF assms(1) t(1)] t(2) by simp
  next
    case (step_get addr r)
    then show ?thesis using conn_driver.Get_tight(1,2) [OF assms(1) t] by blast
  next
    case (step_reconnect addr e)
    then show ?thesis using conn_driver.Reconnect_tight [OF assms(1) t] by blast
  next
    case (step_add addr e)
    then show ?thesis using conn_driver.Add_new_tight(1,2) [OF assms(1) t] by blast
  next
    case (step_validate resp addr m e)
    then show ?thesis using conn_driver.ValidateResp_tight [OF assms(1) t] by blast
  qed
qed


text \<open>\<open>Add\<close> of an address that is in the pool closes its client first. When the new connection fails, the closed client stays in
  the pool, and \<open>Get\<close> hands it out.\<close>

lemma Add_keeps_closed:
  assumes "conn_driver rx peer" and "tight peer s" and "accepted rx (fst s)" and "map_of (clients (fst s)) addr = Some c"
    and "Add rx env addr s = Some (Some e, s')"
  shows "peer (snd s') (client_conn c) = None \<and> Get rx env addr s' = Some ((Some c, None), s')"
proof -
  obtain er w' where cl: "radix_Close rx (client_conn c) (snd s) = (er, w')" by fastforce
  obtain q w where q: "NewClient rx addr (cnx_password (fst s)) (connectionTimeout (fst s)) (commandsMapping (fst s)) w' = (q, w)" by fastforce
  have acc: "cnx_clientName (fst s) = []"
    "cnx_password (fst s) = [] \<or> (\<forall>c w. resp_Err (fst (radix_Cmd rx c ''AUTH'' [ArgStr (cnx_password (fst s))] w)) = None)"
    using assms(3) by (simp_all add: accepted_def)
  have "q = Inl e \<and> s' = (fst s, w)"
    using assms(4,5) cl q acc(1)
    by (cases s) (auto simp: Add_def Update_def Client_Close_def connect_unnamed register_def split: bind_splits sum.splits)
  then show ?thesis
    using conn_driver.NewClient_peer [OF assms(1) q acc(2)] conn_driver.close_peer [OF assms(1) cl] assms(4) by (simp add: Get_def)
qed

text \<open>A driver that numbers its connections and refuses some addresses.\<close>

record handle_world =
  next_handle :: conn
  handles :: "conn \<rightharpoonup> string"

definition handle_radix :: "(string \<Rightarrow> bool) \<Rightarrow> handle_world radix" where
  "handle_radix refuse = \<lparr>
     DialTimeout = (\<lambda>addr t w. if refuse addr \<or> handles w (next_handle w) \<noteq> None then (Inl (NetOpError ''connection refused''), w)
       else (Inr (next_handle w), \<lparr>next_handle = next_handle w + 1, handles = (handles w)(next_handle w \<mapsto> addr)\<rparr>)),
     radix_Cmd = (\<lambda>c cmd args w. (reply None, w)), radix_PipeAppend = (\<lambda>c cmd args w. w), radix_PipeResp = (\<lambda>c w. (None, w)),
     radix_PipeClear = (\<lambda>c w. ((0, 0), w)), radix_ReadResp = (\<lambda>c w. (None, w)),
     radix_Close = (\<lambda>c w. (None, w\<lparr>handles := (handles w)(c := None)\<rparr>))\<rparr>"

interpretation handles: conn_driver "handle_radix refuse" handles
  for refuse
  by unfold_locales (auto simp: handle_radix_def split: if_splits)


end
