(* ===== verification/ClusterInfo.thy ===== *)
theory ClusterInfo
  imports Nodes
begin

text \<open>
  \<open>pkg/redisutil/clusterinfo.go\<close>: the answers of \<open>CLUSTER NODES\<close> decoded into nodes, the view every
  node has of the cluster, and the test whether these views agree. Decoding allocates nodes, so it
  works on a node store with a next free reference. \<open>Friends\<close> is a slice whose spare capacity
  matters: \<open>ComputeStatus\<close> appends to it and sorts the result, and while the appended element fits,
  both slices share their array.
\<close>

section \<open>Data\<close>

definition ClusterInfosUnset :: string where "ClusterInfosUnset = ''Unset''"
definition ClusterInfosPartial :: string where "ClusterInfosPartial = ''Partial''"
definition ClusterInfosInconsistent :: string where "ClusterInfosInconsistent = ''Inconsistent''"
definition ClusterInfosConsistent :: string where "ClusterInfosConsistent = ''Consistent''"

lemmas infos_status_defs = ClusterInfosUnset_def ClusterInfosPartial_def ClusterInfosInconsistent_def
  ClusterInfosConsistent_def

lemma infos_status_distinct [simp]:
  "ClusterInfosConsistent \<noteq> ClusterInfosUnset" "ClusterInfosUnset \<noteq> ClusterInfosConsistent"
  "ClusterInfosInconsistent \<noteq> ClusterInfosUnset" "ClusterInfosUnset \<noteq> ClusterInfosInconsistent"
  "ClusterInfosPartial \<noteq> ClusterInfosUnset" "ClusterInfosUnset \<noteq> ClusterInfosPartial"
  "ClusterInfosPartial \<noteq> ClusterInfosConsistent" "ClusterInfosConsistent \<noteq> ClusterInfosPartial"
  "ClusterInfosInconsistent \<noteq> ClusterInfosConsistent" "ClusterInfosConsistent \<noteq> ClusterInfosInconsistent"
  "ClusterInfosInconsistent \<noteq> ClusterInfosPartial" "ClusterInfosPartial \<noteq> ClusterInfosInconsistent"
  by (simp_all add: infos_status_defs)

type_synonym nstore = "nheap \<times> nref"

definition new_node :: "Node \<Rightarrow> nstore \<Rightarrow> nref \<times> nstore" where
  "new_node n s = (snd s, ((fst s)(snd s := n), snd s + 1))"

text \<open>\<open>Infos\<close> is a map of pointers, but nothing else refers to the \<open>NodeInfos\<close> in it and no \<open>nil\<close> is
  stored, so the map holds the records.\<close>

record NodeInfos =
  nodeinfos_Node :: nref
  Friends :: Nodes
  friends_cap :: nat

record ClusterInfos =
  Infos :: "(string, NodeInfos) gomap"
  infos_Status :: string

definition NewNodeInfos :: "nstore \<Rightarrow> NodeInfos \<times> nstore" where
  "NewNodeInfos s =
     (let (r, s) = new_node NewDefaultNode s in (\<lparr>nodeinfos_Node = r, Friends = [], friends_cap = 0\<rparr>, s))"

definition NewClusterInfos :: ClusterInfos where
  "NewClusterInfos = \<lparr>Infos = [], infos_Status = ClusterInfosUnset\<rparr>"

section \<open>Decoding\<close>

text \<open>The start time of a server; a time is a number of nanoseconds, and \<open>time.Now()\<close> is the
  parameter \<open>now\<close>. \<open>strings.Split\<close> never returns an empty slice, so \<open>values[0]\<close> is safe, but
  \<open>values[1]\<close> panics on a line without a colon.\<close>

fun start_time_lines :: "int \<Rightarrow> string list \<Rightarrow> (int \<times> goerr option) outcome" where
  "start_time_lines now [] =
     Ret (now, Some (Errorf ''error while decoding redis instance uptime in seconds. no data found''))"
| "start_time_lines now (line # lines) =
     (let values = split_on (CHR '':'') line in
      if hd values = ''uptime_in_seconds'' then
        outcome_bind (go_index values 1) (\<lambda>v.
          case Atoi (TrimSpace v) of
            Inl err \<Rightarrow> Ret (now, Some err)
          | Inr uptimeInSeconds \<Rightarrow> Ret (now + i64 (i64 (- uptimeInSeconds) * 10 ^ 9), None))
      else start_time_lines now lines)"

definition DecodeNodeStartTime :: "int \<Rightarrow> string \<Rightarrow> (int \<times> goerr option) outcome" where
  "DecodeNodeStartTime now input = start_time_lines now (split_on (CHR ''\<newline>'') input)"

definition splitHostPort :: "string \<Rightarrow> goerr + (string \<times> string)" where
  "splitHostPort address =
     (case last_index_of (CHR '':'') address of
        None \<Rightarrow> Inl (Errorf (''splitHostPort failed, invalid address '' @ address))
      | Some i \<Rightarrow> Inr (take i address, drop (i + 1) address))"

text \<open>The slots of a line; a slot text with an error is skipped, and \<open>None\<close> is the line whose
  slot range makes \<open>BuildSlotSlice\<close> run forever.\<close>

fun add_decoded :: "decoded_range \<Rightarrow> Node \<Rightarrow> Node" where
  "add_decoded (s, importing, migrating, Some err) node = node"
| "add_decoded (s, importing, migrating, None) node =
     (let node = node\<lparr>Slots := Slots node @ s\<rparr>;
          node = (case importing of None \<Rightarrow> node
                  | Some i \<Rightarrow> node\<lparr>ImportingSlots := mput (imp_SlotID i) (FromNodeID i) (ImportingSlots node)\<rparr>)
      in case migrating of None \<Rightarrow> node
         | Some m \<Rightarrow> node\<lparr>MigratingSlots := mput (mig_SlotID m) (ToNodeID m) (MigratingSlots node)\<rparr>)"

fun decode_slots :: "string list \<Rightarrow> Node \<Rightarrow> Node option" where
  "decode_slots [] node = Some node"
| "decode_slots (slot # rest) node =
     (case DecodeSlotRange slot of None \<Rightarrow> None | Some d \<Rightarrow> decode_slots rest (add_decoded d node))"

definition parse_or :: "int \<Rightarrow> string \<Rightarrow> int" where
  "parse_or old s = (case ParseInt s of Inl err \<Rightarrow> old | Inr i \<Rightarrow> i)"

definition decode_addr :: "string \<Rightarrow> string \<Rightarrow> Node \<Rightarrow> Node" where
  "decode_addr addr v node =
     (case splitHostPort (hd (split_on (CHR ''@'') v)) of
        Inl err \<Rightarrow> node
      | Inr (ip, port) \<Rightarrow>
          let node = node\<lparr>IP := ip, Port := port\<rparr>
          in if ip = [] then node\<lparr>IP := (case SplitHostPort addr of Inl err \<Rightarrow> [] | Inr (host, _) \<Rightarrow> host)\<rparr>
             else node)"

definition decode_node :: "string \<Rightarrow> string list \<Rightarrow> Node option" where
  "decode_node addr values =
     (let node = NewDefaultNode\<lparr>ID := values ! 0\<rparr>;
          node = decode_addr addr (values ! 1) node;
          node = fst (SetRole (values ! 2) node);
          node = SetFailureStatus (values ! 2) node;
          node = SetReferentMaster (values ! 3) node;
          node = node\<lparr>PingSent := parse_or (PingSent node) (values ! 4)\<rparr>;
          node = node\<lparr>PongRecv := parse_or (PongRecv node) (values ! 5)\<rparr>;
          node = node\<lparr>ConfigEpoch := parse_or (ConfigEpoch node) (values ! 6)\<rparr>;
          node = fst (SetLinkStatus (values ! 7) node)
      in decode_slots (drop 8 values) node)"

fun decode_lines :: "go_env \<Rightarrow> string \<Rightarrow> string list \<Rightarrow> NodeInfos \<Rightarrow> nstore \<Rightarrow> (NodeInfos \<times> nstore) option" where
  "decode_lines env addr [] infos s = Some (infos, s)"
| "decode_lines env addr (line # lines) infos s =
     (let values = split_on (CHR '' '') line in
      if length values < 8 then decode_lines env addr lines infos s
      else case decode_node addr values of
        None \<Rightarrow> None
      | Some node \<Rightarrow>
          let (r, s) = new_node node s in
          if HasPrefix (values ! 2) ''myself''
          then decode_lines env addr lines (infos\<lparr>nodeinfos_Node := r\<rparr>) s
          else decode_lines env addr lines
                 (infos\<lparr>Friends := Friends infos @ [r], friends_cap := append_cap env (length (Friends infos) + 1)\<rparr>) s)"

definition DecodeNodeInfos :: "go_env \<Rightarrow> string \<Rightarrow> string \<Rightarrow> nstore \<Rightarrow> (NodeInfos \<times> nstore) option" where
  "DecodeNodeInfos env input addr s =
     (let (infos, s) = NewNodeInfos s in decode_lines env addr (split_on (CHR ''\<newline>'') input) infos s)"

section \<open>The status of the views\<close>

definition GetNodes :: "go_env \<Rightarrow> nat \<Rightarrow> ClusterInfos \<Rightarrow> Nodes" where
  "GetNodes env i c = map (\<lambda>p. nodeinfos_Node (snd p)) (mrange env i (Infos c))"

type_synonym ConfigSignature = "(string, Slot list) gomap"

definition ConfigSignature_String :: "ConfigSignature \<Rightarrow> string" where
  "ConfigSignature_String c =
     ''map['' @ concat (map (\<lambda>i. i @ '':'' @ SlotSlice_String (mget [] c i) @ ''\<newline>'') (sort (mkeys c))) @ '']''"

fun getConfigSignature_from :: "nheap \<Rightarrow> Nodes \<Rightarrow> ConfigSignature \<Rightarrow> ConfigSignature" where
  "getConfigSignature_from h [] signature = signature"
| "getConfigSignature_from h (node # nodes) signature =
     getConfigSignature_from h nodes
       (if Role (h node) = RedisMasterRole then mput (IPPort (h node)) (Slots (h node)) signature else signature)"

definition getConfigSignature :: "nheap \<Rightarrow> Nodes \<Rightarrow> ConfigSignature" where
  "getConfigSignature h nodes = getConfigSignature_from h nodes []"

text \<open>\<open>reflect.DeepEqual\<close> on two maps of slices, none of which is \<open>nil\<close>.\<close>

definition map_DeepEqual :: "(string, 'a) gomap \<Rightarrow> (string, 'a) gomap \<Rightarrow> bool" where
  "map_DeepEqual a b \<longleftrightarrow> length a = length b \<and> list_all (\<lambda>(k, v). map_of b k = Some v) a"

text \<open>\<open>append(nodeinfos.Friends, nodeinfos.Node).SortByFunc(LessByID)\<close>: the sorted view, and what is
  left in \<open>Friends\<close>. With spare capacity the append does not copy, and the first positions of the
  sorted array are the friends afterwards.\<close>

definition sorted_view :: "go_env \<Rightarrow> nheap \<Rightarrow> NodeInfos \<Rightarrow> Nodes \<times> NodeInfos" where
  "sorted_view env h ni =
     (let view = SortByFunc env (LessByID h) (Friends ni @ [nodeinfos_Node ni])
      in (view, if length (Friends ni) < friends_cap ni
                then ni\<lparr>Friends := take (length (Friends ni)) view\<rparr> else ni))"

fun ComputeStatus_loop :: "go_env \<Rightarrow> nheap \<Rightarrow> ConfigSignature \<Rightarrow> (string \<times> NodeInfos) list \<Rightarrow> ClusterInfos
    \<Rightarrow> ClusterInfos" where
  "ComputeStatus_loop env h sig [] c = c"
| "ComputeStatus_loop env h sig ((addr, nodeinfos) # rest) c =
     (let (nodesView, nodeinfos) = sorted_view env h nodeinfos;
          c = c\<lparr>Infos := mput addr nodeinfos (Infos c)\<rparr>
      in ComputeStatus_loop env h sig rest
           (if \<not> map_DeepEqual sig (getConfigSignature h nodesView)
            then c\<lparr>infos_Status := ClusterInfosInconsistent\<rparr> else c))"

definition ComputeStatus :: "go_env \<Rightarrow> nheap \<Rightarrow> ClusterInfos \<Rightarrow> bool \<times> ClusterInfos" where
  "ComputeStatus env h c =
     (if infos_Status c \<noteq> ClusterInfosUnset then (False, c)
      else
        let consolidatedView = SortByFunc env (LessByID h) (GetNodes env 10 c);
            c = ComputeStatus_loop env h (getConfigSignature h consolidatedView) (mrange env 11 (Infos c)) c
        in if infos_Status c = ClusterInfosUnset then (True, c\<lparr>infos_Status := ClusterInfosConsistent\<rparr>)
           else (False, c))"

section \<open>Signatures\<close>

definition view_masters :: "nheap \<Rightarrow> nref set \<Rightarrow> (string \<times> Slot list) set" where
  "view_masters h R = {(IPPort (h r), Slots (h r)) |r. r \<in> R \<and> Role (h r) = RedisMasterRole}"

lemma wf_getConfigSignature_from: "wf_map sig \<Longrightarrow> wf_map (getConfigSignature_from h ns sig)"
  by (induction ns arbitrary: sig) auto

lemma wf_getConfigSignature [simp]: "wf_map (getConfigSignature h ns)"
  by (simp add: getConfigSignature_def wf_getConfigSignature_from)

lemma set_mput_same: "(\<And>w. (k, w) \<in> set m \<Longrightarrow> w = v) \<Longrightarrow> set (mput k v m) = insert (k, v) (set m)"
proof (induction m)
  case (Cons p m)
  then have "set (mput k v m) = insert (k, v) (set m)" by simp
  with Cons.prems show ?case by (cases p) auto
qed simp

lemma getConfigSignature_from_set:
  assumes "wf_map sig" and "single_valued (set sig \<union> view_masters h (set ns))"
  shows "set (getConfigSignature_from h ns sig) = set sig \<union> view_masters h (set ns)"
  using assms
proof (induction ns arbitrary: sig)
  case Nil
  then show ?case by (simp add: view_masters_def)
next
  case (Cons n ns)
  have split: "view_masters h (set (n # ns)) = view_masters h {n} \<union> view_masters h (set ns)"
    by (auto simp: view_masters_def)
  show ?case
  proof (cases "Role (h n) = RedisMasterRole")
    case False
    then have "view_masters h {n} = {}" by (simp add: view_masters_def)
    with Cons False split show ?thesis by simp
  next
    case True
    let ?k = "IPPort (h n)" and ?v = "Slots (h n)"
    have one: "view_masters h {n} = {(?k, ?v)}" using True by (auto simp: view_masters_def)
    have "v = ?v" if "(?k, v) \<in> set sig" for v
      using Cons.prems(2) that one unfolding split single_valued_def by blast
    then have sig: "set (mput ?k ?v sig) = insert (?k, ?v) (set sig)"
      by (rule set_mput_same)
    have "set (getConfigSignature_from h ns (mput ?k ?v sig)) = set (mput ?k ?v sig) \<union> view_masters h (set ns)"
      using Cons.prems unfolding split one by (intro Cons.IH) (simp_all add: sig insert_commute)
    with True show ?thesis unfolding split one by (simp add: sig)
  qed
qed

lemma getConfigSignature_set:
  "single_valued (view_masters h (set ns)) \<Longrightarrow> set (getConfigSignature h ns) = view_masters h (set ns)"
  using getConfigSignature_from_set [of "[]" h ns] by (simp add: getConfigSignature_def)

lemma map_DeepEqual_iff:
  assumes "wf_map a" and "wf_map b"
  shows "map_DeepEqual a b \<longleftrightarrow> set a = set b"
proof
  assume "map_DeepEqual a b"
  then have len: "length a = length b" and "set a \<subseteq> set b"
    by (auto simp: map_DeepEqual_def list_all_iff dest: map_of_SomeD)
  moreover have "card (set a) = card (set b)"
    using assms len by (metis distinct_card distinct_map)
  ultimately show "set a = set b" by (simp add: card_subset_eq)
next
  assume eq: "set a = set b"
  then have "length a = length b"
    using assms by (metis distinct_card distinct_map)
  with eq assms(2) show "map_DeepEqual a b"
    by (auto simp: map_DeepEqual_def list_all_iff)
qed

section \<open>The loop\<close>

lemma sorted_view_set:
  assumes "go_runtime env"
  shows "set (fst (sorted_view env h ni)) = insert (nodeinfos_Node ni) (set (Friends ni))"
  using go_runtime.sort_set [OF assms]
  by (simp add: sorted_view_def Let_def SortByFunc_def)

lemma ComputeStatus_loop_Infos:
  "distinct (map fst l) \<Longrightarrow>
   Infos (ComputeStatus_loop env h sig l c)
     = fold (\<lambda>(addr, ni) m. mput addr (snd (sorted_view env h ni)) m) l (Infos c)"
  by (induction env h sig l c rule: ComputeStatus_loop.induct) (auto simp: Let_def split: prod.split)

lemma ComputeStatus_loop_status:
  "infos_Status (ComputeStatus_loop env h sig l c)
     = (if \<forall>(addr, ni)\<in>set l. map_DeepEqual sig (getConfigSignature h (fst (sorted_view env h ni)))
        then infos_Status c else ClusterInfosInconsistent)"
  by (induction env h sig l c rule: ComputeStatus_loop.induct) (auto simp: Let_def split: prod.split)

lemma fold_mput_image:
  "distinct (map fst l) \<Longrightarrow>
   map_of (fold (\<lambda>(k, v) m. mput k (f v) m) l m) = map_of m ++ map_of (map (\<lambda>(k, v). (k, f v)) l)"
proof (induction l arbitrary: m)
  case (Cons a l)
  obtain k v where a: "a = (k, v)" by fastforce
  with Cons.prems have "k \<notin> dom (map_of (map (\<lambda>(k, v). (k, f v)) l))"
    by (simp add: dom_map_of_conv_image_fst image_image case_prod_unfold)
  with Cons a show ?case by (auto simp: map_add_def fun_eq_iff split: option.splits)
qed simp

lemma ComputeStatus_Infos:
  assumes "go_runtime env" and "wf_map (Infos c)" and "infos_Status c = ClusterInfosUnset"
    and "ComputeStatus env h c = (ok, c')"
  shows "map_of (Infos c') = (\<lambda>addr. map_option (\<lambda>ni. snd (sorted_view env h ni)) (map_of (Infos c) addr))"
proof -
  let ?l = "mrange env 11 (Infos c)" and ?f = "\<lambda>ni. snd (sorted_view env h ni)"
  have l: "distinct (map fst ?l)" "map_of ?l = map_of (Infos c)"
    using go_runtime.mrange_distinct_keys [OF assms(1,2)] go_runtime.map_of_mrange [OF assms(1,2)] by auto
  have "Infos c' = fold (\<lambda>(addr, ni) m. mput addr (?f ni) m) ?l (Infos c)"
    using assms(3,4) by (auto simp: ComputeStatus_def Let_def ComputeStatus_loop_Infos [OF l(1)] split: if_splits)
  then have "map_of (Infos c') = map_of (Infos c) ++ map_of (map (\<lambda>(k, v). (k, ?f v)) ?l)"
    using fold_mput_image [OF l(1)] by simp
  also have "map_of (map (\<lambda>(k, v). (k, ?f v)) ?l) = (\<lambda>addr. map_option ?f (map_of (Infos c) addr))"
    by (simp add: map_of_map l(2) o_def)
  finally show ?thesis by (auto simp: fun_eq_iff map_add_def split: option.splits)
qed

section \<open>Properties of the status\<close>

text \<open>C9. When the status has not been set before, \<open>ComputeStatus\<close> says the cluster is consistent exactly when every node that answered sees
  the same masters at the same addresses with the same slots as the nodes report of themselves, and sets the status accordingly.
  The answer does not depend on the order in which the map is visited or ties are sorted. In every view and in the nodes' own
  reports, an address is assumed to have one list of slots only.\<close>

theorem ComputeStatus_correct:
  assumes "go_runtime env" and "wf_map (Infos c)" and unset: "infos_Status c = ClusterInfosUnset"
    and "ComputeStatus env h c = (ok, c')"
    and "\<And>addr ni. (addr, ni) \<in> set (Infos c) \<Longrightarrow>
           single_valued (view_masters h (insert (nodeinfos_Node ni) (set (Friends ni))))"
    and "single_valued (view_masters h (nodeinfos_Node ` snd ` set (Infos c)))"
  shows "(ok \<longleftrightarrow> (\<forall>(addr, ni)\<in>set (Infos c).
            view_masters h (insert (nodeinfos_Node ni) (set (Friends ni)))
              = view_masters h (nodeinfos_Node ` snd ` set (Infos c))))
    \<and> infos_Status c' = (if ok then ClusterInfosConsistent else ClusterInfosInconsistent)"
proof -
  let ?all = "view_masters h (nodeinfos_Node ` snd ` set (Infos c))"
  let ?view = "\<lambda>ni. view_masters h (insert (nodeinfos_Node ni) (set (Friends ni)))"
  define sig where "sig = getConfigSignature h (SortByFunc env (LessByID h) (GetNodes env 10 c))"
  define l where "l = mrange env 11 (Infos c)"
  have set_l: "set l = set (Infos c)"
    unfolding l_def by (rule go_runtime.mrange_set [OF assms(1,2)])
  have "set (SortByFunc env (LessByID h) (GetNodes env 10 c)) = nodeinfos_Node ` snd ` set (Infos c)"
    using go_runtime.sort_set [OF assms(1)] go_runtime.mrange_set [OF assms(1,2)]
    by (simp add: SortByFunc_def GetNodes_def image_image)
  then have sig: "set sig = ?all"
    unfolding sig_def using assms(6) by (simp add: getConfigSignature_set)
  have one: "map_DeepEqual sig (getConfigSignature h (fst (sorted_view env h ni))) \<longleftrightarrow> ?view ni = ?all"
    if "(addr, ni) \<in> set (Infos c)" for addr ni
  proof -
    have "set (getConfigSignature h (fst (sorted_view env h ni))) = ?view ni"
      using assms(5) [OF that] by (simp add: getConfigSignature_set sorted_view_set [OF assms(1)])
    then show ?thesis using map_DeepEqual_iff [of sig] sig by (auto simp: sig_def)
  qed
  have "(\<forall>(addr, ni)\<in>set (Infos c). map_DeepEqual sig (getConfigSignature h (fst (sorted_view env h ni))))
      \<longleftrightarrow> (\<forall>(addr, ni)\<in>set (Infos c). ?view ni = ?all)"
  proof (intro ball_cong refl)
    fix x assume "x \<in> set (Infos c)"
    then show "(case x of (addr, ni) \<Rightarrow> map_DeepEqual sig (getConfigSignature h (fst (sorted_view env h ni))))
        \<longleftrightarrow> (case x of (addr, ni) \<Rightarrow> ?view ni = ?all)"
      using one [of "fst x" "snd x"] by (simp add: case_prod_unfold)
  qed
  then have "infos_Status (ComputeStatus_loop env h sig l c)
      = (if \<forall>(addr, ni)\<in>set (Infos c). ?view ni = ?all then ClusterInfosUnset else ClusterInfosInconsistent)"
    unfolding ComputeStatus_loop_status set_l unset by simp
  then show ?thesis
    using assms(4) unset by (auto simp: ComputeStatus_def sig_def [symmetric] l_def [symmetric] split: if_splits)
qed

definition demo_views :: nheap where
  "demo_views r = (if r \<in> {2, 5} then sample_node ''a1'' ''10.0.0.1'' ''master'' '''' '''' [0, 1]
     else if r \<in> {3, 4} then sample_node ''b2'' ''10.0.0.2'' ''master'' '''' '''' [2, 3]
     else sample_node ''c3'' ''10.0.0.3'' ''slave'' '''' '''' [])"

definition demo_infos :: ClusterInfos where
  "demo_infos = \<lparr>Infos = [(''10.0.0.1:6379'', \<lparr>nodeinfos_Node = 2, Friends = [4, 7], friends_cap = 4\<rparr>),
     (''10.0.0.2:6379'', \<lparr>nodeinfos_Node = 3, Friends = [5, 7], friends_cap = 2\<rparr>)], infos_Status = ClusterInfosUnset\<rparr>"

lemma demo_views_addr:
  "IPPort (demo_views 2) = ''10.0.0.1:6379''" "IPPort (demo_views 5) = ''10.0.0.1:6379''"
  "IPPort (demo_views 3) = ''10.0.0.2:6379''" "IPPort (demo_views 4) = ''10.0.0.2:6379''"
  by (simp_all add: demo_views_def sample_node_def NewDefaultNode_def IPPort_def JoinHostPort_def DefaultRedisPort_def)

lemma demo_views_simps:
  "Role (demo_views 2) = RedisMasterRole" "Role (demo_views 3) = RedisMasterRole"
  "Role (demo_views 4) = RedisMasterRole" "Role (demo_views 5) = RedisMasterRole"
  "Role (demo_views 7) \<noteq> RedisMasterRole"
  "Slots (demo_views 2) = [0, 1]" "Slots (demo_views 5) = [0, 1]"
  "Slots (demo_views 3) = [2, 3]" "Slots (demo_views 4) = [2, 3]"
  "ID (demo_views 2) = ''a1''" "ID (demo_views 4) = ''b2''" "ID (demo_views 7) = ''c3''"
  by (simp_all add: demo_views_def sample_node_def NewDefaultNode_def role_defs)

lemma demo_masters:
  "view_masters demo_views {2, 4, 7} = {(''10.0.0.1:6379'', [0, 1]), (''10.0.0.2:6379'', [2, 3])}"
  "view_masters demo_views {3, 5, 7} = {(''10.0.0.1:6379'', [0, 1]), (''10.0.0.2:6379'', [2, 3])}"
  "view_masters demo_views {2, 3} = {(''10.0.0.1:6379'', [0, 1]), (''10.0.0.2:6379'', [2, 3])}"
  by (auto simp: view_masters_def demo_views_simps demo_views_addr intro: exI [of _ 2] exI [of _ 3] exI [of _ 4] exI [of _ 5])

theorem ComputeStatus_correct_witness:
  "fst (ComputeStatus go_env_det demo_views demo_infos)"
proof -
  obtain ok c' where r: "ComputeStatus go_env_det demo_views demo_infos = (ok, c')" by fastforce
  have sv: "single_valued {(''10.0.0.1:6379'', [0, 1 :: nat]), (''10.0.0.2:6379'', [2, 3])}"
    by (auto simp: single_valued_def)
  have "single_valued (view_masters demo_views (insert (nodeinfos_Node ni) (set (Friends ni))))"
    if "(addr, ni) \<in> set (Infos demo_infos)" for addr ni
    using that sv by (auto simp: demo_infos_def demo_masters)
  moreover have "nodeinfos_Node ` snd ` set (Infos demo_infos) = {2, 3}"
    by (simp add: demo_infos_def)
  moreover have "wf_map (Infos demo_infos)" "infos_Status demo_infos = ClusterInfosUnset" by (simp_all add: demo_infos_def)
  ultimately have "ok \<longleftrightarrow> (\<forall>(addr, ni)\<in>set (Infos demo_infos).
            view_masters demo_views (insert (nodeinfos_Node ni) (set (Friends ni))) = view_masters demo_views {2, 3})"
    using ComputeStatus_correct [OF det.go_runtime_axioms _ _ r] sv
    by (auto simp: demo_masters(3) demo_infos_def)
  then have ok by (simp add: demo_infos_def demo_masters)
  with r show ?thesis by simp
qed

text \<open>C11. \<open>ComputeStatus\<close> damages the views it compares. Where a node's friends leave room in
  their array, sorting the view moves the node itself among its friends and pushes the friend with
  the largest id out: it is no longer a friend of that node afterwards.\<close>

theorem ComputeStatus_loses_friend:
  assumes "go_runtime env" and "wf_map (Infos c)" and "infos_Status c = ClusterInfosUnset"
    and "ComputeStatus env h c = (ok, c')"
    and "map_of (Infos c) addr = Some ni" and "length (Friends ni) < friends_cap ni"
    and "distinct (Friends ni)" and "r \<in> set (Friends ni)"
    and "\<And>q. q \<in> insert (nodeinfos_Node ni) (set (Friends ni)) \<Longrightarrow> q \<noteq> r \<Longrightarrow> ID (h q) < ID (h r)"
    and "nodeinfos_Node ni \<notin> set (Friends ni)"
  shows "\<exists>ni'. map_of (Infos c') addr = Some ni'
    \<and> set (Friends ni') = insert (nodeinfos_Node ni) (set (Friends ni) - {r})"
proof -
  let ?n = "length (Friends ni)"
  define view where "view = fst (sorted_view env h ni)"
  have ni': "snd (sorted_view env h ni) = ni\<lparr>Friends := take ?n view\<rparr>"
    using assms(6) by (simp add: sorted_view_def view_def Let_def)
  have perm: "mset view = mset (Friends ni @ [nodeinfos_Node ni])"
    using go_runtime.sort_perm [OF assms(1)] by (simp add: view_def sorted_view_def Let_def SortByFunc_def)
  then have len: "length view = Suc ?n" and dist: "distinct view"
    and set_view: "set view = insert (nodeinfos_Node ni) (set (Friends ni))"
    using assms(7,10) mset_eq_length [OF perm] mset_eq_setD [OF perm] mset_eq_imp_distinct_iff [OF perm] by simp_all
  have "sorted (map (\<lambda>q. ID (h q)) view)"
    using go_runtime.sort_by_key [OF assms(1), of "\<lambda>q. ID (h q)"]
    by (simp add: view_def sorted_view_def Let_def SortByFunc_def LessByID_def [abs_def])
  obtain i where i: "i < Suc ?n" "view ! i = r"
    using assms(8) set_view len by (metis in_set_conv_nth insertCI)
  have "i = ?n"
  proof (rule ccontr)
    assume "i \<noteq> ?n"
    then have "ID (h (view ! i)) \<le> ID (h (view ! ?n))"
      using \<open>sorted _\<close> i len sorted_nth_mono [of "map (\<lambda>q. ID (h q)) view" i ?n] by simp
    moreover have "view ! ?n \<noteq> r" and "view ! ?n \<in> set view"
      using dist i \<open>i \<noteq> ?n\<close> len nth_eq_iff_index_eq [of view ?n i] by auto
    ultimately show False using assms(9) [of "view ! ?n"] set_view i by (simp add: leD)
  qed
  then have "view = take ?n view @ [r]"
    using i len by (metis lessI take_Suc_conv_app_nth take_all_iff order_refl)
  then have "set (take ?n view) = set view - {r}"
    using dist by (metis Diff_insert_absorb Un_insert_right append_Nil2 distinct_append
        list.simps(15) set_append disjoint_insert(2) inf_commute insert_is_Un Un_commute)
  then show ?thesis
    using ComputeStatus_Infos [OF assms(1-4)] assms(5,8,10) set_view ni' by auto
qed

theorem ComputeStatus_loses_friend_witness:
  "\<exists>ni. map_of (Infos (snd (ComputeStatus go_env_det demo_views demo_infos))) ''10.0.0.1:6379'' = Some ni
     \<and> set (Friends ni) = {2, 4}"
proof -
  obtain ok c' where r: "ComputeStatus go_env_det demo_views demo_infos = (ok, c')" by fastforce
  let ?ni = "\<lparr>nodeinfos_Node = 2, Friends = [4, 7], friends_cap = 4\<rparr>"
  have "\<exists>ni'. map_of (Infos c') ''10.0.0.1:6379'' = Some ni'
      \<and> set (Friends ni') = insert (nodeinfos_Node ?ni) (set (Friends ?ni) - {7})"
  proof (rule ComputeStatus_loses_friend [OF det.go_runtime_axioms _ _ r])
    show "ID (demo_views q) < ID (demo_views 7)"
      if "q \<in> insert (nodeinfos_Node ?ni) (set (Friends ?ni))" and "q \<noteq> 7" for q
      using that by (auto simp: demo_views_simps less_char_def)
  qed (simp_all add: demo_infos_def)
  moreover have "insert (nodeinfos_Node ?ni) (set (Friends ?ni) - {7}) = {2, 4}" by auto
  ultimately show ?thesis using r by simp
qed

section \<open>The text of CLUSTER NODES\<close>

text \<open>A line of \<open>CLUSTER NODES\<close> in the documented format: id, address and bus port, flags, master,
  ping, pong, epoch, link state, then the slot ranges and the slots in motion.\<close>

definition migrating_word :: "Slot \<times> string \<Rightarrow> string" where
  "migrating_word p = ''['' @ MigratingSlot_String \<lparr>mig_SlotID = fst p, ToNodeID = snd p\<rparr> @ '']''"

definition importing_word :: "Slot \<times> string \<Rightarrow> string" where
  "importing_word p = ''['' @ ImportingSlot_String \<lparr>imp_SlotID = fst p, FromNodeID = snd p\<rparr> @ '']''"

definition moving_texts :: "Node \<Rightarrow> string list" where
  "moving_texts n =
     map migrating_word (MigratingSlots n)
   @ map importing_word (ImportingSlots n)"

definition range_texts :: "Node \<Rightarrow> string list" where
  "range_texts n = map SlotRange_String (fst (SlotRangesFromSlots (Slots n)))"

definition line_fields :: "Node \<Rightarrow> string \<Rightarrow> string \<Rightarrow> string list" where
  "line_fields n cport flags =
     [ID n, IP n @ '':'' @ Port n @ ''@'' @ cport, flags, if MasterReferent n = [] then ''-'' else MasterReferent n,
      FormatInt (PingSent n), FormatInt (PongRecv n), FormatInt (ConfigEpoch n), LinkState n]
     @ range_texts n @ moving_texts n"

text \<open>The nodes such a line describes: what a server reports, with nothing the operator adds later.\<close>

definition line_ok :: "Node \<Rightarrow> string \<Rightarrow> string \<Rightarrow> bool" where
  "line_ok n cport flags \<longleftrightarrow>
     list_all (\<lambda>w. CHR '' '' \<notin> set w \<and> CHR ''\<newline>'' \<notin> set w) (line_fields n cport flags)
     \<and> IP n \<noteq> [] \<and> CHR ''@'' \<notin> set (IP n @ Port n) \<and> CHR '':'' \<notin> set (Port n)
     \<and> role_of_flags [] (split_on (CHR '','') flags) = Role n
     \<and> filter is_failure_flag (split_on (CHR '','') flags) = FailStatus n
     \<and> MasterReferent n \<noteq> ''-''
     \<and> list_all (\<lambda>i. - (2 ^ 63) \<le> i \<and> i < 2 ^ 63) [PingSent n, PongRecv n, ConfigEpoch n]
     \<and> LinkState n \<in> {RedisLinkStateConnected, RedisLinkStateDisconnected}
     \<and> sorted (Slots n) \<and> distinct (Slots n) \<and> list_all (\<lambda>s. s < 2 ^ 64 - 1) (Slots n)
     \<and> wf_map (MigratingSlots n) \<and> wf_map (ImportingSlots n)
     \<and> list_all (\<lambda>(s, i). s < 2 ^ 64 \<and> node_id_ok i) (MigratingSlots n @ ImportingSlots n)
     \<and> balance n = 0 \<and> NodeName n = [] \<and> PodName n = [] \<and> StatefulSet n = []"

lemma split_join_words:
  "ws \<noteq> [] \<Longrightarrow> list_all (\<lambda>w. c \<notin> set w) ws \<Longrightarrow> split_on c (join_with [c] ws) = ws"
  by (induction "[c]" ws rule: join_with.induct) (auto simp: split_on_no_sep split_on_append)

lemma split_lines:
  "list_all (\<lambda>l. c \<notin> set l) ls \<Longrightarrow> split_on c (concat (map (\<lambda>l. l @ [c]) ls)) = ls @ [[]]"
  by (induction ls) (auto simp: split_on_append)

lemma decode_slots_append:
  "decode_slots (ws @ vs) n = (case decode_slots ws n of None \<Rightarrow> None | Some n \<Rightarrow> decode_slots vs n)"
  by (induction ws n rule: decode_slots.induct) (auto split: option.splits)

lemma decode_slots_plain:
  "map DecodeSlotRange ws = map (\<lambda>ss. Some (ss, None, None, None)) sss \<Longrightarrow>
   decode_slots ws n = Some (n\<lparr>Slots := Slots n @ concat sss\<rparr>)"
  by (induction ws arbitrary: sss n) (force simp: map_eq_Cons_conv)+

lemma mput_snoc: "k \<notin> fst ` set m \<Longrightarrow> mput k v m = m @ [(k, v)]"
  by (induction m) auto

lemma decode_slots_migrating:
  "wf_map (MigratingSlots n @ m) \<Longrightarrow> list_all (\<lambda>(s, i). s < 2 ^ 64 \<and> node_id_ok i) m \<Longrightarrow>
   decode_slots (map migrating_word m) n
     = Some (n\<lparr>MigratingSlots := MigratingSlots n @ m\<rparr>)"
proof (induction m arbitrary: n)
  case (Cons p m)
  obtain s i where p: "p = (s, i)" by fastforce
  have d: "DecodeSlotRange (migrating_word p)
      = Some ([], None, Some \<lparr>mig_SlotID = s, ToNodeID = i\<rparr>, None)"
    unfolding p migrating_word_def fst_conv snd_conv by (rule DecodeSlotRange_Migrating(2)) (use Cons.prems p in auto)
  have "mput s i (MigratingSlots n) = MigratingSlots n @ [(s, i)]"
    using Cons.prems p by (intro mput_snoc) auto
  with Cons.IH [of "n\<lparr>MigratingSlots := MigratingSlots n @ [(s, i)]\<rparr>"] Cons.prems d p show ?case by simp
qed simp

lemma decode_slots_importing:
  "wf_map (ImportingSlots n @ m) \<Longrightarrow> list_all (\<lambda>(s, i). s < 2 ^ 64 \<and> node_id_ok i) m \<Longrightarrow>
   decode_slots (map importing_word m) n
     = Some (n\<lparr>ImportingSlots := ImportingSlots n @ m\<rparr>)"
proof (induction m arbitrary: n)
  case (Cons p m)
  obtain s i where p: "p = (s, i)" by fastforce
  have d: "DecodeSlotRange (importing_word p)
      = Some ([], Some \<lparr>imp_SlotID = s, FromNodeID = i\<rparr>, None, None)"
    unfolding p importing_word_def fst_conv snd_conv by (rule DecodeSlotRange_Importing(2)) (use Cons.prems p in auto)
  have "mput s i (ImportingSlots n) = ImportingSlots n @ [(s, i)]"
    using Cons.prems p by (intro mput_snoc) auto
  with Cons.IH [of "n\<lparr>ImportingSlots := ImportingSlots n @ [(s, i)]\<rparr>"] Cons.prems d p show ?case by simp
qed simp

lemma decode_slots_line:
  assumes "line_ok n cport flags" and "Slots m = []" "MigratingSlots m = []" "ImportingSlots m = []"
  shows "decode_slots (range_texts n @ moving_texts n) m
    = Some (m\<lparr>Slots := Slots n, MigratingSlots := MigratingSlots n, ImportingSlots := ImportingSlots n\<rparr>)"
proof -
  have "\<forall>s\<in>set (Slots n). s < 2 ^ 64 - 1" using assms(1) by (simp add: line_ok_def list_all_iff)
  from slot_ranges_decode [OF this] obtain sss where
    "map DecodeSlotRange (range_texts n) = map (\<lambda>ss. Some (ss, None, None, None)) sss"
    and "concat sss = remdups (sort (Slots n))"
    by (auto simp: range_texts_def)
  moreover have "remdups (sort (Slots n)) = Slots n"
    using assms(1) by (simp add: line_ok_def sorted_sort_id distinct_remdups_id)
  ultimately have "decode_slots (range_texts n) m = Some (m\<lparr>Slots := Slots n\<rparr>)"
    using assms(2) decode_slots_plain by fastforce
  moreover have "wf_map (MigratingSlots n)" "wf_map (ImportingSlots n)"
      "list_all (\<lambda>(s, i). s < 2 ^ 64 \<and> node_id_ok i) (MigratingSlots n)"
      "list_all (\<lambda>(s, i). s < 2 ^ 64 \<and> node_id_ok i) (ImportingSlots n)"
    using assms(1) by (auto simp: line_ok_def)
  ultimately show ?thesis
    using assms(3,4) by (simp add: decode_slots_append moving_texts_def decode_slots_migrating decode_slots_importing)
qed

lemma decode_addr_line:
  assumes "IP n \<noteq> []" and "CHR ''@'' \<notin> set (IP n @ Port n)" and "CHR '':'' \<notin> set (Port n)"
  shows "decode_addr addr (IP n @ '':'' @ Port n @ ''@'' @ cport) m = m\<lparr>IP := IP n, Port := Port n\<rparr>"
proof -
  have "split_on (CHR ''@'') ((IP n @ CHR '':'' # Port n) @ CHR ''@'' # cport)
      = (IP n @ CHR '':'' # Port n) # split_on (CHR ''@'') cport"
    using assms(2) by (intro split_on_append) simp
  then show ?thesis using assms by (simp add: decode_addr_def splitHostPort_def)
qed

lemma decode_node_line:
  assumes "line_ok n cport flags"
  shows "decode_node addr (line_fields n cport flags) = Some n"
proof -
  note ok = assms [unfolded line_ok_def]
  have ints: "parse_or z (FormatInt (PingSent n)) = PingSent n" "parse_or z (FormatInt (PongRecv n)) = PongRecv n"
    "parse_or z (FormatInt (ConfigEpoch n)) = ConfigEpoch n" for z
    using ok by (simp_all add: parse_or_def)
  have link: "fst (SetLinkStatus (LinkState n) m) = m\<lparr>LinkState := LinkState n\<rparr>" for m
    using ok by (auto simp: SetLinkStatus_def)
  have role: "fst (SetRole flags m) = m\<lparr>Role := Role n\<rparr>" and
    fail: "SetFailureStatus flags m = m\<lparr>FailStatus := FailStatus n\<rparr>" for m
    using ok by (simp_all add: SetRole_def SetFailureStatus_def)
  have master: "SetReferentMaster (if MasterReferent n = [] then ''-'' else MasterReferent n) m
      = m\<lparr>MasterReferent := MasterReferent n\<rparr>" for m
    using ok by (simp add: SetReferentMaster_def)
  have addr: "decode_addr addr (IP n @ '':'' @ Port n @ ''@'' @ cport) m = m\<lparr>IP := IP n, Port := Port n\<rparr>" for m
    using ok by (intro decode_addr_line) simp_all
  have drop: "drop 8 (line_fields n cport flags) = range_texts n @ moving_texts n"
    by (simp add: line_fields_def)
  show ?thesis
    unfolding decode_node_def drop Let_def
    by (simp add: line_fields_def role fail link ints master addr [simplified] NewDefaultNode_def
        decode_slots_line [OF assms] eval_nat_numeral)
      (use ok in \<open>cases n, simp\<close>)
qed

type_synonym line = "Node \<times> string \<times> string"

definition line_text :: "line \<Rightarrow> string" where
  "line_text l = (case l of (n, cport, flags) \<Rightarrow> join_with '' '' (line_fields n cport flags))"

definition is_myself :: "line \<Rightarrow> bool" where
  "is_myself l = HasPrefix (snd (snd l)) ''myself''"

abbreviation line_okl :: "line \<Rightarrow> bool" where
  "line_okl l \<equiv> line_ok (fst l) (fst (snd l)) (snd (snd l))"

lemma split_line_text: "line_okl l \<Longrightarrow> split_on (CHR '' '') (line_text l) = line_fields (fst l) (fst (snd l)) (snd (snd l))"
  unfolding line_text_def line_ok_def case_prod_unfold
  by (rule split_join_words) (simp_all add: line_fields_def list_all_iff)

lemma set_join_with: "set (join_with sep ws) \<subseteq> set sep \<union> (\<Union>w\<in>set ws. set w)"
  by (induction sep ws rule: join_with.induct) auto

lemma newline_free_line: "line_okl l \<Longrightarrow> CHR ''\<newline>'' \<notin> set (line_text l)"
  using set_join_with [of "'' ''" "line_fields (fst l) (fst (snd l)) (snd (snd l))"]
  by (auto simp: line_text_def line_ok_def list_all_iff case_prod_unfold)

lemma decode_lines_step:
  assumes "line_okl l"
  shows "decode_lines env addr (line_text l # ls) infos s =
     (let (r, s) = new_node (fst l) s in
      decode_lines env addr ls
        (if is_myself l then infos\<lparr>nodeinfos_Node := r\<rparr>
         else infos\<lparr>Friends := Friends infos @ [r], friends_cap := append_cap env (length (Friends infos) + 1)\<rparr>) s)"
proof -
  have "length (line_fields (fst l) (fst (snd l)) (snd (snd l))) \<ge> 8"
    and "line_fields (fst l) (fst (snd l)) (snd (snd l)) ! 2 = snd (snd l)"
    by (simp_all add: line_fields_def)
  then show ?thesis
    by (simp add: split_line_text [OF assms] decode_node_line [OF assms] is_myself_def Let_def case_prod_unfold)
qed

lemma decode_lines_friends:
  assumes "list_all (\<lambda>l. line_okl l \<and> \<not> is_myself l) ls" and "\<forall>r\<in>set (Friends infos). r < snd s"
  shows "\<exists>infos' s'. decode_lines env addr (map line_text ls @ rest) infos s
           = decode_lines env addr rest infos' s'
    \<and> nodeinfos_Node infos' = nodeinfos_Node infos
    \<and> map (fst s') (Friends infos') = map (fst s) (Friends infos) @ map fst ls
    \<and> (\<forall>r\<in>set (Friends infos'). r < snd s') \<and> snd s \<le> snd s' \<and> (\<forall>r. r < snd s \<longrightarrow> fst s' r = fst s r)"
  using assms
proof (induction ls arbitrary: infos s)
  case Nil
  then show ?case by (intro exI [of _ infos] exI [of _ s]) simp
next
  case (Cons l ls)
  define infos1 where "infos1 = infos\<lparr>Friends := Friends infos @ [snd s],
    friends_cap := append_cap env (length (Friends infos) + 1)\<rparr>"
  define s1 where "s1 = ((fst s)(snd s := fst l), snd s + 1)"
  have step: "decode_lines env addr (map line_text (l # ls) @ rest) infos s
      = decode_lines env addr (map line_text ls @ rest) infos1 s1"
    using Cons.prems(1) by (simp add: decode_lines_step new_node_def infos1_def s1_def del: decode_lines.simps)
  have keep: "map (fst s1) (Friends infos) = map (fst s) (Friends infos)"
    using Cons.prems(2) by (intro map_cong refl) (auto simp: s1_def)
  have "\<forall>r\<in>set (Friends infos1). r < snd s1"
    using Cons.prems(2) by (auto simp: infos1_def s1_def)
  moreover have "list_all (\<lambda>l. line_okl l \<and> \<not> is_myself l) ls" using Cons.prems(1) by simp
  ultimately obtain infos' s' where IH: "decode_lines env addr (map line_text ls @ rest) infos1 s1
           = decode_lines env addr rest infos' s'"
    "nodeinfos_Node infos' = nodeinfos_Node infos1"
    "map (fst s') (Friends infos') = map (fst s1) (Friends infos1) @ map fst ls"
    "\<forall>r\<in>set (Friends infos'). r < snd s'" "snd s1 \<le> snd s'" "\<forall>r. r < snd s1 \<longrightarrow> fst s' r = fst s1 r"
    using Cons.IH by meson
  have "map (fst s') (Friends infos') = map (fst s) (Friends infos) @ map fst (l # ls)"
    using IH(3) keep by (simp add: infos1_def s1_def)
  moreover have "\<forall>r. r < snd s \<longrightarrow> fst s' r = fst s r" using IH(6) by (simp add: s1_def)
  moreover have "snd s \<le> snd s'" using IH(5) by (simp add: s1_def)
  moreover have "nodeinfos_Node infos' = nodeinfos_Node infos" using IH(2) by (simp add: infos1_def)
  ultimately show ?case using IH(1,4) step by (intro exI [of _ infos'] exI [of _ s']) simp
qed

text \<open>C10. Reading a \<open>CLUSTER NODES\<close> answer loses nothing: \<open>DecodeNodeInfos\<close> on the text of any nodes,
  one of them flagged \<open>myself\<close>, ends, and returns that node as \<open>Node\<close> and the others, in order, as
  \<open>Friends\<close>, with every field including ranges and slots in motion as printed; the nodes are fresh
  and no node that existed before is touched.\<close>

theorem DecodeNodeInfos_round_trip:
  assumes "list_all line_okl (as @ l # bs)" and "is_myself l" and "list_all (\<lambda>l. \<not> is_myself l) (as @ bs)"
  shows "\<exists>infos h' k'. DecodeNodeInfos env (concat (map (\<lambda>l. line_text l @ ''\<newline>'') (as @ l # bs))) addr (h, k)
        = Some (infos, (h', k'))
     \<and> h' (nodeinfos_Node infos) = fst l \<and> map h' (Friends infos) = map fst (as @ bs)
     \<and> nodeinfos_Node infos \<ge> k \<and> (\<forall>r<k. h' r = h r)"
proof -
  define s0 where "s0 = (h(k := NewDefaultNode), k + 1)"
  define i0 where "i0 = \<lparr>nodeinfos_Node = k, Friends = [], friends_cap = 0\<rparr>"
  have "list_all (\<lambda>t. CHR ''\<newline>'' \<notin> set t) (map line_text (as @ l # bs))"
    unfolding list_all_iff set_map ball_simps
    by (intro ballI newline_free_line) (use assms(1) in \<open>auto simp: list_all_iff\<close>)
  from split_lines [OF this] have split: "split_on (CHR ''\<newline>'') (concat (map (\<lambda>l. line_text l @ ''\<newline>'') (as @ l # bs)))
      = map line_text as @ line_text l # map line_text bs @ [[]]"
    by (simp add: o_def)
  have as: "list_all (\<lambda>l. line_okl l \<and> \<not> is_myself l) as" and bs: "list_all (\<lambda>l. line_okl l \<and> \<not> is_myself l) bs"
    using assms(1,3) by (auto simp: list_all_iff)
  obtain i1 s1 where one: "decode_lines env addr (map line_text as @ line_text l # map line_text bs @ [[]]) i0 s0
      = decode_lines env addr (line_text l # map line_text bs @ [[]]) i1 s1"
    "map (fst s1) (Friends i1) = map fst as" "\<forall>r\<in>set (Friends i1). r < snd s1"
    "k + 1 \<le> snd s1" "\<forall>r<k. fst s1 r = h r"
    using decode_lines_friends [OF as, of i0 s0 env addr "line_text l # map line_text bs @ [[]]"]
    by (auto simp: i0_def s0_def)
  define i2 where "i2 = i1\<lparr>nodeinfos_Node := snd s1\<rparr>"
  define s2 where "s2 = ((fst s1)(snd s1 := fst l), snd s1 + 1)"
  have two: "decode_lines env addr (line_text l # map line_text bs @ [[]]) i1 s1
      = decode_lines env addr (map line_text bs @ [[]]) i2 s2"
    using assms(1,2) by (simp add: decode_lines_step new_node_def i2_def s2_def del: decode_lines.simps)
  have "\<forall>r\<in>set (Friends i2). r < snd s2" using one(3) by (auto simp: i2_def s2_def)
  then obtain i3 s3 where three: "decode_lines env addr (map line_text bs @ [[]]) i2 s2
      = decode_lines env addr [[]] i3 s3"
    "nodeinfos_Node i3 = snd s1" "map (fst s3) (Friends i3) = map (fst s2) (Friends i2) @ map fst bs"
    "\<forall>r. r < snd s1 + 1 \<longrightarrow> fst s3 r = fst s2 r"
    using decode_lines_friends [OF bs, of i2 s2 env addr "[[]]"] by (auto simp: i2_def s2_def)
  have "DecodeNodeInfos env (concat (map (\<lambda>l. line_text l @ ''\<newline>'') (as @ l # bs))) addr (h, k) = Some (i3, s3)"
    unfolding DecodeNodeInfos_def NewNodeInfos_def new_node_def Let_def split
    using one(1) two three(1) by (simp add: i0_def s0_def)
  moreover have "map (fst s2) (Friends i2) = map fst as"
    using one(2,3) by (auto simp: i2_def s2_def intro!: map_cong simp flip: one(2))
  moreover have "fst s3 (snd s1) = fst l" using three(4) by (simp add: s2_def)
  moreover have "\<forall>r<k. fst s3 r = h r" using three(4) one(4,5) by (simp add: s2_def)
  ultimately show ?thesis
    using three(2,3) one(4) by (intro exI [of _ i3] exI [of _ "fst s3"] exI [of _ "snd s3"]) simp
qed

definition demo_line :: "string \<Rightarrow> string \<Rightarrow> Slot list \<Rightarrow> Node" where
  "demo_line ident ip slots = NewDefaultNode\<lparr>ID := ident, IP := ip, Role := RedisMasterRole,
     LinkState := RedisLinkStateConnected, Slots := slots\<rparr>"

lemma FormatUint_digit: "n < 10 \<Longrightarrow> FormatUint n = [digit_char n]"
  by (simp add: FormatUint.simps)

lemma digit_chars:
  "digit_char 0 = CHR ''0''" "digit_char 2 = CHR ''2''" "digit_char 3 = CHR ''3''" "digit_char 7 = CHR ''7''"
  by code_simp+

lemmas line_eval = line_ok_def line_fields_def range_texts_def moving_texts_def SlotRange_String_def Slot_String_def
  slotSeparator_def SlotRangesFromSlots_def demo_line_def NewDefaultNode_def DefaultRedisPort_def role_defs
  RedisLinkStateConnected_def RedisLinkStateDisconnected_def is_failure_flag_def status_flag_defs
  FormatInt_def FormatUint_digit digit_chars

lemma demo_lines_ok:
  "line_ok (demo_line ''a1'' ''10.0.0.1'' [2, 3, 7]) ''16379'' ''myself,master''"
  "line_ok (demo_line ''b2'' ''10.0.0.2'' []) ''16379'' ''master''"
  by (simp_all add: line_eval)

theorem DecodeNodeInfos_round_trip_witness:
  "\<exists>infos h' k'. DecodeNodeInfos go_env_det
       (concat (map (\<lambda>l. line_text l @ ''\<newline>'')
         [(demo_line ''a1'' ''10.0.0.1'' [2, 3, 7], ''16379'', ''myself,master''),
          (demo_line ''b2'' ''10.0.0.2'' [], ''16379'', ''master'')])) ''10.0.0.1:6379'' (demo_views, 9)
     = Some (infos, (h', k')) \<and> Slots (h' (nodeinfos_Node infos)) = [2, 3, 7]
     \<and> map (\<lambda>r. ID (h' r)) (Friends infos) = [''b2''] \<and> h' 2 = demo_views 2"
proof -
  let ?me = "(demo_line ''a1'' ''10.0.0.1'' [2, 3, 7], ''16379'', ''myself,master'')"
  let ?fr = "(demo_line ''b2'' ''10.0.0.2'' [], ''16379'', ''master'')"
  have "list_all line_okl ([] @ ?me # [?fr])" using demo_lines_ok by simp
  moreover have "is_myself ?me" and "list_all (\<lambda>l. \<not> is_myself l) ([] @ [?fr])"
    by (simp_all add: is_myself_def HasPrefix_def)
  ultimately obtain infos h' k' where r: "DecodeNodeInfos go_env_det
      (concat (map (\<lambda>l. line_text l @ ''\<newline>'') ([] @ ?me # [?fr]))) ''10.0.0.1:6379'' (demo_views, 9)
        = Some (infos, (h', k'))" "h' (nodeinfos_Node infos) = fst ?me" "map h' (Friends infos) = map fst ([] @ [?fr])"
      "\<forall>r<9. h' r = demo_views r"
    using DecodeNodeInfos_round_trip [of "[]" ?me "[?fr]"] by blast
  have "map (\<lambda>r. ID (h' r)) (Friends infos) = map ID (map h' (Friends infos))" by simp
  also have "\<dots> = [''b2'']" unfolding r(3) by (simp add: demo_line_def)
  finally have "map (\<lambda>r. ID (h' r)) (Friends infos) = [''b2'']" .
  moreover have "Slots (h' (nodeinfos_Node infos)) = [2, 3, 7]" unfolding r(2) by (simp add: demo_line_def)
  moreover have "h' 2 = demo_views 2" using r(4) by simp
  ultimately show ?thesis using r(1) by (intro exI [of _ infos] exI [of _ h'] exI [of _ k']) simp
qed

section \<open>Decoding keeps older nodes\<close>

lemma decode_lines_frame:
  "decode_lines env addr ls infos s = Some (infos', s') \<Longrightarrow> nodeinfos_Node infos < snd s \<Longrightarrow>
   snd s \<le> snd s' \<and> (\<forall>r. r < snd s \<longrightarrow> fst s' r = fst s r) \<and> nodeinfos_Node infos' < snd s'"
proof (induction ls arbitrary: infos s)
  case (Cons l ls)
  show ?case
  proof (cases "length (split_on (CHR '' '') l) < 8")
    case True
    with Cons show ?thesis by simp
  next
    case False
    with Cons.prems(1) obtain n where n: "decode_node addr (split_on (CHR '' '') l) = Some n"
      by (cases "decode_node addr (split_on (CHR '' '') l)") (simp_all add: Let_def)
    define i where "i = (if HasPrefix (split_on (CHR '' '') l ! 2) ''myself'' then infos\<lparr>nodeinfos_Node := snd s\<rparr>
      else infos\<lparr>Friends := Friends infos @ [snd s], friends_cap := append_cap env (length (Friends infos) + 1)\<rparr>)"
    have i: "decode_lines env addr ls i ((fst s)(snd s := n), snd s + 1) = Some (infos', s')"
        "nodeinfos_Node i < snd s + 1"
      using Cons.prems False n by (simp_all add: Let_def new_node_def i_def split: if_splits)
    from Cons.IH [OF i(1)] i(2) show ?thesis by (auto simp: Let_def)
  qed
qed simp

lemma DecodeNodeInfos_frame:
  assumes "DecodeNodeInfos env input addr s = Some (infos, s')"
  shows "snd s \<le> snd s' \<and> (\<forall>r. r < snd s \<longrightarrow> fst s' r = fst s r) \<and> nodeinfos_Node infos < snd s'"
  using assms decode_lines_frame [of env addr "split_on (CHR ''\<newline>'') input"
      "\<lparr>nodeinfos_Node = snd s, Friends = [], friends_cap = 0\<rparr>" "((fst s)(snd s := NewDefaultNode), snd s + 1)" infos s']
  by (auto simp: DecodeNodeInfos_def NewNodeInfos_def new_node_def)

lemma sorted_view_Node [simp]: "nodeinfos_Node (snd (sorted_view env h ni)) = nodeinfos_Node ni"
  by (simp add: sorted_view_def Let_def)

lemma ComputeStatus_loop_wf: "wf_map (Infos c) \<Longrightarrow> wf_map (Infos (ComputeStatus_loop env h sig l c))"
  by (induction env h sig l c rule: ComputeStatus_loop.induct) (auto simp: Let_def split: prod.split)

lemma ComputeStatus_wf: "wf_map (Infos c) \<Longrightarrow> ComputeStatus env h c = (ok, c') \<Longrightarrow> wf_map (Infos c')"
  by (auto simp: ComputeStatus_def Let_def ComputeStatus_loop_wf split: if_splits)

lemma ComputeStatus_Node:
  assumes "go_runtime env" and "wf_map (Infos c)" and "infos_Status c = ClusterInfosUnset"
    and "ComputeStatus env h c = (ok, c')" and "(addr, ni') \<in> set (Infos c')"
  shows "\<exists>ni. (addr, ni) \<in> set (Infos c) \<and> nodeinfos_Node ni' = nodeinfos_Node ni"
proof -
  have "map_of (Infos c') addr = Some ni'"
    using assms(5) ComputeStatus_wf [OF assms(2,4)] by simp
  then obtain ni where "map_of (Infos c) addr = Some ni" "ni' = snd (sorted_view env h ni)"
    using ComputeStatus_Infos [OF assms(1-4)] by auto
  then show ?thesis by (auto dest: map_of_SomeD)
qed

lemma ComputeStatus_status:
  assumes "infos_Status c = ClusterInfosUnset" and "ComputeStatus env h c = (ok, c')"
  shows "infos_Status c' = (if ok then ClusterInfosConsistent else ClusterInfosInconsistent)"
proof -
  define c1 where "c1 = ComputeStatus_loop env h
    (getConfigSignature h (SortByFunc env (LessByID h) (GetNodes env 10 c))) (mrange env 11 (Infos c)) c"
  have "infos_Status c1 = ClusterInfosUnset \<or> infos_Status c1 = ClusterInfosInconsistent"
    unfolding c1_def ComputeStatus_loop_status assms(1) by simp
  with assms show ?thesis
    by (auto simp: ComputeStatus_def Let_def c1_def [symmetric] split: if_splits)
qed

end
