(* ===== verification/Admin.thy ===== *)
theory Admin
  imports Connections ClusterInfo AdminApi
begin

text \<open>
  \<open>pkg/redisutil/admin.go\<close>: the operator's implementation of \<open>IAdmin\<close>, over the pool of theory
  \<open>Connections\<close>. Every method takes the pool and the servers (\<open>'w cw\<close>) and returns them changed;
  \<open>None\<close> is a call that never returns. Methods that read the cluster allocate nodes in a node store.

  The loops over \<open>GetAll()\<close> range over the pool while a network error may remove and re-add the
  client just used. The language allows a re-added entry to be visited again or not; here it is not.
\<close>

definition DefaultHashMaxSlots :: Slot where "DefaultHashMaxSlots = 16383"
definition ResetHard :: string where "ResetHard = ''HARD''"
definition ResetSoft :: string where "ResetSoft = ''SOFT''"

text \<open>\<open>c, err := a.Connections().Get(addr); if err != nil { return ... }\<close>. \<open>Get\<close> always returns one of
  the two (lemma \<open>Get_one\<close>).\<close>

definition with_client ::
  "'w radix \<Rightarrow> go_env \<Rightarrow> string \<Rightarrow> (goerr \<Rightarrow> 'r) \<Rightarrow> (Client \<Rightarrow> 'w cw \<Rightarrow> ('r \<times> 'w cw) option) \<Rightarrow> 'w cw \<Rightarrow> ('r \<times> 'w cw) option" where
  "with_client rx env addr fail f s =
     Option.bind (Get rx env addr s) (\<lambda>(r, s).
       case r of (_, Some err) \<Rightarrow> Some (fail err, s) | (Some c, None) \<Rightarrow> f c s | (None, None) \<Rightarrow> None)"

text \<open>\<open>resp := c.Cmd(...); if err := a.Connections().ValidateResp(resp, addr, ...); err != nil { return ... }\<close>\<close>

definition ask ::
  "'w radix \<Rightarrow> go_env \<Rightarrow> Client \<Rightarrow> string \<Rightarrow> string \<Rightarrow> arg list \<Rightarrow> string \<Rightarrow> (goerr \<Rightarrow> 'r)
    \<Rightarrow> (Resp \<Rightarrow> 'w cw \<Rightarrow> ('r \<times> 'w cw) option) \<Rightarrow> 'w cw \<Rightarrow> ('r \<times> 'w cw) option" where
  "ask rx env c addr cmd args msg fail f s =
     (let (resp, w) = Client_Cmd rx c cmd args (snd s)
      in Option.bind (ValidateResp rx env (Some resp) addr msg (fst s, w)) (\<lambda>(err, s).
           case err of Some e \<Rightarrow> Some (fail e, s) | None \<Rightarrow> f resp s))"

definition pipe_append :: "'w radix \<Rightarrow> Client \<Rightarrow> string \<Rightarrow> arg list \<Rightarrow> 'w cw \<Rightarrow> 'w cw" where
  "pipe_append rx c cmd args s = (fst s, Client_PipeAppend rx c cmd args (snd s))"

definition pipe_clear :: "'w radix \<Rightarrow> Client \<Rightarrow> 'w cw \<Rightarrow> 'w cw" where
  "pipe_clear rx c s = (fst s, snd (Client_PipeClear rx c (snd s)))"

section \<open>Construction\<close>

definition NewAdmin ::
  "'w radix \<Rightarrow> go_env \<Rightarrow> (string \<Rightarrow> string option) \<Rightarrow> string list \<Rightarrow> AdminOptions \<Rightarrow> 'w \<Rightarrow> 'w cw option" where
  "NewAdmin rx env files addrs options w = NewAdminConnections rx env files addrs (Some options) w"

definition Admin_Close :: "'w radix \<Rightarrow> go_env \<Rightarrow> 'w cw \<Rightarrow> 'w cw" where
  "Admin_Close rx env s = Reset rx env s"

definition Admin_GetHashMaxSlot :: Slot where
  "Admin_GetHashMaxSlot = DefaultHashMaxSlots"

section \<open>Reading the cluster\<close>

definition getInfos ::
  "'w radix \<Rightarrow> go_env \<Rightarrow> Client \<Rightarrow> string \<Rightarrow> nstore \<Rightarrow> 'w cw \<Rightarrow> (((goerr + NodeInfos) \<times> nstore) \<times> 'w cw) option" where
  "getInfos rx env c addr st s =
     ask rx env c addr ''CLUSTER'' [ArgStr ''NODES''] ''unable to retrieve node info'' (\<lambda>e. (Inl e, st))
       (\<lambda>resp s. case resp_Str resp of
          Inl err \<Rightarrow> Some ((Inl (Errorf (''wrong format from CLUSTER NODES: '' @ ErrorText env err)), st), s)
        | Inr raw \<Rightarrow> Option.bind (DecodeNodeInfos env raw addr st) (\<lambda>(infos, st). Some ((Inr infos, st), s))) s"

fun GetClusterInfos_loop ::
  "'w radix \<Rightarrow> go_env \<Rightarrow> (string \<times> Client) list \<Rightarrow> ClusterInfos \<Rightarrow> (string, goerr) gomap \<Rightarrow> nstore \<Rightarrow> 'w cw
    \<Rightarrow> ((ClusterInfos \<times> (string, goerr) gomap \<times> nstore) \<times> 'w cw) option" where
  "GetClusterInfos_loop rx env [] infos errs st s = Some ((infos, errs, st), s)"
| "GetClusterInfos_loop rx env ((addr, c) # cs) infos errs st s =
     Option.bind (getInfos rx env c addr st s) (\<lambda>((r, st), s).
       case r of
         Inl err \<Rightarrow> GetClusterInfos_loop rx env cs (infos\<lparr>infos_Status := ClusterInfosPartial\<rparr>) (mput addr err errs) st s
       | Inr nodeinfos \<Rightarrow>
           GetClusterInfos_loop rx env cs
             (if IPPort (fst st (nodeinfos_Node nodeinfos)) = addr
              then infos\<lparr>Infos := mput addr nodeinfos (Infos infos)\<rparr> else infos) errs st s)"

definition GetClusterInfos ::
  "'w radix \<Rightarrow> go_env \<Rightarrow> nstore \<Rightarrow> 'w cw \<Rightarrow> (((ClusterInfos \<times> goerr option) \<times> nstore) \<times> 'w cw) option" where
  "GetClusterInfos rx env st s =
     Option.bind (GetClusterInfos_loop rx env (mrange env 40 (GetAll (fst s))) NewClusterInfos [] st s)
       (\<lambda>((infos, errs, st), s).
          let (consistent, infos) = (if length errs = 0 then ComputeStatus env (fst st) infos else (True, infos));
              clusterErr = ClusterInfosError errs (errs \<noteq> []) (\<not> consistent)
          in Some (((infos, if infos_Status infos = ClusterInfosConsistent then None else Some clusterErr), st), s))"

text \<open>The regular expression \<open>cluster_known_nodes:([0-9]+)\<close>: the digits of the leftmost match.\<close>

fun find_known_nodes :: "string \<Rightarrow> string option" where
  "find_known_nodes [] = None"
| "find_known_nodes (c # cs) =
     (let digits = takeWhile is_digit (drop 20 (c # cs))
      in if HasPrefix (c # cs) ''cluster_known_nodes:'' \<and> digits \<noteq> [] then Some digits
         else find_known_nodes cs)"

definition clusterKnowNodes ::
  "'w radix \<Rightarrow> go_env \<Rightarrow> Client \<Rightarrow> string \<Rightarrow> 'w cw \<Rightarrow> ((goerr + int) \<times> 'w cw) option" where
  "clusterKnowNodes rx env c addr s =
     ask rx env c addr ''CLUSTER'' [ArgStr ''INFO''] ''unable to retrieve cluster info'' Inl
       (\<lambda>resp s. case resp_Str resp of
          Inl err \<Rightarrow> Some (Inl (Errorf (''wrong format from CLUSTER INFO: '' @ ErrorText env err)), s)
        | Inr raw \<Rightarrow>
            (case find_known_nodes raw of
               None \<Rightarrow> Some (Inl (Errorf ''cluster_known_nodes regex not found''), s)
             | Some digits \<Rightarrow> Some (Atoi digits, s))) s"

fun NodeIsEmpty_loop ::
  "'w radix \<Rightarrow> go_env \<Rightarrow> (string \<times> Client) list \<Rightarrow> 'w cw \<Rightarrow> ((bool \<times> goerr option) \<times> 'w cw) option" where
  "NodeIsEmpty_loop rx env [] s = Some ((True, None), s)"
| "NodeIsEmpty_loop rx env ((addr, c) # cs) s =
     Option.bind (clusterKnowNodes rx env c addr s) (\<lambda>(r, s).
       case r of
         Inl err \<Rightarrow> Some ((False, Some err), s)
       | Inr knowNodes \<Rightarrow>
           if knowNodes \<noteq> 1 then Some ((False, None), s) else NodeIsEmpty_loop rx env cs s)"

definition ClusterManagerNodeIsEmpty ::
  "'w radix \<Rightarrow> go_env \<Rightarrow> 'w cw \<Rightarrow> ((bool \<times> goerr option) \<times> 'w cw) option" where
  "ClusterManagerNodeIsEmpty rx env s = NodeIsEmpty_loop rx env (mrange env 41 (GetAll (fst s))) s"

section \<open>Changing the cluster\<close>

definition AttachSlaveToMaster ::
  "'w radix \<Rightarrow> go_env \<Rightarrow> Node \<Rightarrow> string \<Rightarrow> 'w cw \<Rightarrow> ((Node \<times> goerr option) \<times> 'w cw) option" where
  "AttachSlaveToMaster rx env slave masterID s =
     with_client rx env (IPPort slave) (\<lambda>err. (slave, Some err)) (\<lambda>c.
       ask rx env c (IPPort slave) ''CLUSTER'' [ArgStr ''REPLICATE'', ArgStr masterID] ''unable to run command REPLICATE''
         (\<lambda>err. (slave, Some err))
         (\<lambda>resp s. Some ((fst (SetRole RedisSlaveRole (SetReferentMaster masterID slave)), None), s))) s"

definition Admin_AddSlots ::
  "'w radix \<Rightarrow> go_env \<Rightarrow> string \<Rightarrow> Slot list \<Rightarrow> 'w cw \<Rightarrow> (goerr option \<times> 'w cw) option" where
  "Admin_AddSlots rx env addr slots s =
     (if length slots = 0 then Some (None, s)
      else with_client rx env addr Some (\<lambda>c.
             ask rx env c addr ''CLUSTER'' [ArgStr ''ADDSLOTS'', ArgSlots slots] ''unable to run CLUSTER ADDSLOTS'' Some
               (\<lambda>resp s. Some (None, s))) s)"

definition setslot_args :: "string \<Rightarrow> Slot \<Rightarrow> string \<Rightarrow> arg list" where
  "setslot_args action slot nodeID =
     (if nodeID = [] then [ArgStr ''SETSLOT'', ArgSlot slot, ArgStr action]
      else [ArgStr ''SETSLOT'', ArgSlot slot, ArgStr action, ArgStr nodeID])"

definition setslot_answer :: "'w radix \<Rightarrow> go_env \<Rightarrow> Client \<Rightarrow> string \<Rightarrow> string \<Rightarrow> 'w cw \<Rightarrow> (goerr option \<times> 'w cw) option" where
  "setslot_answer rx env c addr action s =
     Option.bind (ValidatePipeResp rx env c addr s) (\<lambda>(ok, s).
       if \<not> ok then Some (Some (Errorf (''Error occured during CLUSTER SETSLOT '' @ action)), s)
       else Some (None, pipe_clear rx c s))"

definition SetSlots ::
  "'w radix \<Rightarrow> go_env \<Rightarrow> string \<Rightarrow> string \<Rightarrow> Slot list \<Rightarrow> string \<Rightarrow> 'w cw \<Rightarrow> (goerr option \<times> 'w cw) option" where
  "SetSlots rx env addr action slots nodeID s =
     (if length slots = 0 then Some (None, s)
      else with_client rx env addr Some (\<lambda>c s.
             setslot_answer rx env c addr action
               (fold (\<lambda>slot s. pipe_append rx c ''CLUSTER'' (setslot_args action slot nodeID) s) slots s)) s)"

definition SetSlot ::
  "'w radix \<Rightarrow> go_env \<Rightarrow> string \<Rightarrow> string \<Rightarrow> Slot \<Rightarrow> string \<Rightarrow> 'w cw \<Rightarrow> (goerr option \<times> 'w cw) option" where
  "SetSlot rx env addr action slot nodeID s =
     with_client rx env addr Some (\<lambda>c s.
       setslot_answer rx env c addr action (pipe_append rx c ''CLUSTER'' (setslot_args action slot nodeID) s)) s"

fun SetConfigEpoch_loop ::
  "'w radix \<Rightarrow> go_env \<Rightarrow> (string \<times> Client) list \<Rightarrow> int \<Rightarrow> 'w cw \<Rightarrow> (goerr option \<times> 'w cw) option" where
  "SetConfigEpoch_loop rx env [] configEpoch s = Some (None, s)"
| "SetConfigEpoch_loop rx env ((addr, c) # cs) configEpoch s =
     ask rx env c addr ''CLUSTER'' [ArgStr ''SET-CONFIG-EPOCH'', ArgInt configEpoch]
       ''unable to run command SET-CONFIG-EPOCH'' Some
       (\<lambda>resp. SetConfigEpoch_loop rx env cs (configEpoch + 1)) s"

definition SetConfigEpoch :: "'w radix \<Rightarrow> go_env \<Rightarrow> 'w cw \<Rightarrow> (goerr option \<times> 'w cw) option" where
  "SetConfigEpoch rx env s = SetConfigEpoch_loop rx env (mrange env 42 (GetAll (fst s))) 1 s"

text \<open>The reply of the node at \<open>cAddr\<close> is validated under the address of the node to attach.\<close>

fun meet_loop ::
  "'w radix \<Rightarrow> go_env \<Rightarrow> string \<Rightarrow> string \<Rightarrow> string \<Rightarrow> (string \<times> Client) list \<Rightarrow> 'w cw \<Rightarrow> (goerr option \<times> 'w cw) option" where
  "meet_loop rx env addr ip port [] s = Option.bind (Add rx env addr s) (\<lambda>(_, s). Some (None, s))"
| "meet_loop rx env addr ip port ((cAddr, c) # cs) s =
     (if cAddr = addr then meet_loop rx env addr ip port cs s
      else ask rx env c addr ''CLUSTER'' [ArgStr ''MEET'', ArgStr ip, ArgStr port] ''cannot attach node to cluster'' Some
             (\<lambda>resp. meet_loop rx env addr ip port cs) s)"

definition AttachNodeToCluster :: "'w radix \<Rightarrow> go_env \<Rightarrow> string \<Rightarrow> 'w cw \<Rightarrow> (goerr option \<times> 'w cw) option" where
  "AttachNodeToCluster rx env addr s =
     (case SplitHostPort addr of
        Inl err \<Rightarrow> Some (Some err, s)
      | Inr (ip, port) \<Rightarrow>
          if length (GetAll (fst s)) = 0 then Some (Some (Errorf ''no connection for other redis-node found''), s)
          else meet_loop rx env addr ip port (mrange env 43 (GetAll (fst s))) s)"

definition GetAllConfig ::
  "'w radix \<Rightarrow> go_env \<Rightarrow> Client \<Rightarrow> string \<Rightarrow> 'w cw \<Rightarrow> ((goerr + (string, string) gomap) \<times> 'w cw) option" where
  "GetAllConfig rx env c addr s =
     ask rx env c addr ''CONFIG'' [ArgStr ''GET'', ArgStr ''*''] ''unable to retrieve config'' Inl
       (\<lambda>resp s. case resp_Map resp of
          Inl err \<Rightarrow> Some (Inl (Errorf (''wrong format from CONFIG GET *: '' @ ErrorText env err)), s)
        | Inr raw \<Rightarrow> Some (Inr raw, s)) s"

definition parseConfigMap :: "string list" where
  "parseConfigMap = [''maxmemory'', ''proto-max-bulk-len'', ''client-query-buffer-limit'', ''repl-backlog-size'',
     ''auto-aof-rewrite-min-size'', ''active-defrag-ignore-bytes'', ''hash-max-ziplist-entries'',
     ''hash-max-ziplist-value'', ''stream-node-max-bytes'', ''set-max-intset-entries'', ''zset-max-ziplist-entries'',
     ''zset-max-ziplist-value'', ''hll-sparse-max-bytes'']"

text \<open>The value to set for a key, \<open>None\<close> when it cannot be read and is skipped.\<close>

definition config_value :: "string \<Rightarrow> string \<Rightarrow> string option" where
  "config_value key value =
     (if key \<in> set parseConfigMap then (case ParseRedisMemConf value of Inl err \<Rightarrow> None | Inr v \<Rightarrow> Some v)
      else Some value)"

fun SetConfig_keys ::
  "'w radix \<Rightarrow> go_env \<Rightarrow> Client \<Rightarrow> string \<Rightarrow> (string, string) gomap \<Rightarrow> (string \<times> string) list \<Rightarrow> 'w cw
    \<Rightarrow> (goerr option \<times> 'w cw) option" where
  "SetConfig_keys rx env c addr oldConfig [] s = Some (None, s)"
| "SetConfig_keys rx env c addr oldConfig ((key, value) # rest) s =
     (case config_value key value of
        None \<Rightarrow> SetConfig_keys rx env c addr oldConfig rest s
      | Some value \<Rightarrow>
          if value \<noteq> mget [] oldConfig key then
            ask rx env c addr ''CONFIG'' [ArgStr ''SET'', ArgStr key, ArgStr value] ''unable to retrieve config'' Some
              (\<lambda>resp. SetConfig_keys rx env c addr oldConfig rest) s
          else SetConfig_keys rx env c addr oldConfig rest s)"

fun SetConfigIfNeed_loop ::
  "'w radix \<Rightarrow> go_env \<Rightarrow> (string, string) gomap \<Rightarrow> nat \<Rightarrow> (string \<times> Client) list \<Rightarrow> 'w cw \<Rightarrow> (goerr option \<times> 'w cw) option" where
  "SetConfigIfNeed_loop rx env newConfig i [] s = Some (None, s)"
| "SetConfigIfNeed_loop rx env newConfig i ((addr, c) # cs) s =
     Option.bind (GetAllConfig rx env c addr s) (\<lambda>(r, s).
       case r of
         Inl err \<Rightarrow> Some (Some err, s)
       | Inr oldConfig \<Rightarrow>
           Option.bind (SetConfig_keys rx env c addr oldConfig (mrange env (100 + i) newConfig) s) (\<lambda>(err, s).
             case err of Some e \<Rightarrow> Some (Some e, s) | None \<Rightarrow> SetConfigIfNeed_loop rx env newConfig (i + 1) cs s))"

definition SetConfigIfNeed :: "'w radix \<Rightarrow> go_env \<Rightarrow> (string, string) gomap \<Rightarrow> 'w cw \<Rightarrow> (goerr option \<times> 'w cw) option" where
  "SetConfigIfNeed rx env newConfig s = SetConfigIfNeed_loop rx env newConfig 0 (mrange env 44 (GetAll (fst s))) s"

section \<open>Moving keys\<close>

definition migrateCmdArgs :: "AdminConnections \<Rightarrow> Node \<Rightarrow> string \<Rightarrow> bool \<Rightarrow> string list \<Rightarrow> string list" where
  "migrateCmdArgs cnx dest timeoutStr replace keys =
     [IP dest, Port dest, '''', ''0'', timeoutStr]
     @ (case GetAUTH cnx of (password, ok) \<Rightarrow> if ok then [''AUTH'', password] else [])
     @ (if replace then [''REPLACE'', ''KEYS''] else [''KEYS'']) @ keys"

text \<open>The loop that \<open>MigrateKeys\<close> runs per slot and \<open>MigrateKeysInSlot\<close> once: read a batch of keys, move
  it, until the slot is empty. It runs forever when the keys do not go away.\<close>

partial_function (option) migrate_slot ::
  "'w radix \<Rightarrow> go_env \<Rightarrow> Client \<Rightarrow> string \<Rightarrow> Node \<Rightarrow> Slot \<Rightarrow> string \<Rightarrow> string \<Rightarrow> bool \<Rightarrow> int \<Rightarrow> 'w cw
    \<Rightarrow> ((int \<times> goerr option) \<times> 'w cw) option" where
  "migrate_slot rx env c addr dest slot batchStr timeoutStr replace keyCount s =
     (let (resp, w) = Client_Cmd rx c ''CLUSTER'' [ArgStr ''GETKEYSINSLOT'', ArgSlot slot, ArgStr batchStr] (snd s)
      in Option.bind (ValidateResp rx env (Some resp) addr ''Unable to run command GETKEYSINSLOT'' (fst s, w)) (\<lambda>(err, s).
           case err of
             Some e \<Rightarrow> Some ((keyCount, Some e), s)
           | None \<Rightarrow>
               (case resp_List resp of
                  Inl e \<Rightarrow> Some ((keyCount, Some e), s)
                | Inr keys \<Rightarrow>
                    if length keys = 0 then Some ((keyCount, None), s)
                    else
                      let (resp, w) = Client_Cmd rx c ''MIGRATE''
                            [ArgStrs (migrateCmdArgs (fst s) dest timeoutStr replace keys)] (snd s)
                      in Option.bind (ValidateResp rx env (Some resp) addr ''Unable to run command MIGRATE'' (fst s, w))
                           (\<lambda>(err, s).
                              case err of
                                Some e \<Rightarrow> Some ((keyCount + int (length keys), Some e), s)
                              | None \<Rightarrow> migrate_slot rx env c addr dest slot batchStr timeoutStr replace
                                          (keyCount + int (length keys)) s))))"

fun MigrateKeys_slots ::
  "'w radix \<Rightarrow> go_env \<Rightarrow> Client \<Rightarrow> string \<Rightarrow> Node \<Rightarrow> Slot list \<Rightarrow> string \<Rightarrow> string \<Rightarrow> bool \<Rightarrow> int \<Rightarrow> 'w cw
    \<Rightarrow> ((int \<times> goerr option) \<times> 'w cw) option" where
  "MigrateKeys_slots rx env c addr dest [] batchStr timeoutStr replace keyCount s = Some ((keyCount, None), s)"
| "MigrateKeys_slots rx env c addr dest (slot # slots) batchStr timeoutStr replace keyCount s =
     Option.bind (migrate_slot rx env c addr dest slot batchStr timeoutStr replace keyCount s) (\<lambda>((keyCount, err), s).
       case err of
         Some e \<Rightarrow> Some ((keyCount, Some e), s)
       | None \<Rightarrow> MigrateKeys_slots rx env c addr dest slots batchStr timeoutStr replace keyCount s)"

definition MigrateKeys ::
  "'w radix \<Rightarrow> go_env \<Rightarrow> string \<Rightarrow> Node \<Rightarrow> Slot list \<Rightarrow> int \<Rightarrow> int \<Rightarrow> bool \<Rightarrow> 'w cw \<Rightarrow> ((int \<times> goerr option) \<times> 'w cw) option" where
  "MigrateKeys rx env addr dest slots batch timeout replace s =
     (if length slots = 0 then Some ((0, None), s)
      else with_client rx env addr (\<lambda>err. (0, Some err)) (\<lambda>c.
             MigrateKeys_slots rx env c addr dest slots (FormatInt batch) (FormatInt timeout) replace 0) s)"

definition MigrateKeysInSlot ::
  "'w radix \<Rightarrow> go_env \<Rightarrow> string \<Rightarrow> Node \<Rightarrow> Slot \<Rightarrow> int \<Rightarrow> int \<Rightarrow> bool \<Rightarrow> 'w cw \<Rightarrow> ((int \<times> goerr option) \<times> 'w cw) option" where
  "MigrateKeysInSlot rx env addr dest slot batch timeout replace s =
     with_client rx env addr (\<lambda>err. (0, Some err)) (\<lambda>c.
       migrate_slot rx env c addr dest slot (FormatInt batch) (FormatInt timeout) replace 0) s"

section \<open>Removing nodes\<close>

definition DetachSlave :: "'w radix \<Rightarrow> go_env \<Rightarrow> Node \<Rightarrow> 'w cw \<Rightarrow> ((Node \<times> goerr option) \<times> 'w cw) option" where
  "DetachSlave rx env slave s =
     with_client rx env (IPPort slave) (\<lambda>err. (slave, Some err)) (\<lambda>c.
       ask rx env c (IPPort slave) ''CLUSTER'' [ArgStr ''RESET'', ArgStr ''SOFT''] ''cannot attach node to cluster''
         (\<lambda>err. (slave, Some err))
         (\<lambda>resp s. Option.bind (AttachNodeToCluster rx env (IPPort slave) s) (\<lambda>(err, s).
            case err of
              Some e \<Rightarrow> Some ((slave, Some e), s)
            | None \<Rightarrow> Some ((fst (SetRole RedisMasterRole (SetReferentMaster [] slave)), None), s)))) s"

text \<open>One round of \<open>ForgetNode\<close>: a slave of the node is detached first, and every error is only logged.\<close>

definition forget_on ::
  "'w radix \<Rightarrow> go_env \<Rightarrow> string \<Rightarrow> string \<Rightarrow> nref \<Rightarrow> nheap \<Rightarrow> 'w cw \<Rightarrow> (nheap \<times> 'w cw) option" where
  "forget_on rx env ident nodeAddr r h s =
     (if ID (h r) = ident then Some (h, s)
      else
        Option.bind
          (if IsSlave (h r) \<and> MasterReferent (h r) = ident
           then Option.bind (DetachSlave rx env (h r) s) (\<lambda>((n, _), s). Some (h(r := n), s))
           else Some (h, s))
          (\<lambda>(h, s).
             with_client rx env nodeAddr (\<lambda>err. h) (\<lambda>c.
               ask rx env c nodeAddr ''CLUSTER'' [ArgStr ''FORGET'', ArgStr ident] ''Unable to execute FORGET command''
                 (\<lambda>err. h) (\<lambda>resp s. Some (h, s))) s))"

fun forget_loop ::
  "'w radix \<Rightarrow> go_env \<Rightarrow> string \<Rightarrow> (string \<times> NodeInfos) list \<Rightarrow> nheap \<Rightarrow> 'w cw \<Rightarrow> (nheap \<times> 'w cw) option" where
  "forget_loop rx env ident [] h s = Some (h, s)"
| "forget_loop rx env ident ((nodeAddr, nodeinfos) # rest) h s =
     Option.bind (forget_on rx env ident nodeAddr (nodeinfos_Node nodeinfos) h s)
       (\<lambda>(h, s). forget_loop rx env ident rest h s)"

definition ForgetNode ::
  "'w radix \<Rightarrow> go_env \<Rightarrow> string \<Rightarrow> nstore \<Rightarrow> 'w cw \<Rightarrow> ((goerr option \<times> nstore) \<times> 'w cw) option" where
  "ForgetNode rx env ident st s =
     Option.bind (GetClusterInfos rx env st s) (\<lambda>(((infos, _), st), s).
       Option.bind (forget_loop rx env ident (mrange env 45 (Infos infos)) (fst st) s) (\<lambda>(h, s).
         Some ((None, (h, snd st)), s)))"

definition FlushAndReset :: "'w radix \<Rightarrow> go_env \<Rightarrow> string \<Rightarrow> string \<Rightarrow> 'w cw \<Rightarrow> (goerr option \<times> 'w cw) option" where
  "FlushAndReset rx env addr mode s =
     with_client rx env addr Some (\<lambda>c s.
       Option.bind (ValidatePipeResp rx env c addr
         (pipe_append rx c ''CLUSTER'' [ArgStr ''RESET'', ArgStr mode] (pipe_append rx c ''FLUSHALL'' [] s)))
         (\<lambda>(ok, s). Some (if \<not> ok then Some (Errorf (''Cannot reset node '' @ addr)) else None, s))) s"

fun ResetPassword_loop ::
  "'w radix \<Rightarrow> go_env \<Rightarrow> string \<Rightarrow> (string \<times> Client) list \<Rightarrow> 'w cw \<Rightarrow> (goerr option \<times> 'w cw) option" where
  "ResetPassword_loop rx env newPassword [] s = Some (None, s)"
| "ResetPassword_loop rx env newPassword ((addr, c) # cs) s =
     ask rx env c addr ''CONFIG'' [ArgStr ''SET'', ArgStr ''masterauth'', ArgStr newPassword] ''cannot set new masterauth'' Some
       (\<lambda>resp. ask rx env c addr ''CONFIG'' [ArgStr ''SET'', ArgStr ''requirepass'', ArgStr newPassword]
                 ''cannot set new requirepass'' Some
                 (\<lambda>resp. ResetPassword_loop rx env newPassword cs)) s"

definition ResetPassword :: "'w radix \<Rightarrow> go_env \<Rightarrow> string \<Rightarrow> 'w cw \<Rightarrow> (goerr option \<times> 'w cw) option" where
  "ResetPassword rx env newPassword s =
     (if length (GetAll (fst s)) = 0 then Some (Some (Errorf ''no connection for other redis-node found''), s)
      else ResetPassword_loop rx env newPassword (mrange env 46 (GetAll (fst s))) s)"

section \<open>The operator's implementation of the interface\<close>

text \<open>\<open>Admin\<close> as a value of the interface the clustering code is written against. The interface has no
  place for a call that does not return; such a call is taken as an error that changes nothing.
  \<open>ForgetNode\<close> works on nodes of its own.\<close>

definition returned :: "'r \<Rightarrow> ('r \<times> 'w cw) option \<Rightarrow> 'w cw \<Rightarrow> 'r \<times> 'w cw" where
  "returned dflt m s = (case m of Some rs \<Rightarrow> rs | None \<Rightarrow> (dflt, s))"

definition no_return :: goerr where "no_return = Errorf ''call does not return''"

definition admin :: "'w radix \<Rightarrow> go_env \<Rightarrow> ('w cw) IAdmin" where
  "admin rx env = \<lparr>GetHashMaxSlot = Admin_GetHashMaxSlot,
     adm_AddSlots = (\<lambda>addr slots s. returned (Some no_return) (Admin_AddSlots rx env addr slots s) s),
     adm_SetSlots = (\<lambda>addr action slots ident s. returned (Some no_return) (SetSlots rx env addr action slots ident s) s),
     adm_SetSlot = (\<lambda>addr action slot ident s. returned (Some no_return) (SetSlot rx env addr action slot ident s) s),
     adm_MigrateKeys = (\<lambda>addr dest slots batch timeout replace s.
       returned (0, Some no_return) (MigrateKeys rx env addr dest slots batch timeout replace s) s),
     adm_MigrateKeysInSlot = (\<lambda>addr dest slot batch timeout replace s.
       returned (0, Some no_return) (MigrateKeysInSlot rx env addr dest slot batch timeout replace s) s),
     adm_AttachSlaveToMaster = (\<lambda>n m s. returned (n, Some no_return) (AttachSlaveToMaster rx env n m s) s),
     adm_ForgetNode = (\<lambda>ident s.
       let (r, s) = returned (Some no_return, (\<lambda>_. NewDefaultNode, 0)) (ForgetNode rx env ident (\<lambda>_. NewDefaultNode, 0) s) s
       in (fst r, s))\<rparr>"

lemma AttachSlaveToMaster_cases:
  assumes "AttachSlaveToMaster rx env n m s = Some ((n', err), s')"
  shows "(err \<noteq> None \<and> n' = n) \<or> (err = None \<and> n' = fst (SetRole RedisSlaveRole (SetReferentMaster m n)))"
  using assms by (auto simp: AttachSlaveToMaster_def with_client_def ask_def Let_def
      split: bind_splits option.splits prod.splits)

interpretation operator_admin: slave_attacher "admin rx env"
  for rx env
proof
  fix n m s n' err s'
  assume "adm_AttachSlaveToMaster (admin rx env) n m s = ((n', err), s')"
  then consider "err \<noteq> None \<and> n' = n" | "err = None" "n' = fst (SetRole RedisSlaveRole (SetReferentMaster m n))"
    using AttachSlaveToMaster_cases [of rx env n m s n' err s']
    by (auto simp: admin_def returned_def split: option.splits)
  then show "n' = n\<lparr>Role := Role n', MasterReferent := MasterReferent n'\<rparr>"
    by cases (simp_all add: SetReferentMaster_def)
next
  fix n m s n' s'
  assume "adm_AttachSlaveToMaster (admin rx env) n m s = ((n', None), s')"
  then have "n' = fst (SetRole RedisSlaveRole (SetReferentMaster m n))"
    using AttachSlaveToMaster_cases [of rx env n m s n' None s']
    by (auto simp: admin_def returned_def split: option.splits)
  then show "Role n' = RedisSlaveRole \<and> (m \<noteq> ''-'' \<longrightarrow> MasterReferent n' = m)"
    by (simp add: SetReferentMaster_def)
next
  fix n m s n' e s'
  assume "adm_AttachSlaveToMaster (admin rx env) n m s = ((n', Some e), s')"
  then show "n' = n"
    using AttachSlaveToMaster_cases [of rx env n m s n' "Some e" s']
    by (auto simp: admin_def returned_def split: option.splits)
qed

section \<open>Pipelines\<close>

text \<open>What the driver documents about its pipeline: a queue of replies per connection, to which every
  \<open>PipeAppend\<close> adds one, from which \<open>PipeResp\<close> takes the first, and the error \<open>ErrPipelineEmpty\<close> once it
  is empty.\<close>

locale radix_pipeline =
  fixes rx :: "'w radix" and queue :: "conn \<Rightarrow> 'w \<Rightarrow> Resp list"
  assumes append_one: "\<exists>r. queue c (radix_PipeAppend rx c cmd args w) = queue c w @ [r] \<and> resp_Err r \<noteq> Some PipelineEmpty"
    and resp_first: "queue c w = r # rs \<Longrightarrow> \<exists>w'. radix_PipeResp rx c w = (Some r, w') \<and> queue c w' = rs"
    and resp_empty: "queue c w = [] \<Longrightarrow> \<exists>r w'. radix_PipeResp rx c w = (Some r, w') \<and> resp_Err r = Some PipelineEmpty"
begin

definition ready :: "Client \<Rightarrow> 'w \<Rightarrow> bool" where
  "ready c w \<longleftrightarrow> list_all (\<lambda>r. resp_Err r \<noteq> Some PipelineEmpty) (queue (client_conn c) w)"

definition accepted :: "Client \<Rightarrow> 'w \<Rightarrow> bool" where
  "accepted c w \<longleftrightarrow> list_all (\<lambda>r. resp_Err r = None) (queue (client_conn c) w)"

lemma ValidatePipeResp_loop_reads:
  assumes "cnx_clientName (fst s) = []" and "ready c (snd s)"
  shows "\<exists>s'. ValidatePipeResp_loop rx env c addr ok s = Some (ok \<and> accepted c (snd s), s')"
  using assms
proof (induction "queue (client_conn c) (snd s)" arbitrary: s ok)
  case Nil
  then obtain r w' where "radix_PipeResp rx (client_conn c) (snd s) = (Some r, w')" "resp_Err r = Some PipelineEmpty"
    using resp_empty by metis
  with Nil show ?case
    by (subst ValidatePipeResp_loop.simps) (simp add: Client_PipeResp_def accepted_def)
next
  case (Cons r rs)
  note q = Cons.hyps(2) [symmetric]
  from Cons obtain w' where w': "radix_PipeResp rx (client_conn c) (snd s) = (Some r, w')" "queue (client_conn c) w' = rs"
    using resp_first by metis
  have ready: "ready c w'" and not_end: "resp_Err r \<noteq> Some PipelineEmpty"
    using Cons.prems(2) by (simp_all add: ready_def q w'(2))
  have acc: "accepted c (snd s) \<longleftrightarrow> resp_Err r = None \<and> accepted c w'"
    by (simp add: accepted_def q w'(2))
  have IH: "\<exists>s'. ValidatePipeResp_loop rx env c addr ok' (fst s, w') = Some (ok' \<and> accepted c w', s')" for ok'
    using Cons.hyps(1) [of "(fst s, w')" ok'] w'(2) Cons.prems(1) ready by simp
  show ?case
  proof (cases "resp_Err r")
    case None
    then show ?thesis
      using IH [of ok] w'(1) acc by (subst ValidatePipeResp_loop.simps) (simp add: Client_PipeResp_def)
  next
    case (Some e)
    obtain b s1 where h: "handleError rx env addr (Some e) (fst s, w') = Some (b, s1)"
      using handleError_returns [of "(fst s, w')" rx env addr "Some e"] Cons.prems(1) by auto
    have "\<not> b \<Longrightarrow> s1 = (fst s, w')"
      using h by (auto simp: handleError_def split: if_splits bind_splits)
    with h IH [of False] Some not_end w'(1) acc show ?thesis
      by (subst ValidatePipeResp_loop.simps) (cases b; simp add: Client_PipeResp_def)
  qed
qed

lemma append_all:
  assumes "ready c (snd s)"
  shows "let s' = fold (\<lambda>x s. pipe_append rx c cmd (f x) s) xs s in
     fst s' = fst s \<and> ready c (snd s')
     \<and> length (queue (client_conn c) (snd s')) = length (queue (client_conn c) (snd s)) + length xs"
  using assms
proof (induction xs arbitrary: s)
  case (Cons x xs)
  obtain r where "queue (client_conn c) (snd (pipe_append rx c cmd (f x) s)) = queue (client_conn c) (snd s) @ [r]"
    "resp_Err r \<noteq> Some PipelineEmpty"
    using append_one [of "client_conn c" "getCommand c cmd" "f x" "snd s"]
    by (auto simp: pipe_append_def Client_PipeAppend_def)
  with Cons.prems Cons.IH [of "pipe_append rx c cmd (f x) s"] show ?case
    by (simp add: ready_def pipe_append_def Let_def)
qed simp

end

lemma table_queue_append: "answer cmd args = r \<Longrightarrow>
    pipes (radix_PipeAppend (table_radix answer) c cmd args w) c = pipes w c @ [r]"
  by (simp add: table_radix_def)

lemma table_pipeline:
  assumes "\<And>cmd args. resp_Err (answer cmd args) \<noteq> Some PipelineEmpty"
  shows "radix_pipeline (table_radix answer) (\<lambda>c w. pipes w c)"
proof
  show "\<exists>r. pipes (radix_PipeAppend (table_radix answer) c cmd args w) c = pipes w c @ [r]
      \<and> resp_Err r \<noteq> Some PipelineEmpty" for c cmd args w
    using assms table_queue_append [of answer cmd args] by blast
qed (simp_all add: table_radix_def reply_def)

interpretation table: radix_pipeline "table_radix (\<lambda>cmd args. reply (map_option Errorf (answer cmd args)))" "\<lambda>c w. pipes w c"
  for answer
  by (rule table_pipeline) (simp add: reply_def option.case_eq_if map_option_case)

text \<open>C16. \<open>SetSlots\<close> on a connected node always returns when the driver keeps its pipeline contract: it
  queues exactly one \<open>SETSLOT\<close> command per slot, and reports success exactly when every reply is free
  of errors. Without slots it sends nothing.\<close>

theorem SetSlots_reports:
  assumes "radix_pipeline rx queue" and "cnx_clientName (fst s) = []"
    and "map_of (clients (fst s)) addr = Some c" and "queue (client_conn c) (snd s) = []"
  shows "\<exists>s'. let sent = fold (\<lambda>slot s. pipe_append rx c ''CLUSTER'' (setslot_args action slot nodeID) s) slots s in
      SetSlots rx env addr action slots nodeID s
        = Some (if list_all (\<lambda>r. resp_Err r = None) (queue (client_conn c) (snd sent)) then None
                else Some (Errorf (''Error occured during CLUSTER SETSLOT '' @ action)), s')
      \<and> length (queue (client_conn c) (snd sent)) = length slots \<and> (slots = [] \<longrightarrow> s' = s)"
proof (cases "slots = []")
  case True
  with assms(4) show ?thesis by (simp add: SetSlots_def)
next
  case False
  define sent where "sent = fold (\<lambda>slot s. pipe_append rx c ''CLUSTER'' (setslot_args action slot nodeID) s) slots s"
  have r0: "radix_pipeline.ready queue c (snd s)"
    using assms(4) by (simp add: radix_pipeline.ready_def [OF assms(1)])
  note all = radix_pipeline.append_all [OF assms(1) r0, of "''CLUSTER''" "\<lambda>slot. setslot_args action slot nodeID" slots,
      folded sent_def, unfolded Let_def]
  have "Get rx env addr s = Some ((Some c, None), s)" using assms(3) by (simp add: Get_def)
  then have call: "SetSlots rx env addr action slots nodeID s = setslot_answer rx env c addr action sent"
    using False by (simp add: SetSlots_def with_client_def sent_def)
  have "cnx_clientName (fst sent) = []" and "radix_pipeline.ready queue c (snd sent)"
    using all assms(2) by simp_all
  from radix_pipeline.ValidatePipeResp_loop_reads [OF assms(1) this]
  obtain s1 where "ValidatePipeResp rx env c addr sent = Some (radix_pipeline.accepted queue c (snd sent), s1)"
    unfolding ValidatePipeResp_def by (metis (full_types))
  then show ?thesis
    using call all assms(4) False
    by (auto simp: setslot_answer_def sent_def [symmetric] radix_pipeline.accepted_def [OF assms(1)])
qed

definition demo_client :: Client where
  "demo_client = \<lparr>client_mapping = [], client_conn = 0\<rparr>"

definition demo_pool :: AdminConnections where
  "demo_pool = (demo_cnx [])\<lparr>clients := [(''10.0.0.1:6379'', demo_client)]\<rparr>"

theorem SetSlots_reports_witness:
  "\<exists>s'. SetSlots (table_radix (\<lambda>cmd args. reply (map_option Errorf (if args = setslot_args ''STABLE'' 7 [] then Some ''ERR'' else None))))
      go_env_det ''10.0.0.1:6379'' ''STABLE'' [5, 6] [] (demo_pool, empty_world) = Some (None, s')"
proof -
  let ?rx = "table_radix (\<lambda>cmd args. reply (map_option Errorf (if args = setslot_args ''STABLE'' 7 [] then Some ''ERR'' else None)))"
  have pl: "radix_pipeline ?rx (\<lambda>c w. pipes w c)" by (rule table.radix_pipeline_axioms)
  have name: "cnx_clientName (fst (demo_pool, empty_world)) = []"
    and known: "map_of (clients (fst (demo_pool, empty_world))) ''10.0.0.1:6379'' = Some demo_client"
    and empty: "pipes (snd (demo_pool, empty_world)) (client_conn demo_client) = []"
    by (simp_all add: demo_pool_def demo_cnx_def empty_world_def)
  from SetSlots_reports [OF pl name known empty, of "''STABLE''" "[]" "[5, 6]" go_env_det]
  show ?thesis
    by (auto simp: pipe_append_def Client_PipeAppend_def table_radix_def setslot_args_def reply_def
        empty_world_def demo_client_def)
qed

section \<open>The keyspace\<close>

text \<open>What Redis documents about the two commands that move keys. \<open>CLUSTER GETKEYSINSLOT slot count\<close> lists up to the given
  number of keys of a slot and changes none. \<open>MIGRATE host port "" 0 timeout [AUTH password] [REPLACE] KEYS key ...\<close> moves the
  listed keys to database 0 of the node at that host and port, which must be another node and must be given its password when it has one; without \<open>REPLACE\<close> it
  fails when the other node has one of the keys. The contract speaks of the source node of a client \<open>c\<close>, with its keys by slot, and of the
  keys each other node holds.\<close>

locale key_server =
  fixes rx :: "'w radix" and c :: Client and keys :: "'w \<Rightarrow> Slot \<Rightarrow> string list" and held :: "'w \<Rightarrow> string \<times> string \<Rightarrow> string set"
    and self :: "string \<times> string" and password :: string and batch :: nat
  assumes list_keys: "Client_Cmd rx c ''CLUSTER'' [ArgStr ''GETKEYSINSLOT'', ArgSlot slot, ArgStr (FormatInt (int batch))] w
        = (resp, w') \<Longrightarrow> resp_Err resp = None \<and> resp_List resp = Inr (take batch (keys w slot)) \<and> keys w' = keys w \<and> held w' = held w"
    and move_keys: "Client_Cmd rx c ''MIGRATE'' [ArgStrs ([host, port, [], ''0'', timeoutStr] @ auth @ opts @ ''KEYS'' # ks)] w = (resp, w')
        \<Longrightarrow> (host, port) \<noteq> self \<Longrightarrow> auth = (if password = [] then [] else [''AUTH'', password])
        \<Longrightarrow> opts = [''REPLACE''] \<or> opts = [] \<and> set ks \<inter> held w (host, port) = {}
        \<Longrightarrow> resp_Err resp = None \<and> keys w' = (\<lambda>sl. filter (\<lambda>k. k \<notin> set ks) (keys w sl))
              \<and> held w' = (held w)((host, port) := held w (host, port) \<union> set ks)"
    and keys_distinct: "distinct (keys w slot)"
    and batch_pos: "batch > 0"
begin

text \<open>The command the operator sends is one the contract speaks of.\<close>

lemma migrate_moves:
  assumes "Client_Cmd rx c ''MIGRATE'' [ArgStrs (migrateCmdArgs cnx dest timeoutStr replace ks)] w = (resp, w')"
    and "(IP dest, Port dest) \<noteq> self" and "cnx_password cnx = password"
    and "replace \<or> set ks \<inter> held w (IP dest, Port dest) = {}"
  shows "resp_Err resp = None \<and> keys w' = (\<lambda>sl. filter (\<lambda>k. k \<notin> set ks) (keys w sl))
    \<and> held w' = (held w)((IP dest, Port dest) := held w (IP dest, Port dest) \<union> set ks)"
proof -
  have "migrateCmdArgs cnx dest timeoutStr replace ks = [IP dest, Port dest, [], ''0'', timeoutStr]
      @ (if password = [] then [] else [''AUTH'', password]) @ (if replace then [''REPLACE''] else []) @ ''KEYS'' # ks"
    using assms(3) by (simp add: migrateCmdArgs_def GetAUTH_def)
  from move_keys [OF assms(1) [unfolded this] assms(2) refl] assms(4) show ?thesis by auto
qed

text \<open>What one slot looks like while it is emptied: the keys that are still there are not at the destination.\<close>

lemma migrate_slot_empties:
  assumes "(IP dest, Port dest) \<noteq> self" and "cnx_password (fst s) = password"
    and "replace \<or> set (keys (snd s) slot) \<inter> held (snd s) (IP dest, Port dest) = {}"
  shows "\<exists>s'. migrate_slot rx env c addr dest slot (FormatInt (int batch)) timeoutStr replace keyCount s
      = Some ((keyCount + int (length (keys (snd s) slot)), None), s')
    \<and> keys (snd s') = (\<lambda>sl. filter (\<lambda>k. k \<notin> set (keys (snd s) slot)) (keys (snd s) sl))
    \<and> held (snd s') = (held (snd s))((IP dest, Port dest) := held (snd s) (IP dest, Port dest) \<union> set (keys (snd s) slot))
    \<and> fst s' = fst s"
  using assms(2,3)
proof (induction "length (keys (snd s) slot)" arbitrary: s keyCount rule: less_induct)
  case less
  let ?ks = "take batch (keys (snd s) slot)" and ?rest = "drop batch (keys (snd s) slot)" and ?d = "(IP dest, Port dest)"
  obtain resp w where get: "Client_Cmd rx c ''CLUSTER''
      [ArgStr ''GETKEYSINSLOT'', ArgSlot slot, ArgStr (FormatInt (int batch))] (snd s) = (resp, w)" by fastforce
  note g = list_keys [OF get]
  show ?case
  proof (cases "keys (snd s) slot = []")
    case True
    with get g show ?thesis
      by (subst migrate_slot.simps) (simp add: ValidateResp_def)
  next
    case False
    obtain resp2 w2 where mig: "Client_Cmd rx c ''MIGRATE''
        [ArgStrs (migrateCmdArgs (fst s) dest timeoutStr replace ?ks)] w = (resp2, w2)" by fastforce
    have parts: "set (keys (snd s) slot) = set ?ks \<union> set ?rest" by (metis append_take_drop_id set_append)
    have apart: "set ?ks \<inter> set ?rest = {}" using keys_distinct [of "snd s" slot] by (metis append_take_drop_id distinct_append)
    have free: "replace \<or> set ?ks \<inter> held w ?d = {}" using less.prems(2) g parts by auto
    note m = migrate_moves [OF mig assms(1) less.prems(1) free]
    have w2: "keys w2 sl = filter (\<lambda>k. k \<notin> set ?ks) (keys (snd s) sl)" for sl using m g by simp
    have own: "keys w2 slot = ?rest"
    proof -
      have "filter (\<lambda>k. k \<notin> set ?ks) (?ks @ ?rest) = ?rest"
        using apart unfolding filter_append by (auto simp: filter_empty_conv intro: filter_True)
      then show ?thesis using w2 by simp
    qed
    have shorter: "length (keys (snd (fst s, w2)) slot) < length (keys (snd s) slot)" using False batch_pos by (simp add: own)
    have "replace \<or> set (keys (snd (fst s, w2)) slot) \<inter> held (snd (fst s, w2)) ?d = {}"
      using less.prems(2) g m parts apart own by auto
    from less.hyps [OF shorter _ this, of "keyCount + int (length ?ks)"] less.prems(1) obtain s' where IH:
      "migrate_slot rx env c addr dest slot (FormatInt (int batch)) timeoutStr replace (keyCount + int (length ?ks)) (fst s, w2)
        = Some ((keyCount + int (length ?ks) + int (length (keys w2 slot)), None), s')"
      "keys (snd s') = (\<lambda>sl. filter (\<lambda>k. k \<notin> set (keys w2 slot)) (keys w2 sl))"
      "held (snd s') = (held w2)(?d := held w2 ?d \<union> set (keys w2 slot))" "fst s' = fst s" by auto
    have "min (length (keys (snd s) slot)) batch \<noteq> 0" using False batch_pos by simp
    then have "migrate_slot rx env c addr dest slot (FormatInt (int batch)) timeoutStr replace keyCount s
        = Some ((keyCount + int (length ?ks) + int (length (keys w2 slot)), None), s')"
      using False get g mig m IH(1) by (subst migrate_slot.simps) (clarsimp simp: ValidateResp_def min_def)
    moreover have "length ?ks + length (keys w2 slot) = length (keys (snd s) slot)" by (simp add: own)
    moreover have "keys (snd s') sl = filter (\<lambda>k. k \<notin> set (keys (snd s) slot)) (keys (snd s) sl)" for sl
      unfolding IH(2) own w2 filter_filter using parts by (intro filter_cong) auto
    moreover have "held (snd s') = (held (snd s))(?d := held (snd s) ?d \<union> set (keys (snd s) slot))"
      using m g unfolding IH(3) own parts by (auto simp: fun_eq_iff)
    ultimately show ?thesis using IH(4) by (intro exI [of _ s']) (auto simp: algebra_simps simp flip: of_nat_add)
  qed
qed

lemma MigrateKeys_slots_empties:
  assumes "distinct slots" and "\<And>sl sl'. sl \<noteq> sl' \<Longrightarrow> set (keys (snd s) sl) \<inter> set (keys (snd s) sl') = {}"
    and "(IP dest, Port dest) \<noteq> self" and "cnx_password (fst s) = password"
    and "replace \<or> (\<Union>sl\<in>set slots. set (keys (snd s) sl)) \<inter> held (snd s) (IP dest, Port dest) = {}"
  shows "\<exists>s'. MigrateKeys_slots rx env c addr dest slots (FormatInt (int batch)) timeoutStr replace keyCount s
      = Some ((keyCount + int (sum_list (map (\<lambda>sl. length (keys (snd s) sl)) slots)), None), s')
    \<and> keys (snd s') = (\<lambda>sl. if sl \<in> set slots then [] else keys (snd s) sl)
    \<and> held (snd s') = (held (snd s))((IP dest, Port dest) := held (snd s) (IP dest, Port dest) \<union> (\<Union>sl\<in>set slots. set (keys (snd s) sl)))"
  using assms(1,2,4,5)
proof (induction slots arbitrary: keyCount s)
  case (Cons slot slots)
  let ?d = "(IP dest, Port dest)"
  have "replace \<or> set (keys (snd s) slot) \<inter> held (snd s) ?d = {}" using Cons.prems(4) by auto
  from migrate_slot_empties [OF assms(3) Cons.prems(3) this] obtain s1 where
    s1: "migrate_slot rx env c addr dest slot (FormatInt (int batch)) timeoutStr replace keyCount s
      = Some ((keyCount + int (length (keys (snd s) slot)), None), s1)"
    "keys (snd s1) = (\<lambda>sl. filter (\<lambda>k. k \<notin> set (keys (snd s) slot)) (keys (snd s) sl))"
    "held (snd s1) = (held (snd s))(?d := held (snd s) ?d \<union> set (keys (snd s) slot))" "fst s1 = fst s"
    by blast
  have k1: "keys (snd s1) sl = (if sl = slot then [] else keys (snd s) sl)" for sl
    using Cons.prems(2) [of sl slot] by (auto simp: s1(2) filter_empty_conv intro: filter_True)
  have same: "keys (snd s1) sl = keys (snd s) sl" if "sl \<in> set slots" for sl using that Cons.prems(1) by (auto simp: k1)
  have lens: "map (\<lambda>sl. length (keys (snd s1) sl)) slots = map (\<lambda>sl. length (keys (snd s) sl)) slots"
    and sets: "(\<Union>sl\<in>set slots. set (keys (snd s1) sl)) = (\<Union>sl\<in>set slots. set (keys (snd s) sl))"
    by (simp_all add: same)
  have dis: "\<And>sl sl'. sl \<noteq> sl' \<Longrightarrow> set (keys (snd s1) sl) \<inter> set (keys (snd s1) sl') = {}"
    using Cons.prems(2) by (simp add: k1)
  have "set (keys (snd s) sl) \<inter> set (keys (snd s) slot) = {}" if "sl \<in> set slots" for sl
    using that Cons.prems(1) by (intro Cons.prems(2)) auto
  then have away: "(\<Union>sl\<in>set slots. set (keys (snd s) sl)) \<inter> set (keys (snd s) slot) = {}" by blast
  have free: "replace \<or> (\<Union>sl\<in>set slots. set (keys (snd s1) sl)) \<inter> held (snd s1) ?d = {}"
    unfolding sets s1(3) using Cons.prems(4) away by auto
  have "distinct slots" "cnx_password (fst s1) = password" using Cons.prems(1,3) s1(4) by simp_all
  from Cons.IH [OF this(1) dis this(2) free, of "keyCount + int (length (keys (snd s) slot))"] obtain s' where
    "MigrateKeys_slots rx env c addr dest slots (FormatInt (int batch)) timeoutStr replace
        (keyCount + int (length (keys (snd s) slot))) s1
      = Some ((keyCount + int (length (keys (snd s) slot))
          + int (sum_list (map (\<lambda>sl. length (keys (snd s) sl)) slots)), None), s')"
    and ks: "keys (snd s') = (\<lambda>sl. if sl \<in> set slots then [] else keys (snd s1) sl)"
    and hs: "held (snd s') = (held (snd s1))(?d := held (snd s1) ?d \<union> (\<Union>sl\<in>set slots. set (keys (snd s) sl)))"
    unfolding lens sets by blast
  then have "MigrateKeys_slots rx env c addr dest (slot # slots) (FormatInt (int batch)) timeoutStr replace keyCount s
      = Some ((keyCount + int (sum_list (map (\<lambda>sl. length (keys (snd s) sl)) (slot # slots))), None), s')"
    using s1(1) by simp
  moreover have "keys (snd s') = (\<lambda>sl. if sl \<in> set (slot # slots) then [] else keys (snd s) sl)"
    using ks by (auto simp: k1 fun_eq_iff)
  moreover have "held (snd s') = (held (snd s))(?d := held (snd s) ?d \<union> (\<Union>sl\<in>set (slot # slots). set (keys (snd s) sl)))"
    unfolding hs s1(3) by (simp add: Un_assoc)
  ultimately show ?case by blast
qed simp

text \<open>The count is that of the keys; the comment of the interface speaks of slots.\<close>

lemma MigrateKeys_count:
  assumes "map_of (clients (fst s)) addr = Some c" and "distinct slots"
    and "\<And>sl sl'. sl \<noteq> sl' \<Longrightarrow> set (keys (snd s) sl) \<inter> set (keys (snd s) sl') = {}"
    and "(IP dest, Port dest) \<noteq> self" and "cnx_password (fst s) = password"
    and "replace \<or> (\<Union>sl\<in>set slots. set (keys (snd s) sl)) \<inter> held (snd s) (IP dest, Port dest) = {}"
  shows "\<exists>s'. MigrateKeys rx env addr dest slots (int batch) timeout replace s
      = Some ((int (sum_list (map (\<lambda>sl. length (keys (snd s) sl)) slots)), None), s')
    \<and> keys (snd s') = (\<lambda>sl. if sl \<in> set slots then [] else keys (snd s) sl)
    \<and> held (snd s') = (held (snd s))((IP dest, Port dest) := held (snd s) (IP dest, Port dest) \<union> (\<Union>sl\<in>set slots. set (keys (snd s) sl)))"
proof (cases "slots = []")
  case True
  then show ?thesis by (simp add: MigrateKeys_def)
next
  case False
  have "Get rx env addr s = Some ((Some c, None), s)" using assms(1) by (simp add: Get_def)
  with False MigrateKeys_slots_empties [OF assms(2-6), of env addr "FormatInt timeout" 0]
  show ?thesis by (simp add: MigrateKeys_def with_client_def)
qed

end

text \<open>C12. \<open>MigrateKeys\<close> finishes and moves everything: against servers that list and move keys as
  Redis documents, it returns without error, the given slots are empty afterwards, no other slot lost a key, and the keys the slots had
  are at the node with the address of \<open>dest\<close>, in addition to what it held; no other node changed. The node is another one than
  the source, it has the password of the pool, the keys of different slots are different, and without \<open>replace\<close> none of the keys is there already.
  The number that is returned is no part of the statement.\<close>

theorem MigrateKeys_moves_all:
  assumes "key_server rx c keys held self password batch" and "map_of (clients (fst s)) addr = Some c" and "distinct slots"
    and "\<And>sl sl'. sl \<noteq> sl' \<Longrightarrow> set (keys (snd s) sl) \<inter> set (keys (snd s) sl') = {}"
    and "(IP dest, Port dest) \<noteq> self" and "cnx_password (fst s) = password"
    and "replace \<or> (\<Union>sl\<in>set slots. set (keys (snd s) sl)) \<inter> held (snd s) (IP dest, Port dest) = {}"
  shows "\<exists>n s'. MigrateKeys rx env addr dest slots (int batch) timeout replace s = Some ((n, None), s')
    \<and> keys (snd s') = (\<lambda>sl. if sl \<in> set slots then [] else keys (snd s) sl)
    \<and> held (snd s') = (held (snd s))((IP dest, Port dest) := held (snd s) (IP dest, Port dest) \<union> (\<Union>sl\<in>set slots. set (keys (snd s) sl)))"
  using key_server.MigrateKeys_count [OF assms] by blast

text \<open>A server that does what the contract says: it reads the arguments of \<open>MIGRATE\<close> one after the other and refuses a command with
  another database or a wrong password.\<close>

definition migrate_auth :: "string \<Rightarrow> string list \<Rightarrow> string list option" where
  "migrate_auth password args =
     (if password = [] then (if take 1 args = [''AUTH''] then None else Some args)
      else if take 2 args = [''AUTH'', password] then Some (drop 2 args) else None)"

definition migrate_opts :: "string list \<Rightarrow> (bool \<times> string list) option" where
  "migrate_opts args =
     (if take 2 args = [''REPLACE'', ''KEYS''] then Some (True, drop 2 args)
      else if take 1 args = [''KEYS''] then Some (False, drop 1 args) else None)"

definition migrate_request :: "string \<Rightarrow> string list \<Rightarrow> ((string \<times> string) \<times> bool \<times> string list) option" where
  "migrate_request password args =
     (case args of
        host # port # key # db # timeout # rest \<Rightarrow>
          if key = [] \<and> db = ''0'' then
            Option.bind (migrate_auth password rest) (\<lambda>rest. map_option (\<lambda>(replace, ks). ((host, port), replace, ks)) (migrate_opts rest))
          else None
      | _ \<Rightarrow> None)"

lemma migrate_request_ok:
  assumes "auth = (if password = [] then [] else [''AUTH'', password])" and "opts = [''REPLACE''] \<or> opts = []"
  shows "migrate_request password ([host, port, [], ''0'', timeoutStr] @ auth @ opts @ ''KEYS'' # ks)
    = Some ((host, port), opts = [''REPLACE''], ks)"
  using assms by (auto simp: migrate_request_def migrate_auth_def migrate_opts_def)

type_synonym key_world = "(Slot \<Rightarrow> string list) \<times> (string \<times> string \<Rightarrow> string set)"

definition key_migrate :: "string \<times> string \<Rightarrow> string \<Rightarrow> string list \<Rightarrow> key_world \<Rightarrow> Resp \<times> key_world" where
  "key_migrate self password args w =
     (case migrate_request password args of
        Some (d, replace, ks) \<Rightarrow>
          if d \<noteq> self \<and> (replace \<or> set ks \<inter> snd w d = {})
          then (reply None, (\<lambda>sl. filter (\<lambda>k. k \<notin> set ks) (fst w sl), (snd w)(d := snd w d \<union> set ks)))
          else (reply (Some (Errorf ''BUSYKEY Target key name already exists'')), w)
      | None \<Rightarrow> (reply (Some (Errorf ''ERR syntax error'')), w))"

definition key_radix :: "string \<times> string \<Rightarrow> string \<Rightarrow> nat \<Rightarrow> key_world radix" where
  "key_radix self password batch = \<lparr>
     DialTimeout = (\<lambda>addr t w. (Inr 0, w)),
     radix_Cmd = (\<lambda>c cmd args w. case args of
         [ArgStr a, ArgSlot sl, ArgStr b] \<Rightarrow> ((reply None)\<lparr>resp_List := Inr (take batch (remdups (fst w sl)))\<rparr>, w)
       | [ArgStrs xs] \<Rightarrow> key_migrate self password xs w
       | _ \<Rightarrow> (reply None, w)),
     radix_PipeAppend = (\<lambda>c cmd args w. w), radix_PipeResp = (\<lambda>c w. (None, w)),
     radix_PipeClear = (\<lambda>c w. ((0, 0), w)), radix_ReadResp = (\<lambda>c w. (None, w)), radix_Close = (\<lambda>c w. (None, w))\<rparr>"

interpretation keys: key_server "key_radix self password (Suc n)" c "\<lambda>w sl. remdups (fst w sl)" snd self password "Suc n"
  for self password n c
proof (unfold_locales, goal_cases)
  case (1 slot w resp w')
  then show ?case by (auto simp: Client_Cmd_def key_radix_def reply_def)
next
  case (2 host port timeoutStr auth opts ks w resp w')
  have "opts = [''REPLACE''] \<or> opts = []" using 2(4) by auto
  note req = migrate_request_ok [OF 2(3) this, of host port timeoutStr ks]
  have "key_migrate self password ([host, port, [], ''0'', timeoutStr] @ auth @ opts @ ''KEYS'' # ks) w = (resp, w')"
    using 2(1) by (simp add: Client_Cmd_def key_radix_def)
  then show ?case unfolding key_migrate_def req using 2(2,4) by (auto simp: reply_def remdups_filter)
qed simp_all

theorem MigrateKeys_moves_all_witness:
  "\<exists>n s'. MigrateKeys (key_radix (''10.0.0.1'', ''6379'') [] 2) go_env_det ''10.0.0.1:6379'' (sample_node ''b2'' ''10.0.0.2'' ''master'' [] [] []) [4, 6]
       2 60000 True (demo_pool, (\<lambda>sl. if sl = 4 then [''a'', ''b'', ''c''] else if sl = 5 then [''x''] else []), \<lambda>_. {}) = Some ((n, None), s')
     \<and> (\<lambda>sl. remdups (fst (snd s') sl)) = (\<lambda>sl. if sl = 5 then [''x''] else [])
     \<and> snd (snd s') (''10.0.0.2'', ''6379'') = {''a'', ''b'', ''c''}"
proof -
  let ?self = "(''10.0.0.1'', ''6379'')"
  let ?w = "((\<lambda>sl. if sl = 4 then [''a'', ''b'', ''c''] else if sl = 5 then [''x''] else []), \<lambda>_. {}) :: key_world"
  let ?dest = "sample_node ''b2'' ''10.0.0.2'' ''master'' [] [] []"
  have ks: "key_server (key_radix ?self [] 2) demo_client (\<lambda>w sl. remdups (fst w sl)) snd ?self [] 2"
    using keys.key_server_axioms [of ?self "[]" 1 demo_client] by (simp add: numeral_2_eq_2)
  have known: "map_of (clients (fst (demo_pool, ?w))) ''10.0.0.1:6379'' = Some demo_client" "cnx_password (fst (demo_pool, ?w)) = []"
    by (simp_all add: demo_pool_def demo_cnx_def)
  have dest: "(IP ?dest, Port ?dest) \<noteq> ?self" "(IP ?dest, Port ?dest) = (''10.0.0.2'', ''6379'')"
    by (simp_all add: sample_node_def NewDefaultNode_def DefaultRedisPort_def)
  have "\<exists>n s'. MigrateKeys (key_radix ?self [] 2) go_env_det ''10.0.0.1:6379'' ?dest [4, 6] (int 2) 60000 True (demo_pool, ?w) = Some ((n, None), s')
    \<and> (\<lambda>sl. remdups (fst (snd s') sl)) = (\<lambda>sl. if sl \<in> set [4, 6] then [] else remdups (fst (snd (demo_pool, ?w)) sl))
    \<and> snd (snd s') = (snd (snd (demo_pool, ?w)))((IP ?dest, Port ?dest) := snd (snd (demo_pool, ?w)) (IP ?dest, Port ?dest)
        \<union> (\<Union>sl\<in>set [4, 6]. set (remdups (fst (snd (demo_pool, ?w)) sl))))"
    by (rule MigrateKeys_moves_all [OF ks known(1) _ _ dest(1) known(2)]) auto
  then obtain n s' where s': "MigrateKeys (key_radix ?self [] 2) go_env_det ''10.0.0.1:6379'' ?dest [4, 6] 2 60000 True (demo_pool, ?w) = Some ((n, None), s')"
    "(\<lambda>sl. remdups (fst (snd s') sl)) = (\<lambda>sl. if sl \<in> set [4, 6] then [] else remdups (fst (snd (demo_pool, ?w)) sl))"
    "snd (snd s') (''10.0.0.2'', ''6379'') = {''a'', ''b'', ''c''}"
    unfolding dest(2) by auto
  have "(\<lambda>sl. if sl \<in> set [4, 6] then [] else remdups (fst (snd (demo_pool, ?w)) sl)) = (\<lambda>sl. if sl = 5 then [''x''] else [])"
    by (auto simp: fun_eq_iff)
  with s' show ?thesis by (intro exI [of _ n] exI [of _ s'] conjI) simp_all
qed

section \<open>The cluster as a whole\<close>

text \<open>What holds of the views collected so far: each is filed under the address the node gives for
  itself, and the status tells whether a node failed to answer.\<close>

definition views_ok :: "ClusterInfos \<Rightarrow> (string, goerr) gomap \<Rightarrow> nstore \<Rightarrow> bool" where
  "views_ok infos errs st \<longleftrightarrow> wf_map (Infos infos)
     \<and> (\<forall>(addr, ni)\<in>set (Infos infos). nodeinfos_Node ni < snd st \<and> IPPort (fst st (nodeinfos_Node ni)) = addr)
     \<and> infos_Status infos = (if errs = [] then ClusterInfosUnset else ClusterInfosPartial)"

lemma getInfos_cases:
  assumes "getInfos rx env c addr st s = Some ((r, st'), s')"
  obtains (failed) e where "r = Inl e" "st' = st"
  | (answered) ni raw where "r = Inr ni" "DecodeNodeInfos env raw addr st = Some (ni, st')"
  using assms by (auto simp: getInfos_def ask_def Let_def split: bind_splits option.splits sum.splits prod.splits)

lemma views_ok_put:
  assumes "views_ok infos errs st" and "DecodeNodeInfos env raw addr st = Some (ni, st')"
    and "IPPort (fst st' (nodeinfos_Node ni)) = addr"
  shows "views_ok (infos\<lparr>Infos := mput addr ni (Infos infos)\<rparr>) errs st'"
proof -
  have "nodeinfos_Node ni' < snd st' \<and> IPPort (fst st' (nodeinfos_Node ni')) = addr'"
    if "(addr', ni') \<in> set (mput addr ni (Infos infos))" for addr' ni'
  proof -
    have "(addr', ni') = (addr, ni) \<or> (addr', ni') \<in> set (Infos infos)"
      using that set_mput_subset [of addr ni "Infos infos"] by blast
    then show ?thesis
      using assms DecodeNodeInfos_frame [OF assms(2)] unfolding views_ok_def by fastforce
  qed
  then show ?thesis using assms(1) by (auto simp: views_ok_def)
qed

lemma views_ok_frame:
  assumes "views_ok infos errs st" and "DecodeNodeInfos env raw addr st = Some (ni, st')"
  shows "views_ok infos errs st'"
  using assms DecodeNodeInfos_frame [OF assms(2)] unfolding views_ok_def by fastforce

lemma mput_ne [simp]: "mput k v m \<noteq> []"
  by (cases m) auto

lemma GetClusterInfos_loop_ok:
  "GetClusterInfos_loop rx env cs infos errs st s = Some ((infos', errs', st'), s') \<Longrightarrow>
   views_ok infos errs st \<Longrightarrow> views_ok infos' errs' st'"
proof (induction cs arbitrary: infos errs st s)
  case (Cons p cs)
  obtain addr c where p: "p = (addr, c)" by fastforce
  obtain r st1 s1 where g: "getInfos rx env c addr st s = Some ((r, st1), s1)"
    using Cons.prems(1) p by (auto split: bind_splits)
  from g show ?case
  proof (cases rule: getInfos_cases)
    case (failed e)
    have "views_ok (infos\<lparr>infos_Status := ClusterInfosPartial\<rparr>) (mput addr e errs) st"
      using Cons.prems(2) by (simp add: views_ok_def)
    with Cons.IH Cons.prems(1) p g failed show ?thesis by simp
  next
    case (answered ni raw)
    then show ?thesis
      using Cons.IH Cons.prems p g views_ok_put [OF Cons.prems(2) answered(2)] views_ok_frame [OF Cons.prems(2) answered(2)]
      by (simp split: if_splits)
  qed
qed simp

text \<open>C14. The error of \<open>GetClusterInfos\<close> and the status of the infos say the same: no error exactly for
  consistent views, a partial error exactly when some node did not answer, an inconsistent error
  exactly when all answered and disagree; and every view is filed under the address its node
  reports for itself.\<close>

theorem GetClusterInfos_status:
  assumes "go_runtime env" and "GetClusterInfos rx env st s = Some (((infos, err), st'), s')"
  shows "infos_Status infos \<in> {ClusterInfosConsistent, ClusterInfosInconsistent, ClusterInfosPartial}
    \<and> (err = None \<longleftrightarrow> infos_Status infos = ClusterInfosConsistent)
    \<and> (IsPartialError err \<longleftrightarrow> infos_Status infos = ClusterInfosPartial)
    \<and> (IsInconsistentError err \<longleftrightarrow> infos_Status infos = ClusterInfosInconsistent)
    \<and> (\<forall>(addr, ni)\<in>set (Infos infos). IPPort (fst st' (nodeinfos_Node ni)) = addr)"
proof -
  obtain infos0 errs where loop: "GetClusterInfos_loop rx env (mrange env 40 (GetAll (fst s))) NewClusterInfos [] st s
      = Some ((infos0, errs, st'), s')"
    and infos: "infos = (if errs = [] then snd (ComputeStatus env (fst st') infos0) else infos0)"
    and err: "err = (if infos_Status infos = ClusterInfosConsistent then None
        else Some (ClusterInfosError errs (errs \<noteq> []) (errs = [] \<and> \<not> fst (ComputeStatus env (fst st') infos0))))"
    using assms(2) by (auto simp: GetClusterInfos_def Let_def split: bind_splits if_splits prod.splits)
  have "views_ok NewClusterInfos [] st" by (simp add: views_ok_def NewClusterInfos_def)
  from GetClusterInfos_loop_ok [OF loop this] have ok: "views_ok infos0 errs st'" .
  show ?thesis
  proof (cases "errs = []")
    case False
    with ok infos err show ?thesis by (auto simp: views_ok_def)
  next
    case True
    obtain consistent c' where cs: "ComputeStatus env (fst st') infos0 = (consistent, c')" by fastforce
    have unset: "infos_Status infos0 = ClusterInfosUnset" and wf: "wf_map (Infos infos0)"
      using ok True by (simp_all add: views_ok_def)
    have "IPPort (fst st' (nodeinfos_Node ni)) = addr" if "(addr, ni) \<in> set (Infos c')" for addr ni
      using ComputeStatus_Node [OF assms(1) wf unset cs that] ok by (auto simp: views_ok_def)
    then show ?thesis
      using True infos err cs ComputeStatus_status [OF unset cs] by (auto split: if_splits)
  qed
qed

theorem GetClusterInfos_status_witness:
  "\<exists>infos err st s. GetClusterInfos (table_radix (\<lambda>cmd args. reply (Some (Errorf ''LOADING'')))) go_env_det (demo_views, 9)
       (demo_pool, empty_world) = Some (((infos, err), st), s) \<and> IsPartialError err \<and> \<not> IsInconsistentError err"
proof -
  let ?rx = "table_radix (\<lambda>cmd args. reply (Some (Errorf ''LOADING'')))"
  have all: "mrange go_env_det 40 (GetAll demo_pool) = [(''10.0.0.1:6379'', demo_client)]"
    by (simp add: demo_pool_def mrange_def go_env_det_def GetAll_def map_filter_def)
  obtain e s where get: "getInfos ?rx go_env_det demo_client ''10.0.0.1:6379'' (demo_views, 9) (demo_pool, empty_world)
      = Some ((Inl e, (demo_views, 9)), s)"
    by (simp add: getInfos_def ask_def Client_Cmd_def table_radix_def reply_def ValidateResp_def handleError_def)
  then obtain infos err where g: "GetClusterInfos ?rx go_env_det (demo_views, 9) (demo_pool, empty_world)
      = Some (((infos, err), (demo_views, 9)), s)" and st: "infos_Status infos = ClusterInfosPartial"
    by (simp add: GetClusterInfos_def all NewClusterInfos_def)
  from GetClusterInfos_status [OF det.go_runtime_axioms g] st have "IsPartialError err \<and> \<not> IsInconsistentError err" by simp
  with g show ?thesis by blast
qed

end
