(* ===== verification/Heal.thy ===== *)
theory Heal
  imports Ensurer Admin "HOL-Library.Disjoint_Sets"
begin

text \<open>
  \<open>pkg/controller/heal\<close>, \<open>manager/healer.go\<close> and \<open>manager/checker.go\<close>: what the operator does about nodes that are gone,
  nodes nobody trusts, pods that do not terminate and clusters that fell apart, and the checks of the number of
  pods before it touches Redis.

  The healer works on two systems: the Redis cluster behind an \<open>IAdmin\<close>, with state \<open>'w\<close>, and the Kubernetes API
  server, with state \<open>'k\<close>. Nodes live in a node store \<open>h\<close>. The infos and the nodes in them are never \<open>nil\<close> (the only
  producer is \<open>GetClusterInfos\<close>), so the tests for \<open>nil\<close> have no branch here. Times and durations are nanoseconds.
\<close>

section \<open>heal.go\<close>

text \<open>The pod control is the client given to the functions.\<close>

record CheckAndHeal =
  heal_Pods :: "Pod list"
  DryRun :: bool

section \<open>failednodes.go\<close>

fun in_status :: "RedisClusterNode list \<Rightarrow> string \<Rightarrow> bool" where
  "in_status [] ident = False"
| "in_status (pod # podlist) ident = (an_ID pod = ident \<or> in_status podlist ident)"

definition ghost_step :: "drc \<Rightarrow> Node \<Rightarrow> (string, bool) gomap \<Rightarrow> (string, bool) gomap" where
  "ghost_step cluster node ghosts =
     (let ghosts = (if HasStatus node NodeStatusNoAddr then mput (ID node) True ghosts else ghosts)
      in if HasStatus node NodeStatusFail \<or> HasStatus node NodeStatusPFail
         then if \<not> in_status (st_Nodes (drc_Status cluster)) (ID node) then mput (ID node) True ghosts else ghosts
         else ghosts)"

definition listGhostNodes :: "go_env \<Rightarrow> drc \<Rightarrow> nheap \<Rightarrow> ClusterInfos \<Rightarrow> (string, bool) gomap" where
  "listGhostNodes env cluster h infos =
     fold (\<lambda>(addr, nodeinfos). fold (\<lambda>r. ghost_step cluster (h r)) (Friends nodeinfos)) (mrange env 50 (Infos infos)) []"

fun forget_ghosts :: "('w, 'm) IAdmin_scheme \<Rightarrow> bool \<Rightarrow> (string \<times> bool) list \<Rightarrow> goerr list \<Rightarrow> 'w \<Rightarrow> goerr list \<times> 'w" where
  "forget_ghosts adm dry [] errs w = (errs, w)"
| "forget_ghosts adm dry ((ident, _) # rest) errs w =
     (if dry then forget_ghosts adm dry rest errs w
      else case adm_ForgetNode adm ident w of
             (Some err, w) \<Rightarrow> forget_ghosts adm dry rest (errs @ [err]) w
           | (None, w) \<Rightarrow> forget_ghosts adm dry rest errs w)"

definition FixFailedNodes ::
  "go_env \<Rightarrow> ('w, 'm) IAdmin_scheme \<Rightarrow> CheckAndHeal \<Rightarrow> drc \<Rightarrow> nheap \<Rightarrow> ClusterInfos \<Rightarrow> 'w \<Rightarrow> (bool \<times> goerr option) \<times> 'w" where
  "FixFailedNodes env adm c cluster h infos w =
     (let forgetSet = mrange env 51 (listGhostNodes env cluster h infos);
          (errs, w) = forget_ghosts adm (DryRun c) forgetSet [] w
      in ((forgetSet \<noteq> [], NewAggregate errs), w))"

section \<open>untrustenodes.go\<close>

definition listUntrustedNodes :: "go_env \<Rightarrow> nheap \<Rightarrow> ClusterInfos \<Rightarrow> (string, nref) gomap" where
  "listUntrustedNodes env h infos =
     fold (\<lambda>(addr, nodeinfos). fold (\<lambda>r untrusted.
         if HasStatus (h r) NodeStatusHandshake \<and> ID (h r) \<notin> set (mkeys untrusted) then mput (ID (h r)) r untrusted
         else untrusted) (Friends nodeinfos)) (mrange env 52 (Infos infos)) []"

fun pod_reused :: "Node \<Rightarrow> Pod list \<Rightarrow> bool \<Rightarrow> bool \<times> bool" where
  "pod_reused node [] exist = (exist, False)"
| "pod_reused node (currentPod # podlist) exist =
     (if pod_Name currentPod = PodName node
      then if pod_PodIP currentPod = IP node then (True, True) else pod_reused node podlist True
      else pod_reused node podlist exist)"

definition checkIfPodNameExistAndIsReused :: "Node \<Rightarrow> Pod list \<Rightarrow> bool \<times> bool" where
  "checkIfPodNameExistAndIsReused node podlist =
     (if PodName node = [] then (False, False) else pod_reused node podlist False)"

text \<open>One round of the loop: whether an action was done, the errors and the two systems. The pod is deleted in a
  dry run too.\<close>

definition untrusted_step ::
  "'k kube_client \<Rightarrow> go_env \<Rightarrow> ('w, 'm) IAdmin_scheme \<Rightarrow> CheckAndHeal \<Rightarrow> drc \<Rightarrow> nheap \<Rightarrow> Nodes \<Rightarrow> string \<Rightarrow> Node
    \<Rightarrow> bool \<times> goerr list \<times> 'w \<times> 'k \<Rightarrow> bool \<times> goerr list \<times> 'w \<times> 'k" where
  "untrusted_step client env adm c cluster h nodes ident uNode s =
     (let (done_action, errs, w, k) = s;
          (node2, err) = GetNodesByFunc (\<lambda>n. IP n = IP uNode \<and> ID n \<noteq> ID uNode) h nodes in
      if err \<noteq> None \<and> \<not> IsNodeNotFoundedError err then (done_action, errs @ [the err], w, k)
      else if length node2 > 0 then (done_action, errs, w, k)
      else
        let (exist, reused) = checkIfPodNameExistAndIsReused uNode (heal_Pods c);
            (errs, k) = (if exist \<and> \<not> reused
                         then case DeletePodByName client (drc_Namespace cluster) (PodName uNode) k of
                                (Some e, k) \<Rightarrow> (errs @ [e], k) | (None, k) \<Rightarrow> (errs, k)
                         else (errs, k))
        in if DryRun c then (True, errs, w, k)
           else (case adm_ForgetNode adm ident w of
                   (Some e, w) \<Rightarrow> (True, errs @ [e], w, k) | (None, w) \<Rightarrow> (True, errs, w, k)))"

fun untrusted_loop ::
  "'k kube_client \<Rightarrow> go_env \<Rightarrow> ('w, 'm) IAdmin_scheme \<Rightarrow> CheckAndHeal \<Rightarrow> drc \<Rightarrow> nheap \<Rightarrow> ClusterInfos \<Rightarrow> nat \<Rightarrow> (string \<times> nref) list
    \<Rightarrow> bool \<times> goerr list \<times> 'w \<times> 'k \<Rightarrow> bool \<times> goerr list \<times> 'w \<times> 'k" where
  "untrusted_loop client env adm c cluster h infos i [] s = s"
| "untrusted_loop client env adm c cluster h infos i ((ident, r) # rest) s =
     untrusted_loop client env adm c cluster h infos (i + 1) rest
       (untrusted_step client env adm c cluster h (GetNodes env (1000 + i) infos) ident (h r) s)"

definition FixUntrustedNodes ::
  "'k kube_client \<Rightarrow> go_env \<Rightarrow> ('w, 'm) IAdmin_scheme \<Rightarrow> CheckAndHeal \<Rightarrow> drc \<Rightarrow> nheap \<Rightarrow> ClusterInfos \<Rightarrow> 'w \<times> 'k
    \<Rightarrow> (bool \<times> goerr option) \<times> 'w \<times> 'k" where
  "FixUntrustedNodes client env adm c cluster h infos s =
     (let (doneAnAction, errs, w, k) =
            untrusted_loop client env adm c cluster h infos 0 (mrange env 53 (listUntrustedNodes env h infos)) (False, [], s)
      in ((doneAnAction, NewAggregate errs), w, k))"

section \<open>terminatingpod.go\<close>

fun terminating_loop ::
  "'k kube_client \<Rightarrow> CheckAndHeal \<Rightarrow> drc \<Rightarrow> int \<Rightarrow> int \<Rightarrow> Pod list \<Rightarrow> bool \<times> goerr list \<times> 'k \<Rightarrow> bool \<times> goerr list \<times> 'k" where
  "terminating_loop client c cluster now maxDuration [] s = s"
| "terminating_loop client c cluster now maxDuration (pod # podlist) (actionDone, errs, k) =
     (case pod_DeletionTimestamp pod of
        None \<Rightarrow> terminating_loop client c cluster now maxDuration podlist (actionDone, errs, k)
      | Some t \<Rightarrow>
          if t + maxDuration < now then
            if \<not> DryRun c then
              (case DeletePodByName client (drc_Namespace cluster) (pod_Name pod) k of
                 (Some err, k) \<Rightarrow> terminating_loop client c cluster now maxDuration podlist (True, errs @ [err], k)
               | (None, k) \<Rightarrow> terminating_loop client c cluster now maxDuration podlist (True, errs, k))
            else terminating_loop client c cluster now maxDuration podlist (True, errs, k)
          else terminating_loop client c cluster now maxDuration podlist (actionDone, errs, k))"

definition FixTerminatingPods ::
  "'k kube_client \<Rightarrow> CheckAndHeal \<Rightarrow> drc \<Rightarrow> int \<Rightarrow> int \<Rightarrow> 'k \<Rightarrow> (bool \<times> goerr option) \<times> 'k" where
  "FixTerminatingPods client c cluster maxDuration now k =
     (if maxDuration = 0 then ((False, None), k)
      else let (actionDone, errs, k) = terminating_loop client c cluster now maxDuration (heal_Pods c) (False, [], k)
           in ((actionDone, NewAggregate errs), k))"

section \<open>clustersplit.go\<close>

fun findInCluster :: "string \<Rightarrow> string list list \<Rightarrow> bool" where
  "findInCluster addr [] = False"
| "findInCluster addr (c # cs) = (addr \<in> set c \<or> findInCluster addr cs)"

text \<open>The addresses of the nodes one node knows of and that have no failure flag; the node itself comes last.\<close>

definition live_addrs :: "nheap \<Rightarrow> NodeInfos \<Rightarrow> string list" where
  "live_addrs h nodeinfos =
     map (\<lambda>r. IPPort (h r)) (filter (\<lambda>r. length (FailStatus (h r)) = 0) (Friends nodeinfos @ [nodeinfos_Node nodeinfos]))"

definition add_cluster :: "nheap \<Rightarrow> NodeInfos \<Rightarrow> string list list \<Rightarrow> string list list" where
  "add_cluster h nodeinfos parts =
     (let c = live_addrs h nodeinfos;
          overlap = (\<exists>node \<in> set c. findInCluster node parts)
      in if \<not> overlap then parts @ [c] else parts)"

definition buildClustersLists :: "go_env \<Rightarrow> nheap \<Rightarrow> ClusterInfos \<Rightarrow> string list list" where
  "buildClustersLists env h infos = fold (\<lambda>(addr, nodeinfos). add_cluster h nodeinfos) (mrange env 54 (Infos infos)) []"

fun largest_from :: "nat \<Rightarrow> string list list \<Rightarrow> nat option \<times> nat \<Rightarrow> nat option" where
  "largest_from i [] (maincluster, maxSize) = maincluster"
| "largest_from i (c # cs) (maincluster, maxSize) =
     largest_from (i + 1) cs (if length c > maxSize then (Some i, length c) else (maincluster, maxSize))"

definition splitMainCluster :: "string list list \<Rightarrow> string list \<times> string list list" where
  "splitMainCluster parts =
     (if length parts = 0 then ([], [])
      else case largest_from 0 parts (None, 0) of
             Some i \<Rightarrow> (parts ! i, take i parts @ drop (i + 1) parts)
           | None \<Rightarrow> (hd parts, []))"

text \<open>The bad nodes are reset through an admin of their own, opened without a password, and attached through the main
  one; both reach the same servers.\<close>

fun reset_nodes ::
  "'w radix \<Rightarrow> go_env \<Rightarrow> string list \<Rightarrow> AdminConnections \<Rightarrow> goerr list \<Rightarrow> 'w cw \<Rightarrow> ((AdminConnections \<times> goerr list) \<times> 'w cw) option" where
  "reset_nodes rx env [] clusterAdmin errs s = Some ((clusterAdmin, errs), s)"
| "reset_nodes rx env (nodeAddr # rest) clusterAdmin errs s =
     Option.bind (FlushAndReset rx env nodeAddr ResetHard (clusterAdmin, snd s)) (\<lambda>(err1, clusterAdmin, w).
     Option.bind (AttachNodeToCluster rx env nodeAddr (fst s, w)) (\<lambda>(err2, s).
       reset_nodes rx env rest clusterAdmin
         (errs @ (case err1 of Some e \<Rightarrow> [e] | None \<Rightarrow> []) @ (case err2 of Some e \<Rightarrow> [e] | None \<Rightarrow> [])) s))"

definition split_options :: "Redis \<Rightarrow> AdminOptions" where
  "split_options conf = AdminOptions.make (i64 (Redis.DialTimeout conf * 10 ^ 6)) [] (GetRenameCommandsFile conf) []"

fun reset_clusters ::
  "'w radix \<Rightarrow> go_env \<Rightarrow> (string \<Rightarrow> string option) \<Rightarrow> Redis \<Rightarrow> string list list \<Rightarrow> goerr list \<Rightarrow> 'w cw \<Rightarrow> (goerr list \<times> 'w cw) option" where
  "reset_clusters rx env files conf [] errs s = Some (errs, s)"
| "reset_clusters rx env files conf (cluster # rest) errs s =
     Option.bind (NewAdmin rx env files cluster (split_options conf) (snd s)) (\<lambda>(clusterAdmin, w).
     Option.bind (reset_nodes rx env cluster clusterAdmin errs (fst s, w)) (\<lambda>((clusterAdmin, errs), s).
       let (_, w) = Admin_Close rx env (clusterAdmin, snd s)
       in reset_clusters rx env files conf rest errs (fst s, w)))"

definition reassignClusters ::
  "'w radix \<Rightarrow> go_env \<Rightarrow> (string \<Rightarrow> string option) \<Rightarrow> Redis \<Rightarrow> string list list \<Rightarrow> 'w cw \<Rightarrow> (goerr option \<times> 'w cw) option" where
  "reassignClusters rx env files conf parts s =
     (let (mainCluster, badClusters) = splitMainCluster parts in
      if length mainCluster = 0
      then Some (Some (Errorf ''impossible to fix cluster split, cannot elect main cluster''), s)
      else Option.bind (ReplaceAll rx env mainCluster s) (\<lambda>s.
           Option.bind (reset_clusters rx env files conf badClusters [] s) (\<lambda>(errs, s).
             Some (NewAggregate errs, s))))"

definition FixClusterSplit ::
  "'w radix \<Rightarrow> go_env \<Rightarrow> (string \<Rightarrow> string option) \<Rightarrow> CheckAndHeal \<Rightarrow> nheap \<Rightarrow> ClusterInfos \<Rightarrow> Redis \<Rightarrow> 'w cw
    \<Rightarrow> ((bool \<times> goerr option) \<times> 'w cw) option" where
  "FixClusterSplit rx env files c h infos conf s =
     (let parts = buildClustersLists env h infos in
      if length parts > 1 then
        if DryRun c then Some ((True, None), s)
        else map_option (\<lambda>(err, s). ((True, err), s)) (reassignClusters rx env files conf parts s)
      else Some ((False, None), s))"

section \<open>healer.go\<close>

definition Heal ::
  "'k kube_client \<Rightarrow> go_env \<Rightarrow> ('w, 'm) IAdmin_scheme \<Rightarrow> CheckAndHeal \<Rightarrow> drc \<Rightarrow> nheap \<Rightarrow> ClusterInfos \<Rightarrow> 'w \<times> 'k
    \<Rightarrow> (bool \<times> goerr option) \<times> 'w \<times> 'k" where
  "Heal client env adm c cluster h infos s =
     (case FixFailedNodes env adm c cluster h infos (fst s) of
        ((actionDone, Some err), w) \<Rightarrow> ((actionDone, Some err), w, snd s)
      | ((True, None), w) \<Rightarrow> ((True, None), w, snd s)
      | ((False, None), w) \<Rightarrow>
          (case FixUntrustedNodes client env adm c cluster h infos (w, snd s) of
             ((actionDone, Some err), s) \<Rightarrow> ((actionDone, Some err), s)
           | ((True, None), s) \<Rightarrow> ((True, None), s)
           | ((False, None), s) \<Rightarrow> ((False, None), s)))"

section \<open>checker.go\<close>

definition checkRedisNodeNum :: "int \<Rightarrow> StatefulSet \<Rightarrow> goerr option" where
  "checkRedisNodeNum expectNodeNum ss =
     (if expectNodeNum \<noteq> sts_Replicas ss then Some (Errorf ''number of redis pods is different from specification'')
      else if expectNodeNum \<noteq> sts_ReadyReplicas ss then Some (Errorf ''redis pods are not all ready'')
      else if expectNodeNum \<noteq> sts_CurrentReplicas ss then Some (Errorf ''redis pods need to be updated'')
      else None)"

fun check_nodes :: "'k kube_client \<Rightarrow> drc \<Rightarrow> nat list \<Rightarrow> 'k \<Rightarrow> goerr option \<times> 'k" where
  "check_nodes client cluster [] k = (None, k)"
| "check_nodes client cluster (i # rest) k =
     (case GetStatefulSet client (drc_Namespace cluster) (ClusterStatefulSetName (drc_Name cluster) i) k of
        (Inl err, k) \<Rightarrow> (Some err, k)
      | (Inr ss, k) \<Rightarrow>
          (case checkRedisNodeNum (i32 (sp_ClusterReplicas (drc_Spec cluster) + 1)) ss of
             Some err \<Rightarrow> (Some err, k)
           | None \<Rightarrow> check_nodes client cluster rest k))"

definition CheckRedisNodeNum :: "'k kube_client \<Rightarrow> drc \<Rightarrow> 'k \<Rightarrow> goerr option \<times> 'k" where
  "CheckRedisNodeNum client cluster k = check_nodes client cluster [0..<nat (sp_MasterSize (drc_Spec cluster))] k"

definition CheckRedisMasterNum :: "drc \<Rightarrow> goerr option" where
  "CheckRedisMasterNum cluster =
     (if sp_MasterSize (drc_Spec cluster) \<noteq> st_NumberOfMaster (drc_Status cluster)
      then Some (Errorf ''number of redis master different from specification'') else None)"

section \<open>Which nodes are forgotten\<close>

text \<open>A node that is to be forgotten: without an address, or failed and not a node of the status.\<close>

definition ghost :: "drc \<Rightarrow> Node \<Rightarrow> bool" where
  "ghost cluster n \<longleftrightarrow> HasStatus n NodeStatusNoAddr
     \<or> (HasStatus n NodeStatusFail \<or> HasStatus n NodeStatusPFail) \<and> ID n \<notin> an_ID ` set (st_Nodes (drc_Status cluster))"

lemma in_status_iff [simp]: "in_status ns ident \<longleftrightarrow> ident \<in> an_ID ` set ns"
  by (induction ns) auto

lemma ghost_step_keys: "fst ` set (ghost_step cluster n m) = (if ghost cluster n then insert (ID n) else id) (fst ` set m)"
  by (auto simp: ghost_step_def ghost_def Let_def)

lemma ghost_step_wf: "wf_map m \<Longrightarrow> wf_map (ghost_step cluster n m)"
  by (simp add: ghost_step_def Let_def)

lemma fold_ghosts:
  "wf_map m \<Longrightarrow> wf_map (fold (\<lambda>r. ghost_step cluster (h r)) rs m)
     \<and> fst ` set (fold (\<lambda>r. ghost_step cluster (h r)) rs m) = fst ` set m \<union> {ID (h r) |r. r \<in> set rs \<and> ghost cluster (h r)}"
  by (induction rs arbitrary: m) (auto simp: ghost_step_keys ghost_step_wf)

lemma fold_views_ghosts:
  "wf_map m \<Longrightarrow> wf_map (fold (\<lambda>(addr, ni). fold (\<lambda>r. ghost_step cluster (h r)) (Friends ni)) vs m)
     \<and> fst ` set (fold (\<lambda>(addr, ni). fold (\<lambda>r. ghost_step cluster (h r)) (Friends ni)) vs m)
       = fst ` set m \<union> {ID (h r) |r ni. ni \<in> snd ` set vs \<and> r \<in> set (Friends ni) \<and> ghost cluster (h r)}"
proof (induction vs arbitrary: m)
  case (Cons v vs)
  obtain addr ni where v: "v = (addr, ni)" by (cases v)
  show ?case
    using Cons.IH [OF fold_ghosts [OF Cons.prems, THEN conjunct1, of cluster h "Friends ni"]]
      fold_ghosts [OF Cons.prems, of cluster h "Friends ni"]
    by (auto simp: v)
qed simp

text \<open>The nodes some other node still knows of.\<close>

definition known_nodes :: "nheap \<Rightarrow> ClusterInfos \<Rightarrow> Node set" where
  "known_nodes h infos = {h r |r ni. ni \<in> ran (map_of (Infos infos)) \<and> r \<in> set (Friends ni)}"

lemma listGhostNodes_keys:
  assumes "go_runtime env" and "wf_map (Infos infos)"
  shows "wf_map (listGhostNodes env cluster h infos)
    \<and> set (mkeys (listGhostNodes env cluster h infos)) = ID ` {n \<in> known_nodes h infos. ghost cluster n}"
proof -
  have views: "snd ` set (mrange env 50 (Infos infos)) = ran (map_of (Infos infos))"
    using go_runtime.mrange_values [OF assms(1) assms(2)] .
  show ?thesis
    using fold_views_ghosts [of "[]" cluster h "mrange env 50 (Infos infos)"] views
    by (auto simp: listGhostNodes_def known_nodes_def)
qed

definition forget_each :: "('w, 'm) IAdmin_scheme \<Rightarrow> string list \<Rightarrow> 'w \<Rightarrow> 'w" where
  "forget_each adm ids w = fold (\<lambda>i w. snd (adm_ForgetNode adm i w)) ids w"

lemma forget_ghosts_run:
  "snd (forget_ghosts adm False gs errs w) = forget_each adm (map fst gs) w"
  by (induction adm False gs errs w rule: forget_ghosts.induct) (auto simp: forget_each_def split: prod.splits option.splits)

lemma forget_ghosts_dry: "forget_ghosts adm True gs errs w = (errs, w)"
  by (induction adm True gs errs w rule: forget_ghosts.induct) auto

lemma forget_ghosts_errs:
  "fst (forget_ghosts adm False gs errs w) = [] \<longleftrightarrow>
     errs = [] \<and> (\<forall>i < length gs. fst (adm_ForgetNode adm (fst (gs ! i)) (forget_each adm (take i (map fst gs)) w)) = None)"
proof (induction adm False gs errs w rule: forget_ghosts.induct)
  case (2 adm ident u rest errs w)
  show ?case
    using 2(2-) by (cases "adm_ForgetNode adm ident w"; cases "fst (adm_ForgetNode adm ident w)")
      (auto simp: All_less_Suc2 forget_each_def)
qed simp

text \<open>C37.
  Healing failed nodes sends \<open>CLUSTER FORGET\<close> for exactly the ghosts: every node that some node of the cluster still
  knows of and that has no address, or has failed and is not a node of the status, is forgotten once, and no
  other node is. The call reports whether it did something, and fails exactly when one of the commands failed;
  a failed command does not keep the others from being sent. A dry run sends nothing.\<close>

theorem FixFailedNodes_forgets_ghosts:
  assumes "go_runtime env" and "wf_map (Infos infos)"
    and "FixFailedNodes env adm c cluster h infos w = ((acted, err), w')"
  shows "\<exists>ids. distinct ids \<and> set ids = ID ` {n \<in> known_nodes h infos. ghost cluster n} \<and> (acted \<longleftrightarrow> ids \<noteq> [])
    \<and> w' = (if DryRun c then w else forget_each adm ids w)
    \<and> (err = None \<longleftrightarrow> DryRun c
         \<or> (\<forall>i < length ids. fst (adm_ForgetNode adm (ids ! i) (forget_each adm (take i ids) w)) = None))"
proof -
  define gs where "gs = mrange env 51 (listGhostNodes env cluster h infos)"
  define res where "res = forget_ghosts adm (DryRun c) gs [] w"
  have wf: "wf_map (listGhostNodes env cluster h infos)"
    and keys: "set (mkeys (listGhostNodes env cluster h infos)) = ID ` {n \<in> known_nodes h infos. ghost cluster n}"
    using listGhostNodes_keys [OF assms(1,2)] by auto
  have ids: "distinct (map fst gs)" "set (map fst gs) = ID ` {n \<in> known_nodes h infos. ghost cluster n}"
    using go_runtime.mrange_distinct_keys [OF assms(1) wf] go_runtime.mrange_set [OF assms(1) wf] keys
    by (simp_all add: gs_def)
  have run: "acted = (gs \<noteq> [])" "err = NewAggregate (fst res)" "w' = snd res"
    using assms(3) by (auto simp: FixFailedNodes_def gs_def [symmetric] res_def [symmetric] Let_def split: prod.splits)
  show ?thesis
    using ids by (intro exI [of _ "map fst gs"], cases "DryRun c")
      (simp_all add: run res_def forget_ghosts_run forget_ghosts_dry forget_ghosts_errs)
qed

text \<open>Three nodes, one of them failed and gone from Kubernetes, as the two others see them.\<close>

definition heal_nodes :: nheap where
  "heal_nodes r = (if r = 0 then NewDefaultNode\<lparr>ID := ''a'', IP := ''10.0.0.1''\<rparr>
     else if r = 1 then NewDefaultNode\<lparr>ID := ''b'', IP := ''10.0.0.2'', FailStatus := [''fail'']\<rparr>
     else NewDefaultNode\<lparr>ID := ''c'', IP := ''10.0.0.3''\<rparr>)"

definition heal_infos :: ClusterInfos where
  "heal_infos = \<lparr>Infos = [(''10.0.0.1:6379'', \<lparr>nodeinfos_Node = 0, Friends = [1, 2], friends_cap = 2\<rparr>),
     (''10.0.0.3:6379'', \<lparr>nodeinfos_Node = 2, Friends = [0, 1], friends_cap = 2\<rparr>)], infos_Status = ClusterInfosConsistent\<rparr>"

lemma heal_known: "known_nodes heal_nodes heal_infos = {heal_nodes 0, heal_nodes 1, heal_nodes 2}"
proof -
  have "ran (map_of (Infos heal_infos)) = snd ` set (Infos heal_infos)"
    by (rule ran_distinct) (simp add: heal_infos_def)
  moreover have "known_nodes heal_nodes heal_infos
      = heal_nodes ` (\<Union>ni \<in> ran (map_of (Infos heal_infos)). set (Friends ni))" by (auto simp: known_nodes_def)
  ultimately show ?thesis by (auto simp: heal_infos_def)
qed

lemma heal_ghost: "ghost sample_cluster (heal_nodes 1)" "\<not> ghost sample_cluster (heal_nodes 0)"
    "\<not> ghost sample_cluster (heal_nodes 2)"
  by (simp_all add: ghost_def heal_nodes_def HasStatus_def NewDefaultNode_def status_flag_defs sample_status_def)

lemma heal_ghosts: "ID ` {n \<in> known_nodes heal_nodes heal_infos. ghost sample_cluster n} = {''b''}"
proof -
  have "{n \<in> known_nodes heal_nodes heal_infos. ghost sample_cluster n} = {heal_nodes 1}"
    using heal_ghost by (auto simp: heal_known)
  then show ?thesis by (simp add: heal_nodes_def)
qed

theorem FixFailedNodes_forgets_ghosts_witness:
  "\<exists>err. FixFailedNodes go_env_det (recording_admin 16383) \<lparr>heal_Pods = [], DryRun = False\<rparr> sample_cluster heal_nodes heal_infos []
     = ((True, err), [CallForget ''b''])"
proof -
  obtain acted err w' where r: "FixFailedNodes go_env_det (recording_admin 16383) \<lparr>heal_Pods = [], DryRun = False\<rparr>
      sample_cluster heal_nodes heal_infos [] = ((acted, err), w')" by (metis prod.exhaust)
  have "wf_map (Infos heal_infos)" by (simp add: heal_infos_def)
  from FixFailedNodes_forgets_ghosts [OF det.go_runtime_axioms this r] obtain ids where ids: "distinct ids" "set ids = {''b''}"
    and "acted \<longleftrightarrow> ids \<noteq> []" and "w' = forget_each (recording_admin 16383) ids []"
    by (auto simp: heal_ghosts)
  moreover from ids have "ids = [''b'']" by (cases ids) (auto simp: subset_singleton_iff)
  ultimately show ?thesis using r by (simp add: forget_each_def recording_admin_def)
qed

section \<open>Independent clusters\<close>

lemma findInCluster_iff [simp]: "findInCluster a cs \<longleftrightarrow> (\<exists>c \<in> set cs. a \<in> set c)"
  by (induction cs) auto

definition disjoint_lists :: "'a list list \<Rightarrow> bool" where
  "disjoint_lists cs \<longleftrightarrow> sorted_wrt (\<lambda>a b. set a \<inter> set b = {}) cs"

lemma disjoint_lists_snoc:
  "disjoint_lists (cs @ [c]) \<longleftrightarrow> disjoint_lists cs \<and> (\<forall>x \<in> set c. \<not> findInCluster x cs)"
  by (auto simp: disjoint_lists_def sorted_wrt_append)

lemma add_cluster_disjoint: "disjoint_lists cs \<Longrightarrow> disjoint_lists (add_cluster h ni cs)"
  by (auto simp: add_cluster_def disjoint_lists_snoc Let_def)

lemma add_cluster_set: "set cs \<subseteq> set (add_cluster h ni cs)" "set (add_cluster h ni cs) \<subseteq> insert (live_addrs h ni) (set cs)"
  by (auto simp: add_cluster_def Let_def)

lemma add_cluster_covers: "\<exists>c \<in> set (add_cluster h ni cs). c = live_addrs h ni \<or> set c \<inter> set (live_addrs h ni) \<noteq> {}"
  by (auto simp: add_cluster_def Let_def)

lemma add_clusters:
  assumes "disjoint_lists cs"
  shows "disjoint_lists (fold (\<lambda>(addr, ni). add_cluster h ni) vs cs)
    \<and> set cs \<subseteq> set (fold (\<lambda>(addr, ni). add_cluster h ni) vs cs)
    \<and> set (fold (\<lambda>(addr, ni). add_cluster h ni) vs cs) \<subseteq> set cs \<union> live_addrs h ` snd ` set vs
    \<and> (\<forall>ni \<in> snd ` set vs. \<exists>c \<in> set (fold (\<lambda>(addr, ni). add_cluster h ni) vs cs).
          c = live_addrs h ni \<or> set c \<inter> set (live_addrs h ni) \<noteq> {})"
  using assms
proof (induction vs arbitrary: cs)
  case (Cons v vs)
  show ?case
    using Cons.IH [OF add_cluster_disjoint [OF Cons.prems, of h "snd v"]] add_cluster_set [where cs = cs and h = h and ni = "snd v"]
      add_cluster_covers [where cs = cs and h = h and ni = "snd v"]
    by (cases v) (simp add: case_prod_beta, blast)
qed simp

text \<open>The report of a node: the addresses \<open>ip:port\<close> of the nodes without a failure flag among itself and its friends.\<close>

definition live_view :: "nheap \<Rightarrow> NodeInfos \<Rightarrow> string set" where
  "live_view h ni = {JoinHostPort (IP (h q)) (Port (h q)) | q. (q = nodeinfos_Node ni \<or> q \<in> set (Friends ni)) \<and> FailStatus (h q) = []}"

definition live_views :: "nheap \<Rightarrow> ClusterInfos \<Rightarrow> string set set" where
  "live_views h infos = {live_view h ni | addr ni. map_of (Infos infos) addr = Some ni}"

lemma live_addrs_view: "set (live_addrs h ni) = live_view h ni"
  by (auto simp: live_addrs_def live_view_def IPPort_def)

lemma live_views_alt: "live_views h infos = (\<lambda>ni. set (live_addrs h ni)) ` ran (map_of (Infos infos))"
  by (auto simp: live_views_def live_addrs_view ran_def)

lemma disjoint_lists_length:
  assumes "disjoint_lists cs" and "[] \<notin> set cs"
  shows "length cs = card (set ` set cs)"
proof -
  have "distinct (map set cs)"
    using assms by (induction cs) (auto simp: disjoint_lists_def)
  then show ?thesis using distinct_card by fastforce
qed

text \<open>C38.
  The search for a split. The report of a node is the set of addresses of the nodes without a failure flag among itself and
  its friends. The clusters found are pairwise disjoint; each is the report of some node; and a report that is not among
  them shares an address with one of them (its other addresses may then be in no cluster). When any two reports agree or
  have nothing in common, the clusters found are exactly the reports; when moreover no report is empty, each is found once,
  so that as many clusters are found as there are different reports and a cluster whose nodes agree is never reassigned.\<close>

theorem buildClustersLists_partition:
  assumes "go_runtime env" and "wf_map (Infos infos)"
  shows "disjoint_lists (buildClustersLists env h infos)
    \<and> set ` set (buildClustersLists env h infos) \<subseteq> live_views h infos
    \<and> (\<forall>v \<in> live_views h infos. \<exists>c \<in> set (buildClustersLists env h infos). set c = v \<or> set c \<inter> v \<noteq> {})
    \<and> (disjoint (live_views h infos) \<longrightarrow> set ` set (buildClustersLists env h infos) = live_views h infos
         \<and> ({} \<notin> live_views h infos \<longrightarrow> length (buildClustersLists env h infos) = card (live_views h infos)))"
proof -
  let ?P = "buildClustersLists env h infos"
  have views: "snd ` set (mrange env 54 (Infos infos)) = ran (map_of (Infos infos))"
    using go_runtime.mrange_values [OF assms] .
  have all: "disjoint_lists ?P" "set ?P \<subseteq> live_addrs h ` ran (map_of (Infos infos))"
      "\<forall>ni \<in> ran (map_of (Infos infos)). \<exists>c \<in> set ?P. c = live_addrs h ni \<or> set c \<inter> set (live_addrs h ni) \<noteq> {}"
    using add_clusters [of "[]" h "mrange env 54 (Infos infos)"]
    by (simp_all add: buildClustersLists_def views disjoint_lists_def)
  from all(2) have sub: "set ` set ?P \<subseteq> live_views h infos"
    by (auto simp: live_views_alt)
  from all(3) have covers: "\<forall>v \<in> live_views h infos. \<exists>c \<in> set ?P. set c = v \<or> set c \<inter> v \<noteq> {}"
    by (fastforce simp: live_views_alt)
  have "live_views h infos \<subseteq> set ` set ?P" if "disjoint (live_views h infos)"
  proof
    fix v assume v: "v \<in> live_views h infos"
    with covers obtain c where "c \<in> set ?P" and "set c = v \<or> set c \<inter> v \<noteq> {}" by blast
    with v that sub show "v \<in> set ` set ?P"
      by (metis disjointD image_eqI image_subset_iff)
  qed
  moreover have "length ?P = card (set ` set ?P)" if "{} \<notin> live_views h infos"
    using that sub by (intro disjoint_lists_length [OF all(1)]) force
  ultimately show ?thesis using all(1) sub covers by (metis subset_antisym)
qed

lemma heal_views: "live_views heal_nodes heal_infos = {{''10.0.0.1:6379'', ''10.0.0.3:6379''}}"
proof -
  have "ran (map_of (Infos heal_infos)) = snd ` set (Infos heal_infos)"
    by (rule ran_distinct) (simp add: heal_infos_def)
  moreover have "live_addrs heal_nodes \<lparr>nodeinfos_Node = 0, Friends = [1, 2], friends_cap = 2\<rparr> = [''10.0.0.3:6379'', ''10.0.0.1:6379'']"
    "live_addrs heal_nodes \<lparr>nodeinfos_Node = 2, Friends = [0, 1], friends_cap = 2\<rparr> = [''10.0.0.1:6379'', ''10.0.0.3:6379'']"
    by (simp_all add: live_addrs_def heal_nodes_def NewDefaultNode_def IPPort_def JoinHostPort_def DefaultRedisPort_def)
  ultimately show ?thesis by (auto simp: live_views_alt heal_infos_def)
qed

theorem buildClustersLists_partition_witness:
  "\<exists>c. buildClustersLists go_env_det heal_nodes heal_infos = [c] \<and> set c = {''10.0.0.1:6379'', ''10.0.0.3:6379''}"
proof -
  let ?P = "buildClustersLists go_env_det heal_nodes heal_infos"
  have "wf_map (Infos heal_infos)" by (simp add: heal_infos_def)
  from buildClustersLists_partition [OF det.go_runtime_axioms this, of heal_nodes]
  have s: "set ` set ?P = {{''10.0.0.1:6379'', ''10.0.0.3:6379''}}" and "length ?P = 1"
    by (simp_all add: heal_views)
  then show ?thesis by (cases ?P) auto
qed

section \<open>The elected cluster\<close>

lemma largest_from_spec:
  "largest_from i cs (m, n) = (if \<forall>c \<in> set cs. length c \<le> n then m
     else Some (i + length (takeWhile (\<lambda>c. length c < Max (length ` set cs)) cs)))"
proof (induction cs arbitrary: i m n)
  case (Cons c cs)
  show ?case
  proof (cases "length c > n")
    case True
    show ?thesis
    proof (cases "\<forall>d \<in> set cs. length d \<le> length c")
      case True': True
      then have "Max (insert (length c) (length ` set cs)) = length c"
        by (intro Max_eqI) auto
      with True True' Cons show ?thesis by auto
    next
      case False
      then obtain d where d: "d \<in> set cs" "length c < length d" by (auto simp: not_le)
      then have "length c < Max (length ` set cs)"
        by (meson Max_ge List.finite_set finite_imageI image_eqI order_less_le_trans)
      moreover from d have "cs \<noteq> []" by auto
      ultimately have "Max (insert (length c) (length ` set cs)) = Max (length ` set cs)" by simp
      with \<open>length c < Max (length ` set cs)\<close> True False Cons show ?thesis by auto
    qed
  next
    case False
    show ?thesis
    proof (cases "\<forall>d \<in> set cs. length d \<le> n")
      case False': False
      then obtain d where d: "d \<in> set cs" "n < length d" by (auto simp: not_le)
      then have "length c < Max (length ` set cs)"
        using False by (meson Max_ge List.finite_set finite_imageI image_eqI order_less_le_trans not_less order_le_less_trans)
      moreover from d have "cs \<noteq> []" by auto
      ultimately show ?thesis using False False' Cons by auto
    qed (use False Cons in auto)
  qed
qed simp

text \<open>The main cluster is a largest one and the first of its size; the others are left to be reset, in their order.\<close>

lemma splitMainCluster_largest:
  assumes "c \<in> set cs" and "c \<noteq> []" and "splitMainCluster cs = (m, bad)"
  shows "\<exists>xs ys. cs = xs @ m # ys \<and> bad = xs @ ys \<and> (\<forall>x \<in> set xs. length x < length m) \<and> (\<forall>y \<in> set ys. length y \<le> length m)"
proof -
  define mx where "mx = Max (length ` set cs)"
  define xs where "xs = takeWhile (\<lambda>c. length c < mx) cs"
  have len: "length x \<le> mx" if "x \<in> set cs" for x using that by (simp add: mx_def)
  have "mx \<in> length ` set cs" using assms(1) unfolding mx_def by (intro Max_in) auto
  then have "dropWhile (\<lambda>c. length c < mx) cs \<noteq> []" by fastforce
  then obtain y ys where dr: "dropWhile (\<lambda>c. length c < mx) cs = y # ys" by (meson neq_Nil_conv)
  then have y: "\<not> length y < mx" by (metis hd_dropWhile list.discI list.sel(1))
  have cs: "cs = xs @ y # ys" by (metis dr takeWhile_dropWhile_id xs_def)
  then have yM: "length y = mx" using y len [of y] by simp
  have "\<not> (\<forall>c \<in> set cs. length c \<le> 0)" using assms(1,2) by auto
  then have "largest_from 0 cs (None, 0) = Some (length xs)" by (simp add: largest_from_spec xs_def mx_def)
  then have "m = cs ! length xs" "bad = take (length xs) cs @ drop (length xs + 1) cs"
    using assms(1,3) by (auto simp: splitMainCluster_def split: if_splits)
  then have "m = y" "bad = xs @ ys" by (simp_all add: cs)
  moreover have "\<forall>x \<in> set xs. length x < mx" by (auto simp: xs_def dest: set_takeWhileD)
  moreover have "\<forall>z \<in> set ys. length z \<le> mx" using len by (simp add: cs)
  ultimately show ?thesis using cs yM by blast
qed

section \<open>The number of pods\<close>

lemma checkRedisNodeNum_None:
  "checkRedisNodeNum n ss = None \<longleftrightarrow> sts_Replicas ss = n \<and> sts_ReadyReplicas ss = n \<and> sts_CurrentReplicas ss = n"
  by (auto simp: checkRedisNodeNum_def)

text \<open>The check passes only when every shard has its StatefulSet, with all pods of the specification ready and up to date.\<close>

lemma CheckRedisNodeNum_ok:
  assumes "api_server (statefulsets client) objs key agrees rest"
    and "CheckRedisNodeNum client cluster k = (None, k')" and "i < nat (sp_MasterSize (drc_Spec cluster))"
  shows "\<exists>ss. objs k (drc_Namespace cluster, ClusterStatefulSetName (drc_Name cluster) i) = Some ss
    \<and> checkRedisNodeNum (i32 (sp_ClusterReplicas (drc_Spec cluster) + 1)) ss = None"
proof -
  note get_ok = api_server.get_ok [OF assms(1)] and frame = api_server.get_frame [OF assms(1)]
  have "check_nodes client cluster is k = (None, k') \<Longrightarrow> i \<in> set is \<Longrightarrow>
      \<exists>ss. objs k (drc_Namespace cluster, ClusterStatefulSetName (drc_Name cluster) i) = Some ss
        \<and> checkRedisNodeNum (i32 (sp_ClusterReplicas (drc_Spec cluster) + 1)) ss = None" for "is"
  proof (induction "is" arbitrary: k)
    case (Cons j rest)
    obtain r k1 where g: "c_Get (statefulsets client) (drc_Namespace cluster) (ClusterStatefulSetName (drc_Name cluster) j) k = (r, k1)"
      by fastforce
    with Cons.prems(1) obtain ss where r: "r = Inr ss"
        and c: "checkRedisNodeNum (i32 (sp_ClusterReplicas (drc_Spec cluster) + 1)) ss = None"
        and "check_nodes client cluster rest k1 = (None, k')"
      by (cases r) (auto simp: GetStatefulSet_def split: option.splits)
    with Cons.IH [of k1] Cons.prems(2) get_ok [OF g [unfolded r]] frame [OF g] show ?case by auto
  qed simp
  with assms(2,3) show ?thesis by (auto simp: CheckRedisNodeNum_def)
qed

end
