(* ===== verification/Migration.thy ===== *)
theory Migration
  imports PlacementV2 AllocSlots
begin

text \<open>
  \<open>pkg/controller/clustering/migration.go\<close>: moving the slots away from masters that are removed when
  a cluster is scaled down. \<open>buildSlotsByNode\<close> plans which slots each remaining master receives,
  \<open>feedMigInfo\<close> finds out where each of them comes from, and \<open>DispatchSlotToNewMasters\<close> sends the
  commands and keeps the operator's picture of the nodes up to date.
\<close>

record migrationInfo =
  From :: "nref option"
  To :: nref

type_synonym mapSlotByMigInfo = "(migrationInfo, Slot list) gomap"

section \<open>The plan\<close>

fun retrieveSlotToMigrateFrom :: "nheap \<Rightarrow> int \<Rightarrow> Nodes \<Rightarrow> (string, Slot list) gomap \<Rightarrow> (string, Slot list) gomap" where
  "retrieveSlotToMigrateFrom h nbSlotByNode [] m = m"
| "retrieveSlotToMigrateFrom h nbSlotByNode (node # oldMasterNodes) m =
     retrieveSlotToMigrateFrom h nbSlotByNode oldMasterNodes
       (if int (TotalSlots (h node)) \<ge> nbSlotByNode \<and> length (drop (nat nbSlotByNode) (Slots (h node))) > 0
        then mappend (ID (h node)) (drop (nat nbSlotByNode) (Slots (h node))) m else m)"

fun is_present :: "nheap \<Rightarrow> nref \<Rightarrow> Nodes \<Rightarrow> bool" where
  "is_present h old [] = False"
| "is_present h old (new # newMasterNodes) = (if ID (h old) = ID (h new) then True else is_present h old newMasterNodes)"

definition retrieveSlotToMigrateFromRemovedNodes :: "nheap \<Rightarrow> Nodes \<Rightarrow> Nodes \<Rightarrow> (string, Slot list) gomap" where
  "retrieveSlotToMigrateFromRemovedNodes h newMasterNodes oldMasterNodes =
     (let removedNodes = filter (\<lambda>old. \<not> is_present h old newMasterNodes) oldMasterNodes
      in fold (\<lambda>node m. mput (ID (h node)) (Slots (h node)) m) removedNodes [])"

text \<open>The scan for gaps, with \<open>prev\<close> the previous slot (\<open>last\<close> in the code), and the slots after the last one.\<close>

fun lost_gaps :: "Slot \<Rightarrow> Slot list \<Rightarrow> Slot list \<Rightarrow> Slot list \<times> Slot" where
  "lost_gaps prev [] lostSlots = (lostSlots, prev)"
| "lost_gaps prev (slot # slots) lostSlots =
     lost_gaps slot slots (if slot > u64 (prev + 1) then lostSlots @ [u64 (prev + 1)..<slot] else lostSlots)"

definition retrieveLostSlots :: "nheap \<Rightarrow> Nodes \<Rightarrow> int \<Rightarrow> Slot list" where
  "retrieveLostSlots h oldMasterNodes nbSlots =
     (let currentFullRange = sort (concat (map (\<lambda>r. Slots (h r)) oldMasterNodes));
          lostSlots = (if currentFullRange = [] \<or> currentFullRange ! 0 \<noteq> 0 then [0] else []);
          (lostSlots, prev) = lost_gaps 0 currentFullRange lostSlots
      in lostSlots @ [u64 (prev + 1)..<int_to_Slot nbSlots])"

text \<open>\<open>buildSlotByNodeFromAvailableSlots\<close>: \<open>slotOfNode\<close>, a map from \<open>0 .. nbNode - 1\<close>, is a list; the
  state of the loop is \<open>(idNode, slotOfNode, slotToAddByNode)\<close>.\<close>

type_synonym fill_state = "nat \<times> Slot list list \<times> (string, Slot list) gomap"

fun fill_slots :: "nheap \<Rightarrow> Nodes \<Rightarrow> int \<Rightarrow> Slot list \<Rightarrow> fill_state \<Rightarrow> fill_state" where
  "fill_slots h newMasterNodes nbSlotByNode [] st = st"
| "fill_slots h newMasterNodes nbSlotByNode (slot # slots) (idNode, slotOfNode, slotToAddByNode) =
     (let missingSlots = nbSlotByNode - int (length (slotOfNode ! idNode));
          idNode = (if missingSlots > 0 then idNode
                    else if idNode + 1 > length newMasterNodes - 1 then idNode else idNode + 1)
      in fill_slots h newMasterNodes nbSlotByNode slots
           (idNode, slotOfNode[idNode := slotOfNode ! idNode @ [slot]],
            mappend (ID (h (newMasterNodes ! idNode))) [slot] slotToAddByNode))"

definition buildSlotByNodeFromAvailableSlots ::
  "go_env \<Rightarrow> nheap \<Rightarrow> Nodes \<Rightarrow> int \<Rightarrow> (string, Slot list) gomap \<Rightarrow> (string, Slot list) gomap" where
  "buildSlotByNodeFromAvailableSlots env h newMasterNodes nbSlotByNode slotToMigrateByNode =
     (if length newMasterNodes = 0 then []
      else let (idNode, slotOfNode, slotToAddByNode) =
                 fold (\<lambda>(k, slotsFrom). fill_slots h newMasterNodes nbSlotByNode slotsFrom)
                   (mrange env 4 slotToMigrateByNode) (0, map (\<lambda>r. Slots (h r)) newMasterNodes, [])
           in slotToAddByNode)"

definition slotsToMigrate :: "go_env \<Rightarrow> nheap \<Rightarrow> Nodes \<Rightarrow> Nodes \<Rightarrow> int \<Rightarrow> int \<Rightarrow> (string, Slot list) gomap" where
  "slotsToMigrate env h newMasterNodes oldMasterNodes nbSlots nbSlotByNode =
     (let m = retrieveSlotToMigrateFrom h nbSlotByNode oldMasterNodes [];
          deleted = retrieveSlotToMigrateFromRemovedNodes h newMasterNodes oldMasterNodes;
          m = fold (\<lambda>(k, slots). mput k slots) (mrange env 5 deleted) m
      in mput [] (retrieveLostSlots h oldMasterNodes nbSlots) m)"

text \<open>The rest of \<open>buildSlotsByNode\<close>, after \<open>slotToAddByNode\<close> is known, only writes a log.\<close>

definition buildSlotsByNode :: "go_env \<Rightarrow> nheap \<Rightarrow> Nodes \<Rightarrow> Nodes \<Rightarrow> int \<Rightarrow> (string, Slot list) gomap" where
  "buildSlotsByNode env h newMasterNodes oldMasterNodes nbSlots =
     (let nbNode = int (length newMasterNodes)
      in if nbNode = 0 then []
         else let nbSlotByNode = f64_to_int (f64_Ceil (f64_div (f64_of_int nbSlots) (f64_of_int nbNode)))
              in buildSlotByNodeFromAvailableSlots env h newMasterNodes nbSlotByNode
                   (slotsToMigrate env h newMasterNodes oldMasterNodes nbSlots nbSlotByNode))"

section \<open>Sources and destinations\<close>

text \<open>The loop over the old masters for one slot: whether the slot was found, the map and the
  counter \<open>NbslotsToMigrate\<close>.\<close>

fun feed_slot :: "nheap \<Rightarrow> Nodes \<Rightarrow> string \<Rightarrow> Slot \<Rightarrow> Nodes \<Rightarrow> mapSlotByMigInfo \<Rightarrow> int \<Rightarrow> bool \<times> mapSlotByMigInfo \<times> int" where
  "feed_slot h newMasterNodes ident s [] mapOut n = (False, mapOut, n)"
| "feed_slot h newMasterNodes ident s (oldNode # oldNodes) mapOut n =
     (if ID (h oldNode) = ident then
        if Contains (Slots (h oldNode)) s then (True, mapOut, n) else feed_slot h newMasterNodes ident s oldNodes mapOut n
      else if Contains (Slots (h oldNode)) s then
        (case GetNodeByID h newMasterNodes ident of
           Inl err \<Rightarrow> feed_slot h newMasterNodes ident s oldNodes mapOut n
         | Inr newNode \<Rightarrow> (True, mappend \<lparr>From = Some oldNode, To = newNode\<rparr> [s] mapOut, n + 1))
      else feed_slot h newMasterNodes ident s oldNodes mapOut n)"

definition feed_one :: "nheap \<Rightarrow> Nodes \<Rightarrow> Nodes \<Rightarrow> string \<Rightarrow> Slot \<Rightarrow> mapSlotByMigInfo \<times> int \<Rightarrow> mapSlotByMigInfo \<times> int" where
  "feed_one h newMasterNodes oldMasterNodes ident s st =
     (let (mapOut, n) = st; (found, mapOut, n) = feed_slot h newMasterNodes ident s oldMasterNodes mapOut n
      in if \<not> found then
           (case GetNodeByID h newMasterNodes ident of
              Inl err \<Rightarrow> (mapOut, n)
            | Inr newNode \<Rightarrow> (mappend \<lparr>From = None, To = newNode\<rparr> [s] mapOut, n + 1))
         else (mapOut, n))"

definition feedMigInfo :: "go_env \<Rightarrow> nheap \<Rightarrow> Nodes \<Rightarrow> Nodes \<Rightarrow> int \<Rightarrow> mapSlotByMigInfo \<times> int" where
  "feedMigInfo env h newMasterNodes oldMasterNodes nbSlots =
     fold (\<lambda>(ident, slots). fold (feed_one h newMasterNodes oldMasterNodes ident) slots)
       (mrange env 6 (buildSlotsByNode env h newMasterNodes oldMasterNodes nbSlots)) ([], 0)"

section \<open>Sending the commands\<close>

fun tell_others :: "('w, 'm) IAdmin_scheme \<Rightarrow> nheap \<Rightarrow> nref \<Rightarrow> nref \<Rightarrow> Slot list \<Rightarrow> Nodes \<Rightarrow> 'w \<Rightarrow> 'w" where
  "tell_others adm h from to slots [] w = w"
| "tell_others adm h from to slots (master # masters) w =
     (if IPPort (h master) = IPPort (h to) \<or> IPPort (h master) = IPPort (h from) then tell_others adm h from to slots masters w
      else if TotalSlots (h master) = 0 then tell_others adm h from to slots masters w
      else let (err, w) = adm_SetSlots adm (IPPort (h master)) ''NODE'' slots (ID (h to)) w
           in tell_others adm h from to slots masters w)"

definition dispatch_one :: "('w, 'm) IAdmin_scheme \<Rightarrow> Nodes \<Rightarrow> migrationInfo \<Rightarrow> Slot list \<Rightarrow> nheap \<Rightarrow> 'w
    \<Rightarrow> goerr option \<times> nheap \<times> 'w" where
  "dispatch_one adm allMasterNodes nodesInfo slots h w =
     (let to = To nodesInfo in
      case From nodesInfo of
        None \<Rightarrow>
          let (err, w) = adm_AddSlots adm (IPPort (h to)) slots w
          in if err \<noteq> None then (err, h, w)
             else (None, h(to := (h to)\<lparr>Slots := AddSlots (Slots (h to)) slots\<rparr>), w)
      | Some from \<Rightarrow>
          let (err, w) = adm_SetSlots adm (IPPort (h to)) ''IMPORTING'' slots (ID (h from)) w
          in if err \<noteq> None then (err, h, w) else
          let (err, w) = adm_SetSlots adm (IPPort (h from)) ''MIGRATING'' slots (ID (h to)) w
          in if err \<noteq> None then (err, h, w) else
          let ((nbMigrated, migerr), w) = adm_MigrateKeys adm (IPPort (h from)) (h to) slots 10 30000 True w;
              (err, w) = adm_SetSlots adm (IPPort (h to)) ''NODE'' slots (ID (h to)) w;
              (err, w) = adm_SetSlots adm (IPPort (h from)) ''NODE'' slots (ID (h to)) w;
              h = h(from := (h from)\<lparr>Slots := RemoveSlots (Slots (h from)) slots\<rparr>);
              w = tell_others adm h from to slots allMasterNodes w
          in (None, h(to := (h to)\<lparr>Slots := AddSlots (Slots (h to)) slots\<rparr>), w))"

fun dispatch_loop :: "('w, 'm) IAdmin_scheme \<Rightarrow> Nodes \<Rightarrow> (migrationInfo \<times> Slot list) list \<Rightarrow> nheap \<Rightarrow> 'w
    \<Rightarrow> goerr option \<times> nheap \<times> 'w" where
  "dispatch_loop adm allMasterNodes [] h w = (None, h, w)"
| "dispatch_loop adm allMasterNodes ((nodesInfo, slots) # m) h w =
     (let (err, h, w) = dispatch_one adm allMasterNodes nodesInfo slots h w
      in if err \<noteq> None then (err, h, w) else dispatch_loop adm allMasterNodes m h w)"

text \<open>The context carries the number of slots to move and the status of the cluster.\<close>

definition ClusterStatusRebalancing :: string where "ClusterStatusRebalancing = ''Rebalancing''"

definition DispatchSlotToNewMasters :: "go_env \<Rightarrow> ('w, 'm) IAdmin_scheme \<Rightarrow> Nodes \<Rightarrow> Nodes \<Rightarrow> Nodes \<Rightarrow> Ctx
    \<Rightarrow> nheap \<Rightarrow> 'w \<Rightarrow> Ctx \<times> goerr option \<times> nheap \<times> 'w" where
  "DispatchSlotToNewMasters env adm newMasterNodes currentMasterNodes allMasterNodes c h w =
     (let (migrationSlotInfo, n) = feedMigInfo env h newMasterNodes currentMasterNodes
                                     (Slot_to_int (u64 (GetHashMaxSlot adm + 1)));
          c = c\<lparr>ctx_cluster := (ctx_cluster c)\<lparr>NbslotsToMigrate := n, cluster_Status := ClusterStatusRebalancing\<rparr>\<rparr>
      in (c, dispatch_loop adm allMasterNodes (prange env 7 migrationSlotInfo) h w))"

section \<open>Lost slots\<close>

lemma filter_none: "(\<And>x. x \<in> set xs \<Longrightarrow> P x) \<Longrightarrow> filter P xs = xs"
  by simp

lemma filter_upt_split:
  "i \<le> j \<Longrightarrow> filter P [0..<j] = filter P [0..<i] @ filter P [i..<j]" for i j :: nat
  by (metis filter_append le_add_diff_inverse upt_add_eq_append zero_le)

lemma lost_gaps_ok:
  assumes "sorted slots" and "\<forall>x\<in>set slots. prev \<le> x \<and> x < 2 ^ 63" and "prev < 2 ^ 63"
    and "set slots \<subseteq> S" and "\<forall>x\<in>S. x \<le> prev \<or> x \<in> set slots"
    and "lost_gaps prev slots (filter (\<lambda>s. s \<notin> S) [0..<Suc prev]) = (lost, prev')"
  shows "lost = filter (\<lambda>s. s \<notin> S) [0..<Suc prev'] \<and> prev' < 2 ^ 63 \<and> (\<forall>x\<in>S. x \<le> prev')
    \<and> (prev' = prev \<or> prev' \<in> S)"
  using assms
proof (induction slots arbitrary: prev)
  case (Cons x xs)
  have x: "prev \<le> x" "x < 2 ^ 63" "x \<in> S" using Cons.prems by simp_all
  have u: "u64 (prev + 1) = Suc prev" using Cons.prems(3) by simp
  have "filter (\<lambda>s. s \<notin> S) [0..<Suc x] = filter (\<lambda>s. s \<notin> S) [0..<Suc prev] @ [Suc prev..<x]"
  proof (cases "prev < x")
    case True
    have "filter (\<lambda>s. s \<notin> S) [Suc prev..<x] = [Suc prev..<x]"
    proof (rule filter_none)
      fix y assume "y \<in> set [Suc prev..<x]"
      then have "prev < y" "y < x" by simp_all
      moreover have "\<forall>z\<in>set xs. x \<le> z" using Cons.prems(1) by simp
      ultimately show "y \<notin> S" using Cons.prems(5) by fastforce
    qed
    then show ?thesis
      using filter_upt_split [of "Suc prev" x "\<lambda>s. s \<notin> S"] True x(3) by simp
  qed (use x in simp)
  moreover have "[Suc prev..<x] = []" if "\<not> x > Suc prev" using that by simp
  ultimately have "lost_gaps x xs (filter (\<lambda>s. s \<notin> S) [0..<Suc x]) = (lost, prev')"
    using Cons.prems(6) by (cases "x > Suc prev") (simp_all only: lost_gaps.simps u if_True if_False append_Nil2 not_False_eq_True)
  then have "lost = filter (\<lambda>s. s \<notin> S) [0..<Suc prev'] \<and> prev' < 2 ^ 63 \<and> (\<forall>x\<in>S. x \<le> prev')
      \<and> (prev' = x \<or> prev' \<in> S)"
    by (rule Cons.IH [rotated 5]) (use Cons.prems x in auto)
  then show ?case using x(3) by blast
qed simp

lemma retrieveLostSlots_ok:
  assumes "0 < N" and "N < 2 ^ 63" and "\<forall>r\<in>set old. \<forall>s\<in>set (Slots (h r)). s < N"
  shows "retrieveLostSlots h old (int N) = filter (\<lambda>s. \<forall>r\<in>set old. s \<notin> set (Slots (h r))) [0..<N]"
proof -
  define S where "S = (\<Union>r\<in>set old. set (Slots (h r)))"
  define rng where "rng = sort (concat (map (\<lambda>r. Slots (h r)) old))"
  have rng: "set rng = S" "sorted rng" by (auto simp: rng_def S_def)
  have lt: "x < N" if "x \<in> S" for x using that assms(3) by (auto simp: S_def)
  obtain lost prev where gaps: "lost_gaps 0 rng (if rng = [] \<or> rng ! 0 \<noteq> 0 then [0] else []) = (lost, prev)"
    by fastforce
  have "(if rng = [] \<or> rng ! 0 \<noteq> 0 then [0] else []) = filter (\<lambda>s. s \<notin> S) [0..<Suc 0]"
    using rng by (cases rng) auto
  then have ok: "lost = filter (\<lambda>s. s \<notin> S) [0..<Suc prev] \<and> prev < 2 ^ 63 \<and> (\<forall>x\<in>S. x \<le> prev)
      \<and> (prev = 0 \<or> prev \<in> S)"
  proof (intro lost_gaps_ok [of rng 0])
    show "\<forall>x\<in>set rng. 0 \<le> x \<and> x < 2 ^ 63"
      using rng(1) lt assms(2) less_trans by blast
  qed (use rng gaps in auto)
  then have "prev < N" using lt assms(1) by blast
  with ok have "lost @ [Suc prev..<N] = filter (\<lambda>s. s \<notin> S) [0..<N]"
  proof -
    have "filter (\<lambda>s. s \<notin> S) [Suc prev..<N] = [Suc prev..<N]"
      using ok by (intro filter_none) auto
    then show ?thesis using ok \<open>prev < N\<close> filter_upt_split [of "Suc prev" N "\<lambda>s. s \<notin> S"] by simp
  qed
  moreover have "int_to_Slot (int N) = N" "u64 (prev + 1) = Suc prev"
    using assms(2) ok by (simp_all add: int_to_Slot_def)
  ultimately show ?thesis
    using gaps by (simp add: retrieveLostSlots_def S_def Let_def flip: rng_def)
qed

text \<open>C28. \<open>retrieveLostSlots\<close> returns, in increasing order, exactly the slots below \<open>nbSlots\<close> that no
  master owns, also when slots are owned twice.\<close>

theorem retrieveLostSlots_correct:
  assumes "0 < N" and "N < 2 ^ 63" and "\<forall>r\<in>set old. \<forall>s\<in>set (Slots (h r)). s < N"
  shows "retrieveLostSlots h old (int N) = filter (\<lambda>s. \<forall>r\<in>set old. s \<notin> set (Slots (h r))) [0..<N]"
  using assms by (rule retrieveLostSlots_ok)

theorem retrieveLostSlots_correct_witness:
  "retrieveLostSlots (\<lambda>r. NewDefaultNode\<lparr>Slots := (if r = 2 then [7, 3] else [0, 3])\<rparr>) [2, 4] 9 = [1, 2, 4, 5, 6, 8]"
proof -
  let ?h = "\<lambda>r. NewDefaultNode\<lparr>Slots := (if r = 2 then [7, 3] else [0, 3 :: nat])\<rparr>"
  have "retrieveLostSlots ?h [2, 4] (int 9) = filter (\<lambda>s. \<forall>r\<in>set [2, 4 :: nref]. s \<notin> set (Slots (?h r))) [0..<9]"
    by (rule retrieveLostSlots_correct) simp_all
  also have "\<dots> = [1, 2, 4, 5, 6, 8]" by code_simp
  finally show ?thesis by simp
qed

section \<open>Maps of slots\<close>

text \<open>All slots a map of slots holds, in the order of its entries.\<close>

abbreviation all_slots :: "('k, Slot list) gomap \<Rightarrow> Slot list" where
  "all_slots m \<equiv> concat (map snd m)"

lemma mset_all_slots_mput:
  "k \<notin> fst ` set m \<Longrightarrow> mset (all_slots (mput k xs m)) = mset (all_slots m) + mset xs"
  by (induction m) auto

lemma mset_all_slots_mappend: "mset (all_slots (mappend k xs m)) = mset (all_slots m) + mset xs"
proof -
  have "mset (all_slots (mput k (mget [] m k @ xs) m)) = mset (all_slots m) + mset xs"
  proof (induction m)
    case (Cons p m)
    then show ?case by (cases p) (auto simp: mget_def)
  qed simp
  then show ?thesis by (simp add: mappend_def)
qed

lemma mset_concat_perm: "mset l = mset m \<Longrightarrow> mset (all_slots l) = mset (all_slots m)"
proof -
  assume "mset l = mset m"
  then have "mset (map (mset \<circ> snd) l) = mset (map (mset \<circ> snd) m)" by (metis mset_map)
  then have "sum_list (map (mset \<circ> snd) l) = sum_list (map (mset \<circ> snd) m)"
    by (metis sum_mset_sum_list)
  then show ?thesis by (simp add: mset_concat o_def comp_assoc)
qed

lemma distinct_all_slots:
  assumes "wf_map m" and "\<And>k xs. (k, xs) \<in> set m \<Longrightarrow> distinct xs"
    and "\<And>k xs k' xs'. (k, xs) \<in> set m \<Longrightarrow> (k', xs') \<in> set m \<Longrightarrow> k \<noteq> k' \<Longrightarrow> set xs \<inter> set xs' = {}"
  shows "distinct (all_slots m)"
  using assms
proof (induction m)
  case (Cons p m)
  obtain k xs where p: "p = (k, xs)" by fastforce
  have "distinct (all_slots m)"
  proof (rule Cons.IH)
    fix k xs k' xs'
    assume "(k, xs) \<in> set m" "(k', xs') \<in> set m" "k \<noteq> k'"
    then show "set xs \<inter> set xs' = {}" using Cons.prems(3) [of k xs k' xs'] by simp
  qed (use Cons.prems in auto)
  moreover have "distinct xs" using Cons.prems(2) p by auto
  moreover have "set xs \<inter> set (all_slots m) = {}"
  proof -
    have "set xs \<inter> set xs' = {}" if "(k', xs') \<in> set m" for k' xs'
      using Cons.prems(1) Cons.prems(3) [of k xs k' xs'] that p by force
    then show ?thesis by force
  qed
  ultimately show ?case by (simp add: p)
qed simp

section \<open>The plan moves every slot once\<close>

lemma fill_slots_ok:
  assumes "fill_slots h new c slots (i, sl, m) = (i', sl', m')" and "i < length new"
  shows "i' < length new \<and> mset (all_slots m') = mset (all_slots m) + mset slots
    \<and> fst ` set m' \<subseteq> fst ` set m \<union> (\<lambda>r. ID (h r)) ` set new \<and> (wf_map m \<longrightarrow> wf_map m')"
  using assms
proof (induction slots arbitrary: i sl m)
  case (Cons s slots)
  let ?i = "if c - int (length (sl ! i)) > 0 then i else if i + 1 > length new - 1 then i else i + 1"
  let ?m = "mappend (ID (h (new ! ?i))) [s] m"
  have i: "?i < length new" using Cons.prems(2) by auto
  have "fill_slots h new c slots (?i, sl[?i := sl ! ?i @ [s]], ?m) = (i', sl', m')"
    using Cons.prems(1) by (simp only: fill_slots.simps Let_def)
  from Cons.IH [OF this i] show ?case
    using i by (auto simp: mset_all_slots_mappend)
qed simp

lemma fill_fold_ok:
  assumes "fold (\<lambda>(k, slotsFrom). fill_slots h new c slotsFrom) l (i, sl, m) = (i', sl', m')" and "i < length new"
  shows "i' < length new \<and> mset (all_slots m') = mset (all_slots m) + mset (all_slots l)
    \<and> fst ` set m' \<subseteq> fst ` set m \<union> (\<lambda>r. ID (h r)) ` set new \<and> (wf_map m \<longrightarrow> wf_map m')"
  using assms
proof (induction l arbitrary: i sl m)
  case (Cons p l)
  obtain k xs where p: "p = (k, xs)" by fastforce
  obtain i1 sl1 m1 where step: "fill_slots h new c xs (i, sl, m) = (i1, sl1, m1)" by (metis prod_cases3)
  note ok = fill_slots_ok [OF step Cons.prems(2)]
  have "fold (\<lambda>(k, slotsFrom). fill_slots h new c slotsFrom) l (i1, sl1, m1) = (i', sl', m')"
    using Cons.prems(1) p step by simp
  from Cons.IH [OF this] ok show ?case by (simp add: p algebra_simps) blast
qed simp

text \<open>The slots handed out by \<open>buildSlotByNodeFromAvailableSlots\<close> are the available ones, each as
  often as it was available, and they go to new masters only.\<close>

lemma buildSlotByNode_ok:
  fixes h c
  assumes "go_runtime env" and "wf_map m" and "new \<noteq> []"
  defines "A \<equiv> buildSlotByNodeFromAvailableSlots env h new c m"
  shows "mset (all_slots A) = mset (all_slots m)" and "fst ` set A \<subseteq> (\<lambda>r. ID (h r)) ` set new" and "wf_map A"
proof -
  obtain i sl a where run: "fold (\<lambda>(k, slotsFrom). fill_slots h new c slotsFrom) (mrange env 4 m)
      (0, map (\<lambda>r. Slots (h r)) new, []) = (i, sl, a)"
    by (metis prod_cases3)
  then have "A = a" using assms(3) by (simp add: A_def buildSlotByNodeFromAvailableSlots_def)
  with fill_fold_ok [OF run] assms(3) mset_concat_perm [OF go_runtime.mrange_perm [OF assms(1,2)]]
  show "mset (all_slots A) = mset (all_slots m)" and "fst ` set A \<subseteq> (\<lambda>r. ID (h r)) ` set new" and "wf_map A"
    by simp_all
qed

lemma is_present_iff: "is_present h old new \<longleftrightarrow> ID (h old) \<in> (\<lambda>r. ID (h r)) ` set new"
  by (induction new) auto

text \<open>What the operator knows when it scales down: old masters with ids, each slot owned by at most
  one of them, and new masters that own slots only if they are old masters.\<close>

definition scale_ok :: "nheap \<Rightarrow> Nodes \<Rightarrow> Nodes \<Rightarrow> nat \<Rightarrow> bool" where
  "scale_ok h new old N \<longleftrightarrow> distinct new \<and> distinct old \<and> inj_on (\<lambda>r. ID (h r)) (set new \<union> set old)
     \<and> (\<forall>r\<in>set old. ID (h r) \<noteq> []) \<and> distinct (concat (map (\<lambda>r. Slots (h r)) old))
     \<and> (\<forall>r\<in>set old. \<forall>s\<in>set (Slots (h r)). s < N) \<and> (\<forall>r\<in>set new. Slots (h r) \<noteq> [] \<longrightarrow> r \<in> set old)"

lemma scale_ok_owner:
  assumes "scale_ok h new old N" and "o1 \<in> set old" and "o2 \<in> set old"
    and "s \<in> set (Slots (h o1))" and "s \<in> set (Slots (h o2))"
  shows "o1 = o2"
proof -
  have "o1 \<in> set xs \<Longrightarrow> o2 \<in> set xs \<Longrightarrow> distinct (concat (map (\<lambda>r. Slots (h r)) xs)) \<Longrightarrow> o1 = o2" for xs
    using assms(4,5) by (induction xs) auto
  then show ?thesis using assms by (simp add: scale_ok_def)
qed

lemma scale_ok_distinct:
  assumes "scale_ok h new old N" and "r \<in> set old"
  shows "distinct (Slots (h r))"
proof -
  have "r \<in> set xs \<Longrightarrow> distinct (concat (map (\<lambda>r. Slots (h r)) xs)) \<Longrightarrow> distinct (Slots (h r))" for xs
    by (induction xs) auto
  then show ?thesis using assms by (simp add: scale_ok_def)
qed

lemma mput_absent: "k \<notin> fst ` set m \<Longrightarrow> mput k v m = m @ [(k, v)]"
  by (induction m) auto

lemma mappend_absent: "k \<notin> fst ` set m \<Longrightarrow> mappend k xs m = m @ [(k, xs)]"
  by (simp add: mappend_def mput_absent)

lemma retrieveSlotToMigrateFrom_eq:
  assumes "inj_on (\<lambda>r. ID (h r)) (set old)" and "distinct old" and "fst ` set m \<inter> (\<lambda>r. ID (h r)) ` set old = {}" and "0 \<le> c"
  shows "retrieveSlotToMigrateFrom h c old m
    = m @ map (\<lambda>r. (ID (h r), drop (nat c) (Slots (h r)))) (filter (\<lambda>r. drop (nat c) (Slots (h r)) \<noteq> []) old)"
  using assms(1-3)
proof (induction old arbitrary: m)
  case (Cons r old)
  have new: "ID (h r) \<notin> (\<lambda>r. ID (h r)) ` set old" using Cons.prems(1,2) by auto
  have cond: "int (TotalSlots (h r)) \<ge> c \<and> length (drop (nat c) (Slots (h r))) > 0 \<longleftrightarrow> drop (nat c) (Slots (h r)) \<noteq> []"
    using assms(4) by (auto simp: TotalSlots_def)
  show ?case
    unfolding retrieveSlotToMigrateFrom.simps cond
    using Cons.IH [of m] Cons.IH [of "m @ [(ID (h r), drop (nat c) (Slots (h r)))]"] Cons.prems new
    by (auto simp: mappend_absent)
qed simp

lemma removed_eq:
  assumes "inj_on (\<lambda>r. ID (h r)) (set old)" and "distinct old"
  shows "retrieveSlotToMigrateFromRemovedNodes h new old
    = map (\<lambda>r. (ID (h r), Slots (h r))) (filter (\<lambda>r. \<not> is_present h r new) old)"
proof -
  have "fold (\<lambda>node m. mput (ID (h node)) (Slots (h node)) m) rs m = m @ map (\<lambda>r. (ID (h r), Slots (h r))) rs"
    if "inj_on (\<lambda>r. ID (h r)) (set rs)" "distinct rs" "fst ` set m \<inter> (\<lambda>r. ID (h r)) ` set rs = {}" for rs m
    using that
  proof (induction rs arbitrary: m)
    case (Cons r rs)
    then show ?case by (auto simp: mput_absent)
  qed simp
  moreover have "inj_on (\<lambda>r. ID (h r)) (set (filter (\<lambda>r. \<not> is_present h r new) old))"
    using assms(1) by (rule inj_on_subset) auto
  ultimately show ?thesis
    using assms(2) by (simp add: retrieveSlotToMigrateFromRemovedNodes_def)
qed

text \<open>The share of an old master that has to go.\<close>

definition surplus :: "nheap \<Rightarrow> Nodes \<Rightarrow> int \<Rightarrow> nref \<Rightarrow> Slot list" where
  "surplus h new c r = (if is_present h r new then drop (nat c) (Slots (h r)) else Slots (h r))"

lemma slotsToMigrate_entries:
  assumes "go_runtime env" and "scale_ok h new old N" and "0 \<le> c"
  defines "M \<equiv> slotsToMigrate env h new old (int N) c"
  shows "wf_map M"
    and "(k, xs) \<in> set M \<Longrightarrow> k = [] \<and> xs = retrieveLostSlots h old (int N)
            \<or> (\<exists>r\<in>set old. k = ID (h r) \<and> xs = surplus h new c r)"
    and "([], retrieveLostSlots h old (int N)) \<in> set M"
    and "r \<in> set old \<Longrightarrow> surplus h new c r = [] \<or> (ID (h r), surplus h new c r) \<in> set M"
proof -
  define D0 where "D0 = map (\<lambda>r. (ID (h r), Slots (h r))) (filter (\<lambda>r. \<not> is_present h r new) old)"
  define m0 where "m0 = map (\<lambda>r. (ID (h r), drop (nat c) (Slots (h r)))) (filter (\<lambda>r. drop (nat c) (Slots (h r)) \<noteq> []) old)"
  have inj: "inj_on (\<lambda>r. ID (h r)) (set old)" and dist: "distinct old" and ne: "\<forall>r\<in>set old. ID (h r) \<noteq> []"
    using assms(2) by (auto simp: scale_ok_def intro: inj_on_subset)
  have wfD: "wf_map D0" and wfm: "wf_map m0"
    using inj dist by (auto simp: distinct_map inj_on_def D0_def m0_def)
  define M1 where "M1 = fold (\<lambda>(k, slots). mput k slots) (mrange env 5 D0) m0"
  have M: "M = mput [] (retrieveLostSlots h old (int N)) M1"
    using removed_eq [OF inj dist, of new] retrieveSlotToMigrateFrom_eq [OF inj dist, of "[]" c] assms(3)
    by (simp add: M_def slotsToMigrate_def M1_def D0_def m0_def Let_def)
  have "map_of M1 = map_of m0 ++ map_of (mrange env 5 D0)"
    unfolding M1_def by (rule fold_mput_map_of) (use go_runtime.mrange_distinct_keys [OF assms(1) wfD] in simp)
  then have M1: "map_of M1 k = (case map_of D0 k of None \<Rightarrow> map_of m0 k | Some xs \<Rightarrow> Some xs)" for k
    using go_runtime.map_of_mrange [OF assms(1) wfD, of 5] by (simp add: map_add_def)
  have "wf_map (fold (\<lambda>(k, slots). mput k slots) l m)" if "wf_map m" for l and m :: "(string, Slot list) gomap"
    using that by (induction l arbitrary: m) auto
  then show wf: "wf_map M" unfolding M M1_def using wfm by simp
  have D: "map_of D0 k = Some xs \<longleftrightarrow> (\<exists>r\<in>set old. \<not> is_present h r new \<and> k = ID (h r) \<and> xs = Slots (h r))" for k xs
    using wfD by (subst map_of_eq_Some_iff) (auto simp: D0_def)
  have m: "map_of m0 k = Some xs \<longleftrightarrow> (\<exists>r\<in>set old. k = ID (h r) \<and> xs = drop (nat c) (Slots (h r)) \<and> xs \<noteq> [])" for k xs
    using wfm by (subst map_of_eq_Some_iff) (auto simp: m0_def)
  have look: "(k, xs) \<in> set M \<longleftrightarrow> (if k = [] then xs = retrieveLostSlots h old (int N) else map_of M1 k = Some xs)" for k xs
    using wf by (subst map_of_eq_Some_iff [symmetric]) (auto simp: M)
  then show "([], retrieveLostSlots h old (int N)) \<in> set M" by simp
  show "k = [] \<and> xs = retrieveLostSlots h old (int N) \<or> (\<exists>r\<in>set old. k = ID (h r) \<and> xs = surplus h new c r)"
    if "(k, xs) \<in> set M"
  proof (cases "k = []")
    case False
    then have "map_of M1 k = Some xs" using that look by simp
    then consider r where "r \<in> set old" "\<not> is_present h r new" "k = ID (h r)" "xs = Slots (h r)"
      | r where "map_of D0 k = None" "r \<in> set old" "k = ID (h r)" "xs = drop (nat c) (Slots (h r))"
      unfolding M1 by (auto simp: D m split: option.splits)
    then show ?thesis
    proof cases
      case 2
      then have "is_present h r new" using D [of k "Slots (h r)"] by auto
      with 2 show ?thesis by (auto simp: surplus_def)
    qed (auto simp: surplus_def)
  qed (use that look in simp)
  show "surplus h new c r = [] \<or> (ID (h r), surplus h new c r) \<in> set M" if r: "r \<in> set old"
  proof (cases "is_present h r new")
    case False
    then have "map_of D0 (ID (h r)) = Some (Slots (h r))" using D r by blast
    then show ?thesis using False look M1 ne r by (simp add: surplus_def)
  next
    case True
    then have "map_of D0 (ID (h r)) = None"
      using D inj r by (metis (no_types, lifting) inj_on_contraD not_None_eq)
    moreover have "map_of m0 (ID (h r)) = Some (drop (nat c) (Slots (h r)))" if "drop (nat c) (Slots (h r)) \<noteq> []"
      using m r that by blast
    ultimately show ?thesis using True look M1 ne r by (auto simp: surplus_def)
  qed
qed

lemma buildSlotsByNode_ok:
  assumes "go_runtime env" and "scale_ok h new old N" and "new \<noteq> []" and "0 < N" and "N < 2 ^ 53" and "length new < 2 ^ 53"
  obtains c where "wf_map (buildSlotsByNode env h new old (int N))"
    and "fst ` set (buildSlotsByNode env h new old (int N)) \<subseteq> (\<lambda>r. ID (h r)) ` set new"
    and "distinct (all_slots (buildSlotsByNode env h new old (int N)))"
    and "set (all_slots (buildSlotsByNode env h new old (int N)))
           = {s. s < N \<and> (\<forall>r\<in>set old. s \<notin> set (Slots (h r)))} \<union> (\<Union>r\<in>set old. set (surplus h new c r))"
proof -
  let ?A = "buildSlotsByNode env h new old (int N)"
  define c where "c = f64_to_int (f64_Ceil (f64_div (f64_of_int (int N)) (f64_of_int (int (length new)))))"
  have c: "0 \<le> c"
    unfolding c_def using assms(3-6) by (subst int_Ceil_quotient) (auto simp: pos_imp_zdiv_nonneg_iff Suc_le_eq)
  define M where "M = slotsToMigrate env h new old (int N) c"
  note entries = slotsToMigrate_entries [OF assms(1,2) c, folded M_def]
  have A: "?A = buildSlotByNodeFromAvailableSlots env h new c M"
    using assms(3) by (simp add: buildSlotsByNode_def c_def M_def Let_def)
  note ok = buildSlotByNode_ok [OF assms(1) entries(1) assms(3), of h c, folded A]
  let ?lost = "retrieveLostSlots h old (int N)"
  have lost: "?lost = filter (\<lambda>s. \<forall>r\<in>set old. s \<notin> set (Slots (h r))) [0..<N]"
    using assms(2,4,5) by (intro retrieveLostSlots_ok) (auto simp: scale_ok_def)
  have sub: "set (surplus h new c r) \<subseteq> set (Slots (h r))" for r
    by (auto simp: surplus_def dest: in_set_dropD)
  have "distinct (all_slots M)"
  proof (rule distinct_all_slots [OF entries(1)])
    show "distinct xs" if "(k, xs) \<in> set M" for k xs
      using entries(2) [OF that] scale_ok_distinct [OF assms(2)] by (auto simp: lost surplus_def)
  next
    fix k xs k' xs'
    assume "(k, xs) \<in> set M" "(k', xs') \<in> set M" "k \<noteq> k'"
    with entries(2) [of k xs] entries(2) [of k' xs']
    consider r where "r \<in> set old" "xs = surplus h new c r" "xs' = ?lost"
      | r where "r \<in> set old" "xs' = surplus h new c r" "xs = ?lost"
      | r r' where "r \<in> set old" "r' \<in> set old" "r \<noteq> r'" "xs = surplus h new c r" "xs' = surplus h new c r'"
      by blast
    then show "set xs \<inter> set xs' = {}"
    proof cases
      case 1
      then show ?thesis using sub [of r] by (auto simp: lost)
    next
      case 2
      then show ?thesis using sub [of r] by (auto simp: lost)
    next
      case 3
      then show ?thesis using sub [of r] sub [of r'] scale_ok_owner [OF assms(2), of r r'] by blast
    qed
  qed
  then have "distinct (all_slots ?A)" using mset_eq_imp_distinct_iff [OF ok(1)] by blast
  moreover have "set (all_slots ?A) = {s. s < N \<and> (\<forall>r\<in>set old. s \<notin> set (Slots (h r)))} \<union> (\<Union>r\<in>set old. set (surplus h new c r))"
  proof -
    have "set (all_slots M) = set ?lost \<union> (\<Union>r\<in>set old. set (surplus h new c r))"
    proof (intro equalityI subsetI)
      fix s assume "s \<in> set (all_slots M)"
      then obtain k xs where "(k, xs) \<in> set M" "s \<in> set xs" by force
      then show "s \<in> set ?lost \<union> (\<Union>r\<in>set old. set (surplus h new c r))" using entries(2) by blast
    next
      fix s assume "s \<in> set ?lost \<union> (\<Union>r\<in>set old. set (surplus h new c r))"
      then obtain k xs where "(k, xs) \<in> set M" "s \<in> set xs" using entries(3,4) by fastforce
      then show "s \<in> set (all_slots M)" by force
    qed
    moreover have "set (all_slots ?A) = set (all_slots M)" using mset_eq_setD [OF ok(1)] .
    ultimately show ?thesis by (auto simp: lost)
  qed
  ultimately show thesis using that ok(2,3) by blast
qed

section \<open>Where the slots come from\<close>

text \<open>The entry of the migration map that a slot assigned to \<open>ident\<close> is filed under; \<open>None\<close> when it is
  already there.\<close>

fun mig_key :: "nheap \<Rightarrow> Nodes \<Rightarrow> string \<Rightarrow> Slot \<Rightarrow> Nodes \<Rightarrow> migrationInfo option" where
  "mig_key h new ident s [] = (case GetNodeByID h new ident of Inl e \<Rightarrow> None | Inr r \<Rightarrow> Some \<lparr>From = None, To = r\<rparr>)"
| "mig_key h new ident s (q # old) =
     (if s \<in> set (Slots (h q)) then
        if ID (h q) = ident then None
        else (case GetNodeByID h new ident of Inl e \<Rightarrow> mig_key h new ident s old | Inr r \<Rightarrow> Some \<lparr>From = Some q, To = r\<rparr>)
      else mig_key h new ident s old)"

lemma feed_one_eq:
  "feed_one h new old ident s (m, n)
   = (case mig_key h new ident s old of None \<Rightarrow> (m, n) | Some k \<Rightarrow> (mappend k [s] m, n + 1))"
proof (induction old)
  case Nil
  then show ?case by (simp add: feed_one_def split: sum.splits)
next
  case (Cons q old)
  then show ?case by (simp add: feed_one_def split: sum.splits)
qed

text \<open>The map that a sequence of assignments builds up.\<close>

lemma feed_fold:
  assumes "fold (\<lambda>(ident, s). feed_one h new old ident s) L (m, n) = (m', n')"
  shows "mget [] m' k = mget [] m k @ map snd (filter (\<lambda>(ident, s). mig_key h new ident s old = Some k) L)"
    and "wf_map m \<Longrightarrow> wf_map m'" and "mset (all_slots m') = mset (all_slots m)
       + mset (map snd (filter (\<lambda>(ident, s). mig_key h new ident s old \<noteq> None) L))"
    and "n' = n + int (length (filter (\<lambda>(ident, s). mig_key h new ident s old \<noteq> None) L))"
  using assms
proof (induction L arbitrary: m n)
  case (Cons p L)
  obtain i s where p: "p = (i, s)" by fastforce
  { case 1 with Cons.IH(1) show ?case by (auto simp: p feed_one_eq split: option.splits if_splits) }
  { case 2
    then show ?case
      using Cons.IH(2) [of m n] Cons.IH(2) [of "mappend (the (mig_key h new i s old)) [s] m" "n + 1"]
      by (auto simp: p feed_one_eq split: option.splits) }
  { case 3 with Cons.IH(3) show ?case by (auto simp: p feed_one_eq mset_all_slots_mappend split: option.splits) }
  { case 4
    then show ?case
      using Cons.IH(4) [of m n] Cons.IH(4) [of "mappend (the (mig_key h new i s old)) [s] m" "n + 1"]
      by (auto simp: p feed_one_eq split: option.splits) }
qed simp_all

section \<open>Carrying out the plan\<close>

definition accepts_dispatch :: "('w, 'm) IAdmin_scheme \<Rightarrow> bool" where
  "accepts_dispatch adm \<longleftrightarrow> (\<forall>a s w. fst (adm_AddSlots adm a s w) = None)
     \<and> (\<forall>a act s i w. fst (adm_SetSlots adm a act s i w) = None)"

text \<open>The slots that leave \<open>r\<close> and those that arrive there.\<close>

definition leaving :: "(migrationInfo \<times> Slot list) list \<Rightarrow> nref \<Rightarrow> Slot set" where
  "leaving E r = {s. \<exists>k xs. (k, xs) \<in> set E \<and> From k = Some r \<and> s \<in> set xs}"

definition arriving :: "(migrationInfo \<times> Slot list) list \<Rightarrow> nref \<Rightarrow> Slot set" where
  "arriving E r = {s. \<exists>k xs. (k, xs) \<in> set E \<and> To k = r \<and> s \<in> set xs}"

lemma leaving_Cons: "leaving ((k, xs) # E) r = (if From k = Some r then set xs else {}) \<union> leaving E r"
  by (auto simp: leaving_def)

lemma arriving_Cons: "arriving ((k, xs) # E) r = (if To k = r then set xs else {}) \<union> arriving E r"
  by (auto simp: arriving_def)

lemma dispatch_one_ok:
  assumes "dispatch_one adm all k xs h w = (None, h', w')" and "xs \<noteq> [] \<longrightarrow> From k \<noteq> Some (To k)"
  shows "set (Slots (h' r)) = (set (Slots (h r)) - (if From k = Some r then set xs else {})) \<union> (if To k = r then set xs else {})"
    and "distinct (Slots (h r)) \<Longrightarrow> distinct (Slots (h' r))"
    and "h' r = (h r)\<lparr>Slots := Slots (h' r)\<rparr>"
  using assms by (auto simp: dispatch_one_def Let_def split: option.splits prod.splits if_splits)

lemma accepts_dispatch_one:
  "accepts_dispatch adm \<Longrightarrow> dispatch_one adm all k xs h w = (err, h', w') \<Longrightarrow> err = None"
  unfolding accepts_dispatch_def dispatch_one_def Let_def
  by (auto split: option.splits prod.splits if_splits) (metis fst_conv option.distinct(1))+

lemma dispatch_loop_ok:
  assumes "dispatch_loop adm all E h w = (None, h', w')" and "distinct (all_slots E)"
    and "\<forall>(k, xs)\<in>set E. xs \<noteq> [] \<longrightarrow> From k \<noteq> Some (To k)"
  shows "set (Slots (h' r)) = (set (Slots (h r)) - leaving E r) \<union> arriving E r
    \<and> (distinct (Slots (h r)) \<longrightarrow> distinct (Slots (h' r))) \<and> h' r = (h r)\<lparr>Slots := Slots (h' r)\<rparr>"
  using assms
proof (induction E arbitrary: h w)
  case Nil
  then show ?case by (auto simp: leaving_def arriving_def)
next
  case (Cons p E)
  obtain k xs where p: "p = (k, xs)" by fastforce
  obtain e1 h1 w1 where one: "dispatch_one adm all k xs h w = (e1, h1, w1)" by (metis prod_cases3)
  have e1: "e1 = None" and loop: "dispatch_loop adm all E h1 w1 = (None, h', w')"
    using Cons.prems(1) one p by (auto split: if_splits)
  have ne: "xs \<noteq> [] \<longrightarrow> From k \<noteq> Some (To k)"
    and rest: "distinct (all_slots E)" "\<forall>(k, xs)\<in>set E. xs \<noteq> [] \<longrightarrow> From k \<noteq> Some (To k)"
    using Cons.prems p by auto
  have disj: "set xs \<inter> leaving E r = {}" using Cons.prems(2) p by (force simp: leaving_def)
  note IH = Cons.IH [OF loop rest]
  note ok = dispatch_one_ok [OF one [unfolded e1] ne, of r]
  have "set (Slots (h' r)) = (set (Slots (h r)) - leaving (p # E) r) \<union> arriving (p # E) r"
    unfolding p leaving_Cons arriving_Cons using IH ok(1) disj by auto
  moreover have "h' r = (h r)\<lparr>Slots := Slots (h' r)\<rparr>"
    using IH ok(3) by (metis Node.surjective Node.update_convs(11))
  ultimately show ?case using IH ok(2) by blast
qed

lemma accepts_dispatch_loop:
  "accepts_dispatch adm \<Longrightarrow> dispatch_loop adm all E h w = (err, h', w') \<Longrightarrow> err = None"
  by (induction E arbitrary: h w) (auto simp: accepts_dispatch_one split: prod.splits if_splits)

section \<open>The whole scale-down\<close>

lemma fold_pairs:
  "fold (\<lambda>(i, xs). fold (f i) xs) l st = fold (\<lambda>(i, s). f i s) (concat (map (\<lambda>(i, xs). map (Pair i) xs) l)) st"
proof -
  have "fold (\<lambda>(i, s). f i s) (map (Pair i) xs) st = fold (f i) xs st" for i xs st
    by (induction xs arbitrary: st) auto
  then show ?thesis by (induction l arbitrary: st) auto
qed

lemma mig_key_owner:
  assumes "GetNodeByID h new i = Inr r"
  shows "mig_key h new i s old = (case List.find (\<lambda>q. s \<in> set (Slots (h q))) old of
      None \<Rightarrow> Some \<lparr>From = None, To = r\<rparr> | Some q \<Rightarrow> if ID (h q) = i then None else Some \<lparr>From = Some q, To = r\<rparr>)"
  using assms by (induction old) auto

lemma distinct_concat_map:
  "distinct rs \<Longrightarrow> (\<And>r. r \<in> set rs \<Longrightarrow> distinct (f r)) \<Longrightarrow>
   (\<And>r r'. r \<in> set rs \<Longrightarrow> r' \<in> set rs \<Longrightarrow> r \<noteq> r' \<Longrightarrow> set (f r) \<inter> set (f r') = {}) \<Longrightarrow> distinct (concat (map f rs))"
proof (induction rs)
  case (Cons r rs)
  have "distinct (concat (map f rs))" by (rule Cons.IH) (use Cons.prems in auto)
  moreover have "set (f r) \<inter> set (f r') = {}" if "r' \<in> set rs" for r'
    using Cons.prems(1) Cons.prems(3) [of r r'] that by auto
  ultimately show ?case using Cons.prems(2) by auto
qed simp

text \<open>The assignment the plan makes: pairs of a new master's id and a slot, no slot twice.\<close>

definition assigned :: "go_env \<Rightarrow> nheap \<Rightarrow> Nodes \<Rightarrow> Nodes \<Rightarrow> nat \<Rightarrow> (string \<times> Slot) list" where
  "assigned env h new old N =
     concat (map (\<lambda>(i, xs). map (Pair i) xs) (mrange env 6 (buildSlotsByNode env h new old (int N))))"

lemma assigned_ok:
  assumes "go_runtime env" and "scale_ok h new old N" and "new \<noteq> []" and "0 < N" and "N < 2 ^ 53" and "length new < 2 ^ 53"
  shows "distinct (map snd (assigned env h new old N))"
    and "(i, s) \<in> set (assigned env h new old N) \<Longrightarrow> s < N \<and> (\<exists>r\<in>set new. i = ID (h r))"
    and "s < N \<Longrightarrow> s \<notin> snd ` set (assigned env h new old N) \<Longrightarrow>
           \<exists>r\<in>set new. r \<in> set old \<and> s \<in> set (Slots (h r))"
    and "r \<in> set old \<Longrightarrow> r \<notin> set new \<Longrightarrow> s \<in> set (Slots (h r)) \<Longrightarrow> s \<in> snd ` set (assigned env h new old N)"
proof -
  let ?A = "buildSlotsByNode env h new old (int N)" and ?L = "assigned env h new old N"
  obtain c where A: "wf_map ?A" "fst ` set ?A \<subseteq> (\<lambda>r. ID (h r)) ` set new" "distinct (all_slots ?A)"
    and setA: "set (all_slots ?A) = {s. s < N \<and> (\<forall>r\<in>set old. s \<notin> set (Slots (h r)))} \<union> (\<Union>r\<in>set old. set (surplus h new c r))"
    using buildSlotsByNode_ok [OF assms] by blast
  have snd: "map snd ?L = all_slots (mrange env 6 ?A)"
    unfolding assigned_def map_concat by (intro arg_cong [where f = concat]) (auto simp: o_def)
  have perm: "mset (all_slots (mrange env 6 ?A)) = mset (all_slots ?A)"
    by (rule mset_concat_perm) (rule go_runtime.mrange_perm [OF assms(1) A(1)])
  show "distinct (map snd ?L)"
    unfolding snd using mset_eq_imp_distinct_iff [OF perm] A(3) by blast
  have set: "snd ` set ?L = set (all_slots ?A)"
    using mset_eq_setD [OF perm] snd by (metis set_map)
  have inj: "r \<in> set new" if "ID (h r) \<in> (\<lambda>r. ID (h r)) ` set new" "r \<in> set old" for r
    using assms(2) that unfolding scale_ok_def inj_on_def by blast
  have sub: "set (surplus h new c r) \<subseteq> set (Slots (h r))" for r
    by (auto simp: surplus_def dest: in_set_dropD)
  show "s < N \<and> (\<exists>r\<in>set new. i = ID (h r))" if pair: "(i, s) \<in> set ?L"
  proof -
    have "s \<in> set (all_slots ?A)" using pair set by force
    then have "s < N" unfolding setA using assms(2) sub unfolding scale_ok_def by blast
    moreover have "i \<in> fst ` set (mrange env 6 ?A)" using pair by (force simp: assigned_def)
    then have "i \<in> fst ` set ?A" using go_runtime.mrange_set [OF assms(1) A(1)] by simp
    ultimately show ?thesis using A(2) by blast
  qed
  show "\<exists>r\<in>set new. r \<in> set old \<and> s \<in> set (Slots (h r))" if s: "s < N" "s \<notin> snd ` set ?L"
  proof -
    have "s \<notin> set (all_slots ?A)" using s(2) set by simp
    then obtain r where r: "r \<in> set old" "s \<in> set (Slots (h r))" "s \<notin> set (surplus h new c r)"
      using s(1) unfolding setA by auto
    then have "is_present h r new" by (simp add: surplus_def split: if_splits)
    then have "r \<in> set new" by (intro inj r(1)) (simp add: is_present_iff)
    then show ?thesis using r by blast
  qed
  show "s \<in> snd ` set ?L" if r: "r \<in> set old" "r \<notin> set new" "s \<in> set (Slots (h r))"
  proof -
    have "\<not> is_present h r new" using inj [OF _ r(1)] r(2) unfolding is_present_iff by blast
    then show ?thesis unfolding set setA using r by (auto simp: surplus_def)
  qed
qed

text \<open>The migration map in terms of the assignment.\<close>

lemma feedMigInfo_ok:
  assumes "go_runtime env" and "distinct (map snd (assigned env h new old N))"
    and "feedMigInfo env h new old (int N) = (m, n)"
  shows "distinct (all_slots (prange env 7 m))"
    and "leaving (prange env 7 m) r
           = {s. \<exists>i k. (i, s) \<in> set (assigned env h new old N) \<and> mig_key h new i s old = Some k \<and> From k = Some r}"
    and "arriving (prange env 7 m) r
           = {s. \<exists>i k. (i, s) \<in> set (assigned env h new old N) \<and> mig_key h new i s old = Some k \<and> To k = r}"
    and "(k, xs) \<in> set (prange env 7 m) \<Longrightarrow> s \<in> set xs \<Longrightarrow>
           \<exists>i. (i, s) \<in> set (assigned env h new old N) \<and> mig_key h new i s old = Some k"
proof -
  let ?L = "assigned env h new old N"
  have run: "fold (\<lambda>(i, s). feed_one h new old i s) ?L ([], 0) = (m, n)"
    using assms(3) unfolding feedMigInfo_def fold_pairs assigned_def .
  note ff = feed_fold [OF run]
  have wf: "wf_map m" using ff(2) by simp
  have "distinct (map snd (filter (\<lambda>(i, s). mig_key h new i s old \<noteq> None) ?L))"
    using assms(2) distinct_map_filter by blast
  then show "distinct (all_slots (prange env 7 m))"
  proof (rule iffD2 [OF mset_eq_imp_distinct_iff, rotated])
    show "mset (all_slots (prange env 7 m)) = mset (map snd (filter (\<lambda>(i, s). mig_key h new i s old \<noteq> None) ?L))"
      using ff(3) mset_concat_perm [OF go_runtime.prange_perm [OF assms(1)], of 7 m] by simp
  qed
  have at: "s \<in> set (mget [] m k) \<longleftrightarrow> (\<exists>i. (i, s) \<in> set ?L \<and> mig_key h new i s old = Some k)" for s k
    by (auto simp: ff(1) image_iff)
  have entry: "(\<exists>xs. (k, xs) \<in> set m \<and> s \<in> set xs) \<longleftrightarrow> s \<in> set (mget [] m k)" for s k
    using wf by (auto simp: mget_def split: option.splits dest: map_of_SomeD)
  have set: "set (prange env 7 m) = set m" by (rule go_runtime.prange_set [OF assms(1)])
  show "leaving (prange env 7 m) r
      = {s. \<exists>i k. (i, s) \<in> set ?L \<and> mig_key h new i s old = Some k \<and> From k = Some r}"
    unfolding leaving_def set using entry at by blast
  show "arriving (prange env 7 m) r
      = {s. \<exists>i k. (i, s) \<in> set ?L \<and> mig_key h new i s old = Some k \<and> To k = r}"
    unfolding arriving_def set using entry at by blast
  show "\<exists>i. (i, s) \<in> set ?L \<and> mig_key h new i s old = Some k" if "(k, xs) \<in> set (prange env 7 m)" "s \<in> set xs"
    using that entry at unfolding set by blast
qed

text \<open>Where the slots of the new masters are after the commands were accepted.\<close>

lemma final_slots:
  assumes "go_runtime env" and sc: "scale_ok h new old N" and "new \<noteq> []" and "0 < N" and "N < 2 ^ 53" and "length new < 2 ^ 53"
    and feed: "feedMigInfo env h new old (int N) = (m, n)"
    and run: "dispatch_loop adm all (prange env 7 m) h w = (None, h', w')"
  shows "r \<in> set new \<Longrightarrow> s \<in> set (Slots (h' r)) \<longleftrightarrow>
      (if s \<in> snd ` set (assigned env h new old N) then (ID (h r), s) \<in> set (assigned env h new old N)
       else s \<in> set (Slots (h r)))"
    and "r \<notin> set new \<Longrightarrow> r \<in> set old \<or> Slots (h r) = [] \<Longrightarrow> Slots (h' r) = []"
    and "distinct (Slots (h r)) \<Longrightarrow> distinct (Slots (h' r))"
proof -
  let ?L = "assigned env h new old N" and ?E = "prange env 7 m"
  note asg = assigned_ok [OF assms(1-6)]
  note fm = feedMigInfo_ok [OF assms(1) asg(1) feed]
  have inj: "inj_on (\<lambda>r. ID (h r)) (set new \<union> set old)" using sc by (simp add: scale_ok_def)
  have uniq: "i = i'" if "(i, s) \<in> set ?L" "(i', s) \<in> set ?L" for i i' s
    using asg(1) that unfolding distinct_map inj_on_def by fastforce
  have node: "GetNodeByID h new (ID (h q)) = Inr q" if "q \<in> set new" for q
    using that inj by (intro GetNodeByID_unique) (auto intro: inj_on_subset)
  have owner: "List.find (\<lambda>q. s \<in> set (Slots (h q))) old = Some q" if "q \<in> set old" "s \<in> set (Slots (h q))" for q s
  proof -
    have "List.find (\<lambda>q. s \<in> set (Slots (h q))) old \<noteq> None" using that by (auto simp: find_None_iff)
    then obtain q' where q': "List.find (\<lambda>q. s \<in> set (Slots (h q))) old = Some q'" by blast
    from find_SomeD [OF this] scale_ok_owner [OF sc, of q' q s] that show ?thesis using q' by simp
  qed
  have key: "mig_key h new (ID (h q)) s old = (case List.find (\<lambda>q. s \<in> set (Slots (h q))) old of
      None \<Rightarrow> Some \<lparr>From = None, To = q\<rparr>
      | Some q' \<Rightarrow> if ID (h q') = ID (h q) then None else Some \<lparr>From = Some q', To = q\<rparr>)" if "q \<in> set new" for q s
    using mig_key_owner [OF node [OF that]] .
  have target: "(\<exists>q\<in>set new. i = ID (h q) \<and> To k = q) \<and> From k \<noteq> Some (To k)"
    if pr: "(i, s) \<in> set ?L" "mig_key h new i s old = Some k" for i s k
  proof -
    obtain q where q: "q \<in> set new" "i = ID (h q)" using asg(2) [OF pr(1)] by blast
    then show ?thesis using pr(2) key [OF q(1), of s] by (auto split: option.splits if_splits)
  qed
  have "From k \<noteq> Some (To k)" if "(k, xs) \<in> set ?E" "xs \<noteq> []" for k xs
    using fm(4) [OF that(1), of "hd xs"] target that(2) by (metis hd_in_set)
  then have ne: "\<forall>(k, xs)\<in>set ?E. xs \<noteq> [] \<longrightarrow> From k \<noteq> Some (To k)" by blast
  note final = dispatch_loop_ok [OF run fm(1) ne]
  show "distinct (Slots (h r)) \<Longrightarrow> distinct (Slots (h' r))" using final [of r] by simp
  show "Slots (h' r) = []" if nr: "r \<notin> set new" and emp: "r \<in> set old \<or> Slots (h r) = []"
  proof -
    have "s \<in> leaving ?E r" if s: "s \<in> set (Slots (h r))" for s
    proof -
      have r: "r \<in> set old" "r \<notin> set new" using nr emp s by auto
      obtain i where i: "(i, s) \<in> set ?L" using asg(4) [OF r s] by auto
      then obtain q where q: "q \<in> set new" "i = ID (h q)" using asg(2) by blast
      then have "ID (h r) \<noteq> ID (h q)" using inj r unfolding inj_on_def by blast
      then have "mig_key h new i s old = Some \<lparr>From = Some r, To = q\<rparr>"
        using key [OF q(1), of s] owner [OF r(1) s] q(2) by simp
      then show ?thesis unfolding fm(2) using i by force
    qed
    moreover have "arriving ?E r = {}" unfolding fm(3) using target nr by blast
    ultimately have "set (Slots (h' r)) = {}" unfolding final [THEN conjunct1] by blast
    then show ?thesis by simp
  qed
  show "s \<in> set (Slots (h' r)) \<longleftrightarrow>
      (if s \<in> snd ` set ?L then (ID (h r), s) \<in> set ?L else s \<in> set (Slots (h r)))" if r: "r \<in> set new"
  proof (cases "s \<in> snd ` set ?L")
    case False
    then have "s \<notin> leaving ?E r" "s \<notin> arriving ?E r" unfolding fm(2,3) by force+
    then show ?thesis using final [of r, THEN conjunct1] False by auto
  next
    case True
    then obtain i where i: "(i, s) \<in> set ?L" by auto
    then obtain q where q: "q \<in> set new" "i = ID (h q)" using asg(2) by blast
    have lv: "s \<in> leaving ?E r \<longleftrightarrow> (\<exists>k. mig_key h new i s old = Some k \<and> From k = Some r)"
      and ar: "s \<in> arriving ?E r \<longleftrightarrow> (\<exists>k. mig_key h new i s old = Some k \<and> To k = r)"
      unfolding fm(2,3) using uniq i by blast+
    have old: "r \<in> set old" if "s \<in> set (Slots (h r))" using sc r that unfolding scale_ok_def by auto
    have "s \<in> set (Slots (h' r)) \<longleftrightarrow> q = r"
    proof (cases "q = r")
      case True
      have "s \<in> set (Slots (h r)) \<and> mig_key h new i s old = None \<or> s \<in> arriving ?E r"
      proof (cases "List.find (\<lambda>q. s \<in> set (Slots (h q))) old")
        case None
        then show ?thesis unfolding ar using key [OF q(1), of s] q(2) True by simp
      next
        case (Some p)
        then have p: "p \<in> set old" "s \<in> set (Slots (h p))" using find_SomeD [OF Some] by simp_all
        then have "ID (h p) = ID (h r) \<Longrightarrow> p = r" using inj r unfolding inj_on_def by blast
        then show ?thesis unfolding ar using key [OF q(1), of s] q(2) True Some p by auto
      qed
      then have "s \<in> set (Slots (h r)) - leaving ?E r \<union> arriving ?E r"
        by (elim disjE conjE) (simp_all add: lv)
      then show ?thesis unfolding final [of r, THEN conjunct1] using True by blast
    next
      case False
      then have "ID (h q) \<noteq> ID (h r)" using inj q(1) r unfolding inj_on_def by blast
      then have "s \<in> set (Slots (h r)) \<Longrightarrow> s \<in> leaving ?E r"
        unfolding lv using key [OF q(1), of s] owner [OF old] q(2) by simp
      moreover have "s \<notin> arriving ?E r" unfolding ar using target [OF i] q inj False unfolding inj_on_def by blast
      ultimately show ?thesis using final [of r, THEN conjunct1] False by blast
    qed
    moreover have "(ID (h r), s) \<in> set ?L \<longleftrightarrow> q = r"
      using uniq i q inj r unfolding inj_on_def by blast
    ultimately show ?thesis using True by simp
  qed
qed

lemma slots_apart:
  assumes "go_runtime env" and "scale_ok h new old N" and "new \<noteq> []" and "0 < N" and "N < 2 ^ 53" and "length new < 2 ^ 53"
    and "feedMigInfo env h new old (int N) = (m, n)" and "dispatch_loop adm all (prange env 7 m) h w = (None, h', w')"
    and r: "r \<in> set new" "r' \<in> set new" "s \<in> set (Slots (h' r))" "s \<in> set (Slots (h' r'))"
  shows "r = r'"
proof (rule ccontr)
  assume "r \<noteq> r'"
  let ?L = "assigned env h new old N"
  note asg = assigned_ok [OF assms(1-6)]
  note fin = final_slots [OF assms(1-8)]
  have "ID (h r) \<noteq> ID (h r')" using assms(2) r(1,2) \<open>r \<noteq> r'\<close> unfolding scale_ok_def inj_on_def by blast
  moreover have "(i, s) \<in> set ?L \<Longrightarrow> (i', s) \<in> set ?L \<Longrightarrow> i = i'" for i i'
    using asg(1) unfolding distinct_map inj_on_def by fastforce
  moreover have "\<not> (s \<in> set (Slots (h r)) \<and> s \<in> set (Slots (h r')))"
    using scale_ok_owner [OF assms(2), of r r' s] assms(2) r(1,2) \<open>r \<noteq> r'\<close> unfolding scale_ok_def by force
  ultimately show False using r(3,4) fin(1) [OF r(1), of s] fin(1) [OF r(2), of s] by (auto split: if_splits)
qed

lemma slots_covered:
  assumes "go_runtime env" and "scale_ok h new old N" and "new \<noteq> []" and "0 < N" and "N < 2 ^ 53" and "length new < 2 ^ 53"
    and "feedMigInfo env h new old (int N) = (m, n)" and "dispatch_loop adm all (prange env 7 m) h w = (None, h', w')"
  shows "(\<exists>r\<in>set new. s \<in> set (Slots (h' r))) \<longleftrightarrow> s < N"
proof
  let ?L = "assigned env h new old N"
  note asg = assigned_ok [OF assms(1-6)]
  note fin = final_slots [OF assms(1-8)]
  {
    assume "\<exists>r\<in>set new. s \<in> set (Slots (h' r))"
    then obtain r where "r \<in> set new" "s \<in> set (Slots (h' r))" by blast
    then have "(ID (h r), s) \<in> set ?L \<or> s \<in> set (Slots (h r)) \<and> r \<in> set old"
      using fin(1) [of r s] assms(2) unfolding scale_ok_def by (force split: if_splits)
    then show "s < N" using asg(2) assms(2) unfolding scale_ok_def by blast
  next
    assume s: "s < N"
    show "\<exists>r\<in>set new. s \<in> set (Slots (h' r))"
    proof (cases "s \<in> snd ` set ?L")
      case True
      then obtain i where i: "(i, s) \<in> set ?L" by auto
      then obtain r where "r \<in> set new" "i = ID (h r)" using asg(2) by blast
      then show ?thesis using fin(1) [of r s] i True by auto
    next
      case False
      then show ?thesis using asg(3) [OF s] fin(1) by fastforce
    qed
  }
qed

lemma DispatchSlotToNewMasters_ok:
  assumes "go_runtime env" and "GetHashMaxSlot adm = 16383" and sc: "scale_ok h new old 16384"
    and "new \<noteq> []" and "length new < 2 ^ 53"
    and run: "DispatchSlotToNewMasters env adm new old all c h w = (c', err, h', w')"
  shows "err = None \<Longrightarrow> distinct (concat (map (\<lambda>r. Slots (h' r)) new))"
    and "err = None \<Longrightarrow> set (concat (map (\<lambda>r. Slots (h' r)) new)) = {0..<16384}"
    and "err = None \<Longrightarrow> r \<notin> set new \<Longrightarrow> r \<in> set old \<or> Slots (h r) = [] \<Longrightarrow> Slots (h' r) = []"
    and "accepts_dispatch adm \<Longrightarrow> err = None"
proof -
  obtain m n where feed: "feedMigInfo env h new old (int 16384) = (m, n)" by fastforce
  have loop: "dispatch_loop adm all (prange env 7 m) h w = (err, h', w')"
    using run feed assms(2) by (simp add: DispatchSlotToNewMasters_def Slot_to_int_def)
  show "accepts_dispatch adm \<Longrightarrow> err = None" using accepts_dispatch_loop [OF _ loop] .
  assume err: "err = None"
  have N: "(0 :: nat) < 16384" "16384 < (2 :: nat) ^ 53" by simp_all
  note ok = assms(1) sc assms(4) N assms(5) feed loop [unfolded err]
  note fin = final_slots [OF ok]
  have "distinct (Slots (h' r))" if r: "r \<in> set new" for r
  proof (rule fin(3), cases "Slots (h r) = []")
    case False
    then have "r \<in> set old" using sc r unfolding scale_ok_def by blast
    then show "distinct (Slots (h r))" by (rule scale_ok_distinct [OF sc])
  qed simp
  moreover have "distinct new" using sc by (simp add: scale_ok_def)
  ultimately show "distinct (concat (map (\<lambda>r. Slots (h' r)) new))"
    using slots_apart [OF ok] by (intro distinct_concat_map) blast+
  show "set (concat (map (\<lambda>r. Slots (h' r)) new)) = {0..<16384}" using slots_covered [OF ok] by (simp add: set_eq_iff)
  show "r \<notin> set new \<Longrightarrow> r \<in> set old \<or> Slots (h r) = [] \<Longrightarrow> Slots (h' r) = []" by (rule fin(2))
qed

text \<open>C3. Scaling down: from any state in which no slot has two owners, if the commands are accepted,
  \<open>DispatchSlotToNewMasters\<close> leaves every one of the 16384 slots with exactly one of the new masters,
  including the slots no master owned before, and leaves every removed master without slots, so
  that the later check in \<open>scalingDown\<close> lets it go. This holds for every order in which the Go
  runtime ranges over the maps. If all commands are accepted the call does not fail.\<close>

theorem DispatchSlotToNewMasters_correct:
  assumes "go_runtime env" and "GetHashMaxSlot adm = 16383" and "scale_ok h new old 16384"
    and "new \<noteq> []" and "length new < 2 ^ 53"
  shows "\<exists>c' err h' w'. DispatchSlotToNewMasters env adm new old all c h w = (c', err, h', w')
    \<and> (err = None \<longrightarrow> distinct (concat (map (\<lambda>r. Slots (h' r)) new))
         \<and> set (concat (map (\<lambda>r. Slots (h' r)) new)) = {0..<16384}
         \<and> (\<forall>r\<in>set old. r \<notin> set new \<longrightarrow> Slots (h' r) = []))
    \<and> (accepts_dispatch adm \<longrightarrow> err = None)"
proof -
  obtain c' err h' w' where "DispatchSlotToNewMasters env adm new old all c h w = (c', err, h', w')" by (metis prod_cases4)
  with DispatchSlotToNewMasters_ok [OF assms this] show ?thesis
    by (intro exI [of _ c'] exI [of _ err] exI [of _ h'] exI [of _ w'] conjI impI ballI) simp_all
qed

text \<open>Two masters, of which the second is removed; slot 16383 has been lost.\<close>

definition scale_down_heap :: nheap where
  "scale_down_heap r = NewDefaultNode\<lparr>ID := (if r = 2 then ''a'' else ''b''),
     Slots := (if r = 2 then [0..<8192] else if r = 3 then [8192..<16383] else [])\<rparr>"

theorem DispatchSlotToNewMasters_correct_witness:
  "\<exists>c' h' w'. DispatchSlotToNewMasters go_env_det (recording_admin 16383) [2] [2, 3] [2, 2, 3]
       (demo_ctx [] 1) scale_down_heap [] = (c', None, h', w')
     \<and> distinct (Slots (h' 2)) \<and> set (Slots (h' 2)) = {0..<16384} \<and> Slots (h' 3) = []"
proof -
  have sc: "scale_ok scale_down_heap [2] [2, 3] 16384"
    by (auto simp: scale_ok_def scale_down_heap_def simp del: upt_rec_numeral)
  have h: "GetHashMaxSlot (recording_admin 16383) = 16383" "[2 :: nref] \<noteq> []" "length [2 :: nref] < 2 ^ 53"
    "accepts_dispatch (recording_admin 16383)"
    by (simp_all add: recording_admin_def accepts_dispatch_def)
  from DispatchSlotToNewMasters_correct [OF det.go_runtime_axioms h(1) sc h(2,3), of "[2, 2, 3]" "demo_ctx [] 1" "[]"] h(4)
  obtain c' h' w' where "DispatchSlotToNewMasters go_env_det (recording_admin 16383) [2] [2, 3] [2, 2, 3]
       (demo_ctx [] 1) scale_down_heap [] = (c', None, h', w')"
    "distinct (concat (map (\<lambda>r. Slots (h' r)) [2]))" "set (concat (map (\<lambda>r. Slots (h' r)) [2])) = {0..<16384}"
    "\<forall>r\<in>set [2, 3]. r \<notin> set [2] \<longrightarrow> Slots (h' r) = []"
    by blast
  then show ?thesis by (intro exI [of _ c'] exI [of _ h'] exI [of _ w']) simp
qed

end
