(* ===== verification/Status.thy ===== *)
theory Status
  imports Ensurer Admin Migration
begin

text \<open>
  \<open>pkg/controller/distributedrediscluster/status.go\<close> and \<open>helper.go\<close>: the status of a cluster computed from its pods and
  from what its Redis nodes say, the comparison that decides whether it is written, the view of the cluster that
  the clustering code works on, and the wait for a condition.
\<close>

section \<open>status.go\<close>

definition SetClusterFailed :: "DistributedRedisClusterStatus \<Rightarrow> string \<Rightarrow> DistributedRedisClusterStatus" where
  "SetClusterFailed status reason = status\<lparr>st_Status := ClusterStatusKO, st_Reason := reason\<rparr>"

definition SetClusterOK :: "DistributedRedisClusterStatus \<Rightarrow> string \<Rightarrow> DistributedRedisClusterStatus" where
  "SetClusterOK status reason = status\<lparr>st_Status := ClusterStatusOK, st_Reason := reason\<rparr>"

definition SetClusterRebalancing :: "DistributedRedisClusterStatus \<Rightarrow> string \<Rightarrow> DistributedRedisClusterStatus" where
  "SetClusterRebalancing status reason = status\<lparr>st_Status := ClusterStatusRebalancing, st_Reason := reason\<rparr>"

definition SetClusterScaling :: "DistributedRedisClusterStatus \<Rightarrow> string \<Rightarrow> DistributedRedisClusterStatus" where
  "SetClusterScaling status reason = status\<lparr>st_Status := ClusterStatusScaling, st_Reason := reason\<rparr>"

definition SetClusterUpdating :: "DistributedRedisClusterStatus \<Rightarrow> string \<Rightarrow> DistributedRedisClusterStatus" where
  "SetClusterUpdating status reason = status\<lparr>st_Status := ClusterStatusRollingUpdate, st_Reason := reason\<rparr>"

definition SetClusterResetPassword :: "DistributedRedisClusterStatus \<Rightarrow> string \<Rightarrow> DistributedRedisClusterStatus" where
  "SetClusterResetPassword status reason = status\<lparr>st_Status := ClusterStatusResetPassword, st_Reason := reason\<rparr>"

text \<open>The node of the status for a pod, before Redis is asked.\<close>

definition pod_node :: "Pod \<Rightarrow> RedisClusterNode" where
  "pod_node pod = \<lparr>an_ID = [], an_Role = [], an_IP = pod_PodIP pod, an_Port = [], an_Slots = [], an_MasterRef = [],
     an_PodName = pod_Name pod, an_NodeName = pod_NodeName pod,
     an_StatefulSet = (case pod_OwnerReferences pod of
         [] \<Rightarrow> [] | owner # _ \<Rightarrow> if owner_Kind owner = ''StatefulSet'' then owner_Name owner else [])\<rparr>"

text \<open>The counters: masters that own slots, and the slaves of each master.\<close>

type_synonym counters = "int \<times> (string, int) gomap"

definition count_node :: "Node \<Rightarrow> counters \<Rightarrow> counters" where
  "count_node redisNode c =
     (let (nbMaster, nbSlaveByMaster) = c;
          nbSlaveByMaster = (if IsMasterWithSlot redisNode \<and> ID redisNode \<notin> set (mkeys nbSlaveByMaster)
                             then mput (ID redisNode) 0 nbSlaveByMaster else nbSlaveByMaster);
          nbMaster = (if IsMasterWithSlot redisNode then i32 (nbMaster + 1) else nbMaster)
      in (nbMaster,
          if IsSlave redisNode \<and> MasterReferent redisNode \<noteq> []
          then mput (MasterReferent redisNode) (mget 0 nbSlaveByMaster (MasterReferent redisNode) + 1) nbSlaveByMaster
          else nbSlaveByMaster))"

text \<open>What Redis adds to the node. Computing the ranges sorts the slots of the node in place.\<close>

definition fill_node :: "Node \<Rightarrow> RedisClusterNode \<Rightarrow> RedisClusterNode" where
  "fill_node redisNode newNode =
     newNode\<lparr>an_ID := ID redisNode, an_Role := GetRole redisNode, an_Port := Port redisNode,
       an_MasterRef := (if IsSlave redisNode \<and> MasterReferent redisNode \<noteq> [] then MasterReferent redisNode else an_MasterRef newNode),
       an_Slots := (if length (Slots redisNode) > 0
                    then map SlotRange_String (fst (SlotRangesFromSlots (Slots redisNode))) else [])\<rparr>"

definition sort_slots :: "Node \<Rightarrow> Node" where
  "sort_slots n = (if length (Slots n) > 0 then n\<lparr>Slots := snd (SlotRangesFromSlots (Slots n))\<rparr> else n)"

fun status_loop ::
  "go_env \<Rightarrow> ClusterInfos \<Rightarrow> nat \<Rightarrow> Pod list \<Rightarrow> nheap \<Rightarrow> RedisClusterNode list \<Rightarrow> counters
    \<Rightarrow> nheap \<times> RedisClusterNode list \<times> counters" where
  "status_loop env infos i [] h nodes c = (h, nodes, c)"
| "status_loop env infos i (pod # podlist) h nodes c =
     (case GetNodesByFunc (\<lambda>node. IP node = pod_PodIP pod) h (GetNodes env (2000 + i) infos) of
        (redisNodes, Some err) \<Rightarrow> status_loop env infos (i + 1) podlist h nodes c
      | (redisNodes, None) \<Rightarrow>
          if length redisNodes = 1 then
            let r = hd redisNodes
            in status_loop env infos (i + 1) podlist (h(r := sort_slots (h r))) (nodes @ [fill_node (h r) (pod_node pod)])
                 (count_node (h r) c)
          else status_loop env infos (i + 1) podlist h (nodes @ [pod_node pod]) c)"

definition MaxInt32 :: int where "MaxInt32 = 2147483647"

definition factor_step :: "int \<Rightarrow> int \<times> int \<Rightarrow> int \<times> int" where
  "factor_step counter mm =
     (let (mini, maxi) = mm
      in (if counter < mini then counter else mini, if counter > maxi then counter else maxi))"

definition replication_factors :: "go_env \<Rightarrow> (string, int) gomap \<Rightarrow> int \<times> int" where
  "replication_factors env nbSlaveByMaster =
     (let (mini, maxi) = fold (\<lambda>(_, counter). factor_step counter) (mrange env 55 nbSlaveByMaster) (MaxInt32, 0)
      in (if length nbSlaveByMaster = 0 then 0 else mini, maxi))"

definition buildClusterStatus ::
  "go_env \<Rightarrow> ClusterInfos \<Rightarrow> Pod list \<Rightarrow> drc \<Rightarrow> nheap \<Rightarrow> DistributedRedisClusterStatus \<times> nheap" where
  "buildClusterStatus env infos podlist cluster h =
     (let oldStatus = drc_Status cluster;
          (h, nodes, nbMaster, nbSlaveByMaster) = status_loop env infos 0 podlist h [] (0, []);
          (minReplicationFactor, maxReplicationFactor) = replication_factors env nbSlaveByMaster
      in (\<lparr>st_Status = st_Status oldStatus, st_Reason = st_Reason oldStatus, st_NumberOfMaster = nbMaster,
           st_MinReplicationFactor = i32 minReplicationFactor, st_MaxReplicationFactor = i32 maxReplicationFactor,
           st_NodesPlacement = [], st_Nodes = nodes, st_Restore = st_Restore oldStatus\<rparr>, h))"

definition compareNodes :: "RedisClusterNode \<Rightarrow> RedisClusterNode \<Rightarrow> bool" where
  "compareNodes nodeA nodeB =
     (if CompareStringValue (an_IP nodeA) (an_IP nodeB) then True
      else if CompareStringValue (an_MasterRef nodeA) (an_MasterRef nodeB) then True
      else if CompareStringValue (an_PodName nodeA) (an_PodName nodeB) then True
      else if CompareStringValue (an_Port nodeA) (an_Port nodeB) then True
      else if CompareStringValue (an_Role nodeA) (an_Role nodeB) then True
      else if length (an_Slots nodeA) \<noteq> length (an_Slots nodeB) then True
      else if length (an_Slots nodeA) \<noteq> 0 \<and> an_Slots nodeA \<noteq> an_Slots nodeB then True
      else False)"

text \<open>\<open>None\<close>: no node with this ID; \<open>Some True\<close>: the node with this ID differs.\<close>

fun find_changed :: "RedisClusterNode \<Rightarrow> RedisClusterNode list \<Rightarrow> bool \<Rightarrow> bool option" where
  "find_changed nodeA [] found = (if found then Some False else None)"
| "find_changed nodeA (nodeB # nodes) found =
     (if an_ID nodeA = an_ID nodeB
      then if compareNodes nodeA nodeB then Some True else find_changed nodeA nodes True
      else find_changed nodeA nodes found)"

fun nodes_changed :: "RedisClusterNode list \<Rightarrow> RedisClusterNode list \<Rightarrow> bool" where
  "nodes_changed [] new = False"
| "nodes_changed (nodeA # old) new =
     (case find_changed nodeA new False of None \<Rightarrow> True | Some True \<Rightarrow> True | Some False \<Rightarrow> nodes_changed old new)"

definition compareStatus :: "DistributedRedisClusterStatus \<Rightarrow> DistributedRedisClusterStatus \<Rightarrow> bool" where
  "compareStatus old new =
     (if CompareStringValue (st_Status old) (st_Status new) then True
      else if CompareStringValue (st_Reason old) (st_Reason new) then True
      else if CompareInt32 (st_NumberOfMaster old) (st_NumberOfMaster new) then True
      else if CompareInt32 (i32 (int (length (st_Nodes old)))) (i32 (int (length (st_Nodes new)))) then True
      else if CompareStringValue (restore_Phase (st_Restore old)) (restore_Phase (st_Restore new)) then True
      else nodes_changed (st_Nodes old) (st_Nodes new))"

text \<open>The error of the update is dropped; a successful update writes the server's answer into the cluster.\<close>

definition updateClusterIfNeed ::
  "'k kube_client \<Rightarrow> drc \<Rightarrow> DistributedRedisClusterStatus \<Rightarrow> 'k \<Rightarrow> drc \<times> 'k" where
  "updateClusterIfNeed client cluster newStatus k =
     (if compareStatus (drc_Status cluster) newStatus
      then case UpdateCRStatus (clusters client) (cluster\<lparr>drc_Status := newStatus\<rparr>) k of ((_, cluster), k) \<Rightarrow> (cluster, k)
      else (cluster, k))"

section \<open>helper.go\<close>

definition defaultLabels :: "(string, string) gomap" where
  "defaultLabels = [(LabelManagedByKey, OperatorName)]"

definition getLabels :: "go_env \<Rightarrow> drc \<Rightarrow> labels" where
  "getLabels env cluster =
     MergeLabels env [Some defaultLabels, Some [(LabelClusterName, drc_Name cluster)], drc_Labels cluster]"

text \<open>The port of a pod: the last port named \<open>client\<close> of a container named \<open>redis\<close>.\<close>

definition container_port :: "Container \<Rightarrow> string \<Rightarrow> string" where
  "container_port container redisPort =
     (if cont_Name container = ''redis''
      then fold (\<lambda>port redisPort. if port_Name port = ''client'' then FormatInt (ContainerPort port) else redisPort)
             (cont_Ports container) redisPort
      else redisPort)"

definition pod_addr :: "Pod \<Rightarrow> string" where
  "pod_addr pod = JoinHostPort (pod_PodIP pod) (fold container_port (pod_Containers pod) DefaultRedisPort)"

definition admin_options :: "Redis \<Rightarrow> string \<Rightarrow> AdminOptions" where
  "admin_options cfg password = AdminOptions.make (i64 (Redis.DialTimeout cfg * 10 ^ 6)) [] (GetRenameCommandsFile cfg) password"

definition newRedisAdmin ::
  "'w radix \<Rightarrow> go_env \<Rightarrow> (string \<Rightarrow> string option) \<Rightarrow> Pod list \<Rightarrow> string \<Rightarrow> Redis \<Rightarrow> 'w \<Rightarrow> 'w cw option" where
  "newRedisAdmin rx env files podlist password cfg w =
     NewAdmin rx env files (map pod_addr podlist) (admin_options cfg password) w"

definition name_node :: "Cluster \<Rightarrow> RedisClusterNode \<Rightarrow> nheap \<Rightarrow> nheap" where
  "name_node rCluster node h =
     (case map_of (cluster_Nodes rCluster) (an_ID node) of
        Some rNode \<Rightarrow> h(rNode := (h rNode)\<lparr>PodName := an_PodName node, NodeName := an_NodeName node, Node.StatefulSet := an_StatefulSet node\<rparr>)
      | None \<Rightarrow> h)"

definition newRedisCluster :: "go_env \<Rightarrow> ClusterInfos \<Rightarrow> drc \<Rightarrow> nheap \<Rightarrow> Cluster \<times> Nodes \<times> nheap" where
  "newRedisCluster env infos cluster h =
     (let nodes = GetNodes env 56 infos;
          rCluster = (NewCluster (drc_Name cluster) (drc_Namespace cluster))
            \<lparr>cluster_Nodes := fold (\<lambda>node m. mput (ID (h node)) node m) nodes []\<rparr>
      in (rCluster, nodes, fold (name_node rCluster) (st_Nodes (drc_Status cluster)) h))"

definition clusterPods :: "Pod list \<Rightarrow> Pod list" where
  "clusterPods podlist = filter (\<lambda>pod. pod_Phase pod = PodRunning) podlist"

definition needClusterOperation :: "drc \<Rightarrow> bool" where
  "needClusterOperation cluster =
     (let st = drc_Status cluster; sp = drc_Spec cluster in
      if CompareIntValue (Some (st_NumberOfMaster st)) (Some (sp_MasterSize sp)) then True
      else if CompareIntValue (Some (st_MinReplicationFactor st)) (Some (sp_ClusterReplicas sp)) then True
      else if CompareIntValue (Some (st_MaxReplicationFactor st)) (Some (sp_ClusterReplicas sp)) then True
      else False)"

text \<open>\<open>waiting\<close> calls the handler on every tick until it succeeds or the timeout is chosen; \<open>n\<close> is the number of ticks
  that come before the timeout. The handlers only read, through a client whose state may move between the calls.\<close>

fun waiting :: "string \<Rightarrow> ('k \<Rightarrow> goerr option \<times> 'k) \<Rightarrow> nat \<Rightarrow> 'k \<Rightarrow> goerr option \<times> 'k" where
  "waiting name handler 0 k = (Some (Errorf (name @ '' timed out'')), k)"
| "waiting name handler (Suc n) k =
     (case handler k of (None, k) \<Rightarrow> (None, k) | (Some err, k) \<Rightarrow> waiting name handler n k)"

fun still_running :: "Pod list \<Rightarrow> goerr option" where
  "still_running [] = None"
| "still_running (pod # podlist) =
     (if pod_Phase pod = PodRunning then Some (Errorf (''['' @ pod_Name pod @ ''] pod still runing'')) else still_running podlist)"

definition waitPodTerminating_Handler :: "'k kube_client \<Rightarrow> go_env \<Rightarrow> drc \<Rightarrow> string \<Rightarrow> 'k \<Rightarrow> goerr option \<times> 'k" where
  "waitPodTerminating_Handler client env cluster statefulSet k =
     (case GetStatefulSetPodsByLabels client (drc_Namespace cluster) (mput StatefulSetLabel statefulSet (getLabels env cluster)) k of
        (Inl err, k) \<Rightarrow> (Some err, k)
      | (Inr podlist, k) \<Rightarrow> (still_running podlist, k))"

fun one_not_ready :: "int \<Rightarrow> StatefulSet list \<Rightarrow> goerr option" where
  "one_not_ready n [] = Some (Errorf ''statefulSet still not updated'')"
| "one_not_ready n (sts # stsList) = (if sts_ReadyReplicas sts \<noteq> n then None else one_not_ready n stsList)"

definition waitStatefulSetUpdating_Handler :: "'k kube_client \<Rightarrow> go_env \<Rightarrow> drc \<Rightarrow> 'k \<Rightarrow> goerr option \<times> 'k" where
  "waitStatefulSetUpdating_Handler client env cluster k =
     (case ListStatefulSetByLabels client (drc_Namespace cluster) (getLabels env cluster) k of
        (Inl err, k) \<Rightarrow> (Some err, k)
      | (Inr stsList, k) \<Rightarrow> (one_not_ready (i32 (sp_ClusterReplicas (drc_Spec cluster) + 1)) stsList, k))"

section \<open>What the status says\<close>

text \<open>The Redis node of a pod, and the nodes of a list of pods.\<close>

definition node_at :: "nheap \<Rightarrow> ClusterInfos \<Rightarrow> string \<Rightarrow> nref option" where
  "node_at h infos ip = List.find (\<lambda>r. IP (h r) = ip) (map (\<lambda>p. nodeinfos_Node (snd p)) (Infos infos))"

definition pod_nodes :: "nheap \<Rightarrow> ClusterInfos \<Rightarrow> Pod list \<Rightarrow> Node list" where
  "pod_nodes h infos podlist = List.map_filter (\<lambda>pod. map_option h (node_at h infos (pod_PodIP pod))) podlist"

lemma pod_nodes_simps [simp]: "pod_nodes h infos [] = []"
  "pod_nodes h infos (p # ps) = (case node_at h infos (pod_PodIP p) of None \<Rightarrow> pod_nodes h infos ps
     | Some r \<Rightarrow> h r # pod_nodes h infos ps)"
  by (simp_all add: pod_nodes_def map_filter_simps split: option.splits)

lemma an_PodName_simps [simp]: "an_PodName (fill_node n x) = an_PodName x" "an_PodName (pod_node p) = pod_Name p"
  by (simp_all add: fill_node_def pod_node_def)

definition one_node_per_ip :: "nheap \<Rightarrow> ClusterInfos \<Rightarrow> bool" where
  "one_node_per_ip h infos \<longleftrightarrow> distinct (map (\<lambda>p. IP (h (nodeinfos_Node (snd p)))) (Infos infos))"

lemma filter_distinct_key:
  "distinct (map f xs) \<Longrightarrow> filter (\<lambda>x. f x = k) xs = (case List.find (\<lambda>x. f x = k) xs of None \<Rightarrow> [] | Some x \<Rightarrow> [x])"
proof (induction xs)
  case (Cons a xs)
  show ?case
  proof (cases "f a = k")
    case True
    then have "filter (\<lambda>x. f x = k) xs = []" using Cons.prems by (auto simp: filter_empty_conv image_iff)
    with True show ?thesis by simp
  qed (use Cons in simp)
qed simp

lemma nodes_by_ip:
  assumes "go_runtime env" and "wf_map (Infos infos)" and "one_node_per_ip h infos"
  shows "GetNodesByFunc (\<lambda>n. IP n = ip) h (GetNodes env i infos)
    = (case node_at h infos ip of None \<Rightarrow> ([], Some NodeNotFounded) | Some r \<Rightarrow> ([r], None))"
proof -
  let ?rs = "map (\<lambda>p. nodeinfos_Node (snd p)) (Infos infos)"
  have "mset (GetNodes env i infos) = mset ?rs"
    using go_runtime.mrange_perm [OF assms(1,2), of i] by (simp add: GetNodes_def)
  then have perm: "mset (filter (\<lambda>r. IP (h r) = ip) (GetNodes env i infos)) = mset (filter (\<lambda>r. IP (h r) = ip) ?rs)"
    by (simp add: mset_filter)
  have "filter (\<lambda>r. IP (h r) = ip) ?rs = (case node_at h infos ip of None \<Rightarrow> [] | Some r \<Rightarrow> [r])"
    unfolding node_at_def by (rule filter_distinct_key) (use assms(3) in \<open>simp add: one_node_per_ip_def o_def\<close>)
  with perm have "filter (\<lambda>r. IP (h r) = ip) (GetNodes env i infos) = (case node_at h infos ip of None \<Rightarrow> [] | Some r \<Rightarrow> [r])"
    by (cases "node_at h infos ip") (simp_all del: mset_filter)
  then show ?thesis
    by (auto simp: GetNodesByFunc_def split: option.splits)
qed

lemma sort_slots_IP [simp]: "IP (sort_slots n) = IP n"
  by (simp add: sort_slots_def)

lemma sorted_heap_IP: "(\<lambda>q. IP ((h(r := sort_slots (h r))) q)) = (\<lambda>q. IP (h q))"
  by auto

lemma node_at_sorted: "node_at (h(r := sort_slots (h r))) infos ip = node_at h infos ip"
  unfolding node_at_def using fun_cong [OF sorted_heap_IP, of h r] by (simp del: fun_upd_apply)

lemma one_node_sorted: "one_node_per_ip (h(r := sort_slots (h r))) infos = one_node_per_ip h infos"
  unfolding one_node_per_ip_def using fun_cong [OF sorted_heap_IP, of h r] by (simp del: fun_upd_apply)

lemma node_at_IP: "node_at h infos ip = Some r \<Longrightarrow> IP (h r) = ip"
  by (auto simp: node_at_def dest: find_SomeD)

lemma pod_nodes_frame:
  assumes "node_at h infos ip = Some r" and "node_at h1 infos = node_at h infos" and "\<And>q. q \<noteq> r \<Longrightarrow> h1 q = h q"
  shows "ip \<notin> pod_PodIP ` set podlist \<Longrightarrow> pod_nodes h1 infos podlist = pod_nodes h infos podlist"
proof (induction podlist)
  case (Cons p ps)
  have "node_at h infos (pod_PodIP p) \<noteq> Some r"
    using node_at_IP [OF assms(1)] node_at_IP [of h infos "pod_PodIP p" r] Cons.prems by auto
  with Cons assms(2,3) show ?case by (auto split: option.splits)
qed simp

lemma status_loop_result:
  assumes "go_runtime env" and "wf_map (Infos infos)"
  shows "one_node_per_ip h infos \<Longrightarrow> distinct (map pod_PodIP podlist) \<Longrightarrow>
    status_loop env infos i podlist h nodes c = (h', nodes', c') \<Longrightarrow>
    c' = fold count_node (pod_nodes h infos podlist) c
    \<and> map an_PodName nodes' = map an_PodName nodes @ map pod_Name (filter (\<lambda>p. node_at h infos (pod_PodIP p) \<noteq> None) podlist)"
proof (induction podlist arbitrary: i h nodes c)
  case (Cons p ps)
  note get = nodes_by_ip [OF assms Cons.prems(1), of "pod_PodIP p" "2000 + i"]
  show ?case
  proof (cases "node_at h infos (pod_PodIP p)")
    case None
    with Cons.IH [of h "i + 1" nodes c] Cons.prems get show ?thesis
      by simp
  next
    case (Some r)
    define h1 where "h1 = h(r := sort_slots (h r))"
    have at: "node_at h1 infos = node_at h infos" and one: "one_node_per_ip h1 infos"
      unfolding h1_def using Cons.prems(1) by (auto simp: one_node_sorted node_at_sorted fun_eq_iff simp del: fun_upd_apply)
    have pn: "pod_nodes h1 infos ps = pod_nodes h infos ps"
      by (rule pod_nodes_frame [OF Some at]) (use Cons.prems(2) in \<open>auto simp: h1_def\<close>)
    show ?thesis
      using Cons.IH [of h1 "i + 1" "nodes @ [fill_node (h r) (pod_node p)]" "count_node (h r) c"] Cons.prems get Some
      by (simp add: at one pn Let_def flip: h1_def)
  qed
qed simp

text \<open>The masters that are counted and how many of the nodes are their slaves.\<close>

definition counted :: "Node list \<Rightarrow> string set" where
  "counted ns = ID ` {n \<in> set ns. IsMasterWithSlot n} \<union> MasterReferent ` {n \<in> set ns. IsSlave n \<and> MasterReferent n \<noteq> []}"

definition slaves_of :: "Node list \<Rightarrow> string \<Rightarrow> nat" where
  "slaves_of ns m = length (filter (\<lambda>n. IsSlave n \<and> MasterReferent n = m \<and> m \<noteq> []) ns)"

lemma count_node_steps:
  assumes "wf_map m" and "fst ` set m = counted ns" and "\<forall>k. mget 0 m k = int (slaves_of ns k)"
    and "snd (count_node n (b, m)) = m'"
  shows "wf_map m' \<and> fst ` set m' = counted (ns @ [n]) \<and> (\<forall>k. mget 0 m' k = int (slaves_of (ns @ [n]) k))"
proof -
  define m1 where "m1 = (if IsMasterWithSlot n \<and> ID n \<notin> set (mkeys m) then mput (ID n) 0 m else m)"
  have m': "m' = (if IsSlave n \<and> MasterReferent n \<noteq> [] then mput (MasterReferent n) (mget 0 m1 (MasterReferent n) + 1) m1 else m1)"
    using assms(4) unfolding count_node_def Let_def prod.case snd_conv m1_def by (rule sym)
  have m1: "wf_map m1" "\<forall>k. mget 0 m1 k = mget 0 m k"
    "fst ` set m1 = (if IsMasterWithSlot n then insert (ID n) else id) (fst ` set m)"
    using assms(1) by (auto simp: m1_def)
  have keys: "fst ` set m' = counted (ns @ [n])"
    using m1(3) assms(2) by (auto simp: m' counted_def)
  show ?thesis
    using m1(1,2) assms(3) keys by (auto simp: m' slaves_of_def)
qed

lemma count_nodes:
  assumes "length ns < 2 ^ 31"
  shows "fst (fold count_node ns (0, [])) = int (length (filter IsMasterWithSlot ns))
    \<and> wf_map (snd (fold count_node ns (0, []))) \<and> fst ` set (snd (fold count_node ns (0, []))) = counted ns
    \<and> (\<forall>k. mget 0 (snd (fold count_node ns (0, []))) k = int (slaves_of ns k))"
  using assms
proof (induction ns rule: rev_induct)
  case (snoc n ns)
  obtain b m where f: "fold count_node ns (0, []) = (b, m)" by fastforce
  have len: "length (filter IsMasterWithSlot ns) \<le> length ns" by simp
  have b: "b = int (length (filter IsMasterWithSlot ns))" using snoc f by simp
  have "length (filter IsMasterWithSlot ns) + 1 < 2 ^ 31" using len snoc.prems unfolding length_append list.size by linarith
  then have "i32 (b + 1) = b + 1" unfolding b by (intro i32_id) simp_all
  moreover have "fst (count_node n (b, m)) = (if IsMasterWithSlot n then i32 (b + 1) else b)"
    by (simp add: count_node_def Let_def)
  ultimately show ?case
    using count_node_steps [of m ns n b "snd (count_node n (b, m))"] snoc f b by simp
qed (simp add: counted_def slaves_of_def)

lemma factor_fold:
  "fold factor_step cs (a, b) = (Min (insert a (set cs)), Max (insert b (set cs)))"
proof (induction cs arbitrary: a b)
  case (Cons c cs)
  have "Min (insert (if c < a then c else a) (set cs)) = Min (insert a (insert c (set cs)))"
    and "Max (insert (if c > b then c else b) (set cs)) = Max (insert b (insert c (set cs)))"
    by (cases "set cs = {}"; auto simp: min_def max_def)+
  with Cons show ?case by (simp add: factor_step_def)
qed simp

lemma replication_factors_eq:
  assumes "go_runtime env" and "wf_map m" and "\<forall>v \<in> snd ` set m. 0 \<le> v \<and> v \<le> MaxInt32"
  shows "replication_factors env m = (if m = [] then (0, 0) else (Min (snd ` set m), Max (snd ` set m)))"
proof -
  have "fold (\<lambda>(u, counter). factor_step counter) xs s = fold factor_step (map snd xs) s" for xs :: "(string \<times> int) list" and s
    by (induction xs arbitrary: s) auto
  then have f: "fold (\<lambda>(u, counter). factor_step counter) (mrange env 55 m) (MaxInt32, 0)
      = (Min (insert MaxInt32 (snd ` set m)), Max (insert 0 (snd ` set m)))"
    by (simp add: factor_fold go_runtime.mrange_set [OF assms(1,2)])
  show ?thesis
  proof (cases "m = []")
    case False
    then have "Min (snd ` set m) \<le> MaxInt32" "0 \<le> Max (snd ` set m)"
      using bspec [OF assms(3) Min_in] bspec [OF assms(3) Max_in] by simp_all
    with False have "Min (insert MaxInt32 (snd ` set m)) = Min (snd ` set m)" "Max (insert 0 (snd ` set m)) = Max (snd ` set m)"
      by (simp_all add: Min_insert Max_insert min_absorb2 max_absorb2)
    with f False show ?thesis by (simp add: replication_factors_def)
  qed (use f in \<open>simp add: replication_factors_def\<close>)
qed

lemma pod_nodes_length: "length (pod_nodes h infos podlist) \<le> length podlist"
  by (induction podlist) (auto split: option.splits)

lemma counters_bounds:
  assumes "length ns < 2 ^ 31"
  shows "0 \<le> int (slaves_of ns k) \<and> int (slaves_of ns k) \<le> MaxInt32"
proof -
  have "slaves_of ns k \<le> length ns" by (simp add: slaves_of_def)
  with assms show ?thesis by (simp add: MaxInt32_def)
qed

definition factors :: "Node list \<Rightarrow> int set" where
  "factors ns = (\<lambda>m. int (slaves_of ns m)) ` counted ns"

lemma factors_i32:
  assumes "length ns < 2 ^ 31" and "v \<in> factors ns" shows "i32 v = v"
proof -
  obtain k where "v = int (slaves_of ns k)" using assms(2) by (auto simp: factors_def)
  with counters_bounds [OF assms(1), of k] show ?thesis by (intro i32_id) (simp_all add: MaxInt32_def)
qed

lemma values_factors:
  "wf_map m \<Longrightarrow> fst ` set m = counted ns \<Longrightarrow> \<forall>k. mget 0 m k = int (slaves_of ns k) \<Longrightarrow> snd ` set m = factors ns"
proof -
  assume m: "wf_map m" "fst ` set m = counted ns" "\<forall>k. mget 0 m k = int (slaves_of ns k)"
  then have "factors ns = (\<lambda>p. mget 0 m (fst p)) ` set m" by (simp add: factors_def image_image flip: m(2))
  also have "\<dots> = snd ` set m" using mget_in [OF m(1)] by (intro image_cong) auto
  finally show ?thesis by (rule sym)
qed

text \<open>C36.
  The status counts right. When every node has an address of its own, the number of masters is the number of
  pods whose Redis node is a master with slots, and the two replication factors are the least and the greatest
  number of slaves among the masters that own slots or are followed (zero without such masters); the nodes are those
  of the pods Redis answered for, in the order of the pods. The controller takes the cluster to be
  as specified exactly when the number of masters is the wanted one and each of them has the wanted number of slaves.\<close>

theorem buildClusterStatus_counts:
  assumes "go_runtime env" and "wf_map (Infos infos)" and "one_node_per_ip h infos"
    and "distinct (map pod_PodIP podlist)" and "length podlist < 2 ^ 31"
    and "buildClusterStatus env infos podlist cluster h = (st, h')"
    and "ns = pod_nodes h infos podlist"
  shows "st_NumberOfMaster st = int (length (filter IsMasterWithSlot ns))
    \<and> st_MinReplicationFactor st = (if counted ns = {} then 0 else Min (factors ns))
    \<and> st_MaxReplicationFactor st = (if counted ns = {} then 0 else Max (factors ns))
    \<and> map an_PodName (st_Nodes st) = map pod_Name (filter (\<lambda>p. node_at h infos (pod_PodIP p) \<noteq> None) podlist)
    \<and> (0 < sp_MasterSize (drc_Spec cluster) \<longrightarrow>
         (needClusterOperation (cluster\<lparr>drc_Status := st\<rparr>) \<longleftrightarrow>
          \<not> (int (length (filter IsMasterWithSlot ns)) = sp_MasterSize (drc_Spec cluster)
             \<and> (\<forall>m \<in> counted ns. int (slaves_of ns m) = sp_ClusterReplicas (drc_Spec cluster)))))"
proof -
  define res where "res = status_loop env infos 0 podlist h [] (0, [])"
  obtain h1 nodes b m where res: "res = (h1, nodes, b, m)" by (cases res)
  note run = status_loop_result [OF assms(1-4) res [unfolded res_def]]
  have len: "length ns < 2 ^ 31" using pod_nodes_length [of h infos podlist] assms(5,7) by simp
  note counts = count_nodes [OF len]
  have bm: "fold count_node ns (0, []) = (b, m)" using run assms(7) by simp
  then have wf: "wf_map m" and keys: "fst ` set m = counted ns" and b: "b = int (length (filter IsMasterWithSlot ns))"
    and vals: "snd ` set m = factors ns"
    using counts values_factors [of m ns] by auto
  have empty: "m = [] \<longleftrightarrow> counted ns = {}" using keys by auto
  have fin: "finite (factors ns)" by (simp flip: vals)
  have ne: "factors ns = {} \<longleftrightarrow> counted ns = {}" by (simp add: factors_def)
  have i32: "i32 (if counted ns = {} then 0 else Min (factors ns)) = (if counted ns = {} then 0 else Min (factors ns))"
    "i32 (if counted ns = {} then 0 else Max (factors ns)) = (if counted ns = {} then 0 else Max (factors ns))"
    using factors_i32 [OF len] fin by (simp_all add: ne)
  have bounds: "\<forall>v \<in> snd ` set m. 0 \<le> v \<and> v \<le> MaxInt32"
    using counters_bounds [OF len] unfolding vals by (auto simp: factors_def)
  have "replication_factors env m = (if counted ns = {} then 0 else Min (factors ns), if counted ns = {} then 0 else Max (factors ns))"
    unfolding replication_factors_eq [OF assms(1) wf bounds] vals empty by simp
  then have st: "st_NumberOfMaster st = b" "st_Nodes st = nodes"
    "st_MinReplicationFactor st = (if counted ns = {} then 0 else Min (factors ns))"
    "st_MaxReplicationFactor st = (if counted ns = {} then 0 else Max (factors ns))"
    using assms(6) i32 by (simp_all only: buildClusterStatus_def res [unfolded res_def] Let_def prod.case prod.inject)
      (auto simp only: DistributedRedisClusterStatus.select_convs)
  have need: "needClusterOperation (cluster\<lparr>drc_Status := st\<rparr>) \<longleftrightarrow>
      \<not> (int (length (filter IsMasterWithSlot ns)) = sp_MasterSize (drc_Spec cluster)
         \<and> (\<forall>m \<in> counted ns. int (slaves_of ns m) = sp_ClusterReplicas (drc_Spec cluster)))"
    if pos: "0 < sp_MasterSize (drc_Spec cluster)"
  proof (cases "int (length (filter IsMasterWithSlot ns)) = sp_MasterSize (drc_Spec cluster)")
    case True
    then have "counted ns \<noteq> {}" using pos by (cases "filter IsMasterWithSlot ns") (auto simp: counted_def filter_eq_Cons_iff)
    moreover then have "factors ns \<noteq> {}" by (simp add: factors_def)
    then have "Min (factors ns) = r \<and> Max (factors ns) = r \<longleftrightarrow> (\<forall>v \<in> factors ns. v = r)" for r
      using fin by (metis Max_ge Max_in Min_in Min_le order_antisym)
    ultimately show ?thesis
      using True by (simp add: needClusterOperation_def st b factors_def Let_def) blast
  qed (simp add: needClusterOperation_def st b Let_def)
  show ?thesis
    using need st(3,4) run assms(7) by (simp add: st(1,2) b)
qed

text \<open>One master with a slave, as their two pods.\<close>

definition status_node :: "string \<Rightarrow> string \<Rightarrow> string \<Rightarrow> string \<Rightarrow> Slot list \<Rightarrow> Node" where
  "status_node ident ip role ref slots =
     NewDefaultNode\<lparr>ID := ident, IP := ip, Role := role, MasterReferent := ref, Slots := slots\<rparr>"

definition status_heap :: nheap where
  "status_heap r = (if r = 0 then status_node ''m'' ''10.0.0.1'' ''master'' [] [2, 1] else status_node ''s'' ''10.0.0.2'' ''slave'' ''m'' [])"

definition status_infos :: ClusterInfos where
  "status_infos = \<lparr>Infos = [(''10.0.0.1:6379'', \<lparr>nodeinfos_Node = 0, Friends = [], friends_cap = 0\<rparr>),
     (''10.0.0.2:6379'', \<lparr>nodeinfos_Node = 1, Friends = [], friends_cap = 0\<rparr>)], infos_Status = ClusterInfosConsistent\<rparr>"

definition status_pod :: "string \<Rightarrow> string \<Rightarrow> Pod" where
  "status_pod name ip = \<lparr>pod_Name = name, pod_Namespace = ''default'', pod_NodeName = ''vm'', pod_PodIP = ip, pod_Phase = PodRunning,
     pod_OwnerReferences = [], pod_DeletionTimestamp = None, pod_Containers = []\<rparr>"

definition status_cluster :: drc where
  "status_cluster = upd_spec (\<lambda>sp. sp\<lparr>sp_MasterSize := 1, sp_ClusterReplicas := 1\<rparr>) sample_cluster"

lemma status_nodes:
  "pod_nodes status_heap status_infos [status_pod ''p0'' ''10.0.0.1'', status_pod ''p1'' ''10.0.0.2''] = [status_heap 0, status_heap 1]"
  by (simp add: node_at_def status_infos_def status_pod_def status_heap_def status_node_def)

lemma status_roles: "IsMasterWithSlot (status_heap 0)" "\<not> IsMasterWithSlot (status_heap (Suc 0))" "\<not> IsSlave (status_heap 0)"
    "IsSlave (status_heap (Suc 0))" "MasterReferent (status_heap (Suc 0)) = ''m''" "ID (status_heap 0) = ''m''"
  by (simp_all add: IsMasterWithSlot_def IsSlave_def GetRole_def TotalSlots_def status_heap_def status_node_def NewDefaultNode_def role_defs)

theorem buildClusterStatus_counts_witness:
  "\<not> needClusterOperation (status_cluster\<lparr>drc_Status :=
      fst (buildClusterStatus go_env_det status_infos [status_pod ''p0'' ''10.0.0.1'', status_pod ''p1'' ''10.0.0.2''] status_cluster status_heap)\<rparr>)"
proof -
  let ?pods = "[status_pod ''p0'' ''10.0.0.1'', status_pod ''p1'' ''10.0.0.2'']"
  obtain st h' where r: "buildClusterStatus go_env_det status_infos ?pods status_cluster status_heap = (st, h')" by fastforce
  have ns: "[status_heap 0, status_heap 1] = pod_nodes status_heap status_infos ?pods" by (rule status_nodes [symmetric])
  have "wf_map (Infos status_infos)" "one_node_per_ip status_heap status_infos" "distinct (map pod_PodIP ?pods)"
    by (simp_all add: status_infos_def one_node_per_ip_def status_heap_def status_node_def status_pod_def)
  from buildClusterStatus_counts [OF det.go_runtime_axioms this _ r ns]
  have "needClusterOperation (status_cluster\<lparr>drc_Status := st\<rparr>) \<longleftrightarrow>
      \<not> (\<forall>m \<in> counted [status_heap 0, status_heap 1]. slaves_of [status_heap 0, status_heap 1] m = 1)"
    by (simp add: status_cluster_def status_roles)
  moreover have "{n \<in> set [status_heap 0, status_heap 1]. IsMasterWithSlot n} = {status_heap 0}"
    "{n \<in> set [status_heap 0, status_heap 1]. IsSlave n \<and> MasterReferent n \<noteq> []} = {status_heap 1}"
    using status_roles by auto
  then have "counted [status_heap 0, status_heap 1] = {''m''}"
    unfolding counted_def by (simp add: status_roles)
  ultimately show ?thesis using r by (simp add: slaves_of_def status_roles)
qed

end
