(* ===== verification/Exec.thy ===== *)
theory Exec
  imports K8sTypes
begin

text \<open>
  \<open>pkg/exec/exec.go\<close>: commands in the containers of pods. The executor of \<open>client-go\<close> is the parameter \<open>remoteExec\<close>: it
  can fail to be made, and it streams the output of the command until the command ends or the connection breaks.
\<close>

record exec_request =
  rq_Pod :: string
  rq_Namespace :: string
  rq_Container :: string
  rq_Command :: "string list"
  rq_Stdin :: bool
  rq_Stdout :: bool
  rq_Stderr :: bool
  rq_TTY :: bool

record 'k remoteExec =
  NewSPDYExecutor :: "exec_request \<Rightarrow> goerr option"
  Stream :: "exec_request \<Rightarrow> string option \<Rightarrow> 'k \<Rightarrow> (string \<times> string \<times> goerr option) \<times> 'k"

record ExecOptions =
  Command :: "string list"
  exec_Namespace :: string
  exec_PodName :: string
  exec_ContainerName :: string
  Stdin :: "string option"
  CaptureStdout :: bool
  CaptureStderr :: bool
  PreserveWhitespace :: bool

text \<open>What is in the two buffers, and the error.\<close>

definition execute :: "'k remoteExec \<Rightarrow> exec_request \<Rightarrow> string option \<Rightarrow> 'k \<Rightarrow> (string \<times> string \<times> goerr option) \<times> 'k" where
  "execute e req input k =
     (case NewSPDYExecutor e req of
        Some err \<Rightarrow> (([], [], Some err), k)
      | None \<Rightarrow> Stream e req input k)"

definition ExecWithOptions :: "'k remoteExec \<Rightarrow> ExecOptions \<Rightarrow> 'k \<Rightarrow> (string \<times> string \<times> goerr option) \<times> 'k" where
  "ExecWithOptions e options k =
     (let req = \<lparr>rq_Pod = exec_PodName options, rq_Namespace = exec_Namespace options, rq_Container = exec_ContainerName options,
            rq_Command = Command options, rq_Stdin = (Stdin options \<noteq> None), rq_Stdout = CaptureStdout options,
            rq_Stderr = CaptureStderr options, rq_TTY = False\<rparr>
      in case execute e req (Stdin options) k of
           ((out, err_out, err), k) \<Rightarrow>
             if PreserveWhitespace options then ((out, err_out, err), k) else ((TrimSpace out, TrimSpace err_out, err), k))"

definition ExecCommandInContainerWithFullOutput ::
  "'k remoteExec \<Rightarrow> string \<Rightarrow> string \<Rightarrow> string \<Rightarrow> string list \<Rightarrow> 'k \<Rightarrow> (string \<times> string \<times> goerr option) \<times> 'k" where
  "ExecCommandInContainerWithFullOutput e namespace podName containerName cmd k =
     ExecWithOptions e \<lparr>Command = cmd, exec_Namespace = namespace, exec_PodName = podName, exec_ContainerName = containerName,
       Stdin = None, CaptureStdout = True, CaptureStderr = True, PreserveWhitespace = False\<rparr> k"

definition ExecCommandInContainer ::
  "'k remoteExec \<Rightarrow> string \<Rightarrow> string \<Rightarrow> string \<Rightarrow> string list \<Rightarrow> 'k \<Rightarrow> (string \<times> goerr option) \<times> 'k" where
  "ExecCommandInContainer e namespace podName containerName cmd k =
     (case ExecCommandInContainerWithFullOutput e namespace podName containerName cmd k of ((stdout, stderr, err), k) \<Rightarrow> ((stdout, err), k))"

fun ExecCommandInPodSet :: "'k remoteExec \<Rightarrow> Pod list \<Rightarrow> string list \<Rightarrow> 'k \<Rightarrow> (goerr option \<times> 'k) outcome" where
  "ExecCommandInPodSet e [] cmd k = Ret (None, k)"
| "ExecCommandInPodSet e (pod # podSet) cmd k =
     outcome_bind (go_index (pod_Containers pod) 0) (\<lambda>c.
       case ExecCommandInContainer e (pod_Namespace pod) (pod_Name pod) (cont_Name c) cmd k of
         ((_, Some err), k) \<Rightarrow> Ret (Some err, k)
       | ((_, None), k) \<Rightarrow> ExecCommandInPodSet e podSet cmd k)"

text \<open>Without an error the command was streamed to the first container of every pod, in order, with standard output and
  error captured; a connection that cannot be made sends nothing.\<close>

definition pod_request :: "string list \<Rightarrow> Pod \<Rightarrow> exec_request" where
  "pod_request cmd pod = \<lparr>rq_Pod = pod_Name pod, rq_Namespace = pod_Namespace pod, rq_Container = cont_Name (hd (pod_Containers pod)),
     rq_Command = cmd, rq_Stdin = False, rq_Stdout = True, rq_Stderr = True, rq_TTY = False\<rparr>"

lemma ExecCommandInPodSet_all:
  assumes "ExecCommandInPodSet e podSet cmd k = Ret (None, k')"
  shows "k' = fold (\<lambda>pod k. snd (Stream e (pod_request cmd pod) None k)) podSet k
    \<and> (\<forall>pod \<in> set podSet. pod_Containers pod \<noteq> [] \<and> NewSPDYExecutor e (pod_request cmd pod) = None)"
  using assms
proof (induction podSet arbitrary: k)
  case (Cons pod podSet)
  then obtain c cs where c: "pod_Containers pod = c # cs" by (cases "pod_Containers pod") (auto simp: go_index_def)
  obtain out err_out err k1 where s: "execute e (pod_request cmd pod) None k = ((out, err_out, err), k1)"
    by (metis prod_cases4 surj_pair)
  have x: "ExecCommandInContainer e (pod_Namespace pod) (pod_Name pod) (cont_Name c) cmd k = ((TrimSpace out, err), k1)"
    using s c by (simp add: ExecCommandInContainer_def ExecCommandInContainerWithFullOutput_def ExecWithOptions_def pod_request_def)
  then have "err = None" and rest: "ExecCommandInPodSet e podSet cmd k1 = Ret (None, k')"
    using Cons.prems c by (auto simp: go_index_def split: option.splits)
  then show ?case using s c Cons.IH [OF rest] by (auto simp: execute_def split: option.splits)
qed simp

end
