(* ===== verification/SyncHandler.thy ===== *)
theory SyncHandler
  imports Heal Status Rebalance Exec
begin

text \<open>
  \<open>pkg/controller/distributedrediscluster/sync_handler.go\<close>: the steps of a reconciliation. They work
  on the custom resource held in memory, the Kubernetes API server, the Redis servers and the nodes the process has
  allocated, which together are a record \<open>sys\<close>. A step is a function on this state that may panic or never return.

  The parameters of the operator are in the record \<open>reconciler\<close>: its Kubernetes client, the choices of the Go runtime, the
  settings, the remote execution of a command in a container, the number of ticks a wait lasts, and the clock.
\<close>

section \<open>Steps\<close>

record ('k, 'w) sys =
  cr :: drc
  kube :: 'k
  redis :: 'w
  store :: nstore

record 'k reconciler =
  client :: "'k kube_client"
  runtime :: go_env
  build :: build_env
  RedisConf :: Redis
  ticks :: "string \<Rightarrow> nat"
  execer :: "'k remoteExec"
  now :: int
  reconcileTime :: int

type_synonym ('s, 'r) step = "'s \<Rightarrow> ('r \<times> 's) outcome option"

definition go_ret :: "'r \<Rightarrow> ('s, 'r) step" where
  "go_ret r s = Some (Ret (r, s))"

definition go_panic :: "panic \<Rightarrow> ('s, 'r) step" where
  "go_panic p s = Some (Panic p)"

definition go_bind :: "('s, 'a) step \<Rightarrow> ('a \<Rightarrow> ('s, 'b) step) \<Rightarrow> ('s, 'b) step" where
  "go_bind m f s = (case m s of None \<Rightarrow> None | Some (Panic p) \<Rightarrow> Some (Panic p) | Some (Ret (r, s)) \<Rightarrow> f r s)"

text \<open>\<open>if err := m; err != nil { return wrap(err) }; f\<close>\<close>

definition go_try :: "('s, goerr option) step \<Rightarrow> (goerr \<Rightarrow> 'r) \<Rightarrow> ('s, 'r) step \<Rightarrow> ('s, 'r) step" where
  "go_try m fail f = go_bind m (\<lambda>err. case err of Some e \<Rightarrow> go_ret (fail e) | None \<Rightarrow> f)"

text \<open>\<open>x, err := m; if err != nil { return wrap(err) }; f x\<close>\<close>

definition go_get :: "('s, goerr + 'a) step \<Rightarrow> (goerr \<Rightarrow> 'r) \<Rightarrow> ('a \<Rightarrow> ('s, 'r) step) \<Rightarrow> ('s, 'r) step" where
  "go_get m fail f = go_bind m (\<lambda>r. case r of Inl e \<Rightarrow> go_ret (fail e) | Inr x \<Rightarrow> f x)"

definition the_instance :: "(('k, 'w) sys, drc) step" where
  "the_instance s = Some (Ret (cr s, s))"

definition set_instance :: "(drc \<Rightarrow> drc) \<Rightarrow> (('k, 'w) sys, unit) step" where
  "set_instance f s = Some (Ret ((), s\<lparr>cr := f (cr s)\<rparr>))"

definition on_kube :: "('k \<Rightarrow> 'r \<times> 'k) \<Rightarrow> (('k, 'w) sys, 'r) step" where
  "on_kube f s = (case f (kube s) of (r, k) \<Rightarrow> Some (Ret (r, s\<lparr>kube := k\<rparr>)))"

definition on_kube_outcome :: "('k \<Rightarrow> ('r \<times> 'k) outcome) \<Rightarrow> (('k, 'w) sys, 'r) step" where
  "on_kube_outcome f s =
     (case f (kube s) of Panic p \<Rightarrow> Some (Panic p) | Ret (r, k) \<Rightarrow> Some (Ret (r, s\<lparr>kube := k\<rparr>)))"

definition on_redis :: "('w \<Rightarrow> 'r \<times> 'w) \<Rightarrow> (('k, 'w) sys, 'r) step" where
  "on_redis f s = (case f (redis s) of (r, w) \<Rightarrow> Some (Ret (r, s\<lparr>redis := w\<rparr>)))"

definition on_redis_option :: "('w \<Rightarrow> ('r \<times> 'w) option) \<Rightarrow> (('k, 'w) sys, 'r) step" where
  "on_redis_option f s = (case f (redis s) of None \<Rightarrow> None | Some (r, w) \<Rightarrow> Some (Ret (r, s\<lparr>redis := w\<rparr>)))"

text \<open>An operation that changes nodes and Redis and may panic or not return.\<close>

definition on_nodes :: "(nheap \<Rightarrow> 'w \<Rightarrow> ('r \<times> nheap \<times> 'w) outcome option) \<Rightarrow> (('k, 'w) sys, 'r) step" where
  "on_nodes f s =
     (case f (fst (store s)) (redis s) of
        None \<Rightarrow> None
      | Some (Panic p) \<Rightarrow> Some (Panic p)
      | Some (Ret (r, h, w)) \<Rightarrow> Some (Ret (r, s\<lparr>store := (h, snd (store s)), redis := w\<rparr>)))"

definition the_heap :: "(('k, 'w) sys, nheap) step" where
  "the_heap s = Some (Ret (fst (store s), s))"

definition set_heap :: "nheap \<Rightarrow> (('k, 'w) sys, unit) step" where
  "set_heap h s = Some (Ret ((), s\<lparr>store := (h, snd (store s))\<rparr>))"

definition go_outcome :: "'r outcome \<Rightarrow> ('s, 'r) step" where
  "go_outcome m s = (case m of Panic p \<Rightarrow> Some (Panic p) | Ret r \<Rightarrow> Some (Ret (r, s)))"

lemma go_bind_Ret [simp]:
  "go_bind m f s = Some (Ret y) \<longleftrightarrow> (\<exists>r s'. m s = Some (Ret (r, s')) \<and> f r s' = Some (Ret y))"
  by (auto simp: go_bind_def split: option.splits outcome.splits)

text \<open>Writing the resource or its status replaces the object in memory by the server's answer.\<close>

definition update_status :: "'k reconciler \<Rightarrow> (('k, 'w) sys, goerr option) step" where
  "update_status r s =
     (case UpdateCRStatus (clusters (client r)) (cr s) (kube s) of
        ((err, c), k) \<Rightarrow> Some (Ret (err, s\<lparr>cr := c, kube := k\<rparr>)))"

definition update_resource :: "'k reconciler \<Rightarrow> (('k, 'w) sys, goerr option) step" where
  "update_resource r s =
     (case UpdateCR (clusters (client r)) (cr s) (kube s) of
        ((err, c), k) \<Rightarrow> Some (Ret (err, s\<lparr>cr := c, kube := k\<rparr>)))"

section \<open>Restoring\<close>

text \<open>What a restore takes over from the backup.\<close>

definition adopt_backup :: "(('k, 'w) sys, bool \<times> goerr option) step" where
  "adopt_backup = go_bind the_instance (\<lambda>cluster.
     case restore_Backup (st_Restore (drc_Status cluster)) of
       None \<Rightarrow> go_panic NilDereference
     | Some backup \<Rightarrow>
         let noImage = sp_Image (drc_Spec cluster) = [];
             size = bst_MasterSize (bk_Status backup);
             otherSize = sp_MasterSize (drc_Spec cluster) \<noteq> size
         in go_bind (set_instance (upd_spec (\<lambda>sp. sp\<lparr>sp_Image := (if noImage then bst_ClusterImage (bk_Status backup) else sp_Image sp),
                       sp_MasterSize := (if otherSize then size else sp_MasterSize sp)\<rparr>)))
              (\<lambda>_. go_ret (noImage \<or> otherSize, None)))"

definition initRestore :: "'k reconciler \<Rightarrow> (('k, 'w) sys, bool \<times> goerr option) step" where
  "initRestore r = go_bind the_instance (\<lambda>cluster.
     if restore_Backup (st_Restore (drc_Status cluster)) = None then
       (case sp_Init (drc_Spec cluster) of
          None \<Rightarrow> go_panic NilDereference
        | Some initSpec \<Rightarrow>
            (case BackupSource initSpec of
               None \<Rightarrow> go_panic NilDereference
             | Some src \<Rightarrow>
                 go_get (on_kube (GetRedisClusterBackup (client r) (src_Namespace src) (src_Name src))) (\<lambda>err. (False, Some err)) (\<lambda>backup.
                   if bst_Phase (bk_Status backup) \<noteq> BackupPhaseSucceeded
                   then go_ret (False, Some (Errorf ''backup is still running''))
                   else go_bind (set_instance (upd_status (\<lambda>st. st\<lparr>st_Restore := \<lparr>restore_Phase = RestorePhaseRunning, restore_Backup = Some backup\<rparr>\<rparr>)))
                          (\<lambda>_. go_try (update_status r) (\<lambda>err. (False, Some err)) adopt_backup))))
     else adopt_backup)"

definition validateAndSetDefault :: "'k reconciler \<Rightarrow> (('k, 'w) sys, goerr option) step" where
  "validateAndSetDefault r = go_bind the_instance (\<lambda>cluster.
     go_bind (if IsRestoreFromBackup cluster \<and> ShouldInitRestorePhase cluster then initRestore r else go_ret (False, None))
       (\<lambda>(update, err). case err of
          Some e \<Rightarrow> go_ret (Some e)
        | None \<Rightarrow>
            go_bind (set_instance (\<lambda>c. if IsRestoreFromBackup c \<and> (IsRestoreRunning c \<or> IsRestoreRestarting c)
                                       then upd_spec (\<lambda>sp. sp\<lparr>sp_ClusterReplicas := 0\<rparr>) c else c)) (\<lambda>_.
            go_bind the_instance (\<lambda>cluster.
              let (updateDefault, cluster) = DefaultSpec cluster
              in go_bind (set_instance (\<lambda>_. cluster)) (\<lambda>_.
                   if update \<or> updateDefault then update_resource r else go_ret None)))))"

definition dbLoadedFromDiskWhenRestore :: "drc \<Rightarrow> drc" where
  "dbLoadedFromDiskWhenRestore cluster =
     (if IsRestoreFromBackup cluster \<and> \<not> IsRestored cluster
      then case sp_Config (drc_Spec cluster) of
             None \<Rightarrow> cluster
           | Some m \<Rightarrow> upd_spec (\<lambda>sp. sp\<lparr>sp_Config := Some (mput ''appendonly'' ''no'' m)\<rparr>) cluster
      else cluster)"

section \<open>The password\<close>

text \<open>With the password changed, the old one still opens the connections. The deferred \<open>Close\<close> runs on every way out.\<close>

definition reset_password_with ::
  "'k reconciler \<Rightarrow> 'w radix \<Rightarrow> Pod list \<Rightarrow> string \<Rightarrow> (('k, 'w cw) sys, goerr option) step" where
  "reset_password_with r rx podSet newPassword =
     go_try (on_kube_outcome (ExecCommandInPodSet (execer r) podSet
               [''/bin/sh'', ''-c'', ''echo '' @ newPassword @ '' > /data/redis_password''])) Some
       (on_redis_option (ResetPassword rx (runtime r) newPassword))"

text \<open>\<open>admin, err := newRedisAdmin(...); defer admin.Close(); f\<close>: the connections live while \<open>f\<close> runs.\<close>

definition sys_with :: "('k, 'v) sys \<Rightarrow> 'w \<Rightarrow> ('k, 'w) sys" where
  "sys_with s w = \<lparr>cr = cr s, kube = kube s, redis = w, store = store s\<rparr>"

definition with_admin ::
  "'k reconciler \<Rightarrow> 'w radix \<Rightarrow> Pod list \<Rightarrow> string \<Rightarrow> (('k, 'w cw) sys, 'r) step \<Rightarrow> (('k, 'w) sys, 'r) step" where
  "with_admin r rx podlist password f s =
     (case newRedisAdmin rx (runtime r) (ReadFile (build r)) podlist password (RedisConf r) (redis s) of
        None \<Rightarrow> None
      | Some cw \<Rightarrow>
          (case f (sys_with s cw) of
             None \<Rightarrow> None
           | Some (Panic p) \<Rightarrow> Some (Panic p)
           | Some (Ret (x, s)) \<Rightarrow> Some (Ret (x, sys_with s (snd (Admin_Close rx (runtime r) (redis s)))))))"

definition resetClusterPassword :: "'k reconciler \<Rightarrow> 'w radix \<Rightarrow> (('k, 'w) sys, goerr option) step" where
  "resetClusterPassword r rx = go_bind the_instance (\<lambda>cluster.
     go_bind (on_kube (CheckRedisNodeNum (client r) cluster)) (\<lambda>err.
       if err \<noteq> None then go_ret None
       else
         go_get (on_kube (GetStatefulSet (client r) (drc_Namespace cluster) (ClusterStatefulSetName (drc_Name cluster) 0))) Some (\<lambda>sts.
         go_bind (go_outcome (IsPasswordChanged cluster sts)) (\<lambda>changed.
           if \<not> changed then go_ret None
           else
             go_bind (set_instance (upd_status (\<lambda>st. SetClusterResetPassword st ''updating cluster's password''))) (\<lambda>_.
             go_bind (update_status r) (\<lambda>_.
             go_bind the_instance (\<lambda>cluster'.
             go_get (on_kube (GetStatefulSetPodsByLabels (client r) (drc_Namespace cluster) (getLabels (runtime r) cluster'))) Some (\<lambda>redisClusterPods.
             go_get (on_kube_outcome (GetOldRedisClusterPassword (secrets (client r)) sts)) Some (\<lambda>oldPassword.
             go_get (on_kube (GetClusterPassword (secrets (client r)) cluster')) Some (\<lambda>newPassword.
               let podSet = clusterPods redisClusterPods
               in with_admin r rx podSet oldPassword (reset_password_with r rx podSet newPassword)))))))))))"

section \<open>The resources of the cluster\<close>

text \<open>Which error a failed validation or secret becomes.\<close>

definition retry_or_stop :: "string \<Rightarrow> goerr \<Rightarrow> goerr" where
  "retry_or_stop msg err =
     (if IsRequestRetryable err then ErrorType_Wrap Kubernetes err msg else ErrorType_Wrap StopRetry err ''stop retry'')"

definition wait_updating :: "'k reconciler \<Rightarrow> string \<Rightarrow> (('k, 'w) sys, goerr option) step" where
  "wait_updating r name = go_bind the_instance (\<lambda>cluster.
     on_kube (waiting name (waitStatefulSetUpdating_Handler (client r) (runtime r) cluster) (ticks r name)))"

text \<open>The label map is shared by the calls, and some of them change it.\<close>

definition ensure_services :: "'k reconciler \<Rightarrow> labels \<Rightarrow> (('k, 'w) sys, goerr option) step" where
  "ensure_services r labels = go_bind the_instance (\<lambda>cluster.
     go_bind (on_kube (\<lambda>k. case EnsureRedisHeadLessSvcs (client r) cluster labels k of (err, labels, k) \<Rightarrow> ((err, labels), k))) (\<lambda>(err, labels).
       case err of
         Some e \<Rightarrow> go_ret (Some (ErrorType_Wrap Kubernetes e ''EnsureRedisHeadLessSvcs''))
       | None \<Rightarrow>
           go_try (on_kube_outcome (\<lambda>k. outcome_bind (EnsureRedisSvc (client r) cluster labels k) (\<lambda>(err, labels, k). Ret (err, k))))
             (\<lambda>e. Some (ErrorType_Wrap Kubernetes e ''EnsureRedisSvc''))
           (go_try (on_kube_outcome (EnsureRedisRCloneSecret (client r) (build r) cluster))
             (\<lambda>e. Some (retry_or_stop ''EnsureRedisRCloneSecret'' e))
             (go_ret None))))"

definition ensureCluster :: "'k reconciler \<Rightarrow> 'w radix \<Rightarrow> (('k, 'w) sys, goerr option) step" where
  "ensureCluster r rx =
     go_try (validateAndSetDefault r) (\<lambda>e. Some (retry_or_stop ''Validate'' e))
    (go_bind (set_instance dbLoadedFromDiskWhenRestore) (\<lambda>_.
     go_bind the_instance (\<lambda>cluster.
       let labels = getLabels (runtime r) cluster in
       go_try (on_kube (EnsureRedisConfigMap (client r) (runtime r) cluster labels)) (\<lambda>e. Some (ErrorType_Wrap Kubernetes e ''EnsureRedisConfigMap''))
      (go_try (resetClusterPassword r rx) (\<lambda>e. Some (ErrorType_Wrap Cluster_Error e ''ResetPassword''))
      (go_bind the_instance (\<lambda>cluster.
       go_bind (on_kube_outcome (\<lambda>k. outcome_bind (EnsureRedisStatefulsets (client r) (build r) (RedisConf r) (runtime r) cluster labels k)
                 (\<lambda>(res, labels, k). Ret ((res, labels), k)))) (\<lambda>((updated, err), labels).
         case err of
           Some e \<Rightarrow> go_ret (Some (ErrorType_Wrap Kubernetes e ''EnsureRedisStatefulSets''))
         | None \<Rightarrow>
             if updated then
               go_bind (set_instance (upd_status (\<lambda>st. SetClusterUpdating st ''cluster spec updated''))) (\<lambda>_.
               go_bind (update_status r) (\<lambda>_.
               go_try (wait_updating r ''waitStatefulSetUpdating'') Some (ensure_services r labels)))
             else ensure_services r labels)))))))"

definition waitPodReady :: "'k reconciler \<Rightarrow> CheckAndHeal \<Rightarrow> (('k, 'w) sys, goerr option) step" where
  "waitPodReady r healer = go_bind the_instance (\<lambda>cluster.
     go_bind (on_kube (FixTerminatingPods (client r) healer cluster (5 * 60 * 10 ^ 9) (now r))) (\<lambda>(_, err).
       case err of
         Some e \<Rightarrow> go_ret (Some (ErrorType_Wrap Kubernetes e ''FixTerminatingPods''))
       | None \<Rightarrow>
           go_try (on_kube (CheckRedisNodeNum (client r) cluster)) (\<lambda>e. Some (ErrorType_Wrap Requeue e ''CheckRedisNodeNum''))
             (go_ret None)))"

section \<open>The administration interface of the controller\<close>

text \<open>The methods of \<open>IAdmin\<close> the controller calls beside those of the clustering code, with \<open>Connections().Remove\<close>.\<close>

record 'w IAdminFull = "'w IAdmin" +
  adm_GetClusterInfos :: "nstore \<Rightarrow> 'w \<Rightarrow> ((ClusterInfos \<times> goerr option) \<times> nstore) \<times> 'w"
  adm_AttachNodeToCluster :: "string \<Rightarrow> 'w \<Rightarrow> goerr option \<times> 'w"
  adm_SetConfigIfNeed :: "(string, string) gomap \<Rightarrow> 'w \<Rightarrow> goerr option \<times> 'w"
  conn_Remove :: "string \<Rightarrow> 'w \<Rightarrow> 'w"

text \<open>The operator's own admin; as in theory \<open>Admin\<close>, a call that does not return is taken as an error.\<close>

definition admin_full :: "'w radix \<Rightarrow> go_env \<Rightarrow> ('w cw) IAdminFull" where
  "admin_full rx env = IAdmin.extend (admin rx env) (IAdminFull.fields
     (\<lambda>st s. returned ((NewClusterInfos, Some no_return), st) (GetClusterInfos rx env st s) s)
     (\<lambda>addr s. returned (Some no_return) (AttachNodeToCluster rx env addr s) s)
     (\<lambda>conf s. returned (Some no_return) (SetConfigIfNeed rx env conf s) s)
     (\<lambda>addr s. Remove rx addr s))"

definition ask_infos :: "('w, 'm) IAdminFull_scheme \<Rightarrow> (('k, 'w) sys, ClusterInfos \<times> goerr option) step" where
  "ask_infos adm s =
     (case adm_GetClusterInfos adm (store s) (redis s) of ((r, st), w) \<Rightarrow> Some (Ret (r, s\<lparr>store := st, redis := w\<rparr>)))"

text \<open>The first node of a \<open>range\<close>; with no infos at all it is \<open>nil\<close>.\<close>

definition waitForClusterJoin ::
  "'k reconciler \<Rightarrow> ('w, 'm) IAdminFull_scheme \<Rightarrow> ClusterInfos \<Rightarrow> (('k, 'w) sys, goerr option) step" where
  "waitForClusterJoin r adm clusterInfos =
     go_bind (ask_infos adm) (\<lambda>(_, err).
       if err = None then go_ret None
       else case mrange (runtime r) 57 (Infos clusterInfos) of
         [] \<Rightarrow> go_panic NilDereference
       | (_, nodeInfo) # _ \<Rightarrow>
           go_bind the_heap (\<lambda>h.
           go_try (on_redis (adm_AttachNodeToCluster adm (IPPort (h (nodeinfos_Node nodeInfo)))))
             (\<lambda>e. Some (ErrorType_Wrap Redis e ''AttachNodeToCluster''))
           (go_bind (ask_infos adm) (\<lambda>(_, err). case err of
              Some e \<Rightarrow> go_ret (Some (ErrorType_Wrap Requeue e ''wait for cluster join''))
            | None \<Rightarrow> go_ret None))))"

section \<open>Scaling\<close>

text \<open>\<open>Node.String\<close>; the start time of a node is never set. Printing the slots sorts them.\<close>

definition Node_String :: "Node \<Rightarrow> string" where
  "Node_String n = ''{Redis ID: '' @ ID n @ '', role: '' @ GetRole n @ '', master: '' @ MasterReferent n @ '', link: '' @ LinkState n
     @ '', status: ['' @ join_with '' '' (FailStatus n) @ ''], addr: '' @ IPPort n @ '', slots: '' @ SlotSlice_String (Slots n)
     @ '', len(migratingSlots): '' @ FormatUint (length (MigratingSlots n))
     @ '', len(importingSlots): '' @ FormatUint (length (ImportingSlots n)) @ ''}''"

fun forget_shard :: "('w, 'm) IAdminFull_scheme \<Rightarrow> nheap \<Rightarrow> Nodes \<Rightarrow> 'w \<Rightarrow> goerr option \<times> 'w" where
  "forget_shard adm h [] w = (None, w)"
| "forget_shard adm h (node # rest) w =
     (if length (Slots (h node)) > 0
      then (Some (ErrorType_New Redis (''node '' @ Node_String (h node) @ '' is not empty! Reshard data away and try again'')), w)
      else case adm_ForgetNode adm (ID (h node)) w of
             (Some err, w) \<Rightarrow> (Some (ErrorType_Wrap Redis err ''ForgetNode''), w)
           | (None, w) \<Rightarrow> forget_shard adm h rest w)"

text \<open>The objects of a shard are deleted; errors are only logged. The name of the service is built from the name of the
  cluster.\<close>

definition delete_shard :: "'k reconciler \<Rightarrow> drc \<Rightarrow> nat \<Rightarrow> StatefulSet \<Rightarrow> 'k \<Rightarrow> 'k" where
  "delete_shard r cluster i sts k =
     (let ns = drc_Namespace cluster; stsName = ClusterStatefulSetName (drc_Name cluster) i;
          k = snd (DeleteStatefulSetByName (client r) ns stsName k);
          k = snd (DeleteServiceByName (client r) ns (ClusterHeadlessSvcName (drc_Name cluster) i) k);
          k = snd (DeletePodDisruptionBudgetByName (client r) ns stsName k);
          k = snd (DeletePvcByLabels (client r) ns (sts_Labels sts) k)
      in snd (waiting ''waitPodTerminating'' (waitPodTerminating_Handler (client r) (runtime r) cluster stsName)
                (ticks r (''waitPodTerminating'' @ stsName)) k))"

fun remove_shards ::
  "'k reconciler \<Rightarrow> ('w, 'm) IAdminFull_scheme \<Rightarrow> drc \<Rightarrow> (string, Nodes) gomap \<Rightarrow> nat list \<Rightarrow> (('k, 'w) sys, goerr option) step" where
  "remove_shards r adm cluster statefulSetNodes [] = go_ret None"
| "remove_shards r adm cluster statefulSetNodes (i # rest) =
     (let stsName = ClusterStatefulSetName (drc_Name cluster) i in
      go_get (on_kube (GetStatefulSet (client r) (drc_Namespace cluster) stsName)) (\<lambda>e. Some (ErrorType_Wrap Kubernetes e ''GetStatefulSet'')) (\<lambda>sts.
      go_bind the_heap (\<lambda>h.
      go_try (on_redis (forget_shard adm h (mget [] statefulSetNodes stsName))) Some
     (go_bind (on_kube (\<lambda>k. ((), delete_shard r cluster i sts k))) (\<lambda>_.
        remove_shards r adm cluster statefulSetNodes rest)))))"

text \<open>The shards from the last one down to the first that is not wanted; the wanted number is never negative.\<close>

definition surplus_shards :: "nat \<Rightarrow> drc \<Rightarrow> nat list" where
  "surplus_shards currentMasterNum cluster = rev [nat (sp_MasterSize (drc_Spec cluster))..<currentMasterNum]"

definition disconnect_shards :: "('w, 'm) IAdminFull_scheme \<Rightarrow> nheap \<Rightarrow> drc \<Rightarrow> (string, Nodes) gomap \<Rightarrow> nat list \<Rightarrow> 'w \<Rightarrow> 'w" where
  "disconnect_shards adm h cluster statefulSetNodes is w =
     fold (\<lambda>i. fold (\<lambda>node. conn_Remove adm (IPPort (h node))) (mget [] statefulSetNodes (ClusterStatefulSetName (drc_Name cluster) i))) is w"

definition scale_down_status :: "nat \<Rightarrow> drc \<Rightarrow> drc" where
  "scale_down_status currentMasterNum c = upd_status (\<lambda>st. SetClusterRebalancing st (''scale down, currentMasterSize: ''
     @ FormatUint currentMasterNum @ '', expectMasterSize '' @ FormatInt (sp_MasterSize (drc_Spec c)))) c"

definition scalingDown ::
  "'k reconciler \<Rightarrow> ('w, 'm) IAdminFull_scheme \<Rightarrow> nat \<Rightarrow> (string, Nodes) gomap \<Rightarrow> (('k, 'w) sys, goerr option) step" where
  "scalingDown r adm currentMasterNum statefulSetNodes =
     go_bind (set_instance (scale_down_status currentMasterNum)) (\<lambda>_.
     go_bind (update_status r) (\<lambda>_.
     go_bind the_instance (\<lambda>cluster.
     go_bind the_heap (\<lambda>h.
     go_bind (on_redis (\<lambda>w. ((), disconnect_shards adm h cluster statefulSetNodes (surplus_shards currentMasterNum cluster) w))) (\<lambda>_.
       remove_shards r adm cluster statefulSetNodes (surplus_shards currentMasterNum cluster))))))"

section \<open>Clustering\<close>

definition place_and_attach ::
  "'k reconciler \<Rightarrow> ('w, 'm) IAdminFull_scheme \<Rightarrow> Ctx \<Rightarrow> (('k, 'w) sys, goerr option) step \<Rightarrow> (('k, 'w) sys, goerr option) step" where
  "place_and_attach r adm c cont =
     go_bind the_heap (\<lambda>h.
     go_bind (go_outcome (Ctx_PlaceSlaves (runtime r) h c)) (\<lambda>c.
     go_try (on_nodes (\<lambda>h w. Some (Ret (AttachingSlavesToMaster (runtime r) adm c h w))))
       (\<lambda>e. Some (ErrorType_Wrap Cluster_Error e ''AttachingSlavesToMaster'')) cont))"

definition clustering_step ::
  "'k reconciler \<Rightarrow> ('w, 'm) IAdminFull_scheme \<Rightarrow> Ctx \<Rightarrow> Nodes \<Rightarrow> Nodes \<Rightarrow> (('k, 'w) sys, goerr option) step" where
  "clustering_step r adm c curMasters newMasters = go_bind the_instance (\<lambda>cluster.
     if length curMasters = 0 then
       place_and_attach r adm c
         (go_try (on_nodes (\<lambda>h w. map_option Ret (Ctx_AllocSlots adm newMasters h w)))
            (\<lambda>e. Some (ErrorType_Wrap Cluster_Error e ''AllocSlots'')) (go_ret None))
     else if length newMasters > length curMasters then
       place_and_attach r adm c
         (go_try (on_nodes (Ctx_RebalancedCluster adm (runtime r) newMasters))
            (\<lambda>e. Some (ErrorType_Wrap Cluster_Error e ''RebalancedCluster'')) (go_ret None))
     else if st_MinReplicationFactor (drc_Status cluster) < sp_ClusterReplicas (drc_Spec cluster) then
       place_and_attach r adm c (go_ret None)
     else if int (length curMasters) > sp_MasterSize (drc_Spec cluster) then
       go_bind (on_nodes (\<lambda>h w. Some (Ret (case DispatchSlotToNewMasters (runtime r) adm newMasters curMasters (newMasters @ curMasters) c h w of
                   (c, err, h, w) \<Rightarrow> ((c, err), h, w))))) (\<lambda>(c, err).
         case err of
           Some e \<Rightarrow> go_ret (Some e)
         | None \<Rightarrow> scalingDown r adm (length curMasters) (GetStatefulsetNodes c))
     else go_ret None)"

definition syncCluster ::
  "'k reconciler \<Rightarrow> ('w, 'm) IAdminFull_scheme \<Rightarrow> ClusterInfos \<Rightarrow> (('k, 'w) sys, goerr option) step" where
  "syncCluster r adm clusterInfos =
     go_bind the_instance (\<lambda>cluster. go_bind the_heap (\<lambda>h.
       let (rCluster, nodes, h) = newRedisCluster (runtime r) clusterInfos cluster h in
       go_bind (set_heap h) (\<lambda>_.
       go_bind (go_outcome (Ctx_DispatchMasters (runtime r) h
                  (NewCtx h rCluster nodes (sp_MasterSize (drc_Spec cluster)) (drc_Name cluster)))) (\<lambda>(c, err).
         case err of
           Some e \<Rightarrow> go_ret (Some (ErrorType_Wrap Cluster_Error e ''DispatchMasters''))
         | None \<Rightarrow> clustering_step r adm c (GetCurrentMasters c) (GetNewMasters (runtime r) c)))))"

section \<open>Invariants of steps\<close>

text \<open>A step keeps an invariant: when it starts in a state with the invariant and returns, the state it returns has the
  invariant, and the value it returns satisfies \<open>C\<close>.\<close>

definition inv_post :: "('s \<Rightarrow> bool) \<Rightarrow> ('s, 'r) step \<Rightarrow> ('r \<Rightarrow> bool) \<Rightarrow> bool" where
  "inv_post I m C \<longleftrightarrow> (\<forall>s r s'. I s \<longrightarrow> m s = Some (Ret (r, s')) \<longrightarrow> I s' \<and> C r)"

abbreviation step_inv :: "('s \<Rightarrow> bool) \<Rightarrow> ('s, 'r) step \<Rightarrow> bool" where
  "step_inv I m \<equiv> inv_post I m (\<lambda>_. True)"

lemma inv_postD: "inv_post I m C \<Longrightarrow> I s \<Longrightarrow> m s = Some (Ret (r, s')) \<Longrightarrow> I s' \<and> C r"
  by (simp add: inv_post_def)

lemma inv_bind_post: "inv_post I m C \<Longrightarrow> (\<And>x. C x \<Longrightarrow> inv_post I (f x) D) \<Longrightarrow> inv_post I (go_bind m f) D"
  unfolding inv_post_def go_bind_Ret by blast

lemma inv_bind: "step_inv I m \<Longrightarrow> (\<And>x. inv_post I (f x) C) \<Longrightarrow> inv_post I (go_bind m f) C"
  by (rule inv_bind_post)

lemma inv_ret [intro]: "C r \<Longrightarrow> inv_post I (go_ret r) C"
  by (simp add: inv_post_def go_ret_def)

lemma inv_panic [intro]: "inv_post I (go_panic p) C"
  by (simp add: inv_post_def go_panic_def)

lemma inv_try: "step_inv I m \<Longrightarrow> (\<And>e. C (fail e)) \<Longrightarrow> inv_post I f C \<Longrightarrow> inv_post I (go_try m fail f) C"
  unfolding go_try_def by (rule inv_bind) (auto split: option.split)

lemma inv_get: "step_inv I m \<Longrightarrow> (\<And>e. C (fail e)) \<Longrightarrow> (\<And>x. inv_post I (f x) C) \<Longrightarrow> inv_post I (go_get m fail f) C"
  unfolding go_get_def by (rule inv_bind) (auto split: sum.split)

lemma inv_outcome [intro]: "step_inv I (go_outcome m)"
  by (auto simp: inv_post_def go_outcome_def split: outcome.splits)

lemma inv_the [intro]: "step_inv I the_instance" "step_inv I the_heap"
  by (simp_all add: inv_post_def the_instance_def the_heap_def)

lemmas inv_intros = inv_bind inv_try inv_get inv_ret inv_panic inv_outcome inv_the

text \<open>An invariant of the resource in memory.\<close>

abbreviation on_cr :: "(drc \<Rightarrow> bool) \<Rightarrow> ('k, 'w) sys \<Rightarrow> bool" where
  "on_cr J \<equiv> \<lambda>s. J (cr s)"

lemma inv_cr [intro]:
  "step_inv (on_cr J) (on_kube f)" "step_inv (on_cr J) (on_kube_outcome g)" "step_inv (on_cr J) (on_redis f')"
  "step_inv (on_cr J) (on_redis_option f'')"
  "step_inv (on_cr J) (on_nodes n)" "step_inv (on_cr J) (set_heap h)" "step_inv (on_cr J) (ask_infos adm)"
  by (auto simp: inv_post_def on_kube_def on_kube_outcome_def on_redis_def on_redis_option_def on_nodes_def set_heap_def ask_infos_def
      split: prod.splits outcome.splits option.splits)

lemma inv_the_cr: "inv_post (on_cr J) the_instance J"
  by (simp add: inv_post_def the_instance_def)

lemma inv_set: "(\<And>c. J c \<Longrightarrow> J (g c)) \<Longrightarrow> step_inv (on_cr J) (set_instance g)"
  by (simp add: inv_post_def set_instance_def)

lemma inv_with_admin:
  assumes "inv_post (on_cr J) f C"
  shows "inv_post (on_cr J) (with_admin r rx podlist password f) C"
  unfolding inv_post_def
proof (intro allI impI)
  fix s x s'
  assume J: "J (cr s)" and run: "with_admin r rx podlist password f s = Some (Ret (x, s'))"
  then obtain cw t where "f (sys_with s cw) = Some (Ret (x, t))" and s': "s' = sys_with t (snd (Admin_Close rx (runtime r) (redis t)))"
    by (auto simp: with_admin_def split: option.splits outcome.splits)
  then show "J (cr s') \<and> C x"
    using inv_postD [OF assms, of "sys_with s cw" x t] J by (simp add: sys_with_def)
qed

text \<open>What an update of the resource brings back: the server may fill in and change much, but a part of the resource
  comes back as it was sent.\<close>

locale cr_answers =
  fixes r :: "'k reconciler" and part :: "drc \<Rightarrow> 'a"
  assumes status_answer: "c_StatusUpdate (clusters (client r)) c k = (Inr c', k') \<Longrightarrow> part c' = part c"
    and update_answer: "c_Update (clusters (client r)) c k = (Inr c', k') \<Longrightarrow> part c' = part c"
begin

lemma inv_update_status: "step_inv (on_cr (\<lambda>c. part c = v)) (update_status r)"
  by (auto simp: inv_post_def update_status_def UpdateCRStatus_def written_def dest: status_answer split: prod.splits sum.splits)

lemma inv_update_resource: "step_inv (on_cr (\<lambda>c. part c = v)) (update_resource r)"
  by (auto simp: inv_post_def update_resource_def UpdateCR_def written_def dest: update_answer split: prod.splits sum.splits)

end

section \<open>Scaling down\<close>

lemma forget_each_append [simp]: "forget_each adm (xs @ ys) w = forget_each adm ys (forget_each adm xs w)"
  by (simp add: forget_each_def)

definition slot_free :: "nheap \<Rightarrow> Nodes \<Rightarrow> bool" where
  "slot_free h ns \<longleftrightarrow> (\<forall>q \<in> set ns. Slots (h q) = [])"

lemma slot_free_simps [simp]: "slot_free h []" "slot_free h (q # ns) \<longleftrightarrow> Slots (h q) = [] \<and> slot_free h ns"
  "slot_free h (xs @ ys) \<longleftrightarrow> slot_free h xs \<and> slot_free h ys"
  by (auto simp: slot_free_def)

text \<open>Why the forgetting of the nodes \<open>ns\<close> stops with an error after \<open>part\<close>: the next node owns slots and is left alone, or the last of \<open>part\<close>
  could not be forgotten.\<close>

definition forget_stop :: "('w, 'm) IAdminFull_scheme \<Rightarrow> nheap \<Rightarrow> Nodes \<Rightarrow> Nodes \<Rightarrow> goerr \<Rightarrow> 'w \<Rightarrow> bool" where
  "forget_stop adm h ns part e w \<longleftrightarrow>
     (\<exists>q post. ns = part @ q # post \<and> Slots (h q) \<noteq> []
        \<and> e = ErrorType_New Redis (''node '' @ Node_String (h q) @ '' is not empty! Reshard data away and try again''))
   \<or> (\<exists>pre q post x. ns = pre @ q # post \<and> part = pre @ [q]
        \<and> fst (adm_ForgetNode adm (ID (h q)) (forget_each adm (map (\<lambda>q. ID (h q)) pre) w)) = Some x
        \<and> e = ErrorType_Wrap Redis x ''ForgetNode'')"

lemma forget_stop_Cons:
  assumes "forget_stop adm h ns part e (forget_each adm [ID (h q)] w)"
  shows "forget_stop adm h (q # ns) (q # part) e w"
  using assms unfolding forget_stop_def
proof (elim disjE exE conjE, goal_cases)
  case (1 p post)
  then show ?case by (intro disjI1 exI [of _ p] exI [of _ post]) simp
next
  case (2 pre p post x)
  then show ?case
    by (intro disjI2 exI [of _ "q # pre"] exI [of _ p] exI [of _ post] exI [of _ x]) (simp add: forget_each_def)
qed

lemma forget_shard_result:
  "forget_shard adm h ns w = (err, w') \<Longrightarrow> \<exists>part. slot_free h part \<and> w' = forget_each adm (map (\<lambda>q. ID (h q)) part) w
     \<and> (case err of None \<Rightarrow> part = ns | Some e \<Rightarrow> forget_stop adm h ns part e w)"
proof (induction ns arbitrary: w)
  case (Cons q ns)
  show ?case
  proof (cases "Slots (h q) = []")
    case False
    then show ?thesis using Cons.prems by (intro exI [of _ "[]"]) (auto simp: forget_each_def forget_stop_def)
  next
    case True
    obtain e1 w1 where f: "adm_ForgetNode adm (ID (h q)) w = (e1, w1)" by fastforce
    then have w1: "w1 = forget_each adm [ID (h q)] w" by (simp add: forget_each_def)
    show ?thesis
    proof (cases e1)
      case (Some x)
      then have "forget_stop adm h (q # ns) [q] (ErrorType_Wrap Redis x ''ForgetNode'') w"
        using f unfolding forget_stop_def by (intro disjI2 exI [of _ "[]"] exI [of _ q] exI [of _ ns] exI [of _ x]) (simp add: forget_each_def)
      then show ?thesis using Cons.prems True f Some w1 by (intro exI [of _ "[q]"]) auto
    next
      case None
      then have "forget_shard adm h ns w1 = (err, w')" using Cons.prems True f by simp
      from Cons.IH [OF this] obtain part where part: "slot_free h part" "w' = forget_each adm (map (\<lambda>q. ID (h q)) part) w1"
        "case err of None \<Rightarrow> part = ns | Some e \<Rightarrow> forget_stop adm h ns part e w1" by blast
      moreover have "w' = forget_each adm (map (\<lambda>q. ID (h q)) (q # part)) w" using part(2) w1 by (simp add: forget_each_def)
      ultimately show ?thesis
        using True w1 forget_stop_Cons [of adm h ns part _ q w] by (intro exI [of _ "q # part"]) (auto split: option.splits)
    qed
  qed
qed (simp add: forget_each_def)

lemma forget_shard_err: "forget_shard adm h ns w = (Some e, w') \<Longrightarrow> GetType e = Redis"
  by (induction adm h ns w rule: forget_shard.induct)
    (auto simp: ErrorType_New_def ErrorType_Wrap_def split: if_splits option.splits prod.splits)

abbreviation shard_nodes :: "(string, Nodes) gomap \<Rightarrow> drc \<Rightarrow> nat \<Rightarrow> Nodes" where
  "shard_nodes nodes c i \<equiv> mget [] nodes (ClusterStatefulSetName (drc_Name c) i)"

definition removal :: "'k reconciler \<Rightarrow> drc \<Rightarrow> nat \<Rightarrow> 'k \<Rightarrow> 'k" where
  "removal r c i k =
     (case GetStatefulSet (client r) (drc_Namespace c) (ClusterStatefulSetName (drc_Name c) i) k of
        (Inl e, k) \<Rightarrow> k | (Inr sts, k) \<Rightarrow> delete_shard r c i sts k)"

text \<open>The outcome of removing the shards \<open>is\<close>: those in \<open>gone\<close> are removed, those in \<open>rest\<close> are not; \<open>part\<close> are the nodes of the first shard
  of \<open>rest\<close> that were forgotten before the error.\<close>

definition removed ::
  "'k reconciler \<Rightarrow> ('w, 'm) IAdminFull_scheme \<Rightarrow> drc \<Rightarrow> (string, Nodes) gomap \<Rightarrow> nheap \<Rightarrow> nat list \<Rightarrow> nat list \<Rightarrow> Nodes
    \<Rightarrow> goerr option \<Rightarrow> 'k \<Rightarrow> 'w \<Rightarrow> 'k \<Rightarrow> 'w \<Rightarrow> bool" where
  "removed r adm c nodes h gone rest part err k w k' w' \<longleftrightarrow>
     (let all = concat (map (shard_nodes nodes c) gone); w1 = forget_each adm (map (\<lambda>q. ID (h q)) all) w;
          k1 = fold (removal r c) gone k
      in slot_free h (all @ part) \<and> w' = forget_each adm (map (\<lambda>q. ID (h q)) part) w1
       \<and> (case rest of
            [] \<Rightarrow> err = None \<and> part = [] \<and> k' = k1
          | i # _ \<Rightarrow> \<exists>e g. err = Some e \<and> GetStatefulSet (client r) (drc_Namespace c) (ClusterStatefulSetName (drc_Name c) i) k1 = (g, k')
              \<and> (case g of Inl x \<Rightarrow> part = [] \<and> e = ErrorType_Wrap Kubernetes x ''GetStatefulSet''
                 | Inr sts \<Rightarrow> forget_stop adm h (shard_nodes nodes c i) part e w1)))"

lemma removed_step:
  assumes "slot_free h (shard_nodes nodes c i)" and "removal r c i k = k1"
    and "w1 = forget_each adm (map (\<lambda>q. ID (h q)) (shard_nodes nodes c i)) w"
    and "removed r adm c nodes h gone rest part err k1 w1 k' w'"
  shows "removed r adm c nodes h (i # gone) rest part err k w k' w'"
proof -
  have w: "forget_each adm (map (\<lambda>q. ID (h q)) (concat (map (shard_nodes nodes c) (i # gone)))) w
      = forget_each adm (map (\<lambda>q. ID (h q)) (concat (map (shard_nodes nodes c) gone))) w1"
    and k: "fold (removal r c) (i # gone) k = fold (removal r c) gone k1"
    using assms(2,3) by simp_all
  show ?thesis using assms(1,4) unfolding removed_def Let_def w k by simp
qed

lemma remove_shards_result:
  assumes "remove_shards r adm c nodes is s = Some (Ret (err, s'))" and "fst (store s) = h"
  shows "\<exists>gone rest part. is = gone @ rest \<and> removed r adm c nodes h gone rest part err (kube s) (redis s) (kube s') (redis s')"
  using assms
proof (induction "is" arbitrary: s)
  case Nil
  then show ?case by (auto simp: go_ret_def forget_each_def removed_def intro!: exI [of _ "[]"])
next
  case (Cons i rest)
  let ?name = "ClusterStatefulSetName (drc_Name c) i" let ?ns = "shard_nodes nodes c i"
  obtain g k1 where g: "GetStatefulSet (client r) (drc_Namespace c) ?name (kube s) = (g, k1)" by fastforce
  obtain err1 w1 where f: "forget_shard adm h ?ns (redis s) = (err1, w1)" by fastforce
  from forget_shard_result [OF f] obtain part where part: "slot_free h part" "w1 = forget_each adm (map (\<lambda>q. ID (h q)) part) (redis s)"
    "case err1 of None \<Rightarrow> part = ?ns | Some e \<Rightarrow> forget_stop adm h ?ns part e (redis s)" by blast
  consider x where "g = Inl x" "err = Some (ErrorType_Wrap Kubernetes x ''GetStatefulSet'')" "kube s' = k1" "redis s' = redis s"
    | sts e where "g = Inr sts" "err1 = Some e" "err = Some e" "kube s' = k1" "redis s' = w1"
    | sts where "g = Inr sts" "err1 = None"
        "remove_shards r adm c nodes rest (s\<lparr>redis := w1, kube := delete_shard r c i sts k1\<rparr>) = Some (Ret (err, s'))"
    using Cons.prems g f
    by (cases g; cases err1) (auto simp: go_get_def go_try_def go_bind_def on_kube_def on_redis_def the_heap_def go_ret_def Let_def)
  then show ?case
  proof cases
    case 1
    then have "removed r adm c nodes h [] (i # rest) [] err (kube s) (redis s) (kube s') (redis s')"
      using g by (simp add: removed_def forget_each_def)
    then show ?thesis by (intro exI [of _ "[]"] exI [of _ "i # rest"] exI [of _ "[]"]) simp
  next
    case 2
    then have "removed r adm c nodes h [] (i # rest) part err (kube s) (redis s) (kube s') (redis s')"
      using g part by (simp add: removed_def forget_each_def)
    then show ?thesis by (intro exI [of _ "[]"] exI [of _ "i # rest"] exI [of _ part]) simp
  next
    case 3
    from Cons.IH [OF 3(3)] Cons.prems(2) obtain gone rest' part' where "rest = gone @ rest'"
      and rem: "removed r adm c nodes h gone rest' part' err (delete_shard r c i sts k1) w1 (kube s') (redis s')" by auto
    moreover have "removal r c i (kube s) = delete_shard r c i sts k1" using g 3(1) by (simp add: removal_def)
    ultimately show ?thesis
      using removed_step [OF _ _ _ rem] part 3(2) by (intro exI [of _ "i # gone"] exI [of _ rest'] exI [of _ part']) simp
  qed
qed

text \<open>C6.
  Scaling down forgets a node only when it owns no slot, and removes a shard only when none of its nodes owns one. The shards beyond the
  wanted number are taken from the last one downwards, and the connections to their nodes are closed first. Those in \<open>gone\<close> are removed: none of their nodes owns a
  slot, all are forgotten, in order, and then the objects of the shard (its StatefulSet, service, disruption budget and claims) are deleted.
  Without an error these are all of the shards. Otherwise the objects of the shards in \<open>rest\<close> stay, and the operation
  stopped in the first of them: because its StatefulSet cannot be read, and then no node of it is forgotten; or after forgetting its nodes \<open>part\<close>, none
  of which owns a slot, because the next node owns slots or because the last one in \<open>part\<close> could not be forgotten. Nothing else is sent to Redis. So
  the nodes before a node with slots are forgotten although their shard stays.\<close>

theorem scalingDown_safe:
  assumes "scalingDown r adm n nodes s = Some (Ret (err, s'))" and "h = fst (store s)"
    and "UpdateCRStatus (clusters (client r)) (scale_down_status n (cr s)) (kube s) = ((e, c), k)"
    and "extra = rev [nat (sp_MasterSize (drc_Spec c))..<n]"
    and "ids = map (\<lambda>q. ID (h q))"
  shows "\<exists>gone rest part w1. extra = gone @ rest
    \<and> (\<forall>i \<in> set gone. \<forall>q \<in> set (shard_nodes nodes c i). Slots (h q) = []) \<and> (\<forall>q \<in> set part. Slots (h q) = [])
    \<and> w1 = forget_each adm (ids (concat (map (shard_nodes nodes c) gone))) (disconnect_shards adm h c nodes extra (redis s))
    \<and> redis s' = forget_each adm (ids part) w1
    \<and> (rest = [] \<longrightarrow> err = None \<and> part = [] \<and> kube s' = fold (removal r c) gone k)
    \<and> (\<forall>i is. rest = i # is \<longrightarrow> (\<exists>x g. err = Some x
         \<and> GetStatefulSet (client r) (drc_Namespace c) (ClusterStatefulSetName (drc_Name c) i) (fold (removal r c) gone k) = (g, kube s')
         \<and> (case g of Inl y \<Rightarrow> part = [] \<and> x = ErrorType_Wrap Kubernetes y ''GetStatefulSet''
            | Inr sts \<Rightarrow> forget_stop adm h (shard_nodes nodes c i) part x w1)))"
proof -
  let ?w = "disconnect_shards adm h c nodes (surplus_shards n c) (redis s)"
  have "remove_shards r adm c nodes (surplus_shards n c) (s\<lparr>cr := c, kube := k, redis := ?w\<rparr>) = Some (Ret (err, s'))"
    using assms by (simp add: scalingDown_def go_bind_def set_instance_def update_status_def the_instance_def the_heap_def on_redis_def)
  from remove_shards_result [OF this, of h] assms(2) obtain gone rest part where gr: "surplus_shards n c = gone @ rest"
    and rem: "removed r adm c nodes h gone rest part err k ?w (kube s') (redis s')" by auto
  have sur: "surplus_shards n c = extra" using assms(4) by (simp add: surplus_shards_def)
  show ?thesis
    using gr rem unfolding sur removed_def Let_def assms(5)
    by (intro exI [of _ gone] exI [of _ rest] exI [of _ part] exI) (auto simp: slot_free_def)
qed

text \<open>A cluster of four shards that should have three: the node of the last one owns no slot.\<close>

definition shrink_admin :: "Slot \<Rightarrow> (admin_call list) IAdminFull" where
  "shrink_admin maxslot = IAdmin.extend (recording_admin maxslot) (IAdminFull.fields
     (\<lambda>st w. (((NewClusterInfos, None), st), w)) (\<lambda>addr w. (None, w)) (\<lambda>conf w. (None, w)) (\<lambda>addr w. w))"

lemma shrink_admin_simps [simp]: "adm_ForgetNode (shrink_admin m) i w = (None, w @ [CallForget i])" "conn_Remove (shrink_admin m) addr w = w"
  by (simp_all add: shrink_admin_def recording_admin_def IAdmin.extend_def IAdminFull.fields_def)

definition shrink_sts :: StatefulSet where
  "shrink_sts = \<lparr>sts_Name = ''drc-example-3'', sts_Namespace = ''default'', sts_Labels = [], sts_OwnerReferences = [], sts_ServiceName = [],
     sts_Replicas = 1, sts_UpdateStrategy = [], sts_Selector = [],
     sts_Template = \<lparr>pt_Labels = None, pt_Annotations = None, pt_ImagePullSecrets = [], pt_Affinity = None, pt_Tolerations = [],
       pt_SecurityContext = None, pt_NodeSelector = [], pt_SchedulerName = [], pt_PriorityClassName = [], pt_Priority = None,
       pt_RestartPolicy = [], pt_InitContainers = [], pt_Containers = [], pt_Volumes = []\<rparr>,
     sts_VolumeClaimTemplates = [], sts_ReadyReplicas = 1, sts_CurrentReplicas = 1\<rparr>"

definition shrink_cluster :: drc where
  "shrink_cluster = upd_spec (\<lambda>sp. sp\<lparr>sp_MasterSize := 3\<rparr>) sample_cluster"

lemma mem_update_same:
  "c_StatusUpdate (mem_client key matches get put) x k = (Inr x', k') \<Longrightarrow> x' = x"
  "c_Update (mem_client key matches get put) x k = (Inr x', k') \<Longrightarrow> x' = x"
  by (auto simp: mem_client_def Let_def split: if_splits)

definition mem_reconciler :: "(ConfigMap, mem_kube) typed_client \<Rightarrow> mem_kube reconciler" where
  "mem_reconciler cms = \<lparr>client = mem_kube_client\<lparr>configmaps := cms\<rparr>, runtime = go_env_det, build = sample_build, RedisConf = no_redis,
     ticks = (\<lambda>_. 1), execer = \<lparr>NewSPDYExecutor = (\<lambda>_. None), Stream = (\<lambda>_ _ k. (([], [], None), k))\<rparr>, now = 0, reconcileTime = 60\<rparr>"

definition shrink_sys :: "(mem_kube, admin_call list) sys" where
  "shrink_sys = \<lparr>cr = shrink_cluster, kube = empty_kube\<lparr>m_clusters := [shrink_cluster], m_statefulsets := [shrink_sts]\<rparr>, redis = [],
     store = (\<lambda>_. NewDefaultNode\<lparr>ID := ''old''\<rparr>, 1)\<rparr>"

theorem scalingDown_safe_witness:
  "\<exists>s'. scalingDown (mem_reconciler (configmaps mem_kube_client)) (shrink_admin 16383) 4 [(''drc-example-3'', [0])] shrink_sys
       = Some (Ret (None, s')) \<and> redis s' = [CallForget ''old'']"
proof -
  let ?r = "mem_reconciler (configmaps mem_kube_client)"
  define c where "c = scale_down_status 4 shrink_cluster"
  define k where "k = (kube shrink_sys)\<lparr>m_clusters := [c]\<rparr>"
  have c: "drc_Name c = ''example''" "drc_Namespace c = ''default''" "sp_MasterSize (drc_Spec c) = 3"
    by (simp_all add: c_def scale_down_status_def shrink_cluster_def)
  have up: "UpdateCRStatus (clusters (client ?r)) (scale_down_status 4 (cr shrink_sys)) (kube shrink_sys) = ((None, c), k)"
    by (simp add: UpdateCRStatus_def written_def mem_reconciler_def mem_kube_client_def mem_client_def Let_def shrink_sys_def c_def k_def
        scale_down_status_def)
  have upt: "[3..<4 :: nat] = [3]" by (simp add: upt_rec)
  have name: "ClusterStatefulSetName (drc_Name c) 3 = ''drc-example-3''"
    unfolding c by (simp add: ClusterStatefulSetName_def) code_simp
  have sts: "GetStatefulSet (client ?r) ''default'' ''drc-example-3'' k = (Inr shrink_sts, k)"
    by (simp add: GetStatefulSet_def mem_reconciler_def mem_kube_client_def mem_client_def Let_def k_def shrink_sys_def empty_kube_def shrink_sts_def)
  have forget: "forget_shard (shrink_admin 16383) (fst (store shrink_sys)) [0] [] = (None, [CallForget ''old''])"
    by (simp add: shrink_sys_def NewDefaultNode_def)
  have dis: "disconnect_shards (shrink_admin 16383) h c [(''drc-example-3'', [0])] [3] w = w" for h w
    by (simp add: disconnect_shards_def name mget_def)
  obtain s' where run: "scalingDown ?r (shrink_admin 16383) 4 [(''drc-example-3'', [0])] shrink_sys = Some (Ret (None, s'))"
    using up sts forget dis name
    by (simp add: scalingDown_def go_bind_def go_get_def go_try_def go_ret_def set_instance_def update_status_def the_instance_def the_heap_def
        on_redis_def on_kube_def surplus_shards_def c upt Let_def mget_def shrink_sys_def)
  from scalingDown_safe [OF run refl up refl refl] have "redis s' = [CallForget ''old'']"
  proof (elim exE conjE, goal_cases)
    case (1 gone rest part w1)
    have "rest = []" using 1(7) by (cases rest) auto
    then have "gone = [3]" "part = []" using 1(1,6) by (simp_all add: c upt)
    then show ?case using 1(4,5) by (simp add: dis c upt name [unfolded c] mget_def forget_each_def shrink_sys_def)
  qed
  with run show ?thesis by blast
qed

end
