(* ===== verification/Controller.thy ===== *)
theory Controller
  imports SyncHandler
begin

text \<open>
  \<open>pkg/controller/distributedrediscluster/distributedrediscluster_controller.go\<close>: which events start a reconciliation, and the
  reconciliation itself, from the resource named in the request to the status that is written back. The logger, the
  flags and the registration with the manager are not modelled.
\<close>

section \<open>Events\<close>

text \<open>The predicates of the watch: what they read of the event are the annotations, the generations and whether the
  final state of a deleted object is known.\<close>

definition UpdateFunc :: "bool \<Rightarrow> (string, string) gomap \<Rightarrow> int \<Rightarrow> int \<Rightarrow> bool" where
  "UpdateFunc isClusterScoped annotations oldGeneration newGeneration =
     (if \<not> ShoudManage isClusterScoped annotations then False
      else if oldGeneration \<noteq> newGeneration then True else False)"

definition DeleteFunc :: "bool \<Rightarrow> (string, string) gomap \<Rightarrow> bool \<Rightarrow> bool" where
  "DeleteFunc isClusterScoped annotations deleteStateUnknown =
     (if \<not> ShoudManage isClusterScoped annotations then False else \<not> deleteStateUnknown)"

definition CreateFunc :: "bool \<Rightarrow> (string, string) gomap \<Rightarrow> bool" where
  "CreateFunc isClusterScoped annotations = (if \<not> ShoudManage isClusterScoped annotations then False else True)"

section \<open>Reconcile\<close>

text \<open>\<open>reconcile.Result\<close>; durations are nanoseconds.\<close>

record Result =
  res_Requeue :: bool
  res_RequeueAfter :: int

abbreviation no_result :: Result where
  "no_result \<equiv> \<lparr>res_Requeue = False, res_RequeueAfter = 0\<rparr>"

definition requeueAfter :: int where
  "requeueAfter = 10 * 10 ^ 9"

abbreviation requeue_later :: Result where
  "requeue_later \<equiv> \<lparr>res_Requeue = False, res_RequeueAfter = requeueAfter\<rparr>"

type_synonym answer = "Result \<times> goerr option"

definition isScalingDown :: "'k reconciler \<Rightarrow> drc \<Rightarrow> 'k \<Rightarrow> bool \<times> 'k" where
  "isScalingDown r cluster k =
     (case ListStatefulSetByLabels (client r) (drc_Namespace cluster) (getLabels (runtime r) cluster) k of
        (Inl err, k) \<Rightarrow> (False, k)
      | (Inr stsList, k) \<Rightarrow> (if int (length stsList) > sp_MasterSize (drc_Spec cluster) then True else False, k))"

definition write_status :: "'k reconciler \<Rightarrow> DistributedRedisClusterStatus \<Rightarrow> (('k, 'w) sys, unit) step" where
  "write_status r newStatus s =
     (case updateClusterIfNeed (client r) (cr s) newStatus (kube s) of (c, k) \<Rightarrow> Some (Ret ((), s\<lparr>cr := c, kube := k\<rparr>)))"

text \<open>A failed step: the error is put into the status.\<close>

definition report ::
  "'k reconciler \<Rightarrow> (DistributedRedisClusterStatus \<Rightarrow> string \<Rightarrow> DistributedRedisClusterStatus) \<Rightarrow> goerr \<Rightarrow> answer
    \<Rightarrow> (('k, 'w) sys, answer) step" where
  "report r setter err ans = go_bind the_instance (\<lambda>c.
     go_bind (write_status r (setter (drc_Status c) (ErrorText (runtime r) err))) (\<lambda>_. go_ret ans))"

definition build_status :: "'k reconciler \<Rightarrow> ClusterInfos \<Rightarrow> Pod list \<Rightarrow> (('k, 'w) sys, DistributedRedisClusterStatus) step" where
  "build_status r infos podlist = go_bind the_instance (\<lambda>c. go_bind the_heap (\<lambda>h.
     let (st, h) = buildClusterStatus (runtime r) infos podlist c h in go_bind (set_heap h) (\<lambda>_. go_ret st)))"

text \<open>The last part: the second look at the cluster tests the status of the first one.\<close>

definition finish ::
  "'k reconciler \<Rightarrow> ('w, 'm) IAdminFull_scheme \<Rightarrow> ClusterInfos \<Rightarrow> Pod list \<Rightarrow> (('k, 'w) sys, answer) step" where
  "finish r adm clusterInfos podlist =
     go_bind (ask_infos adm) (\<lambda>(newClusterInfos, err).
       if err \<noteq> None \<and> infos_Status clusterInfos = ClusterInfosPartial
       then go_ret (no_result, Some (ErrorType_Wrap Redis (the err) ''GetClusterInfos''))
       else go_bind (build_status r newClusterInfos podlist) (\<lambda>newStatus.
            go_bind (write_status r (SetClusterOK newStatus ''OK'')) (\<lambda>_.
              go_ret (\<lparr>res_Requeue = False, res_RequeueAfter = i64 (reconcileTime r * 10 ^ 9)\<rparr>, None))))"

definition settle ::
  "'k reconciler \<Rightarrow> ('w, 'm) IAdminFull_scheme \<Rightarrow> ClusterInfos \<Rightarrow> Pod list \<Rightarrow> (('k, 'w) sys, answer) step" where
  "settle r adm clusterInfos podlist = go_bind the_instance (\<lambda>cluster.
     go_try (on_redis (adm_SetConfigIfNeed adm (conf_of cluster)))
       (\<lambda>e. (no_result, Some (ErrorType_Wrap Redis e ''SetConfigIfNeed'')))
    (go_bind (build_status r clusterInfos podlist) (\<lambda>status.
     go_bind (on_kube (isScalingDown r cluster)) (\<lambda>scaling.
       let status = (if scaling then SetClusterRebalancing status ''scaling down'' else status) in
       go_bind (write_status r status) (\<lambda>_.
       go_bind (set_instance (\<lambda>c. c\<lparr>drc_Status := status\<rparr>)) (\<lambda>_.
       go_bind the_instance (\<lambda>cluster.
         if needClusterOperation cluster then
           go_bind (syncCluster r adm clusterInfos) (\<lambda>err. case err of
             Some e \<Rightarrow> report r SetClusterFailed e (no_result, Some e)
           | None \<Rightarrow> finish r adm clusterInfos podlist)
         else finish r adm clusterInfos podlist)))))))"

definition set_phase :: "RestorePhase \<Rightarrow> drc \<Rightarrow> drc" where
  "set_phase p c = upd_status (\<lambda>st. st\<lparr>st_Restore := (st_Restore st)\<lparr>restore_Phase := p\<rparr>\<rparr>) c"

definition restart_masters :: "'k reconciler \<Rightarrow> (('k, 'w) sys, answer) step" where
  "restart_masters r =
     go_bind (set_instance (set_phase RestorePhaseRestart)) (\<lambda>_.
     go_try (update_status r) (\<lambda>e. (no_result, Some e))
    (go_bind the_instance (\<lambda>c.
     go_try (on_kube_outcome (\<lambda>k. outcome_bind (UpdateRedisStatefulsets (client r) (build r) (RedisConf r) (runtime r) c (getLabels (runtime r) c) k)
               (\<lambda>(err, labels, k). Ret (err, k)))) (\<lambda>e. (no_result, Some e))
    (go_try (wait_updating r ''waitMasterNodeRestarting'') (\<lambda>e. (no_result, Some e))
       (go_ret (\<lparr>res_Requeue = True, res_RequeueAfter = 0\<rparr>, None))))))"

definition finish_restore :: "'k reconciler \<Rightarrow> (('k, 'w) sys, answer) step" where
  "finish_restore r =
     go_bind (set_instance (set_phase RestorePhaseSucceeded)) (\<lambda>_.
     go_try (update_status r) (\<lambda>e. (no_result, Some e))
    (go_bind the_instance (\<lambda>c. case restore_Backup (st_Restore (drc_Status c)) of
       None \<Rightarrow> go_panic NilDereference
     | Some backup \<Rightarrow>
         go_bind (set_instance (upd_spec (\<lambda>sp. sp\<lparr>sp_ClusterReplicas := bst_ClusterReplicas (bk_Status backup)\<rparr>))) (\<lambda>_.
         go_try (update_resource r) (\<lambda>e. (no_result, Some e)) (go_ret (no_result, None))))))"

definition restore_or_settle ::
  "'k reconciler \<Rightarrow> ('w, 'm) IAdminFull_scheme \<Rightarrow> ClusterInfos \<Rightarrow> Pod list \<Rightarrow> (('k, 'w) sys, answer) step" where
  "restore_or_settle r adm clusterInfos podlist = go_bind the_instance (\<lambda>c.
     if IsRestoreFromBackup c \<and> IsRestoreRunning c then restart_masters r
     else if IsRestoreFromBackup c \<and> IsRestoreRestarting c then finish_restore r
     else settle r adm clusterInfos podlist)"

definition heal_cluster ::
  "'k reconciler \<Rightarrow> ('w, 'm) IAdminFull_scheme \<Rightarrow> CheckAndHeal \<Rightarrow> ClusterInfos \<Rightarrow> (('k, 'w) sys, bool \<times> goerr option) step" where
  "heal_cluster r adm healer infos s =
     (case Heal (client r) (runtime r) adm healer (cr s) (fst (store s)) infos (redis s, kube s) of
        (res, w, k) \<Rightarrow> Some (Ret (res, s\<lparr>redis := w, kube := k\<rparr>)))"

definition reconcile_redis ::
  "'k reconciler \<Rightarrow> ('w, 'm) IAdminFull_scheme \<Rightarrow> CheckAndHeal \<Rightarrow> Pod list \<Rightarrow> (('k, 'w) sys, answer) step" where
  "reconcile_redis r adm healer podlist =
     go_bind (ask_infos adm) (\<lambda>(clusterInfos, err).
       if err \<noteq> None \<and> infos_Status clusterInfos = ClusterInfosPartial
       then go_ret (no_result, Some (ErrorType_Wrap Redis (the err) ''GetClusterInfos''))
       else
         go_bind (heal_cluster r adm healer clusterInfos) (\<lambda>(requeue, err). case err of
           Some e \<Rightarrow> go_ret (no_result, Some (ErrorType_Wrap Redis e ''Heal''))
         | None \<Rightarrow>
             if requeue then go_ret (requeue_later, None)
             else go_bind (waitForClusterJoin r adm clusterInfos) (\<lambda>err. case err of
                    Some e \<Rightarrow> if GetType e = Requeue then go_ret (requeue_later, None)
                              else report r SetClusterFailed e (no_result, Some e)
                  | None \<Rightarrow> restore_or_settle r adm clusterInfos podlist)))"

definition reconcile_pods :: "'k reconciler \<Rightarrow> 'w radix \<Rightarrow> (('k, 'w) sys, answer) step" where
  "reconcile_pods r rx = go_bind the_instance (\<lambda>c.
     go_get (on_kube (GetStatefulSetPodsByLabels (client r) (drc_Namespace c) (getLabels (runtime r) c)))
       (\<lambda>e. (no_result, Some (ErrorType_Wrap Kubernetes e ''GetStatefulSetPods''))) (\<lambda>redisClusterPods.
       let podlist = clusterPods redisClusterPods; healer = \<lparr>heal_Pods = podlist, DryRun = False\<rparr> in
       go_bind (waitPodReady r healer) (\<lambda>err. case err of
         Some e \<Rightarrow> if GetType e = Kubernetes then go_ret (no_result, Some e)
                   else report r SetClusterScaling e (requeue_later, None)
       | None \<Rightarrow>
           go_get (on_kube (GetClusterPassword (secrets (client r)) c))
             (\<lambda>e. (no_result, Some (ErrorType_Wrap Kubernetes e ''getClusterPassword''))) (\<lambda>password.
             with_admin r rx podlist password (reconcile_redis r (admin_full rx (runtime r)) healer podlist)))))"

definition reconcile_instance :: "'k reconciler \<Rightarrow> 'w radix \<Rightarrow> (('k, 'w) sys, answer) step" where
  "reconcile_instance r rx =
     go_bind (ensureCluster r rx) (\<lambda>err. case err of
       Some e \<Rightarrow> if GetType e = StopRetry then go_ret (no_result, None)
                 else report r SetClusterScaling e (requeue_later, None)
     | None \<Rightarrow> reconcile_pods r rx)"

definition Reconcile ::
  "'k reconciler \<Rightarrow> 'w radix \<Rightarrow> string \<Rightarrow> string \<Rightarrow> 'k \<times> 'w \<times> nstore \<Rightarrow> (answer \<times> 'k \<times> 'w \<times> nstore) outcome option" where
  "Reconcile r rx namespace name kws =
     (case kws of (k, w, st) \<Rightarrow>
        (case c_Get (clusters (client r)) namespace name k of
           (Inl err, k) \<Rightarrow> Some (Ret ((if IsNotFound err then (no_result, None) else (no_result, Some err)), k, w, st))
         | (Inr c, k) \<Rightarrow>
             (case reconcile_instance r rx \<lparr>cr = c, kube = k, redis = w, store = st\<rparr> of
                None \<Rightarrow> None
              | Some (Panic p) \<Rightarrow> Some (Panic p)
              | Some (Ret (ans, s)) \<Rightarrow> Some (Ret (ans, kube s, redis s, store s)))))"

section \<open>What a reconciliation answers\<close>

text \<open>How far a pass came. \<open>pods_checked\<close>: the objects of the cluster are ensured and its pods listed, and \<open>err\<close> is what the check
  of the pods gave. \<open>connected\<close>: that check passed, and the admin clients of the pods are set up. \<open>healed\<close>: the view of the
  cluster is not partial, and \<open>res\<close> is what healing gave. \<open>joined\<close>: there was nothing to heal, and \<open>err\<close> is what waiting
  for the nodes to join gave.\<close>

definition pods_checked ::
  "'k reconciler \<Rightarrow> 'w radix \<Rightarrow> ('k, 'w) sys \<Rightarrow> drc \<Rightarrow> Pod list \<Rightarrow> goerr option \<Rightarrow> ('k, 'w) sys \<Rightarrow> bool" where
  "pods_checked r rx s0 c podlist err s \<longleftrightarrow> (\<exists>s1 pods k. ensureCluster r rx s0 = Some (Ret (None, s1)) \<and> c = cr s1
     \<and> GetStatefulSetPodsByLabels (client r) (drc_Namespace c) (getLabels (runtime r) c) (kube s1) = (Inr pods, k)
     \<and> podlist = clusterPods pods
     \<and> waitPodReady r \<lparr>heal_Pods = podlist, DryRun = False\<rparr> (s1\<lparr>kube := k\<rparr>) = Some (Ret (err, s)))"

definition connected :: "'k reconciler \<Rightarrow> 'w radix \<Rightarrow> ('k, 'w) sys \<Rightarrow> Pod list \<Rightarrow> ('k, 'w cw) sys \<Rightarrow> bool" where
  "connected r rx s0 podlist s \<longleftrightarrow> (\<exists>c s1 pw k cw. pods_checked r rx s0 c podlist None s1
     \<and> GetClusterPassword (secrets (client r)) c (kube s1) = (Inr pw, k)
     \<and> newRedisAdmin rx (runtime r) (ReadFile (build r)) podlist pw (RedisConf r) (redis s1) = Some cw
     \<and> s = sys_with (s1\<lparr>kube := k\<rparr>) cw)"

definition healed ::
  "'k reconciler \<Rightarrow> 'w radix \<Rightarrow> ('k, 'w) sys \<Rightarrow> Pod list \<Rightarrow> ClusterInfos \<Rightarrow> bool \<times> goerr option \<Rightarrow> ('k, 'w cw) sys \<Rightarrow> bool" where
  "healed r rx s0 podlist infos res s \<longleftrightarrow> (\<exists>s1 s2 e w k. connected r rx s0 podlist s1
     \<and> ask_infos (admin_full rx (runtime r)) s1 = Some (Ret ((infos, e), s2)) \<and> (e = None \<or> infos_Status infos \<noteq> ClusterInfosPartial)
     \<and> Heal (client r) (runtime r) (admin_full rx (runtime r)) \<lparr>heal_Pods = podlist, DryRun = False\<rparr> (cr s2) (fst (store s2)) infos
         (redis s2, kube s2) = (res, w, k)
     \<and> s = s2\<lparr>redis := w, kube := k\<rparr>)"

definition joined ::
  "'k reconciler \<Rightarrow> 'w radix \<Rightarrow> ('k, 'w) sys \<Rightarrow> Pod list \<Rightarrow> ClusterInfos \<Rightarrow> goerr option \<Rightarrow> ('k, 'w cw) sys \<Rightarrow> bool" where
  "joined r rx s0 podlist infos err s \<longleftrightarrow> (\<exists>s1. healed r rx s0 podlist infos (False, None) s1
     \<and> waitForClusterJoin r (admin_full rx (runtime r)) infos s1 = Some (Ret (err, s)))"

text \<open>The rest of a pass that is not part of a restore: the configuration is set on the nodes, and the operation the new status
  asks for, if any, succeeded.\<close>

definition operated :: "'k reconciler \<Rightarrow> ('w, 'm) IAdminFull_scheme \<Rightarrow> Pod list \<Rightarrow> ClusterInfos \<Rightarrow> ('k, 'w) sys \<Rightarrow> bool" where
  "operated r adm podlist infos s \<longleftrightarrow> (\<exists>w s1 s2 status.
     adm_SetConfigIfNeed adm (conf_of (cr s)) (redis s) = (None, w)
     \<and> build_status r infos podlist (s\<lparr>redis := w\<rparr>) = Some (Ret (status, s1))
     \<and> (let (scaling, k) = isScalingDown r (cr s) (kube s1);
            status' = (if scaling then SetClusterRebalancing status ''scaling down'' else status)
        in write_status r status' (s1\<lparr>kube := k\<rparr>) = Some (Ret ((), s2))
         \<and> (needClusterOperation ((cr s2)\<lparr>drc_Status := status'\<rparr>) \<longrightarrow>
              (\<exists>s3. syncCluster r adm infos (s2\<lparr>cr := (cr s2)\<lparr>drc_Status := status'\<rparr>\<rparr>) = Some (Ret (None, s3))))))"

text \<open>The causes of an answer without an error.\<close>

definition caused :: "'k reconciler \<Rightarrow> 'w radix \<Rightarrow> ('k, 'w) sys \<Rightarrow> Result \<Rightarrow> bool" where
  "caused r rx s0 res \<longleftrightarrow>
     (\<exists>e s. ensureCluster r rx s0 = Some (Ret (Some e, s)) \<and> res = (if GetType e = StopRetry then no_result else requeue_later))
     \<or> (\<exists>c podlist e s. pods_checked r rx s0 c podlist (Some e) s \<and> GetType e \<noteq> Kubernetes \<and> res = requeue_later)
     \<or> (\<exists>podlist infos s. healed r rx s0 podlist infos (True, None) s \<and> res = requeue_later)
     \<or> (\<exists>podlist infos e s. joined r rx s0 podlist infos (Some e) s \<and> GetType e = Requeue \<and> res = requeue_later)
     \<or> (\<exists>podlist infos s. joined r rx s0 podlist infos None s \<and>
          (if IsRestoreFromBackup (cr s) \<and> IsRestoreRunning (cr s) then res = \<lparr>res_Requeue = True, res_RequeueAfter = 0\<rparr>
           else if IsRestoreFromBackup (cr s) \<and> IsRestoreRestarting (cr s) then res = no_result
           else operated r (admin_full rx (runtime r)) podlist infos s
             \<and> res = \<lparr>res_Requeue = False, res_RequeueAfter = i64 (reconcileTime r * 10 ^ 9)\<rparr>))"

definition answer_ok :: "'k reconciler \<Rightarrow> answer \<Rightarrow> bool" where
  "answer_ok r ans \<longleftrightarrow>
     (case ans of
        (res, Some e) \<Rightarrow> res = no_result
      | (res, None) \<Rightarrow> res \<in> {no_result, requeue_later, \<lparr>res_Requeue = True, res_RequeueAfter = 0\<rparr>,
                              \<lparr>res_Requeue = False, res_RequeueAfter = i64 (reconcileTime r * 10 ^ 9)\<rparr>})"

abbreviation answers :: "'k reconciler \<Rightarrow> (('k, 'w) sys, answer) step \<Rightarrow> bool" where
  "answers r m \<equiv> inv_post (\<lambda>_. True) m (answer_ok r)"

lemma answer_ok_simps [simp]: "answer_ok r (no_result, err)" "answer_ok r (requeue_later, None)"
    "answer_ok r (\<lparr>res_Requeue = True, res_RequeueAfter = 0\<rparr>, None)"
    "answer_ok r (\<lparr>res_Requeue = False, res_RequeueAfter = i64 (reconcileTime r * 10 ^ 9)\<rparr>, None)"
  by (simp_all add: answer_ok_def split: option.split)

lemma inv_true: "inv_post (\<lambda>_. True) m (\<lambda>_. True)"
  by (simp add: inv_post_def)

lemmas answers_intros = inv_bind [OF inv_true] inv_try [OF inv_true] inv_get [OF inv_true] inv_ret inv_panic

lemma answers_report: "answer_ok r ans \<Longrightarrow> answers r (report r' setter e ans)"
  unfolding report_def by (auto intro!: answers_intros)

lemma answers_finish: "answers r (finish r adm infos podlist)"
  unfolding finish_def by (auto intro!: answers_intros simp: answer_ok_def)

lemma answers_settle: "answers r (settle r adm infos podlist)"
  unfolding settle_def Let_def by (auto intro!: answers_intros answers_report answers_finish split: option.split)

lemma answers_restore: "answers r (restore_or_settle r adm infos podlist)"
  unfolding restore_or_settle_def restart_masters_def finish_restore_def
  by (auto intro!: answers_intros answers_settle split: option.split)

lemma answers_redis: "answers r (reconcile_redis r adm healer podlist)"
  unfolding reconcile_redis_def by (auto intro!: answers_intros answers_report answers_restore split: option.split)

lemma answers_with_admin: "answers r f \<Longrightarrow> answers r (with_admin r' rx podlist password f)"
  using inv_with_admin [of "\<lambda>_. True" f "answer_ok r" r' rx podlist password] by simp

lemma answers_pods: "answers r (reconcile_pods r rx)"
  unfolding reconcile_pods_def Let_def
  by (auto intro!: answers_intros answers_report answers_with_admin answers_redis split: option.split)

lemma answers_instance: "answers r (reconcile_instance r rx)"
  unfolding reconcile_instance_def by (auto intro!: answers_intros answers_report answers_pods split: option.split)

lemma report_Ret: "report r setter e ans s = Some (Ret (x, s')) \<Longrightarrow> x = ans"
  by (auto simp: report_def go_ret_def)

lemma finish_caused:
  "finish r adm infos podlist s = Some (Ret ((res, None), s')) \<Longrightarrow> res = \<lparr>res_Requeue = False, res_RequeueAfter = i64 (reconcileTime r * 10 ^ 9)\<rparr>"
  by (auto simp: finish_def go_ret_def split: if_splits)

lemma go_try_None:
  assumes "go_try m fail f s = Some (Ret ((res, None), s'))" and "\<And>e. snd (fail e) \<noteq> None"
  obtains s1 where "m s = Some (Ret (None, s1))" and "f s1 = Some (Ret ((res, None), s'))"
proof -
  obtain err s1 where m: "m s = Some (Ret (err, s1))" and f: "(case err of Some e \<Rightarrow> go_ret (fail e) | None \<Rightarrow> f) s1 = Some (Ret ((res, None), s'))"
    using assms(1) by (auto simp: go_try_def)
  have "err = None"
  proof (cases err)
    case (Some e)
    then have "fail e = (res, None)" using f by (simp add: go_ret_def)
    then show ?thesis using assms(2) [of e] by simp
  qed
  then show ?thesis using that m f by simp
qed

lemma settle_caused:
  assumes "settle r adm infos podlist s = Some (Ret ((res, None), s'))"
  shows "operated r adm podlist infos s \<and> res = \<lparr>res_Requeue = False, res_RequeueAfter = i64 (reconcileTime r * 10 ^ 9)\<rparr>"
proof -
  define status_of where "status_of = (\<lambda>scaling status. if scaling then SetClusterRebalancing status ''scaling down'' else status)"
  define op where "op = (\<lambda>cluster. if needClusterOperation cluster then
           go_bind (syncCluster r adm infos) (\<lambda>err. case err of
             Some e \<Rightarrow> report r SetClusterFailed e (no_result, Some e)
           | None \<Rightarrow> finish r adm infos podlist)
         else finish r adm infos podlist)"
  have attempt: "go_try (on_redis (adm_SetConfigIfNeed adm (conf_of (cr s)))) (\<lambda>e. (no_result, Some (ErrorType_Wrap Redis e ''SetConfigIfNeed'')))
    (go_bind (build_status r infos podlist) (\<lambda>status. go_bind (on_kube (isScalingDown r (cr s))) (\<lambda>scaling.
       go_bind (write_status r (status_of scaling status)) (\<lambda>_.
       go_bind (set_instance (\<lambda>c. c\<lparr>drc_Status := status_of scaling status\<rparr>)) (\<lambda>_. go_bind the_instance op))))) s
      = Some (Ret ((res, None), s'))"
    using assms by (simp add: settle_def the_instance_def Let_def status_of_def op_def del: split_paired_Ex)
  obtain w status s1 scaling k s2 where 1: "adm_SetConfigIfNeed adm (conf_of (cr s)) (redis s) = (None, w)"
      "build_status r infos podlist (s\<lparr>redis := w\<rparr>) = Some (Ret (status, s1))" "isScalingDown r (cr s) (kube s1) = (scaling, k)"
      "write_status r (status_of scaling status) (s1\<lparr>kube := k\<rparr>) = Some (Ret ((), s2))"
    and 2: "op ((cr s2)\<lparr>drc_Status := status_of scaling status\<rparr>) (s2\<lparr>cr := (cr s2)\<lparr>drc_Status := status_of scaling status\<rparr>\<rparr>)
      = Some (Ret ((res, None), s'))"
    by (rule go_try_None [OF attempt]) (auto simp: on_redis_def on_kube_def the_instance_def set_instance_def split: prod.splits)
  have "(needClusterOperation ((cr s2)\<lparr>drc_Status := status_of scaling status\<rparr>) \<longrightarrow>
      (\<exists>s3. syncCluster r adm infos (s2\<lparr>cr := (cr s2)\<lparr>drc_Status := status_of scaling status\<rparr>\<rparr>) = Some (Ret (None, s3))))
    \<and> res = \<lparr>res_Requeue = False, res_RequeueAfter = i64 (reconcileTime r * 10 ^ 9)\<rparr>"
  proof (cases "needClusterOperation ((cr s2)\<lparr>drc_Status := status_of scaling status\<rparr>)")
    case True
    then obtain err s3 where "syncCluster r adm infos (s2\<lparr>cr := (cr s2)\<lparr>drc_Status := status_of scaling status\<rparr>\<rparr>) = Some (Ret (err, s3))"
      and "(case err of Some e \<Rightarrow> report r SetClusterFailed e (no_result, Some e) | None \<Rightarrow> finish r adm infos podlist) s3 = Some (Ret ((res, None), s'))"
      using 2 by (auto simp: op_def)
    then show ?thesis by (cases err) (auto dest: report_Ret finish_caused)
  qed (use 2 in \<open>auto simp: op_def dest: finish_caused\<close>)
  with 1 show ?thesis unfolding operated_def status_of_def Let_def
    by (intro conjI exI [of _ w] exI [of _ s1] exI [of _ s2] exI [of _ status]) simp_all
qed

lemma restore_caused:
  assumes "restore_or_settle r adm infos podlist s = Some (Ret ((res, None), s'))"
  shows "if IsRestoreFromBackup (cr s) \<and> IsRestoreRunning (cr s) then res = \<lparr>res_Requeue = True, res_RequeueAfter = 0\<rparr>
    else if IsRestoreFromBackup (cr s) \<and> IsRestoreRestarting (cr s) then res = no_result
    else operated r adm podlist infos s \<and> res = \<lparr>res_Requeue = False, res_RequeueAfter = i64 (reconcileTime r * 10 ^ 9)\<rparr>"
proof -
  have "res = \<lparr>res_Requeue = True, res_RequeueAfter = 0\<rparr>" if "restart_masters r s = Some (Ret ((res, None), s'))"
    using that by (auto simp: restart_masters_def go_ret_def elim!: go_try_None)
  moreover have "res = no_result" if "finish_restore r s = Some (Ret ((res, None), s'))"
    using that by (auto simp: finish_restore_def go_ret_def go_panic_def elim!: go_try_None split: option.splits)
  ultimately show ?thesis
    using assms by (auto simp: restore_or_settle_def the_instance_def split: if_splits dest: settle_caused)
qed

lemma redis_caused:
  assumes "reconcile_redis r (admin_full rx (runtime r)) \<lparr>heal_Pods = podlist, DryRun = False\<rparr> podlist s = Some (Ret ((res, None), s'))"
    and "connected r rx s0 podlist s"
  shows "caused r rx s0 res"
proof -
  let ?adm = "admin_full rx (runtime r)" let ?healer = "\<lparr>heal_Pods = podlist, DryRun = False\<rparr>"
  define cont where "cont = (\<lambda>infos. go_bind (heal_cluster r ?adm ?healer infos) (\<lambda>(requeue, err). case err of
           Some e \<Rightarrow> go_ret (no_result, Some (ErrorType_Wrap Redis e ''Heal''))
         | None \<Rightarrow>
             if requeue then go_ret (requeue_later, None)
             else go_bind (waitForClusterJoin r ?adm infos) (\<lambda>err. case err of
                    Some e \<Rightarrow> if GetType e = Requeue then go_ret (requeue_later, None)
                              else report r SetClusterFailed e (no_result, Some e)
                  | None \<Rightarrow> restore_or_settle r ?adm infos podlist)))"
  obtain p s2 where p: "ask_infos ?adm s = Some (Ret (p, s2))"
    and body: "(case p of (infos, err) \<Rightarrow> if err \<noteq> None \<and> infos_Status infos = ClusterInfosPartial
        then go_ret (no_result, Some (ErrorType_Wrap Redis (the err) ''GetClusterInfos'')) else cont infos) s2 = Some (Ret ((res, None), s'))"
    using assms(1) unfolding reconcile_redis_def cont_def go_bind_Ret by blast
  obtain infos e where "p = (infos, e)" by fastforce
  then have ask: "ask_infos ?adm s = Some (Ret ((infos, e), s2))" "e = None \<or> infos_Status infos \<noteq> ClusterInfosPartial"
    and cont: "cont infos s2 = Some (Ret ((res, None), s'))"
    using p body by (auto simp: go_ret_def split: if_splits)
  note run = cont [unfolded cont_def]
  obtain again err w k where H: "Heal (client r) (runtime r) ?adm ?healer (cr s2) (fst (store s2)) infos (redis s2, kube s2) = ((again, err), w, k)"
    by (metis prod.exhaust)
  define s3 where "s3 = s2\<lparr>redis := w, kube := k\<rparr>"
  have healed: "healed r rx s0 podlist infos (again, err) s3"
    unfolding healed_def using assms(2) ask H s3_def by blast
  have err: "err = None" using run H by (cases err) (auto simp: heal_cluster_def go_ret_def)
  show ?thesis
  proof (cases again)
    case True
    then have "res = requeue_later" using run H by (simp add: heal_cluster_def go_ret_def err)
    moreover have "healed r rx s0 podlist infos (True, None) s3" using healed True err by simp
    ultimately show ?thesis unfolding caused_def by blast
  next
    case False
    then obtain jerr s4 where j: "waitForClusterJoin r ?adm infos s3 = Some (Ret (jerr, s4))"
      and rest: "(case jerr of Some e \<Rightarrow> if GetType e = Requeue then go_ret (requeue_later, None)
                              else report r SetClusterFailed e (no_result, Some e)
                  | None \<Rightarrow> restore_or_settle r ?adm infos podlist) s4 = Some (Ret ((res, None), s'))"
      using run H by (auto simp: heal_cluster_def err s3_def)
    have "healed r rx s0 podlist infos (False, None) s3" using healed False err by simp
    then have joined: "joined r rx s0 podlist infos jerr s4" unfolding joined_def using j by blast
    show ?thesis
    proof (cases jerr)
      case None
      then have "restore_or_settle r ?adm infos podlist s4 = Some (Ret ((res, None), s'))" using rest by simp
      from restore_caused [OF this] joined None show ?thesis unfolding caused_def by blast
    next
      case (Some e)
      then have "GetType e = Requeue" "res = requeue_later"
        using rest by (auto simp: go_ret_def split: if_splits dest: report_Ret)
      with joined Some show ?thesis unfolding caused_def by blast
    qed
  qed
qed

lemma go_bind_instance: "go_bind the_instance f s = f (cr s) s"
  by (simp add: go_bind_def the_instance_def)

lemma go_bind_kube: "f (kube s) = (x, k) \<Longrightarrow> go_bind (on_kube f) g s = g x (s\<lparr>kube := k\<rparr>)"
  by (simp add: go_bind_def on_kube_def)

lemma pods_caused:
  assumes "reconcile_pods r rx s1 = Some (Ret ((res, None), s'))" and "ensureCluster r rx s0 = Some (Ret (None, s1))"
  shows "caused r rx s0 res"
proof -
  let ?c = "cr s1"
  obtain pods k where list: "GetStatefulSetPodsByLabels (client r) (drc_Namespace ?c) (getLabels (runtime r) ?c) (kube s1) = (Inr pods, k)"
    using assms(1) by (auto simp: reconcile_pods_def the_instance_def go_get_def on_kube_def go_ret_def split: prod.split_asm sum.split_asm)
  define podlist where "podlist = clusterPods pods"
  let ?healer = "\<lparr>heal_Pods = podlist, DryRun = False\<rparr>"
  define cont where "cont = (\<lambda>err. case err of
         Some e \<Rightarrow> if GetType e = Kubernetes then go_ret (no_result, Some e)
                   else report r SetClusterScaling e (requeue_later, None)
       | None \<Rightarrow>
           go_get (on_kube (GetClusterPassword (secrets (client r)) ?c))
             (\<lambda>e. (no_result, Some (ErrorType_Wrap Kubernetes e ''getClusterPassword''))) (\<lambda>password.
             with_admin r rx podlist password (reconcile_redis r (admin_full rx (runtime r)) ?healer podlist)))"
  have "go_bind (waitPodReady r ?healer) cont (s1\<lparr>kube := k\<rparr>) = Some (Ret ((res, None), s'))"
    using assms(1) unfolding reconcile_pods_def go_bind_instance go_get_def cont_def podlist_def Let_def
    by (simp add: go_bind_kube list del: go_bind_Ret)
  then obtain err s2 where wait: "waitPodReady r ?healer (s1\<lparr>kube := k\<rparr>) = Some (Ret (err, s2))"
    and "cont err s2 = Some (Ret ((res, None), s'))" unfolding go_bind_Ret by blast
  note rest = this(2) [unfolded cont_def]
  have checked: "pods_checked r rx s0 ?c podlist err s2"
    unfolding pods_checked_def using assms(2) list wait podlist_def by blast
  show ?thesis
  proof (cases err)
    case (Some e)
    then have "GetType e \<noteq> Kubernetes" "res = requeue_later"
      using rest by (auto simp: go_ret_def split: if_splits dest: report_Ret)
    with checked Some show ?thesis unfolding caused_def by blast
  next
    case None
    then obtain pw k3 where pw: "GetClusterPassword (secrets (client r)) ?c (kube s2) = (Inr pw, k3)"
      and adm: "with_admin r rx podlist pw (reconcile_redis r (admin_full rx (runtime r)) ?healer podlist) (s2\<lparr>kube := k3\<rparr>)
        = Some (Ret ((res, None), s'))"
      using rest by (auto simp: go_get_def on_kube_def go_ret_def split: prod.split_asm sum.split_asm)
    obtain cw s4 where cw: "newRedisAdmin rx (runtime r) (ReadFile (build r)) podlist pw (RedisConf r) (redis s2) = Some cw"
      and red: "reconcile_redis r (admin_full rx (runtime r)) ?healer podlist (sys_with (s2\<lparr>kube := k3\<rparr>) cw) = Some (Ret ((res, None), s4))"
      using adm by (auto simp: with_admin_def split: option.split_asm outcome.split_asm)
    have "connected r rx s0 podlist (sys_with (s2\<lparr>kube := k3\<rparr>) cw)"
      unfolding connected_def using checked None pw cw by blast
    from redis_caused [OF red this] show ?thesis .
  qed
qed


text \<open>A new cluster that is to be restored from a backup.\<close>

definition restore_cluster :: drc where
  "restore_cluster = sample_cluster\<lparr>drc_Spec := sample_spec\<lparr>sp_Init := Some \<lparr>BackupSource = Some
       \<lparr>src_Namespace = ''default'', src_Name = ''b'', src_Args = []\<rparr>\<rparr>\<rparr>,
     drc_Status := sample_status\<lparr>st_Restore := \<lparr>restore_Phase = [], restore_Backup = None\<rparr>\<rparr>\<rparr>"

lemma restore_cluster_simps [simp]:
  "sp_Init (drc_Spec restore_cluster) = Some \<lparr>BackupSource = Some \<lparr>src_Namespace = ''default'', src_Name = ''b'', src_Args = []\<rparr>\<rparr>"
  "st_Restore (drc_Status restore_cluster) = \<lparr>restore_Phase = [], restore_Backup = None\<rparr>"
  "IsRestoreFromBackup restore_cluster" "ShouldInitRestorePhase restore_cluster"
  by (simp_all add: restore_cluster_def IsRestoreFromBackup_def ShouldInitRestorePhase_def)


end
