(* ===== verification/RestorePhase.thy ===== *)
theory RestorePhase
  imports Controller
begin

text \<open>
  How a restore advances. Its phase is kept in the status of the resource, which is a subresource: a status update stores the
  status alone, an update everything but the status. The phase is written in three places of the controller; this theory shows
  what these leave on the server, whichever call fails.
\<close>

section \<open>The phases\<close>

text \<open>The part of the resource that belongs to a restore.\<close>

definition restoring :: "drc \<Rightarrow> Restore \<times> InitSpec option" where
  "restoring c = (st_Restore (drc_Status c), sp_Init (drc_Spec c))"

definition requested :: "InitSpec option \<Rightarrow> bool" where
  "requested i \<longleftrightarrow> (case i of Some spec \<Rightarrow> BackupSource spec \<noteq> None | None \<Rightarrow> False)"

lemma IsRestoreFromBackup_requested: "IsRestoreFromBackup c \<longleftrightarrow> requested (snd (restoring c))"
  by (simp add: IsRestoreFromBackup_def requested_def restoring_def split: option.split)

text \<open>A restore starts from a backup that succeeded, the masters are restarted, the restore has succeeded.\<close>

inductive restore_next :: "Restore \<times> InitSpec option \<Rightarrow> Restore \<times> InitSpec option \<Rightarrow> bool" where
  start: "requested i \<Longrightarrow> restore_Phase R = [] \<Longrightarrow> bst_Phase (bk_Status b) = BackupPhaseSucceeded \<Longrightarrow>
    restore_next (R, i) (\<lparr>restore_Phase = RestorePhaseRunning, restore_Backup = Some b\<rparr>, i)"
| restart: "requested i \<Longrightarrow> restore_Phase R = RestorePhaseRunning \<Longrightarrow>
    restore_next (R, i) (R\<lparr>restore_Phase := RestorePhaseRestart\<rparr>, i)"
| finish: "requested i \<Longrightarrow> restore_Phase R = RestorePhaseRestart \<Longrightarrow>
    restore_next (R, i) (R\<lparr>restore_Phase := RestorePhaseSucceeded\<rparr>, i)"

inductive_simps restore_next_simps: "restore_next u v"

section \<open>A server with a status subresource\<close>

definition status_stored :: "drc \<Rightarrow> drc \<Rightarrow> drc \<Rightarrow> bool" where
  "status_stored old x y \<longleftrightarrow> drc_key y = drc_key old \<and> drc_Spec y = drc_Spec old \<and> drc_Status y = drc_Status x"

definition spec_stored :: "drc \<Rightarrow> drc \<Rightarrow> drc \<Rightarrow> bool" where
  "spec_stored old x y \<longleftrightarrow> drc_key y = drc_key old \<and> drc_Spec y = drc_Spec x \<and> drc_Status y = drc_Status old"

text \<open>A write that succeeds returns what is stored. One that fails may or may not have been carried out. The calls for other
  types do not change the clusters, and the writes of clusters not the StatefulSets.\<close>

definition write_result :: "(drc \<Rightarrow> drc \<Rightarrow> drc \<Rightarrow> bool) \<Rightarrow> drc \<Rightarrow> drc \<Rightarrow> goerr + drc \<Rightarrow> drc \<Rightarrow> bool" where
  "write_result stores old x v y \<longleftrightarrow> (case v of Inl e \<Rightarrow> y = old \<or> stores old x y | Inr z \<Rightarrow> z = y \<and> stores old x y)"

lemma go_try_Ret: "go_try m fail f s = Some (Ret y) \<longleftrightarrow>
    (\<exists>e s1. m s = Some (Ret (e, s1)) \<and> (case e of Some x \<Rightarrow> go_ret (fail x) | None \<Rightarrow> f) s1 = Some (Ret y))"
  by (simp add: go_try_def)

locale restore_server =
  fixes r :: "'k reconciler" and C :: "'k \<Rightarrow> string \<times> string \<Rightarrow> drc option" and T :: "'k \<Rightarrow> 't"
  assumes key: "C k q = Some c \<Longrightarrow> drc_key c = q"
    and status_write: "c_StatusUpdate (clusters (client r)) x k = (v, k') \<Longrightarrow> C k (drc_key x) = Some old \<Longrightarrow>
      T k' = T k \<and> (\<exists>y. C k' (drc_key x) = Some y \<and> write_result status_stored old x v y)"
    and spec_write: "c_Update (clusters (client r)) x k = (v, k') \<Longrightarrow> C k (drc_key x) = Some old \<Longrightarrow>
      T k' = T k \<and> (\<exists>y. C k' (drc_key x) = Some y \<and> write_result spec_stored old x v y)"
    and sts_write: "c_Update (statefulsets (client r)) z k = (u, k') \<Longrightarrow> C k' = C k"
    and sts_list: "c_List (statefulsets (client r)) ns ls k = (us, k') \<Longrightarrow> C k' = C k"
    and backup_get: "c_Get (backups (client r)) ns n k = (b, k') \<Longrightarrow> C k' = C k \<and> T k' = T k"
begin

lemma update_status_result:
  assumes "update_status r s = Some (Ret (err, s'))" and "C (kube s) (drc_key (cr s)) = Some old"
  shows "\<exists>y. C (kube s') (drc_key (cr s)) = Some y \<and> T (kube s') = T (kube s) \<and> (y = old \<and> err \<noteq> None \<or> status_stored old (cr s) y)
    \<and> (err = None \<longrightarrow> cr s' = y)"
proof -
  obtain v k' where w: "c_StatusUpdate (clusters (client r)) (cr s) (kube s) = (v, k')" by fastforce
  show ?thesis
    using assms(1) status_write [OF w assms(2)]
    by (cases v) (auto simp: update_status_def UpdateCRStatus_def written_def w write_result_def)
qed

lemma update_resource_result:
  assumes "update_resource r s = Some (Ret (err, s'))" and "C (kube s) (drc_key (cr s)) = Some old"
  shows "\<exists>y. C (kube s') (drc_key (cr s)) = Some y \<and> T (kube s') = T (kube s) \<and> (y = old \<and> err \<noteq> None \<or> spec_stored old (cr s) y)
    \<and> (err = None \<longrightarrow> cr s' = y)"
proof -
  obtain v k' where w: "c_Update (clusters (client r)) (cr s) (kube s) = (v, k')" by fastforce
  show ?thesis
    using assms(1) spec_write [OF w assms(2)]
    by (cases v) (auto simp: update_resource_def UpdateCR_def written_def w write_result_def)
qed

lemma update_statefulsets_frame:
  "update_statefulsets_loop (client r) bld conf env c js labels k = Ret (err, labels', k') \<Longrightarrow> C k' = C k"
proof (induction js arbitrary: labels k)
  case (Cons i js)
  define name where "name = ClusterStatefulSetName (drc_Name c) i"
  define svc where "svc = ClusterHeadlessSvcName (sp_ServiceName (drc_Spec c)) i"
  define ls where "ls = mput StatefulSetLabel name labels"
  obtain e1 k1 where 1: "updateRedisStatefulset (client r) bld conf env c name svc ls k = Ret (e1, k1)"
    using Cons.prems by (cases "updateRedisStatefulset (client r) bld conf env c name svc ls k")
      (auto simp: Let_def name_def svc_def ls_def)
  have "C k1 = C k"
  proof -
    obtain n where n: "NewStatefulSetForCR bld conf env c name svc ls = Ret n" using 1 by (auto simp: updateRedisStatefulset_def)
    show ?thesis
    proof (cases n)
      case (Inr ss)
      obtain u k2 where w: "c_Update (statefulsets (client r)) ss k = (u, k2)" by fastforce
      then show ?thesis using 1 n Inr sts_write [OF w] by (cases u) (auto simp: updateRedisStatefulset_def UpdateStatefulSet_def only_err_def)
    qed (use 1 n in \<open>simp add: updateRedisStatefulset_def\<close>)
  qed
  then show ?case
    using Cons.prems Cons.IH [of ls k1] 1 by (cases e1) (auto simp: Let_def simp flip: name_def svc_def ls_def)
qed simp

lemma waiting_frame:
  assumes "\<And>k e k'. handler k = (e, k') \<Longrightarrow> C k' = C k"
  shows "waiting name handler n k = (e, k') \<Longrightarrow> C k' = C k"
proof (induction n arbitrary: k)
  case (Suc n)
  obtain e1 k1 where h: "handler k = (e1, k1)" by fastforce
  then show ?case using Suc assms [OF h] by (cases e1) auto
qed simp

lemma wait_updating_frame: "wait_updating r name s = Some (Ret (err, s')) \<Longrightarrow> C (kube s') = C (kube s)"
  by (auto simp: wait_updating_def the_instance_def on_kube_def waitStatefulSetUpdating_Handler_def ListStatefulSetByLabels_def
      dest!: waiting_frame [rotated] dest: sts_list split: prod.splits sum.splits)

lemma keep_statefulsets:
  "step_inv (\<lambda>s. C (kube s) = X) (on_kube_outcome (\<lambda>k. outcome_bind (UpdateRedisStatefulsets (client r) bld conf env c ls k)
     (\<lambda>(err, labels, k). Ret (err, k))))"
  by (auto simp: inv_post_def on_kube_outcome_def UpdateRedisStatefulsets_def dest!: update_statefulsets_frame split: outcome.split_asm prod.split_asm)

lemma keep_waiting: "step_inv (\<lambda>s. C (kube s) = X) (wait_updating r name)"
  using wait_updating_frame by (fastforce simp: inv_post_def)

lemma restart_stored:
  assumes run: "restart_masters r s = Some (Ret ((res, err), s'))" and c0: "C (kube s) (drc_key (cr s)) = Some c0"
  shows "\<exists>c1. C (kube s') (drc_key (cr s)) = Some c1
    \<and> (c1 = c0 \<and> err \<noteq> None \<and> T (kube s') = T (kube s) \<or> status_stored c0 (set_phase RestorePhaseRestart (cr s)) c1)"
proof -
  define s0 where "s0 = s\<lparr>cr := set_phase RestorePhaseRestart (cr s)\<rparr>"
  obtain e1 s1 where u: "update_status r s0 = Some (Ret (e1, s1))"
    and rest: "(case e1 of Some e \<Rightarrow> go_ret (no_result, Some e) | None \<Rightarrow> go_bind the_instance (\<lambda>c.
     go_try (on_kube_outcome (\<lambda>k. outcome_bind (UpdateRedisStatefulsets (client r) (build r) (RedisConf r) (runtime r) c (getLabels (runtime r) c) k)
               (\<lambda>(err, labels, k). Ret (err, k)))) (\<lambda>e. (no_result, Some e))
    (go_try (wait_updating r ''waitMasterNodeRestarting'') (\<lambda>e. (no_result, Some e))
       (go_ret (\<lparr>res_Requeue = True, res_RequeueAfter = 0\<rparr>, None))))) s1 = Some (Ret ((res, err), s'))"
    using run unfolding restart_masters_def go_bind_Ret go_try_Ret set_instance_def s0_def by auto
  have k: "drc_key (cr s0) = drc_key (cr s)" "kube s0 = kube s" by (simp_all add: s0_def set_phase_def)
  from update_status_result [OF u, unfolded k, OF c0] obtain y where
    y: "C (kube s1) (drc_key (cr s)) = Some y" "T (kube s1) = T (kube s)" "y = c0 \<and> e1 \<noteq> None \<or> status_stored c0 (cr s0) y" by blast
  show ?thesis
  proof (cases e1)
    case None
    have "step_inv (\<lambda>s. C (kube s) = C (kube s1)) (go_bind the_instance (\<lambda>c.
     go_try (on_kube_outcome (\<lambda>k. outcome_bind (UpdateRedisStatefulsets (client r) (build r) (RedisConf r) (runtime r) c (getLabels (runtime r) c) k)
               (\<lambda>(err, labels, k). Ret (err, k)))) (\<lambda>e. (no_result, Some e))
    (go_try (wait_updating r ''waitMasterNodeRestarting'') (\<lambda>e. (no_result, Some e))
       (go_ret (\<lparr>res_Requeue = True, res_RequeueAfter = 0\<rparr>, None)))))"
      by (intro inv_bind inv_the inv_try inv_ret keep_statefulsets keep_waiting TrueI)
    then have "C (kube s') = C (kube s1)" using rest None by (auto dest: inv_postD)
    then show ?thesis using y None by (auto simp: s0_def)
  next
    case (Some e)
    then have "s' = s1" "err \<noteq> None" using rest by (auto simp: go_ret_def)
    then show ?thesis using y by (auto simp: s0_def)
  qed
qed

lemma finish_stored:
  assumes run: "finish_restore r s = Some (Ret ((res, err), s'))" and c0: "C (kube s) (drc_key (cr s)) = Some c0"
  shows "\<exists>c1. C (kube s') (drc_key (cr s)) = Some c1 \<and> T (kube s') = T (kube s)
    \<and> (c1 = c0 \<and> err \<noteq> None
       \<or> drc_Status c1 = drc_Status (set_phase RestorePhaseSucceeded (cr s))
         \<and> (drc_Spec c1 = drc_Spec c0 \<and> err \<noteq> None
            \<or> (\<exists>b. restore_Backup (st_Restore (drc_Status (cr s))) = Some b
                \<and> drc_Spec c1 = (drc_Spec c0)\<lparr>sp_ClusterReplicas := bst_ClusterReplicas (bk_Status b)\<rparr>)))"
proof -
  define s0 where "s0 = s\<lparr>cr := set_phase RestorePhaseSucceeded (cr s)\<rparr>"
  obtain e1 s1 where u: "update_status r s0 = Some (Ret (e1, s1))"
    and rest: "(case e1 of Some e \<Rightarrow> go_ret (no_result, Some e) | None \<Rightarrow> go_bind the_instance (\<lambda>c.
       case restore_Backup (st_Restore (drc_Status c)) of
       None \<Rightarrow> go_panic NilDereference
     | Some backup \<Rightarrow>
         go_bind (set_instance (upd_spec (\<lambda>sp. sp\<lparr>sp_ClusterReplicas := bst_ClusterReplicas (bk_Status backup)\<rparr>))) (\<lambda>_.
         go_try (update_resource r) (\<lambda>e. (no_result, Some e)) (go_ret (no_result, None))))) s1 = Some (Ret ((res, err), s'))"
    using run unfolding finish_restore_def go_bind_Ret go_try_Ret set_instance_def s0_def by auto
  have k: "drc_key (cr s0) = drc_key (cr s)" "kube s0 = kube s" by (simp_all add: s0_def set_phase_def)
  from update_status_result [OF u, unfolded k, OF c0] obtain y where
    y: "C (kube s1) (drc_key (cr s)) = Some y" "T (kube s1) = T (kube s)" "y = c0 \<and> e1 \<noteq> None \<or> status_stored c0 (cr s0) y"
      "e1 = None \<longrightarrow> cr s1 = y" by blast
  show ?thesis
  proof (cases e1)
    case (Some e)
    then have "s' = s1" "err \<noteq> None" using rest by (auto simp: go_ret_def)
    then show ?thesis using y by (auto simp: s0_def status_stored_def)
  next
    case None
    then have cr1: "cr s1 = y" and st: "status_stored c0 (cr s0) y" using y by auto
    then obtain b where b: "restore_Backup (st_Restore (drc_Status y)) = Some b"
      using rest None by (auto simp: the_instance_def go_panic_def split: option.split_asm)
    define s2 where "s2 = s1\<lparr>cr := upd_spec (\<lambda>sp. sp\<lparr>sp_ClusterReplicas := bst_ClusterReplicas (bk_Status b)\<rparr>) y\<rparr>"
    obtain e3 s3 where u3: "update_resource r s2 = Some (Ret (e3, s3))"
      and last: "(case e3 of Some e \<Rightarrow> go_ret (no_result, Some e) | None \<Rightarrow> go_ret (no_result, None)) s3 = Some (Ret ((res, err), s'))"
      using rest None by (auto simp: the_instance_def cr1 b set_instance_def go_try_Ret s2_def)
    have k2: "drc_key (cr s2) = drc_key (cr s)" "kube s2 = kube s1"
      using key [OF y(1)] by (simp_all add: s2_def)
    from update_resource_result [OF u3, unfolded k2, OF y(1)] obtain z where
      z: "C (kube s3) (drc_key (cr s)) = Some z" "T (kube s3) = T (kube s1)" "z = y \<and> e3 \<noteq> None \<or> spec_stored y (cr s2) z" by blast
    have s3: "s' = s3" "err = e3" using last by (auto simp: go_ret_def split: option.split_asm)
    have "restore_Backup (st_Restore (drc_Status (cr s))) = Some b"
      using b st by (simp add: status_stored_def s0_def set_phase_def)
    then show ?thesis using z y(2) st s3 by (auto simp: spec_stored_def status_stored_def s2_def s0_def)
  qed
qed

lemma adopt_frame: "adopt_backup s = Some (Ret ((u, err), s')) \<Longrightarrow> kube s' = kube s \<and> err = None"
  by (auto simp: adopt_backup_def the_instance_def go_panic_def go_ret_def set_instance_def Let_def split: option.split_asm)

lemma init_stored:
  assumes run: "initRestore r s = Some (Ret ((u, err), s'))" and c0: "C (kube s) (drc_key (cr s)) = Some c0"
    and new: "restore_Backup (st_Restore (drc_Status (cr s))) = None"
  shows "\<exists>c1. C (kube s') (drc_key (cr s)) = Some c1 \<and> T (kube s') = T (kube s)
    \<and> (c1 = c0 \<and> err \<noteq> None
       \<or> (\<exists>b. bst_Phase (bk_Status b) = BackupPhaseSucceeded
            \<and> status_stored c0 (upd_status (\<lambda>st. st\<lparr>st_Restore := \<lparr>restore_Phase = RestorePhaseRunning, restore_Backup = Some b\<rparr>\<rparr>) (cr s)) c1))"
proof -
  obtain i src where src: "sp_Init (drc_Spec (cr s)) = Some i" "BackupSource i = Some src"
    using run new by (auto simp: initRestore_def the_instance_def go_panic_def split: option.split_asm)
  obtain g k1 where g: "c_Get (backups (client r)) (src_Namespace src) (src_Name src) (kube s) = (g, k1)" by fastforce
  define s1 where "s1 = s\<lparr>kube := k1\<rparr>"
  have k1: "C (kube s1) = C (kube s)" "T (kube s1) = T (kube s)" "cr s1 = cr s" using backup_get [OF g] by (simp_all add: s1_def)
  show ?thesis
  proof (cases "\<exists>b. g = Inr b \<and> bst_Phase (bk_Status b) = BackupPhaseSucceeded")
    case False
    then have "s' = s1" "err \<noteq> None"
      using run new src g
      by (auto simp: initRestore_def the_instance_def go_get_def on_kube_def GetRedisClusterBackup_def go_ret_def s1_def
          split: sum.split_asm if_split_asm)
    then show ?thesis using k1 c0 by auto
  next
    case True
    then obtain b where b: "g = Inr b" "bst_Phase (bk_Status b) = BackupPhaseSucceeded" by blast
    let ?run = "upd_status (\<lambda>st. st\<lparr>st_Restore := \<lparr>restore_Phase = RestorePhaseRunning, restore_Backup = Some b\<rparr>\<rparr>)"
    define s2 where "s2 = s1\<lparr>cr := ?run (cr s)\<rparr>"
    obtain e3 s3 where u3: "update_status r s2 = Some (Ret (e3, s3))"
      and rest: "(case e3 of Some e \<Rightarrow> go_ret (False, Some e) | None \<Rightarrow> adopt_backup) s3 = Some (Ret ((u, err), s'))"
      using run new src g b
      by (auto simp: initRestore_def the_instance_def go_get_def on_kube_def GetRedisClusterBackup_def set_instance_def go_try_Ret s1_def s2_def)
    have k2: "drc_key (cr s2) = drc_key (cr s)" "C (kube s2) (drc_key (cr s)) = Some c0" "T (kube s2) = T (kube s)"
      using k1 c0 by (simp_all add: s2_def)
    from update_status_result [OF u3, unfolded k2(1,3), OF k2(2)] obtain y where
      y: "C (kube s3) (drc_key (cr s)) = Some y" "T (kube s3) = T (kube s)" "y = c0 \<and> e3 \<noteq> None \<or> status_stored c0 (?run (cr s)) y"
      by (auto simp: s2_def)
    have "kube s' = kube s3" "e3 \<noteq> None \<longrightarrow> err \<noteq> None"
      using rest by (auto simp: go_ret_def split: option.split_asm dest: adopt_frame)
    then show ?thesis using y b(2) by auto
  qed
qed

end

text \<open>C7.
  The phases of a restore are stored in their order. On a server with a status subresource, and as long as nobody else writes the
  resource, each of the three places leaves the stored restore as it was, and then it reports an error and has not touched the
  StatefulSets, or takes it exactly one step further: from no phase to running, with a backup that has succeeded; from
  running to restarting; or from restarting to succeeded. When the last step reports no error, the stored spec
  asks for the replicas the backup had. The claim covers every failing call and writes that fail on the way back.\<close>

theorem restore_phases_in_order:
  assumes "restore_server r C T" and "C (kube s) (drc_key (cr s)) = Some c0" and "restoring (cr s) = restoring c0"
    and "IsRestoreFromBackup (cr s)"
    and "restore_phase c0 = [] \<and> restore_Backup (st_Restore (drc_Status c0)) = None \<and> (\<exists>u. initRestore r s = Some (Ret ((u, err), s')))
      \<or> restore_phase c0 \<in> {''Running'', ''Restart''} \<and> (\<exists>res. restore_or_settle r adm infos podlist s = Some (Ret ((res, err), s')))"
  shows "\<exists>c1. C (kube s') (drc_key (cr s)) = Some c1
    \<and> (restoring c1 = restoring c0 \<and> err \<noteq> None \<and> T (kube s') = T (kube s) \<or> restore_next (restoring c0) (restoring c1))
    \<and> (restore_phase c0 = ''Restart'' \<and> err = None \<longrightarrow>
        (\<exists>b. restore_Backup (st_Restore (drc_Status c0)) = Some b \<and> sp_ClusterReplicas (drc_Spec c1) = bst_ClusterReplicas (bk_Status b)))"
proof -
  let ?R = "st_Restore (drc_Status c0)"
  have R: "st_Restore (drc_Status (cr s)) = ?R" and i: "requested (sp_Init (drc_Spec c0))"
    using assms(3,4) by (auto simp: restoring_def IsRestoreFromBackup_def requested_def split: option.splits if_splits)
  have ph: "restoring (set_phase p (cr s)) = (?R\<lparr>restore_Phase := p\<rparr>, sp_Init (drc_Spec c0))" for p
    using assms(3) by (simp add: set_phase_def restoring_def)
  note phases = RestorePhaseRunning_def RestorePhaseRestart_def
  from assms(5) consider
      (init) u where "restore_phase c0 = []" "restore_Backup ?R = None" "initRestore r s = Some (Ret ((u, err), s'))"
    | (restart) res where "restore_phase c0 = ''Running''" "restart_masters r s = Some (Ret ((res, err), s'))"
    | (finish) res where "restore_phase c0 = ''Restart''" "finish_restore r s = Some (Ret ((res, err), s'))"
    using assms(4) R
    by (auto simp: restore_or_settle_def the_instance_def IsRestoreRunning_def IsRestoreRestarting_def phases split: if_split_asm)
  then show ?thesis
  proof cases
    case init
    from restore_server.init_stored [OF assms(1) init(3) assms(2)] R init(2) obtain c1 where
      c1: "C (kube s') (drc_key (cr s)) = Some c1" "T (kube s') = T (kube s)" and
      "c1 = c0 \<and> err \<noteq> None \<or> (\<exists>b. bst_Phase (bk_Status b) = BackupPhaseSucceeded
         \<and> restoring c1 = (\<lparr>restore_Phase = RestorePhaseRunning, restore_Backup = Some b\<rparr>, sp_Init (drc_Spec c0)))"
      by (fastforce simp: status_stored_def restoring_def)
    then show ?thesis using restore_next.start [OF i] init(1) by (auto simp: restoring_def)
  next
    case restart
    from restore_server.restart_stored [OF assms(1) restart(2) assms(2)] obtain c1 where
      c1: "C (kube s') (drc_key (cr s)) = Some c1"
        "c1 = c0 \<and> err \<noteq> None \<and> T (kube s') = T (kube s) \<or> status_stored c0 (set_phase RestorePhaseRestart (cr s)) c1" by blast
    then show ?thesis using restore_next.restart [OF i] restart(1) ph [of RestorePhaseRestart]
      by (auto simp: restoring_def status_stored_def phases)
  next
    case finish
    from restore_server.finish_stored [OF assms(1) finish(2) assms(2)] obtain c1 where
      c1: "C (kube s') (drc_key (cr s)) = Some c1" "T (kube s') = T (kube s)"
        "c1 = c0 \<and> err \<noteq> None \<or> drc_Status c1 = drc_Status (set_phase RestorePhaseSucceeded (cr s))
          \<and> (drc_Spec c1 = drc_Spec c0 \<and> err \<noteq> None \<or> (\<exists>b. restore_Backup ?R = Some b
                \<and> drc_Spec c1 = (drc_Spec c0)\<lparr>sp_ClusterReplicas := bst_ClusterReplicas (bk_Status b)\<rparr>))"
      by (auto simp: R)
    then show ?thesis using restore_next.finish [OF i] finish(1) ph [of RestorePhaseSucceeded]
      by (auto simp: restoring_def phases)
  qed
qed

section \<open>A server that stores the two parts apart\<close>

definition stored_as :: "(drc \<Rightarrow> drc \<Rightarrow> drc) \<Rightarrow> drc \<Rightarrow> mem_kube \<Rightarrow> (goerr + drc) \<times> mem_kube" where
  "stored_as f x k = (case mem_objs drc_key m_clusters k (drc_key x) of
     None \<Rightarrow> (Inl (K8sError NotFound ''not found''), k)
   | Some old \<Rightarrow> (Inr (f old x), k\<lparr>m_clusters := f old x # filter (\<lambda>y. drc_key y \<noteq> drc_key x) (m_clusters k)\<rparr>))"

definition two_part_clusters :: "(drc, mem_kube) typed_client" where
  "two_part_clusters = (clusters mem_kube_client)\<lparr>
     c_Update := stored_as (\<lambda>old x. x\<lparr>drc_Status := drc_Status old\<rparr>),
     c_StatusUpdate := stored_as (\<lambda>old x. old\<lparr>drc_Status := drc_Status x\<rparr>)\<rparr>"

definition two_part_reconciler :: "mem_kube reconciler" where
  "two_part_reconciler = (mem_reconciler (configmaps mem_kube_client))\<lparr>client := mem_kube_client\<lparr>clusters := two_part_clusters\<rparr>\<rparr>"

lemma mem_objs_key: "mem_objs key get k q = Some c \<Longrightarrow> key c = q"
  by (auto simp: mem_objs_def find_Some_iff)

lemma stored_as_result:
  assumes "stored_as f x k = (v, k')" and "mem_objs drc_key m_clusters k (drc_key x) = Some old" and "drc_key (f old x) = drc_key x"
  shows "m_statefulsets k' = m_statefulsets k \<and> v = Inr (f old x) \<and> mem_objs drc_key m_clusters k' (drc_key x) = Some (f old x)"
  using assms by (auto simp: stored_as_def) (auto simp: mem_objs_def)

interpretation two_part: restore_server two_part_reconciler "mem_objs drc_key m_clusters" m_statefulsets
proof unfold_locales
  fix k q c assume "mem_objs drc_key m_clusters k q = Some c"
  then show "drc_key c = q" by (rule mem_objs_key)
next
  fix x k v k' old
  assume w: "c_StatusUpdate (clusters (client two_part_reconciler)) x k = (v, k')" and old: "mem_objs drc_key m_clusters k (drc_key x) = Some old"
  then have "stored_as (\<lambda>old x. old\<lparr>drc_Status := drc_Status x\<rparr>) x k = (v, k')"
    by (simp add: two_part_reconciler_def two_part_clusters_def)
  from stored_as_result [OF this old] mem_objs_key [OF old]
  show "m_statefulsets k' = m_statefulsets k \<and>
      (\<exists>y. mem_objs drc_key m_clusters k' (drc_key x) = Some y \<and> write_result status_stored old x v y)"
    by (simp add: write_result_def status_stored_def)
next
  fix x k v k' old
  assume w: "c_Update (clusters (client two_part_reconciler)) x k = (v, k')" and old: "mem_objs drc_key m_clusters k (drc_key x) = Some old"
  then have "stored_as (\<lambda>old x. x\<lparr>drc_Status := drc_Status old\<rparr>) x k = (v, k')"
    by (simp add: two_part_reconciler_def two_part_clusters_def)
  from stored_as_result [OF this old] mem_objs_key [OF old]
  show "m_statefulsets k' = m_statefulsets k \<and>
      (\<exists>y. mem_objs drc_key m_clusters k' (drc_key x) = Some y \<and> write_result spec_stored old x v y)"
    by (simp add: write_result_def spec_stored_def)
qed (auto simp: two_part_reconciler_def mem_kube_client_def mem_client_def mem_objs_def Let_def fun_eq_iff split: if_splits)

text \<open>A restore from a finished backup whose masters have restarted.\<close>

definition done_backup :: RedisClusterBackup where
  "done_backup = \<lparr>bk_Name = ''b'', bk_Namespace = ''default'', bk_UID = [], bk_Labels = None,
     bk_Spec = \<lparr>bs_Image = [], bs_RedisClusterName = ''old'', bs_Storage = None,
       bs_Backend = \<lparr>StorageSecretName = [], S3 = None, GCS = None, Azure = None, Swift = None, Local = None\<rparr>,
       bs_PodSpec = None, bs_ActiveDeadlineSeconds = None\<rparr>,
     bk_Status = \<lparr>bst_StartTime = None, bst_CompletionTime = None, bst_Phase = BackupPhaseSucceeded, bst_Reason = [],
       bst_MasterSize = 3, bst_ClusterReplicas = 1, bst_ClusterImage = ''redis:5''\<rparr>\<rparr>"

definition restarted_cluster :: drc where
  "restarted_cluster = upd_status (\<lambda>st. st\<lparr>st_Restore := \<lparr>restore_Phase = RestorePhaseRestart, restore_Backup = Some done_backup\<rparr>\<rparr>) restore_cluster"

definition restarted_sys :: "(mem_kube, admin_call list) sys" where
  "restarted_sys = \<lparr>cr = restarted_cluster, kube = empty_kube\<lparr>m_clusters := [restarted_cluster]\<rparr>, redis = [], store = (\<lambda>_. NewDefaultNode, 0)\<rparr>"

lemma restarted_facts:
  "mem_objs drc_key m_clusters (kube restarted_sys) (drc_key (cr restarted_sys)) = Some restarted_cluster"
  "IsRestoreFromBackup (cr restarted_sys)" "restore_phase restarted_cluster = ''Restart''" "restoring (cr restarted_sys) = restoring restarted_cluster"
  "cr restarted_sys = restarted_cluster" "\<not> IsRestoreRunning restarted_cluster" "IsRestoreRestarting restarted_cluster"
  by (simp_all add: restarted_sys_def restarted_cluster_def mem_objs_def IsRestoreFromBackup_def RestorePhaseRestart_def IsRestoreRunning_def
      IsRestoreRestarting_def RestorePhaseRunning_def)

definition no_infos :: ClusterInfos where
  "no_infos = \<lparr>Infos = [], infos_Status = ClusterInfosConsistent\<rparr>"

theorem restore_phases_in_order_witness:
  "\<exists>res s' c1. restore_or_settle two_part_reconciler (shrink_admin 16383) no_infos [] restarted_sys = Some (Ret ((res, None), s'))
     \<and> mem_objs drc_key m_clusters (kube s') (drc_key restarted_cluster) = Some c1
     \<and> restore_phase c1 = ''Succeeded'' \<and> sp_ClusterReplicas (drc_Spec c1) = 1"
proof -
  have "\<exists>res s'. finish_restore two_part_reconciler restarted_sys = Some (Ret ((res, None), s'))"
    by (simp add: finish_restore_def go_try_def go_bind_def go_ret_def set_instance_def the_instance_def update_status_def update_resource_def
        UpdateCRStatus_def UpdateCR_def written_def two_part_reconciler_def two_part_clusters_def stored_as_def mem_objs_def
        restarted_sys_def restarted_cluster_def set_phase_def)
  then obtain res s' where run: "restore_or_settle two_part_reconciler (shrink_admin 16383) no_infos [] restarted_sys = Some (Ret ((res, None), s'))"
    using restarted_facts by (auto simp: restore_or_settle_def go_bind_def the_instance_def)
  then have "\<exists>res. restore_or_settle two_part_reconciler (shrink_admin 16383) no_infos [] restarted_sys = Some (Ret ((res, None), s'))" by blast
  with restarted_facts(3) have step: "restore_phase restarted_cluster = [] \<and> restore_Backup (st_Restore (drc_Status restarted_cluster)) = None
      \<and> (\<exists>u. initRestore two_part_reconciler restarted_sys = Some (Ret ((u, None), s')))
    \<or> restore_phase restarted_cluster \<in> {''Running'', ''Restart''}
      \<and> (\<exists>res. restore_or_settle two_part_reconciler (shrink_admin 16383) no_infos [] restarted_sys = Some (Ret ((res, None), s')))"
    by simp
  from restore_phases_in_order [OF two_part.restore_server_axioms restarted_facts(1,4,2) step] restarted_facts(3) obtain c1 b where
    c1: "mem_objs drc_key m_clusters (kube s') (drc_key restarted_cluster) = Some c1" "restore_next (restoring restarted_cluster) (restoring c1)"
      "restore_Backup (st_Restore (drc_Status restarted_cluster)) = Some b" "sp_ClusterReplicas (drc_Spec c1) = bst_ClusterReplicas (bk_Status b)"
    by (auto simp: restarted_facts(5))
  have "b = done_backup" using c1(3) by (simp add: restarted_cluster_def)
  moreover have "restore_phase c1 = ''Succeeded''"
    using c1(2) restarted_facts(3)
    by (auto simp: restore_next_simps restoring_def RestorePhaseRunning_def RestorePhaseRestart_def RestorePhaseSucceeded_def)
  ultimately show ?thesis using run c1(1,4) by (auto simp: done_backup_def)
qed

end
