(* ===== verification/Creation.thy ===== *)
theory Creation
  imports SyncHandler
begin

text \<open>
  The creation of a cluster: \<open>syncCluster\<close> on nodes that own no slot yet puts the choice of the masters, the placing and
  attaching of the slaves and the allocation of the slots together. This theory shows that the parts fit.
\<close>

section \<open>What the parts leave alone\<close>

lemma name_nodes_slots: "Slots (fold (name_node cl) xs h q) = Slots (h q)"
proof (induction xs arbitrary: h)
  case (Cons x xs)
  have "Slots (name_node cl x h q) = Slots (h q)" by (simp add: name_node_def split: option.split)
  with Cons show ?case by simp
qed simp

lemma name_nodes_node:
  "ID (fold (name_node cl) xs h q) = ID (h q) \<and> IP (fold (name_node cl) xs h q) = IP (h q)
   \<and> GetRole (fold (name_node cl) xs h q) = GetRole (h q)"
proof (induction xs arbitrary: h)
  case (Cons x xs)
  have "ID (name_node cl x h q) = ID (h q)" "IP (name_node cl x h q) = IP (h q)" "GetRole (name_node cl x h q) = GetRole (h q)"
    by (simp_all add: name_node_def GetRole_def split: option.split)
  with Cons show ?case by simp
qed simp

lemma fold_mput_known: "q \<in> set ns \<or> map_of m (f q) \<noteq> None \<Longrightarrow> map_of (fold (\<lambda>q. mput (f q) q) ns m) (f q) \<noteq> None"
  by (induction ns arbitrary: m) auto

lemma fold_mput_same:
  "inj_on f (insert q (set ns)) \<Longrightarrow> q \<in> set ns \<or> map_of m (f q) = Some q \<Longrightarrow> map_of (fold (\<lambda>q. mput (f q) q) ns m) (f q) = Some q"
proof (induction ns arbitrary: m)
  case (Cons p ns)
  have "inj_on f (insert q (set ns))" using Cons.prems(1) by (rule inj_on_subset) auto
  moreover have "q \<in> set ns \<or> map_of (mput (f p) p m) (f q) = Some q"
    using Cons.prems by (auto simp: inj_on_def)
  ultimately show ?case using Cons.IH by simp
qed simp

text \<open>The view of the cluster: the nodes keep their ids, roles and slots, and each of them is known.\<close>

lemma newRedisCluster_view:
  assumes "newRedisCluster env infos c h0 = (cl, ns, h)"
  shows "ID (h q) = ID (h0 q)" "Slots (h q) = Slots (h0 q)" "IsMasterWithSlot (h q) = IsMasterWithSlot (h0 q)"
    and "q \<in> set ns \<Longrightarrow> sts_of h cl q \<noteq> None" and "IP (h q) = IP (h0 q)"
    and "inj_on (\<lambda>q. ID (h0 q)) (set ns) \<Longrightarrow> q \<in> set ns \<Longrightarrow> Cluster_GetNodeByID cl (ID (h q)) = Inr q"
proof -
  have h: "h = fold (name_node cl) (st_Nodes (drc_Status c)) h0"
    and nodes: "cluster_Nodes cl = fold (\<lambda>node. mput (ID (h0 node)) node) ns []"
    using assms by (auto simp: newRedisCluster_def Let_def)
  show id: "ID (h q) = ID (h0 q)" and "Slots (h q) = Slots (h0 q)" and "IP (h q) = IP (h0 q)"
    unfolding h by (simp_all add: name_nodes_node name_nodes_slots)
  then show "IsMasterWithSlot (h q) = IsMasterWithSlot (h0 q)"
    by (simp add: IsMasterWithSlot_def TotalSlots_def h name_nodes_node)
  assume q: "q \<in> set ns"
  show "Cluster_GetNodeByID cl (ID (h q)) = Inr q" if "inj_on (\<lambda>q. ID (h0 q)) (set ns)"
    using fold_mput_same [of "\<lambda>q. ID (h0 q)" q ns "[]"] q that by (simp add: Cluster_GetNodeByID_def id nodes insert_absorb)
  from q show "sts_of h cl q \<noteq> None"
    using fold_mput_known [of q ns "[]" "\<lambda>q. ID (h0 q)"]
    by (auto simp: sts_of_def Cluster_GetNodeByID_def id nodes split: option.split)
qed

lemma no_slots_no_master: "Slots n = [] \<Longrightarrow> \<not> IsMasterWithSlot n"
  by (simp add: IsMasterWithSlot_def TotalSlots_def)

lemma dispatch_loop_step:
  assumes "Ctx_DispatchMasters_loop env h (i # is) c = Ret (c', e)"
  shows "c' = c \<or> (\<exists>q b. Ctx_DispatchMasters_loop env h is
    (c\<lparr>bestEffort := b, newMastersBySts := mput (ClusterStatefulSetName (clusterName c) i) q (newMastersBySts c)\<rparr>) = Ret (c', e))"
proof -
  have same: "c\<lparr>newMastersBySts := m\<rparr> = c\<lparr>bestEffort := bestEffort c, newMastersBySts := m\<rparr>" for m by simp
  show ?thesis
    using assms by (auto simp: Let_def Ctx_PlaceMasters_def split: option.splits if_splits) (metis same)+
qed

lemma dispatch_loop_wf:
  "Ctx_DispatchMasters_loop env h is c = Ret (c', e) \<Longrightarrow> wf_map (newMastersBySts c) \<Longrightarrow> wf_map (newMastersBySts c')"
proof (induction "is" arbitrary: c)
  case (Cons i "is")
  from dispatch_loop_step [OF Cons.prems(1)] Cons.prems(2) Cons.IH show ?case by (auto intro: wf_mput)
qed simp

context slave_attacher
begin

lemma attach_slaves_slots:
  "attach_slaves adm masterID slaves h w e = (e', h', w') \<Longrightarrow> Slots (h' q) = Slots (h q)"
proof (induction slaves arbitrary: h w e)
  case (Cons slave slaves)
  obtain n err w1 where a: "adm_AttachSlaveToMaster adm (h slave) masterID w = ((n, err), w1)" by (metis prod.exhaust)
  define h1 where "h1 = h(slave := n)"
  have "attach_slaves adm masterID slaves h1 w1 (case err of None \<Rightarrow> e | Some x \<Rightarrow> Some x) = (e', h', w')"
    using Cons.prems a by (simp add: h1_def)
  from Cons.IH [OF this] have "Slots (h' q) = Slots (h1 q)" .
  then show ?case using attach_slots [OF a] by (simp add: h1_def)
qed simp

lemma attaching_slots:
  "AttachingSlavesToMaster_loop adm cl sl h w e = (e', h', w') \<Longrightarrow> Slots (h' q) = Slots (h q)"
proof (induction sl arbitrary: h w e)
  case (Cons p sl)
  obtain masterID slaves where p: "p = (masterID, slaves)" by (cases p)
  show ?case
  proof (cases "Cluster_GetNodeByID cl masterID")
    case (Inr m)
    obtain e1 h1 w1 where "attach_slaves adm (ID (h m)) slaves h w e = (e1, h1, w1)" by (metis prod.exhaust)
    with Cons p Inr attach_slaves_slots [OF this, of q] show ?thesis by simp
  qed (use Cons p in simp)
qed simp

text \<open>When no call failed, the given nodes are slaves of the given master; the others are as they were.\<close>

lemma attach_slaves_ok:
  "attach_slaves adm mid slaves h w e = (None, h', w') \<Longrightarrow> mid \<noteq> ''-'' \<Longrightarrow>
   e = None \<and> h' q = (if q \<in> set slaves then (h q)\<lparr>Role := RedisSlaveRole, MasterReferent := mid\<rparr> else h q)"
proof (induction slaves arbitrary: h w e)
  case (Cons slave slaves)
  obtain n err w1 where a: "adm_AttachSlaveToMaster adm (h slave) mid w = ((n, err), w1)" by (metis prod.exhaust)
  define h1 where "h1 = h(slave := n)"
  define e1 where "e1 = (case err of None \<Rightarrow> e | Some x \<Rightarrow> Some x)"
  have "attach_slaves adm mid slaves h1 w1 e1 = (None, h', w')" using Cons.prems(1) a by (simp add: h1_def e1_def)
  from Cons.IH [OF this Cons.prems(2)]
  have IH: "e1 = None" "h' q = (if q \<in> set slaves then (h1 q)\<lparr>Role := RedisSlaveRole, MasterReferent := mid\<rparr> else h1 q)" by simp_all
  then have none: "err = None" "e = None" by (auto simp: e1_def split: option.splits)
  then have "n = (h slave)\<lparr>Role := RedisSlaveRole, MasterReferent := mid\<rparr>"
    using attach_ok [of "h slave" mid w n w1] attach_frame [of "h slave" mid w n err w1] a Cons.prems(2) by simp
  then show ?case using IH none by (auto simp: h1_def)
qed simp

lemma attach_slaves_err: "attach_slaves adm mid slaves h w (Some e) = (err, h', w') \<Longrightarrow> err \<noteq> None"
proof (induction slaves arbitrary: h w e)
  case (Cons slave slaves)
  then show ?case by (auto split: prod.splits option.splits)
qed auto

lemma attaching_err: "AttachingSlavesToMaster_loop adm cl sl h w (Some e) = (err, h', w') \<Longrightarrow> err \<noteq> None"
proof (induction sl arbitrary: h w e)
  case (Cons p sl)
  obtain i slaves where p: "p = (i, slaves)" by (cases p)
  show ?case
  proof (cases "Cluster_GetNodeByID cl i")
    case (Inr m)
    obtain e1 h1 w1 where a: "attach_slaves adm (ID (h m)) slaves h w (Some e) = (e1, h1, w1)" by (metis prod.exhaust)
    then show ?thesis using Cons p Inr attach_slaves_err [OF a] by auto
  qed (use Cons p in simp)
qed auto

lemma attaching_ok:
  assumes "AttachingSlavesToMaster_loop adm cl sl h w e = (None, h', w')"
    and "\<And>i slaves. (i, slaves) \<in> set sl \<Longrightarrow> slaves \<noteq> [] \<Longrightarrow> i \<noteq> ''-'' \<and> (\<exists>m. Cluster_GetNodeByID cl i = Inr m \<and> ID (h m) = i)"
    and "\<And>i slaves. (i, slaves) \<in> set sl \<Longrightarrow> q \<in> set slaves \<Longrightarrow> i = mid"
  shows "h' q = (if \<exists>slaves. (mid, slaves) \<in> set sl \<and> q \<in> set slaves
    then (h q)\<lparr>Role := RedisSlaveRole, MasterReferent := mid\<rparr> else h q)"
  using assms
proof (induction sl arbitrary: h w e)
  case (Cons p sl)
  obtain i slaves where p: "p = (i, slaves)" by (cases p)
  obtain h1 w1 e1 where loop: "AttachingSlavesToMaster_loop adm cl sl h1 w1 e1 = (None, h', w')"
    and ok: "\<And>r. h1 r = (if r \<in> set slaves then (h r)\<lparr>Role := RedisSlaveRole, MasterReferent := i\<rparr> else h r)"
  proof (cases "Cluster_GetNodeByID cl i")
    case (Inl x)
    then have "slaves = []" using Cons.prems(2) [of i slaves] p by auto
    then show ?thesis using that [of h w e] Cons.prems(1) p Inl by simp
  next
    case (Inr m)
    obtain e1 h1 w1 where a: "attach_slaves adm (ID (h m)) slaves h w e = (e1, h1, w1)" by (metis prod.exhaust)
    have loop: "AttachingSlavesToMaster_loop adm cl sl h1 w1 e1 = (None, h', w')" using Cons.prems(1) p Inr a by simp
    then have e1: "e1 = None" using attaching_err by (metis option.exhaust)
    have "h1 r = (if r \<in> set slaves then (h r)\<lparr>Role := RedisSlaveRole, MasterReferent := i\<rparr> else h r)" for r
    proof (cases "slaves = []")
      case False
      then have "i \<noteq> ''-''" "ID (h m) = i" using Cons.prems(2) [of i slaves] p Inr by auto
      then show ?thesis using attach_slaves_ok [OF a [unfolded e1]] by simp
    qed (use a in simp)
    then show ?thesis by (rule that [OF loop])
  qed
  have ids: "ID (h1 r) = ID (h r)" for r using ok [of r] by simp
  have "h' q = (if \<exists>slaves. (mid, slaves) \<in> set sl \<and> q \<in> set slaves
      then (h1 q)\<lparr>Role := RedisSlaveRole, MasterReferent := mid\<rparr> else h1 q)"
    by (rule Cons.IH [OF loop]) (use Cons.prems(2,3) ids in \<open>auto 4 4\<close>)
  moreover have "q \<in> set slaves \<Longrightarrow> i = mid" using Cons.prems(3) p by auto
  ultimately show ?case using ok [of q] p by auto
qed simp

end

section \<open>Every slot is allocated once\<close>

lemma new_masters_distinct:
  assumes "wf_map nm" and "\<And>ss q. map_of nm ss = Some q \<Longrightarrow> f q = Some ss"
  shows "distinct (map snd nm)"
proof -
  have "inj_on snd (set nm)"
  proof (rule inj_onI)
    fix x y assume "x \<in> set nm" "y \<in> set nm" "snd x = snd y"
    then show "x = y" using assms by (metis map_of_is_SomeI option.inject prod.collapse)
  qed
  then show ?thesis using assms(1) by (simp add: distinct_map)
qed

text \<open>The masters, one for each StatefulSet, in the order of the range over them.\<close>

lemma new_masters:
  assumes "go_runtime env" and "Ctx_DispatchMasters env h (NewCtx h cl ns n name) = Ret (c, None)"
  shows "distinct (GetNewMasters env c) \<and> set (GetNewMasters env c) \<subseteq> set ns
    \<and> sts_of h cl ` set (GetNewMasters env c) = (\<lambda>i. Some (ClusterStatefulSetName name i)) ` {..<nat n}
    \<and> length (GetNewMasters env c) = nat n
    \<and> (\<exists>nm b. c = (NewCtx h cl ns n name)\<lparr>newMastersBySts := nm, bestEffort := b\<rparr>
         \<and> (\<forall>ss q. map_of nm ss = Some q \<longrightarrow> q \<in> set (GetNewMasters env c) \<and> sts_of h cl q = Some ss))"
proof -
  let ?c0 = "NewCtx h cl ns n name"
  from DispatchMasters_ok [of env h cl ns n name] assms(2) obtain nm b where c: "c = ?c0\<lparr>newMastersBySts := nm, bestEffort := b\<rparr>"
    and dom: "dom (map_of nm) = ClusterStatefulSetName name ` {..<nat n}"
    and mf: "\<And>ss q. map_of nm ss = Some q \<Longrightarrow> master_for h ?c0 ss q" by auto
  have wf: "wf_map nm"
    using dispatch_loop_wf [OF assms(2) [unfolded Ctx_DispatchMasters_def]] by (simp add: c NewCtx_spec)
  have sts: "q \<in> set ns \<and> sts_of h cl q = Some ss" if "map_of nm ss = Some q" for ss q
    using mf [OF that] by (simp add: master_for_def NewCtx_spec)
  have perm: "mset (GetNewMasters env c) = mset (map snd nm)"
    using go_runtime.mrange_perm [OF assms(1) wf] by (simp add: GetNewMasters_def c)
  have "distinct (map snd nm)" using new_masters_distinct [OF wf, of "sts_of h cl"] sts by blast
  then have d: "distinct (GetNewMasters env c)" using perm mset_eq_imp_distinct_iff by blast
  have set: "set (GetNewMasters env c) = ran (map_of nm)"
    using mset_eq_setD [OF perm] wf by (simp add: ran_distinct)
  have "sts_of h cl ` ran (map_of nm) = Some ` dom (map_of nm)"
    using sts by (force simp: ran_def dom_def)
  moreover have "length (GetNewMasters env c) = card (dom (map_of nm))"
    using size_mset [of "GetNewMasters env c"] wf by (simp add: perm dom_map_of_conv_image_fst distinct_card flip: set_map)
  moreover have "card (ClusterStatefulSetName name ` {..<nat n}) = nat n"
    by (simp add: card_image inj_on_def)
  ultimately show ?thesis
    using d set sts c by (auto simp: dom image_image ran_def)
qed

text \<open>Together: every node of the view follows the new master of its StatefulSet; the masters are left alone.\<close>

definition nodes_apart :: "nheap \<Rightarrow> nref list \<Rightarrow> bool" where
  "nodes_apart h ns \<longleftrightarrow> inj_on (\<lambda>q. ID (h q)) (set ns) \<and> inj_on (\<lambda>q. IP (h q)) (set ns) \<and> (\<forall>q\<in>set ns. ID (h q) \<noteq> ''-'')"

lemma placed_attached:
  assumes "go_runtime env" and "slave_attacher adm"
    and c: "c = (NewCtx h cl ns n name)\<lparr>newMastersBySts := nm, bestEffort := b\<rparr>"
    and nm: "\<And>ss q. map_of nm ss = Some q \<Longrightarrow> q \<in> set ns \<and> sts_of h cl q = Some ss"
    and apart: "nodes_apart h ns" and known: "\<And>q. q \<in> set ns \<Longrightarrow> Cluster_GetNodeByID cl (ID (h q)) = Inr q"
    and place: "Ctx_PlaceSlaves env h c = Ret c2" and attach: "AttachingSlavesToMaster env adm c2 h w = (None, h2, w2)"
    and q: "q \<in> set ns"
  obtains m ss where "map_of nm ss = Some m" and "sts_of h cl q = Some ss"
    and "h2 q = (if q \<noteq> m \<and> to_attach h m q then (h q)\<lparr>Role := RedisSlaveRole, MasterReferent := ID (h m)\<rparr> else h q)"
proof -
  have ok: "ctx_ok h c" and c': "slavesByMaster c = []" "newMastersBySts c = nm" "ctx_cluster c = cl" "ctx_nodes c = ctx_nodes (NewCtx h cl ns n name)"
    using ctx_ok_NewCtx [of h cl ns n name] by (simp_all add: c ctx_ok_def NewCtx_spec)
  have eq: "q = q'" if "q \<in> set ns" "q' \<in> set ns" "ID (h q) = ID (h q')" for q q'
    using that apart by (auto simp: nodes_apart_def dest: inj_onD)
  have ids: "\<forall>ss ss' m m'. map_of nm ss = Some m \<longrightarrow> map_of nm ss' = Some m' \<longrightarrow> ID (h m') = ID (h m) \<longrightarrow> ss' = ss"
    using nm eq by (metis option.inject)
  obtain ss where ss: "sts_of h cl q = Some ss" using known [OF q] by (auto simp: sts_of_def)
  have res: "\<not> (\<exists>ss \<in> dom (map_of (GetStatefulsetNodes c)). map_of nm ss = None)"
    and sl: "\<And>ss m. map_of nm ss = Some m \<Longrightarrow> mget [] (slavesByMaster c2) (ID (h m)) = filter (to_attach h m) (mget [] (ctx_nodes c) ss)"
    using PlaceSlaves_result [OF assms(1) ok c'(1)] ids place by (auto simp: c' GetSlaves_def split: if_splits)
  have "map_of (ctx_nodes c) ss \<noteq> None" using q ss by (auto simp: c' NewCtx_spec)
  then obtain m where m: "map_of nm ss = Some m" using res by (auto simp: GetStatefulsetNodes_def)
  define l where "l = mrange env 1 (ctx_nodes c)"
  have "PlaceSlaves_sts h l (c\<lparr>bestEffort := True\<rparr>) = Ret c2" using place by (simp add: Ctx_PlaceSlaves_def l_def)
  note frame = PlaceSlaves_sts_frame [OF this]
  have wf: "wf_map (slavesByMaster c2)" and cl2: "ctx_cluster c2 = cl" using frame by (simp_all add: c')
  define sm where "sm = mrange env 3 (slavesByMaster c2)"
  have in_sm: "(i, slaves) \<in> set sm \<longleftrightarrow> map_of (slavesByMaster c2) i = Some slaves" for i slaves
    using go_runtime.mrange_set [OF assms(1) wf] wf by (simp add: sm_def)
  have filed: "\<exists>ss m. map_of nm ss = Some m \<and> ID (h m) = i \<and> r \<in> set ns \<and> sts_of h cl r = Some ss \<and> to_attach h m r"
    if "(i, slaves) \<in> set sm" "r \<in> set slaves" for i slaves r
  proof -
    have "mget [] (slavesByMaster c2) i = placed h nm i l" using frame by (simp add: c')
    then have "r \<in> set (placed h nm i l)" using that in_sm by (simp add: mget_def)
    then obtain ss m where m: "map_of nm ss = Some m" "ID (h m) = i" by (force simp: placed_def split: option.splits if_splits)
    then have "r \<in> set (filter (to_attach h m) (mget [] (ctx_nodes c) ss))" using sl [OF m(1)] that in_sm by (simp add: mget_def)
    then show ?thesis using m by (auto simp: c' NewCtx_spec)
  qed
  have loop: "AttachingSlavesToMaster_loop adm cl sm h w None = (None, h2, w2)"
    using attach by (simp add: AttachingSlavesToMaster_def cl2 sm_def)
  have h2: "h2 q = (if \<exists>slaves. (ID (h m), slaves) \<in> set sm \<and> q \<in> set slaves
      then (h q)\<lparr>Role := RedisSlaveRole, MasterReferent := ID (h m)\<rparr> else h q)"
  proof (rule slave_attacher.attaching_ok [OF assms(2) loop])
    fix i slaves assume "(i, slaves) \<in> set sm" "slaves \<noteq> []"
    then obtain m ss where m: "map_of nm ss = Some m" "ID (h m) = i" using filed by (meson list.set_sel(1))
    then have "m \<in> set ns" using nm by blast
    then show "i \<noteq> ''-'' \<and> (\<exists>m. Cluster_GetNodeByID cl i = Inr m \<and> ID (h m) = i)"
      using m known apart by (auto simp: nodes_apart_def)
  next
    fix i slaves assume "(i, slaves) \<in> set sm" "q \<in> set slaves"
    then show "i = ID (h m)" using filed ss m by fastforce
  qed
  have "(\<exists>slaves. (ID (h m), slaves) \<in> set sm \<and> q \<in> set slaves) \<longleftrightarrow> q \<in> set (mget [] (slavesByMaster c2) (ID (h m)))"
    by (cases "map_of (slavesByMaster c2) (ID (h m))") (auto simp: in_sm mget_def)
  also have "\<dots> \<longleftrightarrow> q \<noteq> m \<and> to_attach h m q" using sl [OF m] q ss by (auto simp: c' NewCtx_spec to_attach_def)
  finally show thesis using that [OF m ss] h2 by simp
qed

text \<open>C4.
  Creating a cluster gives every slot to exactly one master and makes every other node its slave. When no node owns a slot, the
  nodes have different ids and addresses, and \<open>syncCluster\<close> succeeds, there is one master for each of the wanted StatefulSets,
  taken from the nodes of that StatefulSet; the slots of the masters, one after the other, are the slots 0 to 16383; and every
  other node owns no slot and is a slave of the master of its own StatefulSet. This holds for every order of the range loops
  and every admin whose \<open>AttachSlaveToMaster\<close> changes only the role and the master of the slave.\<close>

theorem syncCluster_creates:
  assumes "go_runtime (runtime r)" and "slave_attacher adm" and "GetHashMaxSlot adm = 16383"
    and "1 \<le> sp_MasterSize (drc_Spec (cr s))" and "sp_MasterSize (drc_Spec (cr s)) \<le> 16384"
    and "newRedisCluster (runtime r) infos (cr s) (fst (store s)) = (cl, ns, h)"
    and "\<forall>q \<in> set ns. Slots (fst (store s) q) = []" and "nodes_apart (fst (store s)) ns"
    and "syncCluster r adm infos s = Some (Ret (None, s'))"
  shows "\<exists>ms. distinct ms \<and> set ms \<subseteq> set ns
    \<and> sts_of h cl ` set ms = (\<lambda>i. Some (ClusterStatefulSetName (drc_Name (cr s)) i)) ` {..<nat (sp_MasterSize (drc_Spec (cr s)))}
    \<and> length ms = nat (sp_MasterSize (drc_Spec (cr s)))
    \<and> concat (map (\<lambda>q. Slots (fst (store s') q)) ms) = [0..<16384]
    \<and> (\<forall>q \<in> set ns - set ms. Slots (fst (store s') q) = []
        \<and> IsSlave (fst (store s') q)
        \<and> (\<exists>m \<in> set ms. sts_of h cl m = sts_of h cl q \<and> MasterReferent (fst (store s') q) = ID (fst (store s) m)))"
proof -
  let ?env = "runtime r" let ?n = "sp_MasterSize (drc_Spec (cr s))" let ?name = "drc_Name (cr s)"
  note view = newRedisCluster_view [OF assms(6)]
  have h: "Slots (h q) = []" if "q \<in> set ns" for q
    using that assms(7) view(2) by simp
  have apart: "nodes_apart h ns" and known: "\<And>q. q \<in> set ns \<Longrightarrow> Cluster_GetNodeByID cl (ID (h q)) = Inr q"
    using assms(8) view(6) by (auto simp: nodes_apart_def view(1,5))
  let ?s1 = "s\<lparr>store := (h, snd (store s))\<rparr>"
  obtain c where disp: "Ctx_DispatchMasters ?env h (NewCtx h cl ns ?n ?name) = Ret (c, None)"
    and step: "clustering_step r adm c (GetCurrentMasters c) (GetNewMasters ?env c) ?s1 = Some (Ret (None, s'))"
    using assms(6,9)
    by (auto simp: syncCluster_def go_bind_def the_instance_def the_heap_def set_heap_def go_outcome_def go_ret_def
        split: outcome.splits option.splits)
  note nm = new_masters [OF assms(1) disp]
  let ?ms = "GetNewMasters ?env c"
  obtain nm b where c: "c = (NewCtx h cl ns ?n ?name)\<lparr>newMastersBySts := nm, bestEffort := b\<rparr>"
    and chosen: "\<And>ss q. map_of nm ss = Some q \<Longrightarrow> q \<in> set ?ms \<and> sts_of h cl q = Some ss"
    using nm by blast
  have "currentMasters c = []"
    using h by (auto simp: c NewCtx_spec filter_empty_conv no_slots_no_master)
  then obtain c2 h2 w2 h3 w3 where place: "Ctx_PlaceSlaves ?env h c = Ret c2"
    and attach: "AttachingSlavesToMaster ?env adm c2 h (redis s) = (None, h2, w2)"
    and alloc: "Ctx_AllocSlots adm ?ms h2 w2 = Some (None, h3, w3)" and s': "fst (store s') = h3"
    using step
    by (auto simp: clustering_step_def place_and_attach_def go_bind_def the_instance_def the_heap_def go_outcome_def go_try_def go_ret_def
        on_nodes_def GetCurrentMasters_def split: outcome.splits option.splits prod.splits)
  have len: "1 \<le> length ?ms" "length ?ms \<le> 16384" using nm assms(4,5) by auto
  from AllocSlots_ok [OF assms(3) _ len, of h2 w2] nm alloc
  have h3: "concat (map (\<lambda>q. Slots (h3 q)) ?ms) = [0..<16384]" "\<forall>q. q \<notin> set ?ms \<longrightarrow> h3 q = h2 q" by auto
  have "Slots (h3 q) = [] \<and> IsSlave (h3 q)
      \<and> (\<exists>m \<in> set ?ms. sts_of h cl m = sts_of h cl q \<and> MasterReferent (h3 q) = ID (fst (store s) m))"
    if q: "q \<in> set ns" "q \<notin> set ?ms" for q
  proof -
    have sub: "\<And>ss q. map_of nm ss = Some q \<Longrightarrow> q \<in> set ns \<and> sts_of h cl q = Some ss" using chosen nm by blast
    obtain m ss where m: "map_of nm ss = Some m" "sts_of h cl q = Some ss"
      and h2: "h2 q = (if q \<noteq> m \<and> to_attach h m q then (h q)\<lparr>Role := RedisSlaveRole, MasterReferent := ID (h m)\<rparr> else h q)"
      by (rule placed_attached [OF assms(1,2) c sub apart known place attach q(1)])
    have "q \<noteq> m" "m \<in> set ns" using chosen [OF m(1)] q(2) nm by auto
    then have "IP (h q) \<noteq> IP (h m)" using apart q(1) by (auto simp: nodes_apart_def dest: inj_onD)
    moreover have "IsSlave (n\<lparr>Role := RedisSlaveRole, MasterReferent := i\<rparr>)" for n i by (simp add: IsSlave_def GetRole_def role_defs)
    ultimately show ?thesis
      using h2 h3(2) q chosen [OF m(1)] m h [OF q(1)] view(1) \<open>q \<noteq> m\<close> by (auto simp: to_attach_def)
  qed
  with nm h3 show ?thesis unfolding s' by (intro exI [of _ ?ms]) auto
qed

text \<open>A cluster of one master and one slave, from the two nodes of its only StatefulSet.\<close>

definition create_heap :: nheap where
  "create_heap = (\<lambda>q. if q = 0 then NewDefaultNode\<lparr>ID := ''a'', IP := ''10.0.0.1'', Role := ''master''\<rparr>
     else NewDefaultNode\<lparr>ID := ''b'', IP := ''10.0.0.2'', Role := ''master''\<rparr>)"

definition create_infos :: ClusterInfos where
  "create_infos = \<lparr>Infos = [(''10.0.0.1:6379'', \<lparr>nodeinfos_Node = 0, Friends = [], friends_cap = 0\<rparr>),
     (''10.0.0.2:6379'', \<lparr>nodeinfos_Node = 2, Friends = [], friends_cap = 0\<rparr>)], infos_Status = ClusterInfosConsistent\<rparr>"

definition create_node :: "string \<Rightarrow> string \<Rightarrow> RedisClusterNode" where
  "create_node i a = \<lparr>an_ID = i, an_Role = [], an_IP = a, an_Port = ''6379'', an_Slots = [], an_MasterRef = [],
     an_PodName = ''p'', an_NodeName = ''vm'', an_StatefulSet = ''drc-example-0''\<rparr>"

definition create_cluster :: drc where
  "create_cluster = sample_cluster\<lparr>drc_Spec := sample_spec\<lparr>sp_MasterSize := 1\<rparr>,
     drc_Status := sample_status\<lparr>st_Nodes := [create_node ''a'' ''10.0.0.1'', create_node ''b'' ''10.0.0.2'']\<rparr>\<rparr>"

definition create_sys :: "(mem_kube, admin_call list) sys" where
  "create_sys = \<lparr>cr = create_cluster, kube = empty_kube, redis = [], store = (create_heap, 3)\<rparr>"

interpretation shrink: slave_attacher "shrink_admin maxslot"
  for maxslot
  by unfold_locales (auto simp: shrink_admin_def IAdmin.extend_def IAdminFull.fields_def recording_admin_def SetReferentMaster_def)

lemma create_name: "ClusterStatefulSetName ''example'' 0 = ''drc-example-0''"
  by code_simp

text \<open>The view of the cluster: both nodes belong to the StatefulSet and none of them owns a slot.\<close>

definition create_view :: nheap where
  "create_view = create_heap(0 := (create_heap 0)\<lparr>PodName := ''p'', NodeName := ''vm'', Node.StatefulSet := ''drc-example-0''\<rparr>,
     2 := (create_heap 2)\<lparr>PodName := ''p'', NodeName := ''vm'', Node.StatefulSet := ''drc-example-0''\<rparr>)"

definition create_known :: Cluster where
  "create_known = (NewCluster ''example'' ''default'')\<lparr>cluster_Nodes := [(''a'', 0), (''b'', 2)]\<rparr>"

lemma create_new:
  "newRedisCluster go_env_det create_infos (cr create_sys) (fst (store create_sys)) = (create_known, [0, 2], create_view)"
  by (simp add: newRedisCluster_def GetNodes_def create_infos_def mrange_def go_env_det_def map_filter_def create_sys_def create_heap_def
      create_cluster_def create_known_def create_view_def create_node_def name_node_def sample_cluster_def)

lemma create_facts:
  "Slots (create_view q) = []" "Slots (fst (store create_sys) q) = []" "nodes_apart (fst (store create_sys)) [0, 2]"
  "sts_of create_view create_known 0 = Some ''drc-example-0''" "sts_of create_view create_known 2 = Some ''drc-example-0''"
  "drc_Name (cr create_sys) = ''example''" "sp_MasterSize (drc_Spec (cr create_sys)) = 1" "\<not> IsMasterWithSlot (create_view q)"
  by (simp_all add: create_view_def create_sys_def create_heap_def NewDefaultNode_def nodes_apart_def sts_of_def Cluster_GetNodeByID_def
      create_known_def create_cluster_def no_slots_no_master)

definition create_ctx :: Ctx where
  "create_ctx = (NewCtx create_view create_known [0, 2] 1 ''example'')\<lparr>newMastersBySts := [(''drc-example-0'', 0)]\<rparr>"

lemma create_nodes: "ctx_nodes (NewCtx create_view create_known [0, 2] 1 ''example'') = [(''drc-example-0'', [0, 2])]"
  by (simp add: NewCtx_def Cluster_GetNodeByID_def create_known_def create_view_def create_heap_def mappend_def GetRole_def TotalSlots_def
      NewDefaultNode_def Let_def mget_def)

lemma create_dispatch:
  "Ctx_DispatchMasters go_env_det create_view (NewCtx create_view create_known [0, 2] 1 ''example'') = Ret (create_ctx, None)"
  "GetCurrentMasters create_ctx = []" "GetNewMasters go_env_det create_ctx = [0]"
  by (simp_all add: Ctx_DispatchMasters_def NewCtx_spec create_nodes create_name create_facts Ctx_PlaceMasters_def mget_def GetNodesByFunc_def
      mrange_def go_env_det_def map_filter_def create_ctx_def GetCurrentMasters_def GetNewMasters_def)

lemma create_place:
  "Ctx_PlaceSlaves go_env_det create_view create_ctx = Ret (create_ctx\<lparr>bestEffort := True, slavesByMaster := [(''a'', [2])]\<rparr>)"
proof -
  have "ID (create_view 0) = ''a''" "IP (create_view 0) \<noteq> IP (create_view 2)" "NodeName (create_view 2) = NodeName (create_view 0)"
    "GetRole (create_view 2) \<noteq> RedisClusterNodeRoleSlave"
    by (simp_all add: create_view_def create_heap_def GetRole_def NewDefaultNode_def role_defs)
  then show ?thesis
    by (simp add: Ctx_PlaceSlaves_def create_ctx_def create_nodes mrange_def go_env_det_def map_filter_def NewCtx_spec
        mappend_def mget_def Let_def)
qed

lemma create_attach:
  "\<exists>h2 w2. AttachingSlavesToMaster go_env_det (shrink_admin 16383) (create_ctx\<lparr>bestEffort := True, slavesByMaster := [(''a'', [2])]\<rparr>) create_view w
     = (None, h2, w2)"
  by (simp add: AttachingSlavesToMaster_def mrange_def go_env_det_def map_filter_def create_ctx_def NewCtx_spec Cluster_GetNodeByID_def
      create_known_def shrink_admin_def IAdmin.extend_def IAdminFull.fields_def recording_admin_def)

theorem syncCluster_creates_witness:
  "\<exists>s'. syncCluster (mem_reconciler (configmaps mem_kube_client)) (shrink_admin 16383) create_infos create_sys = Some (Ret (None, s'))
     \<and> (\<exists>m q. {m, q} = {0, 2} \<and> Slots (fst (store s') m) = [0..<16384] \<and> Slots (fst (store s') q) = []
          \<and> IsSlave (fst (store s') q) \<and> MasterReferent (fst (store s') q) = ID (create_heap m))"
proof -
  let ?r = "mem_reconciler (configmaps mem_kube_client)" let ?adm = "shrink_admin 16383"
  have env: "runtime ?r = go_env_det" by (simp add: mem_reconciler_def)
  have max: "GetHashMaxSlot ?adm = 16383" "\<forall>a s w. fst (adm_AddSlots ?adm a s w) = None"
    by (simp_all add: shrink_admin_def IAdmin.extend_def IAdminFull.fields_def recording_admin_def)
  obtain h2 w2 where att: "AttachingSlavesToMaster go_env_det ?adm (create_ctx\<lparr>bestEffort := True, slavesByMaster := [(''a'', [2])]\<rparr>)
      create_view [] = (None, h2, w2)" using create_attach by blast
  from AllocSlots_ok [OF max(1), of "[0]" h2 w2] max(2) obtain h3 w3 where alloc: "Ctx_AllocSlots ?adm [0] h2 w2 = Some (None, h3, w3)"
    by auto
  obtain s' where run: "syncCluster ?r ?adm create_infos create_sys = Some (Ret (None, s'))"
    using create_new create_dispatch create_place att alloc
    by (simp add: syncCluster_def clustering_step_def place_and_attach_def go_bind_def the_instance_def the_heap_def set_heap_def go_outcome_def
        go_try_def go_ret_def on_nodes_def env create_facts) (simp add: create_sys_def go_ret_def on_nodes_def)
  have new: "newRedisCluster (runtime ?r) create_infos (cr create_sys) (fst (store create_sys)) = (create_known, [0, 2], create_view)"
    by (simp only: env create_new)
  have pre: "go_runtime (runtime ?r)" "1 \<le> sp_MasterSize (drc_Spec (cr create_sys))" "sp_MasterSize (drc_Spec (cr create_sys)) \<le> 16384"
    "\<forall>q \<in> set [0, 2]. Slots (fst (store create_sys) q) = []"
    by (simp_all add: env create_facts det.go_runtime_axioms)
  from syncCluster_creates [OF pre(1) shrink.slave_attacher_axioms max(1) pre(2,3) new pre(4) create_facts(3) run] obtain xs
    where xs': "length xs = nat (sp_MasterSize (drc_Spec (cr create_sys)))" "set xs \<subseteq> set [0, 2]"
      and xs: "concat (map (\<lambda>q. Slots (fst (store s') q)) xs) = [0..<16384]"
      "\<forall>q \<in> set [0, 2] - set xs. Slots (fst (store s') q) = [] \<and> IsSlave (fst (store s') q)
         \<and> (\<exists>m\<in>set xs. sts_of create_view create_known m = sts_of create_view create_known q
             \<and> MasterReferent (fst (store s') q) = ID (fst (store create_sys) m))"
    by (elim exE conjE) (rule that)
  from xs'(1) obtain m where m: "xs = [m]" by (cases xs) (auto simp: create_facts)
  define q :: nat where "q = 2 - m"
  have q: "{m, q} = {0, 2}" "q \<in> set [0, 2] - set xs" using xs'(2) by (auto simp: m q_def)
  have "Slots (fst (store s') m) = [0..<16384]" using xs(1) unfolding m by (simp del: upt_rec_numeral)
  moreover have "ID (fst (store create_sys) m) = ID (create_heap m)" by (simp add: create_sys_def)
  ultimately show ?thesis using bspec [OF xs(2) q(2)] unfolding m
    by (intro exI [of _ s'] conjI run exI [of _ m] exI [of _ q] q(1)) (auto simp del: upt_rec_numeral)
qed

end
