(* ===== verification/Shrinking.thy ===== *)
theory Shrinking
  imports Creation
begin

text \<open>
  Scaling a cluster down: \<open>syncCluster\<close> on a cluster that has more masters than wanted puts the choice of the masters, the
  migration of the slots and the removal of the superfluous shards together. This theory shows that the parts fit: the
  slots have left a shard before its objects are deleted.
\<close>

section \<open>Removing shards\<close>

lemma remove_shards_returns:
  "\<exists>err s'. remove_shards r adm c nodes is s = Some (Ret (err, s')) \<and> store s' = store s"
proof (induction "is" arbitrary: s)
  case Nil
  show ?case by (simp add: go_ret_def)
next
  case (Cons i rest)
  have "\<exists>err s'. remove_shards r adm c nodes rest (s\<lparr>redis := w, kube := k\<rparr>) = Some (Ret (err, s')) \<and> store s' = store s" for w k
    using Cons.IH [of "s\<lparr>redis := w, kube := k\<rparr>"] by simp
  then show ?case
    by (auto simp: go_get_def go_try_def go_bind_def on_kube_def on_redis_def the_heap_def go_ret_def Let_def
        split: prod.split sum.split option.split)
qed

lemma forget_shard_free:
  assumes "\<forall>i w. fst (adm_ForgetNode adm i w) = None"
  shows "slot_free h ns \<Longrightarrow> \<exists>w'. forget_shard adm h ns w = (None, w')"
proof (induction ns arbitrary: w)
  case (Cons q ns)
  obtain w1 where "adm_ForgetNode adm (ID (h q)) w = (None, w1)" using assms by (metis prod.collapse)
  with Cons show ?case by (simp add: slot_free_def)
qed simp

text \<open>Shards without slots are removed, unless a StatefulSet cannot be read.\<close>

lemma remove_shards_fails:
  assumes "remove_shards r adm c nodes is s = Some (Ret (Some e, s'))" and "fst (store s) = h"
    and "\<forall>i \<in> set is. slot_free h (shard_nodes nodes c i)" and "\<forall>i w. fst (adm_ForgetNode adm i w) = None"
  shows "\<exists>gone i rest. is = gone @ i # rest
    \<and> isl (fst (GetStatefulSet (client r) (drc_Namespace c) (ClusterStatefulSetName (drc_Name c) i) (fold (removal r c) gone (kube s))))"
  using assms(1-3)
proof (induction "is" arbitrary: s)
  case Nil
  then show ?case by (simp add: go_ret_def)
next
  case (Cons i rest)
  then obtain w1 where f: "forget_shard adm h (shard_nodes nodes c i) (redis s) = (None, w1)"
    using forget_shard_free [OF assms(4)] by (metis list.set_intros(1))
  show ?case
  proof (cases "GetStatefulSet (client r) (drc_Namespace c) (ClusterStatefulSetName (drc_Name c) i) (kube s)")
    case (Pair g k1)
    show ?thesis
    proof (cases g)
      case (Inl x)
      then show ?thesis using Pair by (intro exI [of _ "[]"] exI [of _ i] exI [of _ rest]) simp
    next
      case (Inr sts)
      then have "removal r c i (kube s) = delete_shard r c i sts k1" using Pair by (simp add: removal_def)
      moreover have "remove_shards r adm c nodes rest (s\<lparr>redis := w1, kube := delete_shard r c i sts k1\<rparr>) = Some (Ret (Some e, s'))"
        using Cons.prems(1,2) Pair Inr f
        by (simp add: go_get_def go_try_def go_bind_def on_kube_def on_redis_def the_heap_def Let_def)
      ultimately obtain gone j rest' where "rest = gone @ j # rest'" "isl (fst (GetStatefulSet (client r) (drc_Namespace c)
          (ClusterStatefulSetName (drc_Name c) j) (fold (removal r c) gone (removal r c i (kube s)))))"
        using Cons.IH [of "s\<lparr>redis := w1, kube := delete_shard r c i sts k1\<rparr>"] Cons.prems(2,3) by auto
      then show ?thesis by (intro exI [of _ "i # gone"] exI [of _ j] exI [of _ rest']) simp
    qed
  qed
qed

lemma rev_upt_split: "rev [n..<m] = gone @ i # rest \<Longrightarrow> gone = rev [Suc i..<m] \<and> n \<le> i \<and> i < m"
proof -
  assume "rev [n..<m] = gone @ i # rest"
  then have u: "[n..<m] = rev rest @ i # rev gone" by (metis append.assoc append_Cons append_Nil rev.simps(2) rev_append rev_rev_ident)
  then have i: "n \<le> i \<and> i < m" by (metis atLeastLessThan_iff in_set_conv_decomp set_upt)
  have "i = [n..<m] ! length rest" using u by (simp add: nth_append)
  moreover have "length rest < m - n" using arg_cong [OF u, of length] by simp
  ultimately have "length rest = i - n" by simp
  then have "drop (Suc (i - n)) [n..<m] = rev gone" using u by simp
  then show ?thesis using i by (metis Suc_diff_le add_Suc_right drop_upt le_add_diff_inverse rev_rev_ident)
qed

section \<open>The resource while the status is written\<close>

definition shape :: "drc \<Rightarrow> string \<times> string \<times> int" where
  "shape c = (drc_Name c, drc_Namespace c, sp_MasterSize (drc_Spec c))"

text \<open>An API server that returns the name, the namespace and the wanted number of masters as they were sent.\<close>

locale shape_server = cr_answers r shape
  for r :: "'k reconciler"
begin

lemma shape_kept:
  assumes "UpdateCRStatus (clusters (client r)) (scale_down_status m c0) k0 = ((e, c), k)"
  shows "shape c = shape c0"
proof -
  have "shape (scale_down_status m c0) = shape c0" by (simp add: scale_down_status_def shape_def)
  then show ?thesis
    using assms by (auto simp: UpdateCRStatus_def written_def dest: status_answer split: prod.splits sum.splits)
qed

end

interpretation mem_shape: shape_server "mem_reconciler cms"
  for cms
  by unfold_locales (auto simp: mem_reconciler_def mem_kube_client_def dest: mem_update_same)

lemma scalingDown_run:
  assumes "UpdateCRStatus (clusters (client r)) (scale_down_status m (cr s)) (kube s) = ((e, c), k)"
  shows "scalingDown r adm m nodes s = remove_shards r adm c nodes (surplus_shards m c)
    (s\<lparr>cr := c, kube := k, redis := disconnect_shards adm (fst (store s)) c nodes (surplus_shards m c) (redis s)\<rparr>)"
  using assms by (simp add: scalingDown_def go_bind_def set_instance_def update_status_def the_instance_def the_heap_def on_redis_def)

section \<open>From the migration to the removal\<close>

text \<open>What the nodes of a cluster should look like: no two have the same id, no slot has two owners, and only masters own slots.\<close>

definition exclusive_owners :: "nheap \<Rightarrow> Nodes \<Rightarrow> bool" where
  "exclusive_owners h ns \<longleftrightarrow> distinct ns \<and> inj_on (\<lambda>q. ID (h q)) (set ns) \<and> (\<forall>q \<in> set ns. ID (h q) \<noteq> [])
     \<and> distinct (concat (map (\<lambda>q. Slots (h q)) ns)) \<and> (\<forall>q \<in> set ns. \<forall>s \<in> set (Slots (h q)). s < 16384)
     \<and> (\<forall>q \<in> set ns. Slots (h q) \<noteq> [] \<longrightarrow> IsMasterWithSlot (h q))"

lemma distinct_concat_filter:
  "distinct (concat (map f xs)) \<Longrightarrow> distinct (concat (map f (filter P xs)))"
  by (induction xs) auto

lemma exclusive_scale_ok:
  assumes "exclusive_owners h ns" and "distinct new" and "set new \<subseteq> set ns"
  shows "scale_ok h new (filter (\<lambda>q. IsMasterWithSlot (h q)) ns) 16384"
  using assms unfolding scale_ok_def exclusive_owners_def
  by (auto intro!: distinct_concat_filter inj_on_subset [of _ "set ns"])

text \<open>The nodes of a shard that is not wanted are none of the masters of the wanted ones.\<close>

lemma surplus_shard_nodes:
  assumes "sts_of h cl ` set ms = (\<lambda>i. Some (ClusterStatefulSetName name i)) ` {..<n}" and "n \<le> i"
    and "q \<in> set (mget [] (ctx_nodes (NewCtx h cl ns z name')) (ClusterStatefulSetName name i))"
  shows "q \<in> set ns \<and> q \<notin> set ms"
proof -
  have "q \<in> set ns" "sts_of h cl q = Some (ClusterStatefulSetName name i)" using assms(3) by (simp_all add: NewCtx_spec)
  moreover have "Some (ClusterStatefulSetName name i) \<notin> (\<lambda>i. Some (ClusterStatefulSetName name i)) ` {..<n}"
    using assms(2) by auto
  ultimately show ?thesis using assms(1) by (metis imageI)
qed

lemma shrink_step:
  assumes "old \<noteq> []" and "length new \<le> length old" and "int (length old) > sp_MasterSize (drc_Spec (cr s))"
    and "sp_ClusterReplicas (drc_Spec (cr s)) \<le> st_MinReplicationFactor (drc_Status (cr s))"
    and "DispatchSlotToNewMasters (runtime r) adm new old (new @ old) c (fst (store s)) (redis s) = (c', err, h', w')"
  shows "clustering_step r adm c old new s =
    (let s1 = s\<lparr>store := (h', snd (store s)), redis := w'\<rparr>
     in case err of Some e \<Rightarrow> Some (Ret (Some e, s1)) | None \<Rightarrow> scalingDown r adm (length old) (ctx_nodes c) s1)"
proof -
  have "ctx_nodes c' = ctx_nodes c" using assms(5) by (auto simp: DispatchSlotToNewMasters_def Let_def split: prod.splits)
  then show ?thesis
    using assms by (simp add: clustering_step_def go_bind_def the_instance_def on_nodes_def GetStatefulsetNodes_def go_ret_def Let_def
        split: option.split)
qed

text \<open>Removing shards whose slots are gone.\<close>

lemma scalingDown_free:
  assumes up: "UpdateCRStatus (clusters (client r)) (scale_down_status m (cr s)) (kube s) = ((e, c), k)"
    and "shape c = (name, namespace, int n)" and "store s = (h, a)"
    and "\<And>i. n \<le> i \<Longrightarrow> slot_free h (mget [] nodes (ClusterStatefulSetName name i))"
  shows "\<exists>err s'. scalingDown r adm m nodes s = Some (Ret (err, s')) \<and> store s' = (h, a)
    \<and> (err = None \<longrightarrow> kube s' = fold (removal r c) (rev [n..<m]) k)
    \<and> (err \<noteq> None \<longrightarrow> (\<forall>i w. fst (adm_ForgetNode adm i w) = None) \<longrightarrow>
         (\<exists>i. n \<le> i \<and> i < m
            \<and> isl (fst (GetStatefulSet (client r) namespace (ClusterStatefulSetName name i) (fold (removal r c) (rev [Suc i..<m]) k)))))"
proof -
  let ?is = "surplus_shards m c"
  let ?s1 = "s\<lparr>cr := c, kube := k, redis := disconnect_shards adm (fst (store s)) c nodes ?is (redis s)\<rparr>"
  have c: "drc_Name c = name" "drc_Namespace c = namespace" and "is": "?is = rev [n..<m]"
    using assms(2) by (simp_all add: shape_def surplus_shards_def)
  obtain err s' where run: "remove_shards r adm c nodes ?is ?s1 = Some (Ret (err, s'))" and st: "store s' = store s"
    using remove_shards_returns [of r adm c nodes ?is ?s1] by auto
  have "kube s' = fold (removal r c) (rev [n..<m]) k" if "err = None"
  proof -
    obtain gone rest part where split: "?is = gone @ rest"
      and rem: "removed r adm c nodes (fst (store s)) gone rest part err k (redis ?s1) (kube s') (redis s')"
      using remove_shards_result [OF run refl] by auto
    then have "rest = []" "kube s' = fold (removal r c) gone k" using that by (cases rest; simp add: removed_def Let_def)+
    with split show ?thesis by (simp add: "is")
  qed
  moreover have "\<exists>i. n \<le> i \<and> i < m
      \<and> isl (fst (GetStatefulSet (client r) namespace (ClusterStatefulSetName name i) (fold (removal r c) (rev [Suc i..<m]) k)))"
    if "err \<noteq> None" "\<forall>i w. fst (adm_ForgetNode adm i w) = None"
  proof -
    from that(1) obtain e where "err = Some e" by blast
    from remove_shards_fails [OF run [unfolded this] refl _ that(2)] obtain gone i rest where "rev [n..<m] = gone @ i # rest"
      and "isl (fst (GetStatefulSet (client r) namespace (ClusterStatefulSetName name i) (fold (removal r c) gone k)))"
      using assms(3,4) by (auto simp: "is" c)
    with rev_upt_split [OF this(1)] show ?thesis by blast
  qed
  ultimately show ?thesis
    unfolding scalingDown_run [OF up] using run st assms(3) by (intro exI [of _ err] exI [of _ s'] conjI impI) simp_all
qed

lemma syncCluster_run:
  assumes "newRedisCluster (runtime r) infos (cr s) (fst (store s)) = (cl, ns, h)"
    and "Ctx_DispatchMasters (runtime r) h (NewCtx h cl ns (sp_MasterSize (drc_Spec (cr s))) (drc_Name (cr s))) = Ret (c, err)"
  shows "syncCluster r adm infos s =
    (let s1 = s\<lparr>store := (h, snd (store s))\<rparr>
     in case err of Some x \<Rightarrow> Some (Ret (Some (ErrorType_Wrap Cluster_Error x ''DispatchMasters''), s1))
        | None \<Rightarrow> clustering_step r adm c (GetCurrentMasters c) (GetNewMasters (runtime r) c) s1)"
  using assms by (simp add: syncCluster_def go_bind_def the_instance_def the_heap_def set_heap_def go_outcome_def go_ret_def Let_def
      split: option.split)

text \<open>What the choice of the masters hands to the migration and to the removal.\<close>

lemma chosen_masters:
  assumes "go_runtime env" and "Ctx_DispatchMasters env h (NewCtx h cl ns (int n) name) = Ret (c, None)"
    and "exclusive_owners h ns" and "\<And>q. q \<in> set ns \<Longrightarrow> sts_of h cl q \<noteq> None"
  shows "distinct (GetNewMasters env c)" "set (GetNewMasters env c) \<subseteq> set ns" "length (GetNewMasters env c) = n"
    and "sts_of h cl ` set (GetNewMasters env c) = (\<lambda>i. Some (ClusterStatefulSetName name i)) ` {..<n}"
    and "GetCurrentMasters c = filter (\<lambda>q. IsMasterWithSlot (h q)) ns" and "ctx_nodes c = ctx_nodes (NewCtx h cl ns (int n) name)"
    and "scale_ok h (GetNewMasters env c) (filter (\<lambda>q. IsMasterWithSlot (h q)) ns) 16384"
proof -
  note nm = new_masters [OF assms(1,2)]
  then show ms: "distinct (GetNewMasters env c)" "set (GetNewMasters env c) \<subseteq> set ns" "length (GetNewMasters env c) = n"
    and "sts_of h cl ` set (GetNewMasters env c) = (\<lambda>i. Some (ClusterStatefulSetName name i)) ` {..<n}" by simp_all
  show "GetCurrentMasters c = filter (\<lambda>q. IsMasterWithSlot (h q)) ns" "ctx_nodes c = ctx_nodes (NewCtx h cl ns (int n) name)"
  proof -
    obtain ms b where c: "c = (NewCtx h cl ns (int n) name)\<lparr>newMastersBySts := ms, bestEffort := b\<rparr>" using nm by blast
    show "GetCurrentMasters c = filter (\<lambda>q. IsMasterWithSlot (h q)) ns"
      unfolding c using assms(4) by (auto simp: GetCurrentMasters_def NewCtx_spec intro: filter_cong)
    show "ctx_nodes c = ctx_nodes (NewCtx h cl ns (int n) name)" unfolding c by simp
  qed
  show "scale_ok h (GetNewMasters env c) (filter (\<lambda>q. IsMasterWithSlot (h q)) ns) 16384"
    by (rule exclusive_scale_ok [OF assms(3) ms(1,2)])
qed

text \<open>C5.
  Scaling down through \<open>syncCluster\<close>: with more masters than wanted and enough slaves, a reconciliation step always returns,
  and when it succeeds there is one master for each wanted StatefulSet, every one of the 16384 slots belongs to exactly one
  of these masters, no other node owns a slot, and the objects of exactly the superfluous shards have been removed, from the last one down.
  When the Redis servers accept all commands, it fails only because a wanted StatefulSet cannot provide a master or the StatefulSet of
  a superfluous shard cannot be read; never because a node that is to go still owns slots. This holds for every order of the range loops
  and every API server that returns the name, namespace and wanted number of masters as sent.\<close>

theorem syncCluster_shrinks:
  assumes "go_runtime (runtime r)" and "shape_server r" and "GetHashMaxSlot adm = 16383"
    and "n = nat (sp_MasterSize (drc_Spec (cr s)))" and "0 < n" and "n < 2 ^ 31"
    and "newRedisCluster (runtime r) infos (cr s) (fst (store s)) = (cl, ns, h)" and "exclusive_owners (fst (store s)) ns"
    and "m = length (filter (\<lambda>q. IsMasterWithSlot (fst (store s) q)) ns)" and "n < m"
    and "sp_ClusterReplicas (drc_Spec (cr s)) \<le> st_MinReplicationFactor (drc_Status (cr s))"
    and "UpdateCRStatus (clusters (client r)) (scale_down_status m (cr s)) (kube s) = ((e, c), k)"
  shows "\<exists>err s'. syncCluster r adm infos s = Some (Ret (err, s'))
    \<and> (err = None \<longrightarrow> (\<exists>ms. distinct ms \<and> set ms \<subseteq> set ns
          \<and> sts_of h cl ` set ms = (\<lambda>i. Some (ClusterStatefulSetName (drc_Name (cr s)) i)) ` {..<n}
          \<and> distinct (concat (map (\<lambda>q. Slots (fst (store s') q)) ms)) \<and> set (concat (map (\<lambda>q. Slots (fst (store s') q)) ms)) = {0..<16384}
          \<and> (\<forall>q \<in> set ns - set ms. Slots (fst (store s') q) = []))
        \<and> kube s' = fold (removal r c) (rev [n..<m]) k)
    \<and> (err \<noteq> None \<longrightarrow> accepts_dispatch adm \<longrightarrow> (\<forall>i w. fst (adm_ForgetNode adm i w) = None) \<longrightarrow>
         (\<exists>i < n. \<not> sts_good h (NewCtx h cl ns (int n) (drc_Name (cr s))) i)
       \<or> (\<exists>i. n \<le> i \<and> i < m \<and> isl (fst (GetStatefulSet (client r) (drc_Namespace (cr s)) (ClusterStatefulSetName (drc_Name (cr s)) i)
            (fold (removal r c) (rev [Suc i..<m]) k)))))"
proof -
  let ?env = "runtime r" let ?name = "drc_Name (cr s)" let ?c0 = "NewCtx h cl ns (int n) ?name"
  let ?old = "filter (\<lambda>q. IsMasterWithSlot (h q)) ns"
  note view = newRedisCluster_view [OF assms(7)]
  have n: "sp_MasterSize (drc_Spec (cr s)) = int n" and m: "m = length ?old" and excl: "exclusive_owners h ns"
    using assms(4,5,8,9) by (simp_all add: view exclusive_owners_def)
  obtain c1 err0 where disp: "Ctx_DispatchMasters ?env h ?c0 = Ret (c1, err0)" and good: "err0 = None \<longleftrightarrow> (\<forall>i < n. sts_good h ?c0 i)"
    using DispatchMasters_ok [of ?env h cl ns "int n" ?name] by auto
  note sync = syncCluster_run [OF assms(7), unfolded n, OF disp, of adm, unfolded Let_def]
  show ?thesis
  proof (cases err0)
    case (Some x)
    then show ?thesis using good by (auto simp: sync)
  next
    case None
    let ?ms = "GetNewMasters ?env c1"
    note ms = chosen_masters [OF assms(1) disp [unfolded None] excl view(4), simplified]
    obtain c2 err1 h1 w1 where run: "DispatchSlotToNewMasters ?env adm ?ms ?old (?ms @ ?old) c1 h (redis s) = (c2, err1, h1, w1)"
      by (metis prod_cases4)
    have len: "?ms \<noteq> []" "length ?ms < 2 ^ 53" "?old \<noteq> []" using ms(3) m assms(5,6,10) by auto
    note moved = DispatchSlotToNewMasters_ok [OF assms(1,3) ms(7) len(1,2) run]
    let ?s2 = "s\<lparr>store := (h1, snd (store s)), redis := w1\<rparr>"
    have step: "syncCluster r adm infos s = (case err1 of Some x \<Rightarrow> Some (Ret (Some x, ?s2)) | None \<Rightarrow> scalingDown r adm m (ctx_nodes ?c0) ?s2)"
      using shrink_step [of ?old ?ms "s\<lparr>store := (h, snd (store s))\<rparr>" r adm c1 c2 err1 h1 w1] run len m n assms(10,11)
      by (simp add: sync None ms(3,5,6) Let_def split: option.split)
    show ?thesis
    proof (cases err1)
      case (Some x)
      then show ?thesis using moved(4) by (auto simp: step)
    next
      case None
      have empty: "Slots (h1 q) = []" if "q \<in> set ns" "q \<notin> set ?ms" for q
        using moved(3) [OF None that(2)] that(1) excl by (auto simp: exclusive_owners_def)
      have free: "slot_free h1 (mget [] (ctx_nodes ?c0) (ClusterStatefulSetName ?name i))" if "n \<le> i" for i
        unfolding slot_free_def using surplus_shard_nodes [OF ms(4) that] empty by blast
      have "UpdateCRStatus (clusters (client r)) (scale_down_status m (cr ?s2)) (kube ?s2) = ((e, c), k)"
        and "shape c = (?name, drc_Namespace (cr s), int n)" and "store ?s2 = (h1, snd (store s))"
        using assms(12) shape_server.shape_kept [OF assms(2,12)] n by (simp_all add: shape_def)
      from scalingDown_free [OF this free, of adm] obtain err s'
        where "scalingDown r adm m (ctx_nodes ?c0) ?s2 = Some (Ret (err, s')) \<and> store s' = (h1, snd (store s))
          \<and> (err = None \<longrightarrow> kube s' = fold (removal r c) (rev [n..<m]) k)
          \<and> (err \<noteq> None \<longrightarrow> (\<forall>i w. fst (adm_ForgetNode adm i w) = None) \<longrightarrow>
               (\<exists>i. n \<le> i \<and> i < m \<and> isl (fst (GetStatefulSet (client r) (drc_Namespace (cr s)) (ClusterStatefulSetName ?name i)
                  (fold (removal r c) (rev [Suc i..<m]) k)))))"
        by blast
      then show ?thesis
        using ms(1,2,4) empty moved(1,2) [OF None]
        by (intro exI [of _ err] exI [of _ s'] conjI impI exI [of _ ?ms]) (simp_all add: step None)
    qed
  qed
qed

section \<open>Two masters of which one goes\<close>

definition pair_heap :: nheap where
  "pair_heap q = NewDefaultNode\<lparr>ID := (if q = 0 then ''a'' else ''b''), IP := (if q = 0 then ''10.0.0.1'' else ''10.0.0.2''), Role := ''master'',
     Slots := (if q = 0 then [0..<8192] else [8192..<16384])\<rparr>"

definition pair_infos :: ClusterInfos where
  "pair_infos = \<lparr>Infos = [(''10.0.0.1:6379'', \<lparr>nodeinfos_Node = 0, Friends = [], friends_cap = 0\<rparr>),
     (''10.0.0.2:6379'', \<lparr>nodeinfos_Node = 1, Friends = [], friends_cap = 0\<rparr>)], infos_Status = ClusterInfosConsistent\<rparr>"

definition pair_node :: "string \<Rightarrow> string \<Rightarrow> RedisClusterNode" where
  "pair_node i sts = \<lparr>an_ID = i, an_Role = [], an_IP = [], an_Port = ''6379'', an_Slots = [], an_MasterRef = [],
     an_PodName = [], an_NodeName = [], an_StatefulSet = sts\<rparr>"

definition pair_cluster :: drc where
  "pair_cluster = sample_cluster\<lparr>drc_Spec := sample_spec\<lparr>sp_MasterSize := 1, sp_ClusterReplicas := 0\<rparr>,
     drc_Status := sample_status\<lparr>st_Nodes := [pair_node ''a'' ''drc-example-0'', pair_node ''b'' ''drc-example-1'']\<rparr>\<rparr>"

definition pair_sys :: "(mem_kube, admin_call list) sys" where
  "pair_sys = \<lparr>cr = pair_cluster, kube = empty_kube\<lparr>m_clusters := [pair_cluster], m_statefulsets := [shrink_sts\<lparr>sts_Name := ''drc-example-1''\<rparr>]\<rparr>,
     redis = [], store = (pair_heap, 2)\<rparr>"

lemma pair_owner: "IsMasterWithSlot (pair_heap q)"
  by (simp add: IsMasterWithSlot_def GetRole_def TotalSlots_def pair_heap_def RedisMasterRole_def)

lemma pair_exclusive: "exclusive_owners pair_heap [0, 1]"
  using pair_owner by (auto simp: exclusive_owners_def pair_heap_def inj_on_def simp del: upt_rec_numeral)

lemma pair_name: "ClusterStatefulSetName ''example'' 1 = ''drc-example-1''"
  by code_simp

lemma pair_admin: "accepts_dispatch (shrink_admin 16383)" "GetHashMaxSlot (shrink_admin 16383) = 16383"
  by (simp_all add: accepts_dispatch_def shrink_admin_def recording_admin_def IAdmin.extend_def IAdminFull.fields_def)

text \<open>The nodes of the view, with their StatefulSets.\<close>

lemma pair_view:
  obtains cl h where "newRedisCluster (runtime (mem_reconciler cms)) pair_infos (cr pair_sys) (fst (store pair_sys)) = (cl, [0, 1], h)"
    and "sts_of h cl 0 = Some ''drc-example-0''" "sts_of h cl 1 = Some ''drc-example-1''"
proof -
  let ?m = "[(''a'', 0), (''b'', 1)] :: (string, nref) gomap"
  define cl where "cl = (NewCluster ''example'' ''default'')\<lparr>cluster_Nodes := ?m\<rparr>"
  define h where "h = fold (name_node cl) (st_Nodes (drc_Status pair_cluster)) pair_heap"
  have "newRedisCluster (runtime (mem_reconciler cms)) pair_infos (cr pair_sys) (fst (store pair_sys)) = (cl, [0, 1], h)"
    by (simp add: newRedisCluster_def GetNodes_def pair_infos_def mrange_def go_env_det_def map_filter_def pair_sys_def pair_cluster_def
        mem_reconciler_def cl_def h_def pair_heap_def Let_def del: upt_rec_numeral)
  moreover have "sts_of h cl 0 = Some ''drc-example-0''" "sts_of h cl 1 = Some ''drc-example-1''"
    by (simp_all add: sts_of_def Cluster_GetNodeByID_def cl_def h_def pair_cluster_def pair_node_def name_node_def pair_heap_def del: upt_rec_numeral)
  ultimately show ?thesis by (rule that)
qed

lemma pair_status:
  obtains c k where "UpdateCRStatus (clusters (client (mem_reconciler (configmaps mem_kube_client)))) (scale_down_status 2 (cr pair_sys)) (kube pair_sys)
      = ((None, c), k)"
    and "GetStatefulSet (client (mem_reconciler (configmaps mem_kube_client))) ''default'' ''drc-example-1'' k
      = (Inr (shrink_sts\<lparr>sts_Name := ''drc-example-1''\<rparr>), k)"
proof -
  define c where "c = scale_down_status 2 pair_cluster"
  define k where "k = (kube pair_sys)\<lparr>m_clusters := [c]\<rparr>"
  have "UpdateCRStatus (clusters (client (mem_reconciler (configmaps mem_kube_client)))) (scale_down_status 2 (cr pair_sys)) (kube pair_sys)
      = ((None, c), k)"
    by (simp add: UpdateCRStatus_def written_def mem_reconciler_def mem_kube_client_def mem_client_def Let_def pair_sys_def c_def k_def
        scale_down_status_def)
  moreover have "GetStatefulSet (client (mem_reconciler (configmaps mem_kube_client))) ''default'' ''drc-example-1'' k
      = (Inr (shrink_sts\<lparr>sts_Name := ''drc-example-1''\<rparr>), k)"
    by (simp add: GetStatefulSet_def mem_reconciler_def mem_kube_client_def mem_client_def Let_def k_def pair_sys_def empty_kube_def shrink_sts_def)
  ultimately show ?thesis by (rule that)
qed

theorem syncCluster_shrinks_witness:
  "\<exists>s'. syncCluster (mem_reconciler (configmaps mem_kube_client)) (shrink_admin 16383) pair_infos pair_sys = Some (Ret (None, s'))
     \<and> set (Slots (fst (store s') 0)) = {0..<16384} \<and> Slots (fst (store s') 1) = []"
proof -
  let ?r = "mem_reconciler (configmaps mem_kube_client)" let ?adm = "shrink_admin 16383"
  obtain cl h where new: "newRedisCluster (runtime ?r) pair_infos (cr pair_sys) (fst (store pair_sys)) = (cl, [0, 1], h)"
    and sts: "sts_of h cl 0 = Some ''drc-example-0''" "sts_of h cl 1 = Some ''drc-example-1''" by (rule pair_view)
  obtain c k where up: "UpdateCRStatus (clusters (client ?r)) (scale_down_status 2 (cr pair_sys)) (kube pair_sys) = ((None, c), k)"
    and get: "GetStatefulSet (client ?r) ''default'' ''drc-example-1'' k = (Inr (shrink_sts\<lparr>sts_Name := ''drc-example-1''\<rparr>), k)" by (rule pair_status)
  have cr: "drc_Name (cr pair_sys) = ''example''" "drc_Namespace (cr pair_sys) = ''default''" "sp_MasterSize (drc_Spec (cr pair_sys)) = 1"
    "sp_ClusterReplicas (drc_Spec (cr pair_sys)) = 0" "st_MinReplicationFactor (drc_Status (cr pair_sys)) = 0" "fst (store pair_sys) = pair_heap"
    by (simp_all add: pair_sys_def pair_cluster_def sample_status_def)
  let ?c0 = "NewCtx h cl [0, 1] (int 1) ''example''"
  have "map_of (ctx_nodes ?c0) ''drc-example-0'' = Some [0]"
    using sts NewCtx_spec(9,10) [of h cl "[0, 1]" "int 1" "''example''" "''drc-example-0''"] by (auto simp: mget_def split: option.splits)
  then have good: "sts_good h ?c0 i" if "i < 1" for i
    using that by (simp add: sts_good_def NewCtx_spec create_name)
  have hyps: "go_runtime (runtime ?r)" "1 = nat (sp_MasterSize (drc_Spec (cr pair_sys)))" "0 < (1 :: nat)" "1 < (2 :: nat) ^ 31"
    "exclusive_owners (fst (store pair_sys)) [0, 1]" "2 = length (filter (\<lambda>q. IsMasterWithSlot (fst (store pair_sys) q)) [0, 1])" "1 < (2 :: nat)"
    "sp_ClusterReplicas (drc_Spec (cr pair_sys)) \<le> st_MinReplicationFactor (drc_Status (cr pair_sys))"
    using pair_exclusive pair_owner by (simp_all add: cr mem_reconciler_def det.go_runtime_axioms)
  have forget: "\<forall>i w. fst (adm_ForgetNode ?adm i w) = None" by simp
  from syncCluster_shrinks [OF hyps(1) mem_shape.shape_server_axioms pair_admin(2) hyps(2-4) new hyps(5-8) up] show ?thesis
  proof (elim exE conjE, goal_cases)
    case (1 err s')
    have "err = None"
    proof (rule ccontr)
      assume "err \<noteq> None"
      from 1(3) [THEN mp, OF this, THEN mp, OF pair_admin(1), THEN mp, OF forget] show False
      proof (elim disjE exE conjE)
        fix i assume "1 \<le> i" "i < 2" and i: "isl (fst (GetStatefulSet (client ?r) (drc_Namespace (cr pair_sys))
          (ClusterStatefulSetName (drc_Name (cr pair_sys)) i) (fold (removal ?r c) (rev [Suc i..<2]) k)))"
        then have i1: "i = 1" "rev [Suc 1..<2] = []" by simp_all
        have "isl (fst (GetStatefulSet (client ?r) ''default'' ''drc-example-1'' k))"
          using i unfolding i1 cr pair_name fold.simps id_apply .
        then show False unfolding get by simp
      qed (use good cr in simp)
    qed
    from 1(2) [THEN mp, OF this] obtain ms where sub: "set ms \<subseteq> set [0, 1]"
      and img: "sts_of h cl ` set ms = (\<lambda>i. Some (ClusterStatefulSetName (drc_Name (cr pair_sys)) i)) ` {..<1}"
      and all: "set (concat (map (\<lambda>q. Slots (fst (store s') q)) ms)) = {0..<16384}"
      and rest: "\<forall>q \<in> set [0, 1] - set ms. Slots (fst (store s') q) = []"
      by (elim exE conjE) (rule that)
    have "sts_of h cl ` set ms = {Some ''drc-example-0''}" using img create_name by (simp add: cr lessThan_Suc)
    then have only: "sts_of h cl q = Some ''drc-example-0''" if "q \<in> set ms" for q using that by (metis imageI singletonD)
    have "1 \<notin> set ms" using only [of 1] unfolding sts by auto
    moreover have "set ms \<noteq> {}" using img by fastforce
    moreover have "set ms \<subseteq> insert 1 {0}" using sub by auto
    ultimately have "set ms = {0}" by (metis subset_insert subset_singletonD)
    then have "set (concat (map (\<lambda>q. Slots (fst (store s') q)) ms)) = set (Slots (fst (store s') 0))" "Slots (fst (store s') 1) = []"
      using rest by auto
    with all have "set (Slots (fst (store s') 0)) = {0..<16384}" "Slots (fst (store s') 1) = []" by (metis, blast)
    then show ?thesis using 1(1) \<open>err = None\<close> by blast
  qed
qed

end
