(* ===== verification/Osm.thy ===== *)
theory Osm
  imports Ensurer
begin

text \<open>
  \<open>pkg/osm/osm.go\<close>: the check that a backup can be written to the configured bucket, and the configuration it gives
  to the storage library. The storage library \<open>stow\<close>, the AWS client and \<open>url.Parse\<close> are parameters in the record \<open>stow\<close>, with
  the names the packages give to the storage kinds, the configuration keys and the keys of a secret.
\<close>

record stow_names =
  s3_Kind :: string
  s3_ConfigAccessKeyID :: string
  s3_ConfigSecretKey :: string
  s3_ConfigAuthType :: string
  s3_ConfigRegion :: string
  s3_ConfigEndpoint :: string
  s3_ConfigDisableSSL :: string
  s3_ConfigCACertData :: string
  gcs_Kind :: string
  gcs_ConfigProjectId :: string
  gcs_ConfigJSON :: string
  azure_Kind :: string
  azure_ConfigAccount :: string
  azure_ConfigKey :: string
  local_Kind :: string
  local_ConfigKeyPath :: string
  swift_Kind :: string
  swift_ConfigUsername :: string
  swift_ConfigKey :: string
  swift_ConfigRegion :: string
  swift_ConfigTenantAuthURL :: string
  swift_ConfigDomain :: string
  swift_ConfigTenantName :: string
  swift_ConfigTenantDomain :: string
  swift_ConfigTenantId :: string
  swift_ConfigStorageURL :: string
  swift_ConfigAuthToken :: string

record secret_names =
  CA_CERT_DATA :: string
  GOOGLE_PROJECT_ID :: string
  GOOGLE_SERVICE_ACCOUNT_JSON_KEY :: string
  AZURE_ACCOUNT_NAME :: string
  AZURE_ACCOUNT_KEY :: string
  OS_USERNAME :: string
  OS_PASSWORD :: string
  OS_REGION_NAME :: string
  OS_AUTH_URL :: string
  OS_USER_DOMAIN_NAME :: string
  OS_PROJECT_NAME :: string
  OS_PROJECT_DOMAIN_NAME :: string
  OS_TENANT_ID :: string
  OS_TENANT_NAME :: string
  ST_AUTH :: string
  ST_USER :: string
  ST_KEY :: string
  OS_STORAGE_URL :: string
  OS_AUTH_TOKEN :: string

text \<open>
  \<open>GetBucketLocation\<close> is the answer of S3 for a bucket, in a session of the access key or, without one, of the
  machine (its region, the shared configuration and the token provider are matters of the AWS client); it covers a
  session that cannot be made. \<open>url_Scheme\<close> is the scheme of a parsed URL.
\<close>

record ('l, 'c) stow =
  names :: stow_names
  keys :: secret_names
  GetBucketLocation :: "(string \<times> string) option \<Rightarrow> string \<Rightarrow> goerr + string"
  url_Scheme :: "string \<Rightarrow> goerr + string"
  Dial :: "string \<Rightarrow> (string, string) gomap \<Rightarrow> goerr + 'l"
  Backend_Container :: "Backend \<Rightarrow> goerr + string"
  location_Container :: "'l \<Rightarrow> string \<Rightarrow> goerr + 'c"
  HasWriteAccess :: "'c \<Rightarrow> goerr option"

record osm_context =
  ctx_Provider :: string
  ctx_Config :: "(string, string) gomap"

definition FormatBool :: "bool \<Rightarrow> string" where
  "FormatBool b = (if b then ''true'' else ''false'')"

section \<open>The configuration of each kind of storage\<close>

definition s3_access :: "('l, 'c) stow \<Rightarrow> build_env \<Rightarrow> (string, string) gomap \<Rightarrow> (string \<times> string) option" where
  "s3_access st bld config =
     (case (map_of config (AWS_ACCESS_KEY_ID bld), map_of config (AWS_SECRET_ACCESS_KEY bld)) of
        (Some keyID, Some key) \<Rightarrow> Some (keyID, key)
      | _ \<Rightarrow> None)"

definition s3_auth :: "('l, 'c) stow \<Rightarrow> (string \<times> string) option \<Rightarrow> (string, string) gomap" where
  "s3_auth st access =
     (case access of
        Some (keyID, key) \<Rightarrow> mput (s3_ConfigAuthType (names st)) ''accesskey''
          (mput (s3_ConfigSecretKey (names st)) key (mput (s3_ConfigAccessKeyID (names st)) keyID []))
      | None \<Rightarrow> mput (s3_ConfigAuthType (names st)) ''iam'' [])"

text \<open>Only for Amazon itself is the region asked for; another service is reached at its endpoint.\<close>

definition s3_config :: "('l, 'c) stow \<Rightarrow> build_env \<Rightarrow> (string, string) gomap \<Rightarrow> ObjectStore \<Rightarrow> goerr + (string, string) gomap" where
  "s3_config st bld config s3 =
     (let access = s3_access st bld config; conf = s3_auth st access in
      if store_Endpoint s3 = [] \<or> HasSuffix (store_Endpoint s3) ''.amazonaws.com'' then
        (case GetBucketLocation st access (store_Bucket s3) of
           Inl err \<Rightarrow> Inl err
         | Inr loc \<Rightarrow> Inr (mput (s3_ConfigRegion (names st)) (if loc = [] then ''us-east-1'' else loc) conf))
      else
        let conf = mput (s3_ConfigEndpoint (names st)) (store_Endpoint s3) conf in
        (case url_Scheme st (store_Endpoint s3) of
           Inl err \<Rightarrow> Inl err
         | Inr scheme \<Rightarrow>
             let conf = mput (s3_ConfigDisableSSL (names st)) (FormatBool (scheme = ''http'')) conf
             in Inr (case map_of config (CA_CERT_DATA (keys st)) of
                       Some cacertData \<Rightarrow> if scheme = ''https'' then mput (s3_ConfigCACertData (names st)) cacertData conf else conf
                     | None \<Rightarrow> conf)))"

definition swift_keys :: "('l, 'c) stow \<Rightarrow> (string \<times> string) list" where
  "swift_keys st = (let n = names st; k = keys st in [
     (swift_ConfigUsername n, OS_USERNAME k), (swift_ConfigKey n, OS_PASSWORD k), (swift_ConfigRegion n, OS_REGION_NAME k),
     (swift_ConfigTenantAuthURL n, OS_AUTH_URL k),
     (swift_ConfigDomain n, OS_USER_DOMAIN_NAME k), (swift_ConfigTenantName n, OS_PROJECT_NAME k),
     (swift_ConfigTenantDomain n, OS_PROJECT_DOMAIN_NAME k),
     (swift_ConfigTenantId n, OS_TENANT_ID k), (swift_ConfigTenantName n, OS_TENANT_NAME k),
     (swift_ConfigTenantAuthURL n, ST_AUTH k), (swift_ConfigUsername n, ST_USER k), (swift_ConfigKey n, ST_KEY k),
     (swift_ConfigStorageURL n, OS_STORAGE_URL k), (swift_ConfigAuthToken n, OS_AUTH_TOKEN k)])"

fun swift_config :: "(string, string) gomap \<Rightarrow> (string \<times> string) list \<Rightarrow> (string, string) gomap \<Rightarrow> (string, string) gomap" where
  "swift_config config [] conf = conf"
| "swift_config config ((stowKey, secretKey) # rest) conf =
     swift_config config rest (if map_of conf stowKey = None then mput stowKey (mget [] config secretKey) conf else conf)"

definition osm_config :: "('l, 'c) stow \<Rightarrow> build_env \<Rightarrow> (string, string) gomap \<Rightarrow> Backend \<Rightarrow> goerr + osm_context" where
  "osm_config st bld config spec =
     (let n = names st; k = keys st in
      case S3 spec of
        Some s3 \<Rightarrow> (case s3_config st bld config s3 of Inl err \<Rightarrow> Inl err | Inr conf \<Rightarrow> Inr \<lparr>ctx_Provider = s3_Kind n, ctx_Config = conf\<rparr>)
      | None \<Rightarrow> (case GCS spec of
        Some gcs \<Rightarrow> Inr \<lparr>ctx_Provider = gcs_Kind n, ctx_Config =
          mput (gcs_ConfigJSON n) (mget [] config (GOOGLE_SERVICE_ACCOUNT_JSON_KEY k)) (mput (gcs_ConfigProjectId n) (mget [] config (GOOGLE_PROJECT_ID k)) [])\<rparr>
      | None \<Rightarrow> (case Azure spec of
        Some azure \<Rightarrow> Inr \<lparr>ctx_Provider = azure_Kind n, ctx_Config =
          mput (azure_ConfigKey n) (mget [] config (AZURE_ACCOUNT_KEY k)) (mput (azure_ConfigAccount n) (mget [] config (AZURE_ACCOUNT_NAME k)) [])\<rparr>
      | None \<Rightarrow> (case Local spec of
        Some l \<Rightarrow> Inr \<lparr>ctx_Provider = local_Kind n, ctx_Config = mput (local_ConfigKeyPath n) (local_MountPath l) []\<rparr>
      | None \<Rightarrow> (case Swift spec of
        Some swift \<Rightarrow> Inr \<lparr>ctx_Provider = swift_Kind n, ctx_Config = swift_config config (swift_keys st) []\<rparr>
      | None \<Rightarrow> Inl (Errorf ''no storage provider is configured''))))))"

definition NewOSMContext :: "('l, 'c) stow \<Rightarrow> 'k kube_client \<Rightarrow> build_env \<Rightarrow> Backend \<Rightarrow> string \<Rightarrow> 'k \<Rightarrow> (goerr + osm_context) \<times> 'k" where
  "NewOSMContext st kc bld spec namespace k =
     (if StorageSecretName spec \<noteq> [] then
        (case c_Get (secrets kc) namespace (StorageSecretName spec) k of
           (Inl err, k) \<Rightarrow> (Inl err, k)
         | (Inr secret, k) \<Rightarrow> (osm_config st bld (secret_Data secret) spec, k))
      else (osm_config st bld [] spec, k))"

definition bucket_access :: "('l, 'c) stow \<Rightarrow> osm_context \<Rightarrow> Backend \<Rightarrow> goerr option" where
  "bucket_access st cfg spec =
     (case Dial st (ctx_Provider cfg) (ctx_Config cfg) of
        Inl err \<Rightarrow> Some err
      | Inr loc \<Rightarrow> (case Backend_Container st spec of
          Inl err \<Rightarrow> Some err
        | Inr bucket \<Rightarrow> (case location_Container st loc bucket of
            Inl err \<Rightarrow> Some err
          | Inr c \<Rightarrow> HasWriteAccess st c)))"

definition CheckBucketAccess :: "('l, 'c) stow \<Rightarrow> 'k kube_client \<Rightarrow> build_env \<Rightarrow> Backend \<Rightarrow> string \<Rightarrow> 'k \<Rightarrow> goerr option \<times> 'k" where
  "CheckBucketAccess st kc bld spec namespace k =
     (case NewOSMContext st kc bld spec namespace k of
        (Inl err, k) \<Rightarrow> (Some err, k)
      | (Inr cfg, k) \<Rightarrow> (bucket_access st cfg spec, k))"

section \<open>Which keys of a secret are used\<close>

lemma swift_config_first:
  "map_of (swift_config config ps conf) key =
     (case map_of conf key of Some v \<Rightarrow> Some v | None \<Rightarrow> map_option (mget [] config) (map_of ps key))"
  by (induction config ps conf rule: swift_config.induct) (auto simp: map_of_mput split: option.split)

lemma osm_config_swift:
  assumes "S3 spec = None" "GCS spec = None" "Azure spec = None" "Local spec = None" "Swift spec \<noteq> None"
  shows "osm_config st bld config spec = Inr \<lparr>ctx_Provider = swift_Kind (names st), ctx_Config = swift_config config (swift_keys st) []\<rparr>"
  using assms by (auto simp: osm_config_def Let_def)

lemma swift_config_all: "map_of (swift_config config ps []) = map_option (mget [] config) \<circ> map_of ps"
  by (simp add: fun_eq_iff swift_config_first)

text \<open>Entries whose keys come earlier in the list are never looked at.\<close>

lemma map_of_skip: "fst ` set qs \<subseteq> fst ` set ps \<Longrightarrow> map_of (ps @ qs @ rs) = map_of (ps @ rs)"
proof (rule ext)
  fix k assume sub: "fst ` set qs \<subseteq> fst ` set ps"
  show "map_of (ps @ qs @ rs) k = map_of (ps @ rs) k"
  proof (cases "map_of ps k")
    case None
    then have "map_of qs k = None" using sub by (auto simp: map_of_eq_None_iff)
    with None show ?thesis by (simp add: map_add_def)
  qed (simp add: map_add_def)
qed

text \<open>C40.
  The configuration of a Swift store. The loop takes a configuration key as set as soon as one of its secret keys was looked
  up, also when the secret does not have it. So the configuration has exactly the ten settings below, each with the value of the
  first secret key that the table of the code lists for it, or the empty string when the secret lacks that key. The secret keys \<open>ST_USER\<close>, \<open>ST_KEY\<close>,
  \<open>ST_AUTH\<close> and \<open>OS_TENANT_NAME\<close>, which the table lists as alternatives, are never used: a secret with only those gives empty
  credentials.\<close>

theorem swift_credentials:
  assumes "S3 spec = None" "GCS spec = None" "Azure spec = None" "Local spec = None" "Swift spec \<noteq> None"
  shows "\<exists>conf. osm_config st bld config spec = Inr \<lparr>ctx_Provider = swift_Kind (names st), ctx_Config = conf\<rparr>
    \<and> map_of conf = map_of [
        (swift_ConfigUsername (names st), mget [] config (OS_USERNAME (keys st))),
        (swift_ConfigKey (names st), mget [] config (OS_PASSWORD (keys st))),
        (swift_ConfigRegion (names st), mget [] config (OS_REGION_NAME (keys st))),
        (swift_ConfigTenantAuthURL (names st), mget [] config (OS_AUTH_URL (keys st))),
        (swift_ConfigDomain (names st), mget [] config (OS_USER_DOMAIN_NAME (keys st))),
        (swift_ConfigTenantName (names st), mget [] config (OS_PROJECT_NAME (keys st))),
        (swift_ConfigTenantDomain (names st), mget [] config (OS_PROJECT_DOMAIN_NAME (keys st))),
        (swift_ConfigTenantId (names st), mget [] config (OS_TENANT_ID (keys st))),
        (swift_ConfigStorageURL (names st), mget [] config (OS_STORAGE_URL (keys st))),
        (swift_ConfigAuthToken (names st), mget [] config (OS_AUTH_TOKEN (keys st)))]"
proof -
  let ?n = "names st" and ?k = "keys st"
  let ?ps = "[(swift_ConfigUsername ?n, OS_USERNAME ?k), (swift_ConfigKey ?n, OS_PASSWORD ?k), (swift_ConfigRegion ?n, OS_REGION_NAME ?k),
    (swift_ConfigTenantAuthURL ?n, OS_AUTH_URL ?k), (swift_ConfigDomain ?n, OS_USER_DOMAIN_NAME ?k), (swift_ConfigTenantName ?n, OS_PROJECT_NAME ?k),
    (swift_ConfigTenantDomain ?n, OS_PROJECT_DOMAIN_NAME ?k), (swift_ConfigTenantId ?n, OS_TENANT_ID ?k)]"
  let ?qs = "[(swift_ConfigTenantName ?n, OS_TENANT_NAME ?k), (swift_ConfigTenantAuthURL ?n, ST_AUTH ?k), (swift_ConfigUsername ?n, ST_USER ?k),
    (swift_ConfigKey ?n, ST_KEY ?k)]"
  let ?rs = "[(swift_ConfigStorageURL ?n, OS_STORAGE_URL ?k), (swift_ConfigAuthToken ?n, OS_AUTH_TOKEN ?k)]"
  have "swift_keys st = ?ps @ ?qs @ ?rs" by (simp add: swift_keys_def Let_def)
  then have "map_of (swift_keys st) = map_of (?ps @ ?rs)" by (simp only:) (rule map_of_skip, simp)
  then have "map_of (swift_config config (swift_keys st) []) = map_of (map (\<lambda>(a, b). (a, mget [] config b)) (?ps @ ?rs))"
    unfolding map_of_map swift_config_all by (rule arg_cong)
  then show ?thesis using osm_config_swift [OF assms, of st bld config] by simp
qed

definition sample_stow :: "(unit, unit) stow" where
  "sample_stow = \<lparr>
     names = \<lparr>s3_Kind = ''s3'', s3_ConfigAccessKeyID = ''access_key_id'', s3_ConfigSecretKey = ''secret_key'', s3_ConfigAuthType = ''auth_type'',
       s3_ConfigRegion = ''region'', s3_ConfigEndpoint = ''endpoint'', s3_ConfigDisableSSL = ''disable_ssl'', s3_ConfigCACertData = ''cacert_data'',
       gcs_Kind = ''google'', gcs_ConfigProjectId = ''project_id'', gcs_ConfigJSON = ''json'', azure_Kind = ''azure'', azure_ConfigAccount = ''account'',
       azure_ConfigKey = ''key'', local_Kind = ''local'', local_ConfigKeyPath = ''path'', swift_Kind = ''swift'', swift_ConfigUsername = ''username'',
       swift_ConfigKey = ''key'', swift_ConfigRegion = ''region'', swift_ConfigTenantAuthURL = ''tenant_auth_url'', swift_ConfigDomain = ''domain'',
       swift_ConfigTenantName = ''tenant_name'', swift_ConfigTenantDomain = ''tenant_domain'', swift_ConfigTenantId = ''tenant_id'',
       swift_ConfigStorageURL = ''storage_url'', swift_ConfigAuthToken = ''auth_token''\<rparr>,
     keys = \<lparr>CA_CERT_DATA = ''CA_CERT_DATA'', GOOGLE_PROJECT_ID = ''GOOGLE_PROJECT_ID'',
       GOOGLE_SERVICE_ACCOUNT_JSON_KEY = ''GOOGLE_SERVICE_ACCOUNT_JSON_KEY'', AZURE_ACCOUNT_NAME = ''AZURE_ACCOUNT_NAME'',
       AZURE_ACCOUNT_KEY = ''AZURE_ACCOUNT_KEY'', OS_USERNAME = ''OS_USERNAME'', OS_PASSWORD = ''OS_PASSWORD'', OS_REGION_NAME = ''OS_REGION_NAME'',
       OS_AUTH_URL = ''OS_AUTH_URL'', OS_USER_DOMAIN_NAME = ''OS_USER_DOMAIN_NAME'', OS_PROJECT_NAME = ''OS_PROJECT_NAME'',
       OS_PROJECT_DOMAIN_NAME = ''OS_PROJECT_DOMAIN_NAME'', OS_TENANT_ID = ''OS_TENANT_ID'', OS_TENANT_NAME = ''OS_TENANT_NAME'', ST_AUTH = ''ST_AUTH'',
       ST_USER = ''ST_USER'', ST_KEY = ''ST_KEY'', OS_STORAGE_URL = ''OS_STORAGE_URL'', OS_AUTH_TOKEN = ''OS_AUTH_TOKEN''\<rparr>,
     GetBucketLocation = (\<lambda>_ _. Inr []), url_Scheme = (\<lambda>_. Inr ''https''), Dial = (\<lambda>_ _. Inr ()), Backend_Container = (\<lambda>_. Inr ''b''),
     location_Container = (\<lambda>_ _. Inr ()), HasWriteAccess = (\<lambda>_. None)\<rparr>"

abbreviation swift_backend :: Backend where
  "swift_backend \<equiv> \<lparr>StorageSecretName = ''swift'', S3 = None, GCS = None, Azure = None,
     Swift = Some \<lparr>store_Endpoint = [], store_Bucket = ''b'', store_Prefix = []\<rparr>, Local = None\<rparr>"

text \<open>A secret for the first version of the protocol, with a token: user name and password are left empty.\<close>

theorem swift_credentials_witness:
  "\<exists>conf. osm_config sample_stow sample_build [(''ST_USER'', ''u''), (''ST_KEY'', ''p''), (''OS_AUTH_TOKEN'', ''t'')] swift_backend
       = Inr \<lparr>ctx_Provider = ''swift'', ctx_Config = conf\<rparr>
     \<and> map_of conf ''username'' = Some [] \<and> map_of conf ''key'' = Some [] \<and> map_of conf ''auth_token'' = Some ''t''"
  using swift_credentials [of swift_backend sample_stow sample_build "[(''ST_USER'', ''u''), (''ST_KEY'', ''p''), (''OS_AUTH_TOKEN'', ''t'')]"]
  by (auto simp: sample_stow_def mget_def)

end
