(* ===== verification/Backup.thy ===== *)
theory Backup
  imports SyncHandler Osm
begin

text \<open>
  \<open>pkg/controller/redisclusterbackup\<close>: the controller that runs a backup of a cluster as a Kubernetes job and follows the
  job to its end. A step works on the backup held in memory, the API server, the events it has recorded and the
  number of times it has read the clock (\<open>bsys\<close>).

  The parameters of the controller are in \<open>backup_reconciler\<close>: a client that reads from a cache, one that reads
  from the server itself, the clock, the storage library, and whether the operator runs for the whole Kubernetes cluster.
\<close>

record event =
  ev_Object :: "string \<times> string \<times> string"
  ev_Type :: string
  ev_Reason :: string
  ev_Message :: string

record 'k bsys =
  b_obj :: RedisClusterBackup
  b_kube :: 'k
  b_events :: "event list"
  b_reads :: nat

record ('k, 'l, 'c) backup_reconciler =
  b_client :: "'k kube_client"
  b_direct :: "'k kube_client"
  b_build :: build_env
  b_env :: go_env
  b_stow :: "('l, 'c) stow"
  b_clock :: "nat \<Rightarrow> int"
  b_scoped :: bool

section \<open>Events and steps\<close>

definition BackupError :: string where "BackupError = ''BakcupError''"
definition BackupFailed :: string where "BackupFailed = ''BakcupFailed''"
definition Starting :: string where "Starting = ''Starting''"
definition Successful :: string where "Successful = ''Successful''"
definition BackupSuccessful :: string where "BackupSuccessful = ''SuccessfulBackup''"
definition EventTypeNormal :: string where "EventTypeNormal = ''Normal''"
definition EventTypeWarning :: string where "EventTypeWarning = ''Warning''"

definition the_backup :: "('k bsys, RedisClusterBackup) step" where
  "the_backup s = Some (Ret (b_obj s, s))"

definition set_backup :: "(RedisClusterBackup \<Rightarrow> RedisClusterBackup) \<Rightarrow> ('k bsys, unit) step" where
  "set_backup f s = Some (Ret ((), s\<lparr>b_obj := f (b_obj s)\<rparr>))"

definition on_server :: "('k \<Rightarrow> 'r \<times> 'k) \<Rightarrow> ('k bsys, 'r) step" where
  "on_server f s = (case f (b_kube s) of (r, k) \<Rightarrow> Some (Ret (r, s\<lparr>b_kube := k\<rparr>)))"

definition record_event :: "string \<times> string \<times> string \<Rightarrow> string \<Rightarrow> string \<Rightarrow> string \<Rightarrow> ('k bsys, unit) step" where
  "record_event obj type reason msg s =
     Some (Ret ((), s\<lparr>b_events := b_events s @ [\<lparr>ev_Object = obj, ev_Type = type, ev_Reason = reason, ev_Message = msg\<rparr>]\<rparr>))"

definition backup_event :: "string \<Rightarrow> string \<Rightarrow> string \<Rightarrow> ('k bsys, unit) step" where
  "backup_event type reason msg = go_bind the_backup (\<lambda>b.
     record_event (RedisClusterBackupKind, bk_Namespace b, bk_Name b) type reason msg)"

text \<open>Record a warning and return a value.\<close>

definition warn :: "string \<Rightarrow> string \<Rightarrow> 'r \<Rightarrow> ('k bsys, 'r) step" where
  "warn reason msg r = go_bind (backup_event EventTypeWarning reason msg) (\<lambda>_. go_ret r)"

text \<open>\<open>metav1.Now()\<close>\<close>

definition read_clock :: "('k, 'l, 'c) backup_reconciler \<Rightarrow> ('k bsys, int) step" where
  "read_clock r s = Some (Ret (b_clock r (b_reads s), s\<lparr>b_reads := b_reads s + 1\<rparr>))"

definition go_catch :: "('s, goerr option) step \<Rightarrow> (goerr \<Rightarrow> ('s, 'r) step) \<Rightarrow> ('s, 'r) step \<Rightarrow> ('s, 'r) step" where
  "go_catch m handler f = go_bind m (\<lambda>err. case err of Some e \<Rightarrow> handler e | None \<Rightarrow> f)"

definition go_either :: "('s, goerr + 'a) step \<Rightarrow> (goerr \<Rightarrow> ('s, 'r) step) \<Rightarrow> ('a \<Rightarrow> ('s, 'r) step) \<Rightarrow> ('s, 'r) step" where
  "go_either m handler f = go_bind m (\<lambda>r. case r of Inl e \<Rightarrow> handler e | Inr x \<Rightarrow> f x)"

definition bk_update_status :: "('k, 'l, 'c) backup_reconciler \<Rightarrow> ('k bsys, goerr option) step" where
  "bk_update_status r s =
     (case UpdateCRStatus (backups (b_client r)) (b_obj s) (b_kube s) of
        ((err, b), k) \<Rightarrow> Some (Ret (err, s\<lparr>b_obj := b, b_kube := k\<rparr>)))"

definition bk_update :: "('k, 'l, 'c) backup_reconciler \<Rightarrow> ('k bsys, goerr option) step" where
  "bk_update r s =
     (case UpdateCR (backups (b_client r)) (b_obj s) (b_kube s) of
        ((err, b), k) \<Rightarrow> Some (Ret (err, s\<lparr>b_obj := b, b_kube := k\<rparr>)))"

abbreviation err_text :: "('k, 'l, 'c) backup_reconciler \<Rightarrow> goerr \<Rightarrow> string" where
  "err_text r \<equiv> ErrorText (b_env r)"

text \<open>Record the error as a warning and return it.\<close>

abbreviation backup_error :: "('k, 'l, 'c) backup_reconciler \<Rightarrow> goerr \<Rightarrow> ('k bsys, goerr option) step" where
  "backup_error r e \<equiv> warn BackupError (err_text r e) (Some e)"

abbreviation upd_bstatus :: "(RedisClusterBackupStatus \<Rightarrow> RedisClusterBackupStatus) \<Rightarrow> RedisClusterBackup \<Rightarrow> RedisClusterBackup" where
  "upd_bstatus f b \<equiv> b\<lparr>bk_Status := f (bk_Status b)\<rparr>"

section \<open>helper.go\<close>

definition mark_as :: "('k, 'l, 'c) backup_reconciler \<Rightarrow> BackupPhase \<Rightarrow> string \<Rightarrow> ('k bsys, goerr option) step" where
  "mark_as r phase reason =
     go_bind (read_clock r) (\<lambda>t.
     go_bind (set_backup (upd_bstatus (\<lambda>st. st\<lparr>bst_CompletionTime := Some t, bst_Phase := phase, bst_Reason := reason\<rparr>))) (\<lambda>_.
       bk_update_status r))"

definition markAsFailedBackup :: "('k, 'l, 'c) backup_reconciler \<Rightarrow> string \<Rightarrow> ('k bsys, goerr option) step" where
  "markAsFailedBackup r reason = mark_as r BackupPhaseFailed reason"

definition markAsIgnoredBackup :: "('k, 'l, 'c) backup_reconciler \<Rightarrow> string \<Rightarrow> ('k bsys, goerr option) step" where
  "markAsIgnoredBackup r reason = mark_as r BackupPhaseIgnored reason"

definition running_labels :: "RedisClusterBackup \<Rightarrow> labels" where
  "running_labels b = [(LabelBackupStatus, BackupPhaseRunning), (LabelClusterName, bs_RedisClusterName (bk_Spec b))]"

definition job_labels :: "RedisClusterBackup \<Rightarrow> labels" where
  "job_labels b = [(LabelClusterName, bs_RedisClusterName (bk_Spec b)), (AnnotationJobType, JobTypeBackup)]"

definition isBackupRunning :: "('k, 'l, 'c) backup_reconciler \<Rightarrow> RedisClusterBackup \<Rightarrow> 'k \<Rightarrow> (goerr + bool) \<times> 'k" where
  "isBackupRunning r b k =
     (case c_List (backups (b_client r)) (bk_Namespace b) (running_labels b) k of
        (Inl err, k) \<Rightarrow> (Inl err, k)
      | (Inr backupList, k) \<Rightarrow>
          (case ListJobByLabels (b_direct r) (bk_Namespace b) (job_labels b) k of
             (Inl err, k) \<Rightarrow> (Inl err, k)
           | (Inr backupJobList, k) \<Rightarrow> (Inr (length backupList > 0 \<and> length backupJobList > 0), k)))"

text \<open>\<open>upsertEnvVars\<close>\<close>

fun upsert :: "EnvVar list \<Rightarrow> EnvVar \<Rightarrow> EnvVar list" where
  "upsert [] env = [env]"
| "upsert (v # vars) env = (if env_Name v = env_Name env then env # vars else v # upsert vars env)"

definition upsertEnvVars :: "EnvVar list \<Rightarrow> EnvVar list \<Rightarrow> EnvVar list" where
  "upsertEnvVars vars nv = foldl upsert vars nv"

definition backup_redisPassword :: "drc \<Rightarrow> EnvVar outcome" where
  "backup_redisPassword cluster =
     (case sp_PasswordSecret (drc_Spec cluster) of
        None \<Rightarrow> Panic NilDereference
      | Some secretName \<Rightarrow> Ret \<lparr>env_Name = ''REDIS_PASSWORD'', env_From = EnvSecretKeyRef secretName ''password''\<rparr>)"

definition isJobFinished :: "Job \<Rightarrow> bool" where
  "isJobFinished j \<longleftrightarrow> list_ex (\<lambda>c. (jc_Type c = JobComplete \<or> jc_Type c = JobFailed) \<and> jc_Status c = ConditionTrue) (job_Conditions j)"

section \<open>The job of a backup\<close>

definition backup_owner :: "RedisClusterBackup \<Rightarrow> OwnerReference list" where
  "backup_owner b = [\<lparr>owner_Kind = RedisClusterBackupKind, owner_Name = bk_Name b, owner_UID = bk_UID b\<rparr>]"

definition backup_claim :: "RedisClusterBackup \<Rightarrow> RedisStorage \<Rightarrow> string \<Rightarrow> PersistentVolumeClaim" where
  "backup_claim b storage jobName = \<lparr>pvc_Name = jobName, pvc_Namespace = bk_Namespace b, pvc_Labels = None,
     pvc_OwnerReferences = (if storage_DeleteClaim storage then backup_owner b else []),
     pvc_AccessModes = [''ReadWriteOnce''], pvc_Size = storage_Size storage, pvc_StorageClassName = storage_Class storage,
     pvc_VolumeMode = ''Filesystem''\<rparr>"

text \<open>The caller has checked that there is a storage.\<close>

definition createPVCForBackup :: "('k, 'l, 'c) backup_reconciler \<Rightarrow> RedisClusterBackup \<Rightarrow> RedisStorage \<Rightarrow> string \<Rightarrow> 'k \<Rightarrow> goerr option \<times> 'k" where
  "createPVCForBackup r b storage jobName k =
     (case c_Get (pvcs (b_client r)) (bk_Namespace b) jobName k of
        (Inl err, k) \<Rightarrow>
          if IsNotFound err then only_err (c_Create (pvcs (b_client r)) (backup_claim b storage jobName) k) else (Some err, k)
      | (Inr getClaim, k) \<Rightarrow> (None, k))"

definition GetVolumeForBackup :: "('k, 'l, 'c) backup_reconciler \<Rightarrow> RedisClusterBackup \<Rightarrow> string \<Rightarrow> 'k \<Rightarrow> (goerr + Volume) \<times> 'k" where
  "GetVolumeForBackup r b jobName k =
     (case bs_Storage (bk_Spec b) of
        None \<Rightarrow> (Inr \<lparr>vol_Name = UtilVolumeName, vol_Source = EmptyDir\<rparr>, k)
      | Some storage \<Rightarrow>
          if storage_Type storage = Ephemeral then (Inr \<lparr>vol_Name = UtilVolumeName, vol_Source = EmptyDir\<rparr>, k)
          else case createPVCForBackup r b storage jobName k of
                 (Some err, k) \<Rightarrow> (Inl err, k)
               | (None, k) \<Rightarrow> (Inr \<lparr>vol_Name = UtilVolumeName, vol_Source = ClaimVolume jobName\<rparr>, k))"

definition backup_container :: "RedisClusterBackup \<Rightarrow> drc \<Rightarrow> string \<Rightarrow> string \<Rightarrow> nat \<Rightarrow> RedisClusterNode \<Rightarrow> Container outcome" where
  "backup_container b cluster location folderName i node =
     (let c = no_container\<lparr>cont_Name := JobTypeBackup @ ''-'' @ FormatUint i, cont_Image := bs_Image (bk_Spec b),
            cont_ImagePullPolicy := ''Always'',
            cont_Args := [JobTypeBackup, ''--data-dir='' @ BackupDumpDir, ''--location='' @ location, ''--host='' @ an_IP node,
              ''--folder='' @ folderName, ''--snapshot='' @ bk_Name b @ ''-'' @ FormatUint i, ''--''],
            cont_VolumeMounts := [\<lparr>mount_Name = UtilVolumeName, MountPath = BackupDumpDir, SubPath = [], mount_ReadOnly = False\<rparr>,
              \<lparr>mount_Name = ''rcloneconfig'', MountPath = SecretMountPath, SubPath = [], mount_ReadOnly = True\<rparr>]\<rparr>
      in outcome_bind (if sp_PasswordSecret (drc_Spec cluster) \<noteq> None
                       then outcome_bind (backup_redisPassword cluster) (\<lambda>p. Ret (c\<lparr>cont_Env := cont_Env c @ [p]\<rparr>)) else Ret c) (\<lambda>c.
         let c = (case Local (bs_Backend (bk_Spec b)) of
                    None \<Rightarrow> c
                  | Some l \<Rightarrow> c\<lparr>cont_VolumeMounts := cont_VolumeMounts c @
                      [\<lparr>mount_Name = ''local'', MountPath = local_MountPath l, SubPath = local_SubPath l, mount_ReadOnly = False\<rparr>]\<rparr>)
         in Ret (with_pod_spec (bs_PodSpec (bk_Spec b)) c)))"

text \<open>The loop over the nodes of the status; \<open>i\<close> containers are filled.\<close>

fun containers_loop ::
  "('k, 'l, 'c) backup_reconciler \<Rightarrow> drc \<Rightarrow> string \<Rightarrow> nat \<Rightarrow> RedisClusterNode list \<Rightarrow> nat \<Rightarrow> Container list
     \<Rightarrow> ('k bsys, goerr + Container list) step" where
  "containers_loop r cluster location masterNum [] i containers = go_ret (Inr containers)"
| "containers_loop r cluster location masterNum (node # nodes) i containers =
     (if an_Role node = RedisClusterNodeRoleMaster then
        if i = masterNum then go_ret (Inr containers)
        else
          go_bind the_backup (\<lambda>b.
          go_either (go_outcome (RemotePath (Stamp (b_build r)) b)) (\<lambda>err. warn BackupError (err_text r err) (Inl err)) (\<lambda>folderName.
          go_bind (go_outcome (backup_container b cluster location folderName i node)) (\<lambda>container.
            containers_loop r cluster location masterNum nodes (i + 1) (containers[i := container]))))
      else containers_loop r cluster location masterNum nodes i containers)"

definition backupContainers :: "('k, 'l, 'c) backup_reconciler \<Rightarrow> drc \<Rightarrow> ('k bsys, goerr + Container list) step" where
  "backupContainers r cluster = go_bind the_backup (\<lambda>b.
     case Location (b_build r) (bs_Backend (bk_Spec b)) of
       Inl err \<Rightarrow> go_ret (Inl err)
     | Inr location \<Rightarrow>
         if sp_MasterSize (drc_Spec cluster) < 0 then go_panic MakeSliceLen
         else let masterNum = nat (sp_MasterSize (drc_Spec cluster))
              in containers_loop r cluster location masterNum (st_Nodes (drc_Status cluster)) 0 (replicate masterNum no_container))"

definition backup_template :: "RedisClusterBackup \<Rightarrow> Volume \<Rightarrow> Container list \<Rightarrow> PodTemplate" where
  "backup_template b persistentVolume containers =
     (let t = \<lparr>pt_Labels = None, pt_Annotations = None, pt_ImagePullSecrets = [], pt_Affinity = None, pt_Tolerations = [],
            pt_SecurityContext = None, pt_NodeSelector = [], pt_SchedulerName = [], pt_PriorityClassName = [], pt_Priority = None,
            pt_RestartPolicy = ''Never'', pt_InitContainers = [], pt_Containers = containers,
            pt_Volumes = [persistentVolume, \<lparr>vol_Name = ''rcloneconfig'', vol_Source = SecretVolume (RCloneSecretName b)\<rparr>]\<rparr>;
          t = (case bs_PodSpec (bk_Spec b) of
                 None \<Rightarrow> t
               | Some p \<Rightarrow> t\<lparr>pt_NodeSelector := ps_NodeSelector p, pt_Affinity := ps_Affinity p, pt_SchedulerName := ps_SchedulerName p,
                   pt_Tolerations := ps_Tolerations p, pt_PriorityClassName := ps_PriorityClassName p, pt_Priority := ps_Priority p,
                   pt_SecurityContext := ps_SecurityContext p, pt_ImagePullSecrets := ps_ImagePullSecrets p\<rparr>)
      in case Local (bs_Backend (bk_Spec b)) of
           None \<Rightarrow> t
         | Some l \<Rightarrow> t\<lparr>pt_Volumes := pt_Volumes t @ [\<lparr>vol_Name = ''local'', vol_Source = local_VolumeSource l\<rparr>]\<rparr>)"

definition backup_job :: "bool \<Rightarrow> RedisClusterBackup \<Rightarrow> Volume \<Rightarrow> Container list \<Rightarrow> Job" where
  "backup_job isClusterScoped b persistentVolume containers = \<lparr>job_Name = JobName b, job_Namespace = bk_Namespace b,
     job_Labels = job_labels b,
     job_Annotations = (if isClusterScoped then Some [(AnnotationScope, AnnotationClusterScoped)] else None),
     job_OwnerReferences = backup_owner b, job_ActiveDeadlineSeconds = bs_ActiveDeadlineSeconds (bk_Spec b),
     job_BackoffLimit = None, job_Template = backup_template b persistentVolume containers,
     job_Succeeded = 0, job_Failed = 0, job_Conditions = []\<rparr>"

definition getBackupJob :: "('k, 'l, 'c) backup_reconciler \<Rightarrow> drc \<Rightarrow> ('k bsys, goerr + Job) step" where
  "getBackupJob r cluster = go_bind the_backup (\<lambda>b.
     go_get (on_server (GetVolumeForBackup r b (JobName b))) Inl (\<lambda>persistentVolume.
     go_get (backupContainers r cluster) Inl (\<lambda>containers.
       go_ret (Inr (backup_job (b_scoped r) b persistentVolume containers)))))"

section \<open>Following a job\<close>

definition drop_status_label :: "RedisClusterBackup \<Rightarrow> RedisClusterBackup" where
  "drop_status_label b = b\<lparr>bk_Labels := map_option (mdel LabelBackupStatus) (bk_Labels b)\<rparr>"

text \<open>The result of the status update that marks the backup is dropped.\<close>

definition ignore_backup :: "('k, 'l, 'c) backup_reconciler \<Rightarrow> string \<Rightarrow> ('k bsys, goerr option) step" where
  "ignore_backup r msg =
     go_bind (markAsIgnoredBackup r msg) (\<lambda>_.
     go_bind (set_backup drop_status_label) (\<lambda>_.
     go_catch (bk_update r) (backup_error r) (warn BackupFailed msg None)))"

definition report_end :: "drc \<Rightarrow> bool \<Rightarrow> ('k bsys, goerr option) step" where
  "report_end cluster jobSucceeded =
     (let type = (if jobSucceeded then EventTypeNormal else EventTypeWarning);
          reason = (if jobSucceeded then BackupSuccessful else BackupFailed);
          msg = (if jobSucceeded then ''Successfully completed backup'' else ''Failed to complete backup'')
      in go_bind (backup_event type reason msg) (\<lambda>_.
         go_bind (record_event (DistributedRedisClusterKind, drc_Namespace cluster, drc_Name cluster) type reason msg) (\<lambda>_.
           go_ret None)))"

definition end_status :: "bool \<Rightarrow> int \<Rightarrow> RedisClusterBackupStatus \<Rightarrow> RedisClusterBackupStatus" where
  "end_status jobSucceeded t st =
     (if jobSucceeded then st\<lparr>bst_Phase := BackupPhaseSucceeded, bst_CompletionTime := Some t\<rparr>
      else st\<lparr>bst_Phase := BackupPhaseFailed, bst_Reason := ''run batch job failed'', bst_CompletionTime := Some t\<rparr>)"

definition end_backup :: "('k, 'l, 'c) backup_reconciler \<Rightarrow> drc \<Rightarrow> bool \<Rightarrow> ('k bsys, goerr option) step" where
  "end_backup r cluster jobSucceeded =
     go_bind (read_clock r) (\<lambda>t.
     go_bind (set_backup (upd_bstatus (end_status jobSucceeded t))) (\<lambda>_.
     go_catch (bk_update_status r) (backup_error r)
    (go_bind (set_backup drop_status_label) (\<lambda>_.
     go_catch (bk_update r) (backup_error r) (report_end cluster jobSucceeded)))))"

text \<open>The loop over the owners stops at the first one that is a backup.\<close>

fun owners_loop :: "('k, 'l, 'c) backup_reconciler \<Rightarrow> drc \<Rightarrow> string \<Rightarrow> OwnerReference list \<Rightarrow> ('k bsys, goerr option) step" where
  "owners_loop r cluster jobType [] = go_ret None"
| "owners_loop r cluster jobType (own # owners) =
     (if owner_Kind own = RedisClusterBackupKind then
        go_bind the_backup (\<lambda>b.
          if owner_Name own = bk_Name b then end_backup r cluster (jobType = JobComplete)
          else ignore_backup r ''One Backup is already Running'')
      else owners_loop r cluster jobType owners)"

definition job_missing :: "('k, 'l, 'c) backup_reconciler \<Rightarrow> goerr \<Rightarrow> ('k bsys, goerr option) step" where
  "job_missing r err =
     (if IsNotFound err then ignore_backup r ''One Backup is already Running, Job not found'' else go_ret (Some err))"

definition follow_job :: "('k, 'l, 'c) backup_reconciler \<Rightarrow> Job \<Rightarrow> ('k bsys, goerr option) step" where
  "follow_job r jobObj =
     (if \<not> isJobFinished jobObj then go_ret (Some (Errorf ''wait for job Succeeded or Failed''))
      else
        go_bind the_backup (\<lambda>b.
        go_either (on_server (GetDistributedRedisCluster (b_client r) (bk_Namespace b) (bs_RedisClusterName (bk_Spec b)))) (backup_error r) (\<lambda>cluster.
        go_bind (go_outcome (go_index (job_Conditions jobObj) 0)) (\<lambda>c.
          owners_loop r cluster (jc_Type c) (job_OwnerReferences jobObj)))))"

definition handleBackupJob :: "('k, 'l, 'c) backup_reconciler \<Rightarrow> ('k bsys, goerr option) step" where
  "handleBackupJob r = go_bind the_backup (\<lambda>b.
     go_either (on_server (GetJob (b_direct r) (bk_Namespace b) (JobName b))) (job_missing r) (follow_job r))"

section \<open>Creating a job\<close>

definition ValidateBackup :: "('k, 'l, 'c) backup_reconciler \<Rightarrow> ('k bsys, goerr option) step" where
  "ValidateBackup r =
     go_bind (set_backup (\<lambda>b. if bk_Labels b = None then b\<lparr>bk_Labels := Some []\<rparr> else b)) (\<lambda>_.
     go_bind the_backup (\<lambda>b.
       case Backup_Validate b of
         Some err \<Rightarrow> go_ret (Some err)
       | None \<Rightarrow> go_get (on_server (GetDistributedRedisCluster (b_client r) (bk_Namespace b) (bs_RedisClusterName (bk_Spec b)))) Some (\<lambda>_. go_ret None)))"

text \<open>Mark the backup as failed for good.\<close>

definition fail_backup :: "('k, 'l, 'c) backup_reconciler \<Rightarrow> string \<Rightarrow> ('k bsys, goerr option) step" where
  "fail_backup r msg = go_bind (markAsFailedBackup r msg) (\<lambda>_. warn BackupFailed msg None)"

text \<open>Writing into a \<open>nil\<close> map panics.\<close>

definition label_running :: "('k bsys, unit) step" where
  "label_running = go_bind the_backup (\<lambda>b.
     case bk_Labels b of
       None \<Rightarrow> go_panic NilMapWrite
     | Some m \<Rightarrow> set_backup (\<lambda>b. b\<lparr>bk_Labels := Some (mput LabelBackupStatus BackupPhaseRunning
                   (mput LabelClusterName (bs_RedisClusterName (bk_Spec b)) m))\<rparr>))"

definition running_status :: "drc \<Rightarrow> RedisClusterBackupStatus \<Rightarrow> RedisClusterBackupStatus" where
  "running_status cluster st = st\<lparr>bst_Phase := BackupPhaseRunning, bst_MasterSize := sp_MasterSize (drc_Spec cluster),
     bst_ClusterReplicas := sp_ClusterReplicas (drc_Spec cluster), bst_ClusterImage := sp_Image (drc_Spec cluster)\<rparr>"

definition run_job :: "('k, 'l, 'c) backup_reconciler \<Rightarrow> drc \<Rightarrow> Job \<Rightarrow> ('k bsys, goerr option) step" where
  "run_job r cluster job =
     go_bind (set_backup (upd_bstatus (running_status cluster))) (\<lambda>_.
     go_catch (bk_update_status r) (\<lambda>e. warn BackupFailed (err_text r e) (Some e))
    (go_bind label_running (\<lambda>_.
     go_catch (bk_update r) (backup_error r)
    (go_bind (backup_event EventTypeNormal Starting ''Backup running'') (\<lambda>_.
     go_catch (on_server (\<lambda>k. only_err (c_Create (jobs (b_client r)) job k))) (backup_error r) (go_ret None))))))"

definition no_job :: "('k, 'l, 'c) backup_reconciler \<Rightarrow> goerr \<Rightarrow> ('k bsys, goerr option) step" where
  "no_job r err =
     (let message = ''Failed to create Backup Job. Reason: '' @ err_text r err
      in go_bind (backup_event EventTypeWarning BackupError message) (\<lambda>_.
         if IsRequestRetryable err then go_ret (Some err) else markAsFailedBackup r message))"

definition make_job :: "('k, 'l, 'c) backup_reconciler \<Rightarrow> drc \<Rightarrow> ('k bsys, goerr option) step" where
  "make_job r cluster = go_either (getBackupJob r cluster) (no_job r) (run_job r cluster)"

definition check_bucket :: "('k, 'l, 'c) backup_reconciler \<Rightarrow> drc \<Rightarrow> ('k bsys, goerr option) step" where
  "check_bucket r cluster = go_bind the_backup (\<lambda>b.
     if Local (bs_Backend (bk_Spec b)) = None then
       go_catch (on_server (CheckBucketAccess (b_stow r) (b_client r) (b_build r) (bs_Backend (bk_Spec b)) (bk_Namespace b)))
         (\<lambda>err. fail_backup r (err_text r err)) (make_job r cluster)
     else make_job r cluster)"

definition start_backup :: "('k, 'l, 'c) backup_reconciler \<Rightarrow> ('k bsys, goerr option) step" where
  "start_backup r = go_bind the_backup (\<lambda>b.
     go_either (on_server (GetDistributedRedisCluster (b_client r) (bk_Namespace b) (bs_RedisClusterName (bk_Spec b)))) (backup_error r) (\<lambda>cluster.
     go_either (on_server (NewRcloneSecret (b_client r) (b_build r) (RCloneSecretName b) (bk_Namespace b) (bs_Backend (bk_Spec b)) (backup_owner b)))
       (\<lambda>err. fail_backup r (''Failed to generate rclone secret. Reason: '' @ err_text r err)) (\<lambda>secret.
     go_catch (on_server (CreateSecret (b_client r) secret)) (backup_error r) (check_bucket r cluster))))"

definition follow_or_start :: "('k, 'l, 'c) backup_reconciler \<Rightarrow> ('k bsys, goerr option) step" where
  "follow_or_start r = go_bind the_backup (\<lambda>b.
     go_either (on_server (isBackupRunning r b)) (backup_error r) (\<lambda>running.
       if running then handleBackupJob r else start_backup r))"

definition completed :: "BackupPhase \<Rightarrow> bool" where
  "completed p \<longleftrightarrow> p = BackupPhaseFailed \<or> p = BackupPhaseSucceeded \<or> p = BackupPhaseIgnored"

definition process_backup :: "('k, 'l, 'c) backup_reconciler \<Rightarrow> ('k bsys, goerr option) step" where
  "process_backup r = go_bind the_backup (\<lambda>b.
     if completed (bst_Phase (bk_Status b)) then
       go_bind (set_backup drop_status_label) (\<lambda>_. go_catch (bk_update r) (backup_error r) (go_ret None))
     else
       go_catch (ValidateBackup r)
         (\<lambda>err. if IsRequestRetryable err then go_ret (Some err) else fail_backup r (err_text r err))
         (follow_or_start r))"

definition backup_create :: "('k, 'l, 'c) backup_reconciler \<Rightarrow> ('k bsys, goerr option) step" where
  "backup_create r = go_bind the_backup (\<lambda>b.
     if bst_StartTime (bk_Status b) = None then
       go_bind (read_clock r) (\<lambda>t.
       go_bind (set_backup (upd_bstatus (\<lambda>st. st\<lparr>bst_StartTime := Some t\<rparr>))) (\<lambda>_.
       go_catch (bk_update_status r) (backup_error r) (process_backup r)))
     else process_backup r)"

section \<open>redisclusterbackup_controller.go\<close>

definition backup_UpdateFunc :: "bool \<Rightarrow> (string, string) gomap \<Rightarrow> int \<Rightarrow> int \<Rightarrow> bool" where
  "backup_UpdateFunc isClusterScoped annotations oldGeneration newGeneration =
     (if \<not> ShoudManage isClusterScoped annotations then False else if oldGeneration \<noteq> newGeneration then True else False)"

definition backup_DeleteFunc :: "bool \<Rightarrow> (string, string) gomap \<Rightarrow> bool \<Rightarrow> bool" where
  "backup_DeleteFunc isClusterScoped annotations deleteStateUnknown =
     (if \<not> ShoudManage isClusterScoped annotations then False else \<not> deleteStateUnknown)"

definition backup_CreateFunc :: "bool \<Rightarrow> (string, string) gomap \<Rightarrow> bool" where
  "backup_CreateFunc isClusterScoped annotations = (if \<not> ShoudManage isClusterScoped annotations then False else True)"

text \<open>\<open>isJobCompleted\<close> logs the type of the first condition.\<close>

definition isJobCompleted :: "Job \<Rightarrow> bool outcome" where
  "isJobCompleted newJob =
     (if isJobFinished newJob then outcome_bind (go_index (job_Conditions newJob) 0) (\<lambda>_. Ret True) else Ret False)"

definition job_annotations :: "Job \<Rightarrow> (string, string) gomap" where
  "job_annotations j = labels_of (job_Annotations j)"

definition job_UpdateFunc :: "bool \<Rightarrow> Job \<Rightarrow> bool outcome" where
  "job_UpdateFunc isClusterScoped newObj =
     (if \<not> ShoudManage isClusterScoped (job_annotations newObj) then Ret False
      else outcome_bind (isJobCompleted newObj) (\<lambda>b. if b then Ret True else Ret False))"

definition job_DeleteFunc :: "bool \<Rightarrow> Job \<Rightarrow> bool" where
  "job_DeleteFunc isClusterScoped job =
     (if \<not> ShoudManage isClusterScoped (job_annotations job) then False
      else if job_Succeeded job = 0 \<and> job_Failed job \<le> Int32 (job_BackoffLimit job) then True else False)"

definition job_CreateFunc :: "bool \<Rightarrow> Job \<Rightarrow> bool" where
  "job_CreateFunc isClusterScoped job =
     (if \<not> ShoudManage isClusterScoped (job_annotations job) then False
      else if job_Succeeded job > 0 \<or> job_Failed job \<ge> Int32 (job_BackoffLimit job) then True else False)"

text \<open>\<open>Reconcile\<close>: the result is always empty; the error, the server, the events and the clock readings.\<close>

definition backup_Reconcile ::
  "('k, 'l, 'c) backup_reconciler \<Rightarrow> string \<Rightarrow> string \<Rightarrow> 'k \<times> event list \<times> nat \<Rightarrow> (goerr option \<times> 'k \<times> event list \<times> nat) outcome option" where
  "backup_Reconcile r namespace name st =
     (case st of (k, evs, n) \<Rightarrow>
        (case GetRedisClusterBackup (b_client r) namespace name k of
           (Inl err, k) \<Rightarrow> Some (Ret (if IsNotFound err then None else Some err, k, evs, n))
         | (Inr instance, k) \<Rightarrow>
             (case backup_create r \<lparr>b_obj = instance, b_kube = k, b_events = evs, b_reads = n\<rparr> of
                None \<Rightarrow> None
              | Some (Panic p) \<Rightarrow> Some (Panic p)
              | Some (Ret (err, s)) \<Rightarrow> Some (Ret (err, b_kube s, b_events s, b_reads s)))))"

section \<open>What the containers of a job back up\<close>

abbreviation masters_of :: "RedisClusterNode list \<Rightarrow> RedisClusterNode list" where
  "masters_of nodes \<equiv> filter (\<lambda>node. an_Role node = RedisClusterNodeRoleMaster) nodes"

text \<open>The container at position \<open>k\<close> is made for the node \<open>node\<close>.\<close>

definition backs_up :: "('k, 'l, 'c) backup_reconciler \<Rightarrow> RedisClusterBackup \<Rightarrow> drc \<Rightarrow> string \<Rightarrow> nat \<Rightarrow> RedisClusterNode \<Rightarrow> Container \<Rightarrow> bool" where
  "backs_up r b cluster location k node c \<longleftrightarrow> (\<exists>folderName. RemotePath (Stamp (b_build r)) b = Ret (Inr folderName)
     \<and> backup_container b cluster location folderName k node = Ret c)"

lemma containers_loop_result:
  assumes "containers_loop r cluster location n nodes i cs s = Some (Ret (Inr cs', s'))" and "i \<le> n" and "length cs = n"
  shows "s' = s \<and> length cs' = n \<and> (\<forall>k < n. if i \<le> k \<and> k < i + length (masters_of nodes)
     then backs_up r (b_obj s) cluster location k (masters_of nodes ! (k - i)) (cs' ! k) else cs' ! k = cs ! k)"
  using assms
proof (induction nodes arbitrary: i cs)
  case Nil
  then show ?case by (auto simp: go_ret_def)
next
  case (Cons node nodes)
  consider (other) "an_Role node \<noteq> RedisClusterNodeRoleMaster" | (full) "an_Role node = RedisClusterNodeRoleMaster" "i = n"
    | (room) "an_Role node = RedisClusterNodeRoleMaster" "i < n" using Cons.prems(2) by linarith
  then show ?case
  proof cases
    case other
    then show ?thesis using Cons.IH [of i cs] Cons.prems by simp
  next
    case full
    then show ?thesis using Cons.prems by (simp add: go_ret_def)
  next
    case room
    then obtain folderName c where f: "RemotePath (Stamp (b_build r)) (b_obj s) = Ret (Inr folderName)"
        "backup_container (b_obj s) cluster location folderName i node = Ret c"
      and rest: "containers_loop r cluster location n nodes (i + 1) (cs[i := c]) s = Some (Ret (Inr cs', s'))"
      using Cons.prems(1)
      by (auto simp: go_bind_def the_backup_def go_either_def go_outcome_def warn_def backup_event_def record_event_def go_ret_def
          split: outcome.splits sum.splits)
    have c: "backs_up r (b_obj s) cluster location i node c" using f by (auto simp: backs_up_def)
    have IH: "s' = s \<and> length cs' = n \<and> (\<forall>k < n. if i + 1 \<le> k \<and> k < i + 1 + length (masters_of nodes)
       then backs_up r (b_obj s) cluster location k (masters_of nodes ! (k - (i + 1))) (cs' ! k) else cs' ! k = cs[i := c] ! k)"
      by (rule Cons.IH [OF rest]) (use room Cons.prems(3) in simp_all)
    show ?thesis
    proof (intro conjI allI impI)
      fix k
      assume "k < n"
      then show "if i \<le> k \<and> k < i + length (masters_of (node # nodes))
         then backs_up r (b_obj s) cluster location k (masters_of (node # nodes) ! (k - i)) (cs' ! k) else cs' ! k = cs ! k"
        using IH c room Cons.prems(3) by (cases "k = i") (auto simp: nth_Cons' split: if_splits)
    qed (use IH in auto)
  qed
qed

lemma backup_container_host:
  assumes "backup_container b cluster location folderName k node = Ret c"
  shows "cont_Name c = ''backup-'' @ FormatUint k" and "''--host='' @ an_IP node \<in> set (cont_Args c)"
    and "''--snapshot='' @ bk_Name b @ ''-'' @ FormatUint k \<in> set (cont_Args c)"
  using assms
  by (auto simp: backup_container_def Let_def with_pod_spec_def JobTypeBackup_def backup_redisPassword_def split: option.splits if_splits)

text \<open>C39.
  The job of a backup has exactly one container for each wanted master, and making it changes nothing. The container at
  position \<open>k\<close> backs up the \<open>k\<close>-th node that the status of the cluster lists as master, into a snapshot of its own. When the
  status lists more masters than are wanted, as during a scale down, the last ones are not backed up; when it lists fewer, the remaining
  containers are empty, without name or image.\<close>

theorem backupContainers_result:
  assumes "backupContainers r cluster s = Some (Ret (Inr cs, s'))" and "n = nat (sp_MasterSize (drc_Spec cluster))"
    and "ms = masters_of (st_Nodes (drc_Status cluster))"
  shows "s' = s \<and> length cs = n
    \<and> (\<forall>k. k < n \<longrightarrow> k < length ms \<longrightarrow> cont_Name (cs ! k) = ''backup-'' @ FormatUint k \<and> ''--host='' @ an_IP (ms ! k) \<in> set (cont_Args (cs ! k))
         \<and> ''--snapshot='' @ bk_Name (b_obj s) @ ''-'' @ FormatUint k \<in> set (cont_Args (cs ! k)))
    \<and> (\<forall>k. length ms \<le> k \<longrightarrow> k < n \<longrightarrow> cs ! k = no_container)"
proof -
  from assms(1) obtain location where "containers_loop r cluster location n (st_Nodes (drc_Status cluster)) 0 (replicate n no_container) s
      = Some (Ret (Inr cs, s'))"
    unfolding assms(2) by (auto simp: backupContainers_def go_bind_def the_backup_def go_ret_def go_panic_def Let_def split: sum.splits if_splits)
  note res = containers_loop_result [OF this, folded assms(3), simplified]
  have "cont_Name (cs ! k) = ''backup-'' @ FormatUint k \<and> ''--host='' @ an_IP (ms ! k) \<in> set (cont_Args (cs ! k))
      \<and> ''--snapshot='' @ bk_Name (b_obj s) @ ''-'' @ FormatUint k \<in> set (cont_Args (cs ! k))" if "k < n" "k < length ms" for k
  proof -
    have "backs_up r (b_obj s) cluster location k (ms ! k) (cs ! k)" using res that by (metis diff_zero)
    then obtain f where "backup_container (b_obj s) cluster location f k (ms ! k) = Ret (cs ! k)" by (auto simp: backs_up_def)
    from backup_container_host [OF this] show ?thesis by blast
  qed
  moreover have "cs ! k = no_container" if "length ms \<le> k" "k < n" for k
    using res that by (metis leD nth_replicate)
  ultimately show ?thesis using res by simp
qed

text \<open>A controller on a server in memory, a cluster with one master, and a backup of it.\<close>

definition mem_backup :: "build_env \<Rightarrow> go_env \<Rightarrow> ('l, 'c) stow \<Rightarrow> (nat \<Rightarrow> int) \<Rightarrow> bool \<Rightarrow> (mem_kube, 'l, 'c) backup_reconciler" where
  "mem_backup bld env st clock scoped = \<lparr>b_client = mem_kube_client, b_direct = mem_kube_client, b_build = bld, b_env = env,
     b_stow = st, b_clock = clock, b_scoped = scoped\<rparr>"

abbreviation demo_backup :: "(mem_kube, unit, unit) backup_reconciler" where
  "demo_backup \<equiv> mem_backup sample_build go_env_det sample_stow int False"

definition one_master :: drc where
  "one_master = sample_cluster\<lparr>drc_Spec := (drc_Spec sample_cluster)\<lparr>sp_MasterSize := 1\<rparr>,
     drc_Status := (drc_Status sample_cluster)\<lparr>st_Nodes := [\<lparr>an_ID = ''n'', an_Role = RedisClusterNodeRoleMaster, an_IP = ''10.0.0.1'', an_Port = ''6379'',
       an_Slots = [''0-16383''], an_MasterRef = [], an_PodName = [], an_NodeName = [], an_StatefulSet = []\<rparr>]\<rparr>\<rparr>"

definition new_backup_of :: "string \<Rightarrow> RedisClusterBackup" where
  "new_backup_of name = \<lparr>bk_Name = name, bk_Namespace = ''default'', bk_UID = [], bk_Labels = None,
     bk_Spec = \<lparr>bs_Image = ''tools'', bs_RedisClusterName = ''example'', bs_Storage = None,
       bs_Backend = \<lparr>StorageSecretName = [], S3 = None, GCS = None, Azure = None, Swift = None,
         Local = Some \<lparr>local_MountPath = ''/back'', local_SubPath = [], local_VolumeSource = EmptyDir\<rparr>\<rparr>,
       bs_PodSpec = None, bs_ActiveDeadlineSeconds = None\<rparr>,
     bk_Status = \<lparr>bst_StartTime = None, bst_CompletionTime = None, bst_Phase = [], bst_Reason = [],
       bst_MasterSize = 0, bst_ClusterReplicas = 0, bst_ClusterImage = []\<rparr>\<rparr>"

text \<open>Two masters are wanted and the status lists one: the second container is empty.\<close>

abbreviation two_wanted :: drc where
  "two_wanted \<equiv> one_master\<lparr>drc_Spec := (drc_Spec one_master)\<lparr>sp_MasterSize := 2\<rparr>\<rparr>"

definition started_sys :: "mem_kube bsys" where
  "started_sys = \<lparr>b_obj = upd_bstatus (\<lambda>st. st\<lparr>bst_StartTime := Some 5\<rparr>) (new_backup_of ''a''), b_kube = empty_kube, b_events = [], b_reads = 0\<rparr>"

definition containers_made :: bool where
  "containers_made = (case backupContainers demo_backup two_wanted started_sys of Some (Ret (Inr cs, _)) \<Rightarrow> True | _ \<Rightarrow> False)"

lemma containers_made: containers_made
  by code_simp

theorem backupContainers_result_witness:
  "\<exists>cs. backupContainers demo_backup two_wanted started_sys = Some (Ret (Inr cs, started_sys)) \<and> length cs = 2
     \<and> ''--host=10.0.0.1'' \<in> set (cont_Args (cs ! 0)) \<and> cs ! 1 = no_container"
proof -
  from containers_made obtain cs s' where run: "backupContainers demo_backup two_wanted started_sys = Some (Ret (Inr cs, s'))"
    by (auto simp: containers_made_def split: option.splits outcome.splits prod.splits sum.splits)
  note res = backupContainers_result [OF run refl refl]
  have m: "masters_of (st_Nodes (drc_Status two_wanted)) = st_Nodes (drc_Status one_master)"
    by (simp add: one_master_def)
  have "''--host=10.0.0.1'' \<in> set (cont_Args (cs ! 0))" "cs ! 1 = no_container" "length cs = 2" "s' = started_sys"
    using res unfolding m by (auto simp: one_master_def)
  with run show ?thesis by blast
qed

end
