(* ===== verification/BackupRun.thy ===== *)
theory BackupRun
  imports Backup
begin

text \<open>
  At most one backup of a cluster runs at a time. The locale \<open>backup_server\<close> states what the controller relies on. Its client reads the
  backups from a cache, which may lag behind what is stored, and the jobs from the server; an object that is written keeps its name
  and its spec, a status update stores the status and an update the labels that were sent, and the calls for other objects change
  neither backups nor jobs. A write may fail, and then nothing is stored. The inductive predicate \<open>backup_world\<close> interleaves
  reconciliations of any backups with the progress of the jobs, of the cache and with new backups of the users; the property is an
  invariant of every world it reaches. A reconciliation is one step of the world (the controller runs with a single worker) and starts
  when the cache has caught up; an example at the end shows that with a stale cache a second job is started.
\<close>

section \<open>Jobs that are active\<close>

definition job_selector :: "string \<Rightarrow> labels" where
  "job_selector C = [(LabelClusterName, C), (AnnotationJobType, JobTypeBackup)]"

definition active :: "(string \<times> string \<Rightarrow> Job option) \<Rightarrow> string \<Rightarrow> string \<Rightarrow> string \<Rightarrow> bool" where
  "active J ns C n \<longleftrightarrow> (\<exists>j. J (ns, n) = Some j \<and> has_labels (job_selector C) (job_Labels j) \<and> \<not> isJobFinished j)"

text \<open>A backup whose job may be active.\<close>

definition live :: "RedisClusterBackup \<Rightarrow> bool" where
  "live b \<longleftrightarrow> \<not> completed (bst_Phase (bk_Status b)) \<and> Backup_Validate b = None
     \<and> has_labels (running_labels b) (labels_of (bk_Labels b))"

definition owned :: "(string \<times> string \<Rightarrow> RedisClusterBackup option) \<Rightarrow> string \<Rightarrow> string \<Rightarrow> string \<Rightarrow> bool" where
  "owned B ns C n \<longleftrightarrow> (\<exists>b. B (ns, bk_Name b) = Some b \<and> n = JobName b \<and> bs_RedisClusterName (bk_Spec b) = C \<and> live b)"

definition exclusive :: "(string \<times> string \<Rightarrow> RedisClusterBackup option) \<Rightarrow> (string \<times> string \<Rightarrow> Job option) \<Rightarrow> bool" where
  "exclusive B J \<longleftrightarrow> (\<forall>q b. B q = Some b \<longrightarrow> bk_key b = q)
     \<and> (\<forall>ns C n. active J ns C n \<longrightarrow> owned B ns C n)
     \<and> (\<forall>ns C n n'. active J ns C n \<longrightarrow> active J ns C n' \<longrightarrow> n = n')"

lemma job_labels_selector: "job_labels b = job_selector (bs_RedisClusterName (bk_Spec b))"
  by (simp add: job_labels_def job_selector_def)

lemma labels_apart: "LabelClusterName \<noteq> AnnotationJobType" "LabelBackupStatus \<noteq> LabelClusterName"
  by (simp_all add: LabelClusterName_def AnnotationJobType_def LabelBackupStatus_def BackupKey_def ResourceSingularBackup_def GenericKey_def)

lemma selector_of_selector: "has_labels (job_selector C) (job_selector D) \<longleftrightarrow> C = D"
  using labels_apart by (auto simp: has_labels_def job_selector_def)

lemma JobName_inj [simp]: "JobName a = JobName b \<longleftrightarrow> bk_Name a = bk_Name b"
  by (simp add: JobName_def)

lemma owned_keyed:
  assumes "exclusive B J" and "B (ns, nm) = Some b" and "active J ns C (''redisbackup-'' @ nm)"
  shows "live b" and "bs_RedisClusterName (bk_Spec b) = C"
proof -
  from assms(1,3) have "owned B ns C (''redisbackup-'' @ nm)" by (simp add: exclusive_def)
  then obtain b' where "B (ns, bk_Name b') = Some b'" "nm = bk_Name b'" "bs_RedisClusterName (bk_Spec b') = C" "live b'"
    by (auto simp: owned_def JobName_def)
  then show "live b" "bs_RedisClusterName (bk_Spec b) = C" using assms(2) by auto
qed

text \<open>No job of the backup \<open>nm\<close> is active.\<close>

abbreviation free :: "(string \<times> string \<Rightarrow> Job option) \<Rightarrow> string \<Rightarrow> string \<Rightarrow> bool" where
  "free J ns nm \<equiv> \<forall>C. \<not> active J ns C (''redisbackup-'' @ nm)"

lemma exclusive_write:
  assumes "exclusive B J" and "bk_key b = (ns, nm)"
    and "free J ns nm \<or> (\<exists>b0. B (ns, nm) = Some b0 \<and> (live b0 \<longrightarrow> live b) \<and> bk_Spec b = bk_Spec b0)"
  shows "exclusive (B((ns, nm) \<mapsto> b)) J"
proof -
  have "owned (B((ns, nm) \<mapsto> b)) ns' C n" if act: "active J ns' C n" for ns' C n
  proof -
    from assms(1) act obtain b' where b': "B (ns', bk_Name b') = Some b'" "n = JobName b'" "bs_RedisClusterName (bk_Spec b') = C" "live b'"
      unfolding exclusive_def owned_def by blast
    show ?thesis
    proof (cases "(ns', bk_Name b') = (ns, nm)")
      case True
      then have "\<not> free J ns nm" using act b'(2) by (auto simp: JobName_def)
      then have "live b" "bk_Spec b = bk_Spec b'" using assms(3) True b' by auto
      then show ?thesis using True b' assms(2) by (auto simp: owned_def JobName_def intro!: exI [of _ b])
    next
      case False
      then show ?thesis using b' unfolding owned_def by (intro exI [of _ b']) auto
    qed
  qed
  moreover have "\<forall>q x. (B((ns, nm) \<mapsto> b)) q = Some x \<longrightarrow> bk_key x = q" using assms(1,2) by (auto simp: exclusive_def)
  moreover have "\<forall>ns C n n'. active J ns C n \<longrightarrow> active J ns C n' \<longrightarrow> n = n'" using assms(1) unfolding exclusive_def by (elim conjE)
  ultimately show ?thesis unfolding exclusive_def by blast
qed

lemma exclusive_new_job:
  assumes "exclusive B J" and "B (ns, bk_Name b) = Some b" and "live b" and "has_labels (job_labels b) (job_Labels j)"
    and "\<And>D. has_labels (job_selector D) (job_Labels j) \<Longrightarrow> D = bs_RedisClusterName (bk_Spec b)"
    and "\<And>n. \<not> active J ns (bs_RedisClusterName (bk_Spec b)) n"
  shows "exclusive B (J((ns, JobName b) \<mapsto> j))"
proof -
  let ?J = "J((ns, JobName b) \<mapsto> j)" and ?C = "bs_RedisClusterName (bk_Spec b)"
  have act: "active ?J ns' D n \<Longrightarrow> ns' = ns \<and> n = JobName b \<and> D = ?C \<or> active J ns' D n \<and> (ns' \<noteq> ns \<or> D \<noteq> ?C)" for ns' D n
    using assms(5,6) by (auto simp: active_def split: if_splits)
  have "owned B ns' D n" if "active ?J ns' D n" for ns' D n
    using act [OF that] assms(1-3) unfolding exclusive_def owned_def by blast
  moreover have "n = n'" if "active ?J ns' D n" "active ?J ns' D n'" for ns' D n n'
    using act [OF that(1)] act [OF that(2)] assms(1) unfolding exclusive_def by blast
  moreover have "\<forall>q b. B q = Some b \<longrightarrow> bk_key b = q" using assms(1) unfolding exclusive_def by blast
  ultimately show ?thesis unfolding exclusive_def by blast
qed

text \<open>Jobs that end, or whose status changes, and backups of users with a fresh name and without the labels of the controller.\<close>

lemma exclusive_progress:
  assumes "exclusive B J" and "\<And>ns C n. active J' ns C n \<Longrightarrow> active J ns C n"
  shows "exclusive B J'"
  using assms unfolding exclusive_def by blast

lemma exclusive_new_backup:
  assumes "exclusive B J" and "B (bk_key b) = None"
  shows "exclusive (B(bk_key b \<mapsto> b)) J"
proof (rule exclusive_write [OF assms(1)])
  show "free J (bk_Namespace b) (bk_Name b) \<or> (\<exists>b0. B (bk_key b) = Some b0 \<and> (live b0 \<longrightarrow> live b) \<and> bk_Spec b = bk_Spec b0)"
  proof (intro disjI1 allI notI)
    fix C
    assume "active J (bk_Namespace b) C (''redisbackup-'' @ bk_Name b)"
    then have "owned B (bk_Namespace b) C (''redisbackup-'' @ bk_Name b)" using assms(1) by (simp add: exclusive_def)
    then show False using assms(2) by (auto simp: owned_def JobName_def)
  qed
qed simp

section \<open>What the controller relies on\<close>

text \<open>\<open>B\<close>, \<open>J\<close> and \<open>K\<close> read off the backups, the jobs and which clusters exist.\<close>

text \<open>\<open>V\<close> is what the cache shows of the backups. It may lag behind: over a call, what it shows of an object is what it showed before, or what
  was or is stored.\<close>

definition cache_moves :: "('k \<Rightarrow> 'q \<Rightarrow> 'a) \<Rightarrow> ('k \<Rightarrow> 'q \<Rightarrow> 'a) \<Rightarrow> 'k \<Rightarrow> 'k \<Rightarrow> bool" where
  "cache_moves V B k k' \<longleftrightarrow> (\<forall>q. V k' q = V k q \<or> V k' q = B k q \<or> V k' q = B k' q)"

abbreviation unchanged :: "('k \<Rightarrow> 'q \<Rightarrow> 'a) \<Rightarrow> ('k \<Rightarrow> 'q \<Rightarrow> 'a) \<Rightarrow> ('k \<Rightarrow> 'b) \<Rightarrow> ('k \<Rightarrow> 'c) \<Rightarrow> 'k \<Rightarrow> 'k \<Rightarrow> bool" where
  "unchanged V B J K k k' \<equiv> B k' = B k \<and> J k' = J k \<and> K k' = K k \<and> cache_moves V B k k'"

text \<open>The cache is up to date on all objects but \<open>q0\<close>, which is being worked on.\<close>

definition synced :: "('k \<Rightarrow> 'q \<Rightarrow> 'a) \<Rightarrow> ('k \<Rightarrow> 'q \<Rightarrow> 'a) \<Rightarrow> 'q \<Rightarrow> 'k \<Rightarrow> bool" where
  "synced V B q0 k \<longleftrightarrow> (\<forall>q. q \<noteq> q0 \<longrightarrow> V k q = B k q)"

lemma synced_same [intro]: "cache_moves V B k k' \<Longrightarrow> B k' = B k \<Longrightarrow> synced V B q0 k \<Longrightarrow> synced V B q0 k'"
  unfolding cache_moves_def synced_def by metis

lemma synced_write [intro]: "cache_moves V B k k' \<Longrightarrow> B k' = (B k)(q0 \<mapsto> b) \<Longrightarrow> synced V B q0 k \<Longrightarrow> synced V B q0 k'"
  unfolding cache_moves_def synced_def by (metis fun_upd_other)

text \<open>Of \<open>q0\<close> itself the cache shows an object with the labels of the stored one.\<close>

definition seen :: "('k \<Rightarrow> 'q \<Rightarrow> RedisClusterBackup option) \<Rightarrow> ('k \<Rightarrow> 'q \<Rightarrow> RedisClusterBackup option) \<Rightarrow> 'q \<Rightarrow> 'k \<Rightarrow> bool" where
  "seen V B q0 k \<longleftrightarrow> (\<exists>v b. V k q0 = Some v \<and> B k q0 = Some b \<and> labels_of (bk_Labels v) = labels_of (bk_Labels b))"

lemma seen_same: "cache_moves V B k k' \<Longrightarrow> B k' = B k \<Longrightarrow> seen V B q0 k \<Longrightarrow> seen V B q0 k'"
  unfolding cache_moves_def seen_def by metis

lemma seen_write:
  assumes "cache_moves V B k k'" and "B k' = (B k)(q0 \<mapsto> b')" and "seen V B q0 k"
    and "\<And>b. B k q0 = Some b \<Longrightarrow> labels_of (bk_Labels b') = labels_of (bk_Labels b)"
  shows "seen V B q0 k'"
  using assms unfolding cache_moves_def seen_def by (metis fun_upd_same)

lemma cache_moves_refl [simp]: "cache_moves V B k k"
  by (simp add: cache_moves_def)

lemma cache_moves_trans: "cache_moves V B k k1 \<Longrightarrow> B k1 = B k \<Longrightarrow> cache_moves V B k1 k' \<Longrightarrow> cache_moves V B k k'"
  unfolding cache_moves_def by metis

abbreviation same_labels :: "RedisClusterBackup \<Rightarrow> RedisClusterBackup \<Rightarrow> bool" where
  "same_labels a b \<equiv> labels_of (bk_Labels a) = labels_of (bk_Labels b)"

locale backup_server =
  fixes r :: "('k, 'l, 'c) backup_reconciler" and V B :: "'k \<Rightarrow> string \<times> string \<Rightarrow> RedisClusterBackup option"
    and J :: "'k \<Rightarrow> string \<times> string \<Rightarrow> Job option" and K :: "'k \<Rightarrow> string \<times> string \<Rightarrow> bool"
  assumes backup_get: "c_Get (backups (b_client r)) ns n k = (g, k') \<Longrightarrow>
      unchanged V B J K k k' \<and> (\<forall>b. g = Inr b \<longrightarrow> V k (ns, n) = Some b)"
    and backup_list: "c_List (backups (b_client r)) ns ls k = (gs, k') \<Longrightarrow>
      unchanged V B J K k k' \<and> (\<forall>bs b n. gs = Inr bs \<longrightarrow> V k (ns, n) = Some b \<longrightarrow> has_labels ls (labels_of (bk_Labels b)) \<longrightarrow> bs \<noteq> [])"
    and job_get: "c_Get (jobs (b_direct r)) ns n k = (h, k') \<Longrightarrow>
      unchanged V B J K k k' \<and> (\<forall>j. h = Inr j \<longrightarrow> J k (ns, n) = Some j) \<and> (\<forall>e. h = Inl e \<longrightarrow> IsNotFound e \<longrightarrow> J k (ns, n) = None)"
    and job_list: "c_List (jobs (b_direct r)) ns ls k = (hs, k') \<Longrightarrow>
      unchanged V B J K k k' \<and> (\<forall>js j n. hs = Inr js \<longrightarrow> J k (ns, n) = Some j \<longrightarrow> has_labels ls (job_Labels j) \<longrightarrow> js \<noteq> [])"
    and cluster_get: "c_Get (clusters (b_client r)) ns n k = (c, k') \<Longrightarrow>
      unchanged V B J K k k' \<and> (\<forall>e. c = Inl e \<longrightarrow> K k (ns, n) \<longrightarrow> IsRequestRetryable e)"
    and secret_calls: "c_Get (secrets (b_client r)) ns n k = (x, k') \<Longrightarrow> unchanged V B J K k k'"
      "c_Create (secrets (b_client r)) sec k = (x, k') \<Longrightarrow> unchanged V B J K k k'"
    and pvc_calls: "c_Get (pvcs (b_client r)) ns n k = (y, k') \<Longrightarrow> unchanged V B J K k k'"
      "c_Create (pvcs (b_client r)) pvc k = (y, k') \<Longrightarrow> unchanged V B J K k k'"
    and refused: "c_StatusUpdate (backups (b_client r)) b k = (Inl e, k') \<Longrightarrow> unchanged V B J K k k'"
      "c_Update (backups (b_client r)) b k = (Inl e, k') \<Longrightarrow> unchanged V B J K k k'"
      "c_Create (jobs (b_client r)) j k = (Inl e, k') \<Longrightarrow> unchanged V B J K k k'"
    and status_update: "c_StatusUpdate (backups (b_client r)) b k = (Inr b', k') \<Longrightarrow>
      cache_moves V B k k' \<and> B k' = (B k)(bk_key b \<mapsto> b') \<and> J k' = J k \<and> K k' = K k \<and> bk_key b' = bk_key b \<and> bk_Spec b' = bk_Spec b \<and> bk_Status b' = bk_Status b
      \<and> (same_labels b' b \<or> (\<exists>b0. B k (bk_key b) = Some b0 \<and> same_labels b' b0))"
    and update: "c_Update (backups (b_client r)) b k = (Inr b', k') \<Longrightarrow>
      cache_moves V B k k' \<and> B k' = (B k)(bk_key b \<mapsto> b') \<and> J k' = J k \<and> K k' = K k \<and> bk_key b' = bk_key b \<and> bk_Spec b' = bk_Spec b \<and> same_labels b' b
      \<and> (bk_Status b' = bk_Status b \<or> (\<exists>b0. B k (bk_key b) = Some b0 \<and> bk_Status b' = bk_Status b0))"
    and job_create: "c_Create (jobs (b_client r)) j k = (Inr j', k') \<Longrightarrow>
      cache_moves V B k k' \<and> B k' = B k \<and> J k' = (J k)(job_key j \<mapsto> j') \<and> K k' = K k \<and> job_Labels j' = job_Labels j"

text \<open>The invariant while the backup \<open>nm\<close> is worked on. \<open>Q\<close> says what is known about the jobs.\<close>

definition hold :: "('k \<Rightarrow> string \<times> string \<Rightarrow> RedisClusterBackup option) \<Rightarrow> ('k \<Rightarrow> string \<times> string \<Rightarrow> RedisClusterBackup option) \<Rightarrow> ('k \<Rightarrow> string \<times> string \<Rightarrow> Job option) \<Rightarrow> ('k \<Rightarrow> string \<times> string \<Rightarrow> bool)
    \<Rightarrow> string \<Rightarrow> string \<Rightarrow> RedisClusterBackupSpec \<Rightarrow> ((string \<times> string \<Rightarrow> Job option) \<Rightarrow> bool) \<Rightarrow> 'k bsys \<Rightarrow> bool" where
  "hold V B J K ns nm sp Q s \<longleftrightarrow> exclusive (B (b_kube s)) (J (b_kube s)) \<and> bk_key (b_obj s) = (ns, nm) \<and> bk_Spec (b_obj s) = sp
     \<and> (\<exists>b0. B (b_kube s) (ns, nm) = Some b0 \<and> bk_Spec b0 = sp) \<and> K (b_kube s) (ns, bs_RedisClusterName sp) \<and> Q (J (b_kube s))
     \<and> synced V B (ns, nm) (b_kube s)"

abbreviation idle :: "string \<Rightarrow> RedisClusterBackupSpec \<Rightarrow> (string \<times> string \<Rightarrow> Job option) \<Rightarrow> bool" where
  "idle ns sp J \<equiv> \<forall>n. \<not> active J ns (bs_RedisClusterName sp) n"

lemma idle_free: "hold V B J K ns nm sp (idle ns sp) s \<Longrightarrow> free (J (b_kube s)) ns nm"
proof (intro allI notI)
  fix C
  assume hold: "hold V B J K ns nm sp (idle ns sp) s" and act: "active (J (b_kube s)) ns C (''redisbackup-'' @ nm)"
  then obtain b0 where "B (b_kube s) (ns, nm) = Some b0" "bk_Spec b0 = sp" by (auto simp: hold_def)
  then have "bs_RedisClusterName sp = C" using owned_keyed(2) [of "B (b_kube s)" "J (b_kube s)" ns nm b0 C] hold act by (simp add: hold_def)
  then show False using hold act by (simp add: hold_def)
qed

lemma hold_unchanged:
  "hold V B J K ns nm sp Q s \<Longrightarrow> unchanged V B J K (b_kube s) k' \<Longrightarrow> hold V B J K ns nm sp Q (s\<lparr>b_kube := k'\<rparr>)"
  by (auto simp: hold_def)

lemma hold_knows: "hold V B J K ns nm sp Q s \<Longrightarrow> Q' (J (b_kube s)) \<Longrightarrow> hold V B J K ns nm sp Q' s"
  by (simp add: hold_def)

lemma inv_backup_steps [intro]:
  "step_inv I the_backup"
  "step_inv (hold V B J K ns nm sp Q) (read_clock r)"
  "step_inv (hold V B J K ns nm sp Q) (record_event obj type reason msg)"
  by (simp_all add: inv_post_def the_backup_def read_clock_def record_event_def hold_def)

lemma inv_set_backup:
  "(\<And>b. bk_key (g b) = bk_key b \<and> bk_Spec (g b) = bk_Spec b) \<Longrightarrow> step_inv (hold V B J K ns nm sp Q) (set_backup g)"
  by (simp add: inv_post_def set_backup_def hold_def)

lemma inv_the_backup: "inv_post (hold V B J K ns nm sp Q) the_backup (\<lambda>b. bk_key b = (ns, nm) \<and> bk_Spec b = sp)"
  by (simp add: inv_post_def the_backup_def hold_def)

lemma inv_on_server:
  "(\<And>k x k'. f k = (x, k') \<Longrightarrow> unchanged V B J K k k') \<Longrightarrow> step_inv (hold V B J K ns nm sp Q) (on_server f)"
  by (auto simp: inv_post_def on_server_def hold_def split: prod.splits)

lemma inv_catch: "step_inv I m \<Longrightarrow> (\<And>e. inv_post I (h e) C) \<Longrightarrow> inv_post I f C \<Longrightarrow> inv_post I (go_catch m h f) C"
  unfolding go_catch_def by (rule inv_bind) (auto split: option.split)

lemma inv_either: "step_inv I m \<Longrightarrow> (\<And>e. inv_post I (h e) C) \<Longrightarrow> (\<And>x. inv_post I (f x) C) \<Longrightarrow> inv_post I (go_either m h f) C"
  unfolding go_either_def by (rule inv_bind) (auto split: sum.split)

lemma inv_backup_event [intro]: "step_inv (hold V B J K ns nm sp Q) (backup_event type reason msg)"
  unfolding backup_event_def by (rule inv_bind) auto

lemma inv_warn [intro]: "step_inv (hold V B J K ns nm sp Q) (warn reason msg x)"
  unfolding warn_def by (rule inv_bind) auto

section \<open>The steps\<close>

context backup_server
begin

lemma inv_status_write:
  assumes "\<And>s. hold V B J K ns nm sp Q s \<Longrightarrow> free (J (b_kube s)) ns nm"
  shows "step_inv (hold V B J K ns nm sp Q) (bk_update_status r)"
  unfolding inv_post_def
proof (intro allI impI)
  fix s e s'
  assume hold: "hold V B J K ns nm sp Q s" and run: "bk_update_status r s = Some (Ret (e, s'))"
  obtain res k' where res: "c_StatusUpdate (backups (b_client r)) (b_obj s) (b_kube s) = (res, k')" by (cases "c_StatusUpdate (backups (b_client r)) (b_obj s) (b_kube s)")
  then show "hold V B J K ns nm sp Q s' \<and> True"
    using hold run refused(1) [of "b_obj s" "b_kube s" _ k'] status_update [of "b_obj s" "b_kube s" _ k'] assms [OF hold]
      exclusive_write [of "B (b_kube s)" "J (b_kube s)" _ ns nm]
    by (cases res) (auto simp: bk_update_status_def UpdateCRStatus_def written_def hold_def)
qed

lemma inv_update_write:
  assumes "\<And>s. hold V B J K ns nm sp Q s \<Longrightarrow> free (J (b_kube s)) ns nm"
  shows "step_inv (hold V B J K ns nm sp Q) (bk_update r)"
  unfolding inv_post_def
proof (intro allI impI)
  fix s e s'
  assume hold: "hold V B J K ns nm sp Q s" and run: "bk_update r s = Some (Ret (e, s'))"
  obtain res k' where res: "c_Update (backups (b_client r)) (b_obj s) (b_kube s) = (res, k')" by (cases "c_Update (backups (b_client r)) (b_obj s) (b_kube s)")
  then show "hold V B J K ns nm sp Q s' \<and> True"
    using hold run refused(2) [of "b_obj s" "b_kube s" _ k'] update [of "b_obj s" "b_kube s" _ k'] assms [OF hold]
      exclusive_write [of "B (b_kube s)" "J (b_kube s)" _ ns nm]
    by (cases res) (auto simp: bk_update_def UpdateCR_def written_def hold_def)
qed

lemma inv_mark_as:
  assumes "\<And>s. hold V B J K ns nm sp Q s \<Longrightarrow> free (J (b_kube s)) ns nm"
  shows "step_inv (hold V B J K ns nm sp Q) (mark_as r phase reason)"
  unfolding mark_as_def by (intro inv_bind inv_backup_steps inv_set_backup inv_status_write assms) auto

lemma inv_fail_backup:
  assumes "\<And>s. hold V B J K ns nm sp Q s \<Longrightarrow> free (J (b_kube s)) ns nm"
  shows "step_inv (hold V B J K ns nm sp Q) (fail_backup r msg)"
  unfolding fail_backup_def markAsFailedBackup_def by (intro inv_bind inv_mark_as inv_warn assms)

lemma inv_drop_label: "step_inv (hold V B J K ns nm sp Q) (set_backup drop_status_label)"
  by (rule inv_set_backup) (simp add: drop_status_label_def)

lemma inv_ignore_backup:
  assumes "\<And>s. hold V B J K ns nm sp Q s \<Longrightarrow> free (J (b_kube s)) ns nm"
  shows "step_inv (hold V B J K ns nm sp Q) (ignore_backup r msg)"
  unfolding ignore_backup_def markAsIgnoredBackup_def
  by (intro inv_bind inv_mark_as inv_catch inv_drop_label inv_update_write inv_warn assms)

lemma inv_end_backup:
  assumes "\<And>s. hold V B J K ns nm sp Q s \<Longrightarrow> free (J (b_kube s)) ns nm"
  shows "step_inv (hold V B J K ns nm sp Q) (end_backup r cluster succeeded)"
  unfolding end_backup_def report_end_def Let_def
  by (intro inv_bind inv_catch inv_backup_steps inv_set_backup inv_status_write inv_update_write inv_drop_label inv_warn inv_backup_event
      inv_ret assms) auto

lemma inv_owners_loop:
  assumes "\<And>s. hold V B J K ns nm sp Q s \<Longrightarrow> free (J (b_kube s)) ns nm"
  shows "step_inv (hold V B J K ns nm sp Q) (owners_loop r cluster jobType owners)"
  by (induction owners) (auto intro!: inv_bind inv_end_backup inv_ignore_backup assms)

lemma inv_containers_loop: "step_inv (hold V B J K ns nm sp Q) (containers_loop r cluster location n nodes i cs)"
  by (induction nodes arbitrary: i cs) (auto intro!: inv_bind inv_either)

lemma inv_backupContainers: "step_inv (hold V B J K ns nm sp Q) (backupContainers r cluster)"
  unfolding backupContainers_def
  by (rule inv_bind) (auto intro!: inv_containers_loop simp: Let_def split: sum.split)

lemma volume_unchanged: "GetVolumeForBackup r b jobName k = (v, k') \<Longrightarrow> unchanged V B J K k k'"
  by (auto simp: GetVolumeForBackup_def createPVCForBackup_def only_err_def
      split: option.splits if_splits prod.splits sum.splits dest!: pvc_calls intro: cache_moves_trans)

end

context backup_server
begin

lemma secret_unchanged:
  "NewRcloneSecret (b_client r) bld name ns' spec own k = (v, k') \<Longrightarrow> unchanged V B J K k k'"
  "CreateSecret (b_client r) sec k = (e, k') \<Longrightarrow> unchanged V B J K k k'"
  "CheckBucketAccess st (b_client r) bld spec ns' k = (e, k') \<Longrightarrow> unchanged V B J K k k'"
  by (auto simp: NewRcloneSecret_def newContext_def CreateSecret_def only_err_def CheckBucketAccess_def NewOSMContext_def
      split: if_splits prod.splits sum.splits dest!: secret_calls intro: cache_moves_trans)

lemma cluster_unchanged: "GetDistributedRedisCluster (b_client r) ns' n k = (c, k') \<Longrightarrow> unchanged V B J K k k'"
  using cluster_get by (auto simp: GetDistributedRedisCluster_def)

lemma inv_getBackupJob:
  "inv_post (hold V B J K ns nm sp Q) (getBackupJob r cluster)
     (\<lambda>v. \<forall>job. v = Inr job \<longrightarrow> job_key job = (ns, ''redisbackup-'' @ nm) \<and> job_Labels job = job_selector (bs_RedisClusterName sp))"
  unfolding getBackupJob_def go_get_def
  by (rule inv_bind_post [OF inv_the_backup], intro inv_bind inv_on_server)
    (auto intro!: inv_bind inv_ret inv_backupContainers dest: volume_unchanged
      simp: backup_job_def JobName_def job_labels_selector split: sum.split)

text \<open>What the last steps of a start need: the objects they write are the backup itself and its job.\<close>

lemma status_write_result:
  assumes "hold V B J K ns nm sp Q s" and "bk_update_status r s = Some (Ret (None, s'))" and "free (J (b_kube s)) ns nm"
  shows "hold V B J K ns nm sp Q s' \<and> bk_Status (b_obj s') = bk_Status (b_obj s) \<and> B (b_kube s') (ns, nm) = Some (b_obj s')"
  using assms status_update [of "b_obj s" "b_kube s"] exclusive_write [of "B (b_kube s)" "J (b_kube s)" _ ns nm]
  by (auto simp: bk_update_status_def UpdateCRStatus_def written_def hold_def split: prod.splits sum.splits)

lemma update_write_result:
  assumes "hold V B J K ns nm sp Q s" and "bk_update r s = Some (Ret (None, s'))" and "free (J (b_kube s)) ns nm"
    and "B (b_kube s) (ns, nm) = Some b0" and "bk_Status b0 = bk_Status (b_obj s)"
  shows "hold V B J K ns nm sp Q s' \<and> bk_Status (b_obj s') = bk_Status (b_obj s) \<and> same_labels (b_obj s') (b_obj s)
    \<and> B (b_kube s') (ns, nm) = Some (b_obj s')"
  using assms update [of "b_obj s" "b_kube s"] exclusive_write [of "B (b_kube s)" "J (b_kube s)" _ ns nm]
  by (auto simp: bk_update_def UpdateCR_def written_def hold_def split: prod.splits sum.splits)

end

lemma go_catch_Ret:
  "go_catch m h f s = Some (Ret y) \<longleftrightarrow>
     (\<exists>e s1. m s = Some (Ret (Some e, s1)) \<and> h e s1 = Some (Ret y)) \<or> (\<exists>s1. m s = Some (Ret (None, s1)) \<and> f s1 = Some (Ret y))"
  unfolding go_catch_def go_bind_Ret by (auto simp: split_option_ex)

lemma go_either_Ret:
  "go_either m h f s = Some (Ret y) \<longleftrightarrow>
     (\<exists>e s1. m s = Some (Ret (Inl e, s1)) \<and> h e s1 = Some (Ret y)) \<or> (\<exists>x s1. m s = Some (Ret (Inr x, s1)) \<and> f x s1 = Some (Ret y))"
  unfolding go_either_def go_bind_Ret by (auto simp: split_sum_ex)

abbreviation excl_at :: "('k \<Rightarrow> string \<times> string \<Rightarrow> RedisClusterBackup option) \<Rightarrow> ('k \<Rightarrow> string \<times> string \<Rightarrow> Job option) \<Rightarrow> 'k bsys \<Rightarrow> bool" where
  "excl_at B J s \<equiv> exclusive (B (b_kube s)) (J (b_kube s))"

text \<open>A step that may leave the knowledge about the jobs behind but not the invariant.\<close>

definition ends :: "('s \<Rightarrow> bool) \<Rightarrow> ('s, 'r) step \<Rightarrow> ('s \<Rightarrow> bool) \<Rightarrow> bool" where
  "ends P m Q \<longleftrightarrow> (\<forall>s x s'. P s \<longrightarrow> m s = Some (Ret (x, s')) \<longrightarrow> Q s')"

lemma ends_inv: "inv_post P m C \<Longrightarrow> (\<And>s. P s \<Longrightarrow> Q s) \<Longrightarrow> ends P m Q"
  by (auto simp: ends_def inv_post_def)

lemma ends_bind: "inv_post P m C \<Longrightarrow> (\<And>x. C x \<Longrightarrow> ends P (f x) Q) \<Longrightarrow> ends P (go_bind m f) Q"
  unfolding ends_def inv_post_def go_bind_Ret by blast

lemma ends_catch: "step_inv P m \<Longrightarrow> (\<And>e. ends P (h e) Q) \<Longrightarrow> ends P f Q \<Longrightarrow> ends P (go_catch m h f) Q"
  unfolding go_catch_def by (rule ends_bind) (auto split: option.split)

lemma ends_either: "step_inv P m \<Longrightarrow> (\<And>e. ends P (h e) Q) \<Longrightarrow> (\<And>x. ends P (f x) Q) \<Longrightarrow> ends P (go_either m h f) Q"
  unfolding go_either_def by (rule ends_bind) (auto split: sum.split)

lemma hold_excl: "hold V B J K ns nm sp Q s \<Longrightarrow> excl_at B J s"
  by (simp add: hold_def)

text \<open>After its labels were written, a backup with status running is live.\<close>

lemma live_running:
  assumes "bst_Phase (bk_Status b) = BackupPhaseRunning" and "Backup_Validate b = None"
    and "labels_of (bk_Labels b) = mput LabelBackupStatus BackupPhaseRunning (mput LabelClusterName (bs_RedisClusterName (bk_Spec b)) m)"
  shows "live b"
  using assms labels_apart
  by (simp add: live_def completed_def has_labels_def running_labels_def map_of_mput
      BackupPhaseRunning_def BackupPhaseFailed_def BackupPhaseSucceeded_def BackupPhaseIgnored_def)

context backup_server
begin

lemma create_job_exclusive:
  assumes "hold V B J K ns nm sp (idle ns sp) s" and "B (b_kube s) (ns, nm) = Some (b_obj s)" and "live (b_obj s)"
    and "job_key job = (ns, ''redisbackup-'' @ nm)" and "job_Labels job = job_selector (bs_RedisClusterName sp)"
    and "on_server (\<lambda>k. only_err (c_Create (jobs (b_client r)) job k)) s = Some (Ret (e, s'))"
  shows "excl_at B J s'"
proof (cases "c_Create (jobs (b_client r)) job (b_kube s)")
  case (Pair res k')
  then have k': "b_kube s' = k'" using assms(6) by (auto simp: on_server_def only_err_def split: prod.splits sum.splits)
  show ?thesis
  proof (cases res)
    case (Inl e')
    then show ?thesis using refused(3) [of job "b_kube s" e' k'] Pair k' assms(1) by (simp add: hold_def)
  next
    case (Inr j')
    then have new: "B k' = B (b_kube s)" "J k' = (J (b_kube s))((ns, ''redisbackup-'' @ nm) \<mapsto> j')" "job_Labels j' = job_selector (bs_RedisClusterName sp)"
      using job_create [of job "b_kube s" j' k'] Pair assms(4,5) by auto
    have "exclusive (B (b_kube s)) ((J (b_kube s))((ns, JobName (b_obj s)) \<mapsto> j'))"
      using assms(1-3) new(3) by (intro exclusive_new_job) (auto simp: hold_def job_labels_selector selector_of_selector)
    then show ?thesis using new k' assms(1) by (simp add: hold_def JobName_def)
  qed
qed

end

context backup_server
begin

lemma label_running_Ret:
  "label_running s = Some (Ret (x, s')) \<Longrightarrow> \<exists>m. s' = s\<lparr>b_obj := (b_obj s)\<lparr>bk_Labels := Some (mput LabelBackupStatus BackupPhaseRunning
     (mput LabelClusterName (bs_RedisClusterName (bk_Spec (b_obj s))) m))\<rparr>\<rparr>"
  by (auto simp: label_running_def the_backup_def set_backup_def go_panic_def split: option.splits)

lemma idle_writes:
  "step_inv (hold V B J K ns nm sp (idle ns sp)) (bk_update_status r)" "step_inv (hold V B J K ns nm sp (idle ns sp)) (bk_update r)"
  by (rule inv_status_write inv_update_write, erule idle_free)+

lemma warn_exclusive:
  "warn reason msg v t = Some (Ret (x, t')) \<Longrightarrow> hold V B J K ns nm sp Q t \<Longrightarrow> excl_at B J t'"
  using inv_postD [OF inv_warn, of V B J K ns nm sp Q t reason msg v x t'] hold_excl by blast

lemma backup_event_same:
  "backup_event type reason msg s = Some (Ret (x, s')) \<Longrightarrow> b_kube s' = b_kube s \<and> b_obj s' = b_obj s"
  by (auto simp: backup_event_def the_backup_def record_event_def)

lemma event_create_exclusive:
  assumes "hold V B J K ns nm sp (idle ns sp) s" and "B (b_kube s) (ns, nm) = Some (b_obj s)" and "live (b_obj s)"
    and "job_key job = (ns, ''redisbackup-'' @ nm)" and "job_Labels job = job_selector (bs_RedisClusterName sp)"
    and "go_bind (backup_event EventTypeNormal Starting ''Backup running'') (\<lambda>_.
      go_catch (on_server (\<lambda>k. only_err (c_Create (jobs (b_client r)) job k))) (backup_error r) (go_ret None)) s = Some (Ret (e, s'))"
  shows "excl_at B J s'"
proof -
  from assms(6) obtain u s5 where "backup_event EventTypeNormal Starting ''Backup running'' s = Some (Ret (u, s5))"
    and run: "go_catch (on_server (\<lambda>k. only_err (c_Create (jobs (b_client r)) job k))) (backup_error r) (go_ret None) s5 = Some (Ret (e, s'))"
    unfolding go_bind_Ret by blast
  note s5 = backup_event_same [OF this(1)]
  from run obtain v s6 where "on_server (\<lambda>k. only_err (c_Create (jobs (b_client r)) job k)) s5 = Some (Ret (v, s6))" "b_kube s' = b_kube s6"
    unfolding go_catch_Ret by (auto simp: warn_def backup_event_def the_backup_def record_event_def go_ret_def)
  then show ?thesis using create_job_exclusive [of ns nm sp s5 job v s6] assms(1-5) s5 by (simp add: hold_def)
qed

lemma label_create_exclusive:
  assumes I: "hold V B J K ns nm sp (idle ns sp) s" and valid: "\<And>b. bk_Spec b = sp \<Longrightarrow> Backup_Validate b = None"
    and job: "job_key job = (ns, ''redisbackup-'' @ nm)" "job_Labels job = job_selector (bs_RedisClusterName sp)"
    and stored: "B (b_kube s) (ns, nm) = Some (b_obj s)" and phase: "bst_Phase (bk_Status (b_obj s)) = BackupPhaseRunning"
    and run: "go_bind label_running (\<lambda>_. go_catch (bk_update r) (backup_error r)
        (go_bind (backup_event EventTypeNormal Starting ''Backup running'') (\<lambda>_.
         go_catch (on_server (\<lambda>k. only_err (c_Create (jobs (b_client r)) job k))) (backup_error r) (go_ret None)))) s = Some (Ret (e, s'))"
  shows "excl_at B J s'"
proof -
  from run obtain s3 where lab: "label_running s = Some (Ret ((), s3))"
    and upd: "go_catch (bk_update r) (backup_error r) (go_bind (backup_event EventTypeNormal Starting ''Backup running'') (\<lambda>_.
       go_catch (on_server (\<lambda>k. only_err (c_Create (jobs (b_client r)) job k))) (backup_error r) (go_ret None))) s3 = Some (Ret (e, s'))"
    by auto
  from label_running_Ret [OF lab] obtain m where s3: "s3 = s\<lparr>b_obj := (b_obj s)\<lparr>bk_Labels := Some (mput LabelBackupStatus BackupPhaseRunning
     (mput LabelClusterName (bs_RedisClusterName (bk_Spec (b_obj s))) m))\<rparr>\<rparr>" by blast
  then have I3: "hold V B J K ns nm sp (idle ns sp) s3" using I by (simp add: hold_def)
  from upd consider (failed) e1 s4 where "bk_update r s3 = Some (Ret (Some e1, s4))" "backup_error r e1 s4 = Some (Ret (e, s'))"
    | (labelled) s4 where "bk_update r s3 = Some (Ret (None, s4))" "go_bind (backup_event EventTypeNormal Starting ''Backup running'') (\<lambda>_.
       go_catch (on_server (\<lambda>k. only_err (c_Create (jobs (b_client r)) job k))) (backup_error r) (go_ret None)) s4 = Some (Ret (e, s'))"
    unfolding go_catch_Ret by blast
  then show ?thesis
  proof cases
    case failed
    show ?thesis using warn_exclusive [OF failed(2)] inv_postD [OF idle_writes(2) I3 failed(1)] by blast
  next
    case labelled
    have w: "hold V B J K ns nm sp (idle ns sp) s4" "bk_Status (b_obj s4) = bk_Status (b_obj s3)" "same_labels (b_obj s4) (b_obj s3)"
      "B (b_kube s4) (ns, nm) = Some (b_obj s4)"
      using update_write_result [OF I3 labelled(1) idle_free [OF I3], of "b_obj s"] stored s3 by auto
    have "bk_Spec (b_obj s4) = sp" "bk_Spec (b_obj s) = sp" using w(1) I by (simp_all add: hold_def)
    then have "live (b_obj s4)"
      using w s3 phase valid [of "b_obj s4"] by (intro live_running [of _ m]) (simp_all add: labels_of_def)
    then show ?thesis using event_create_exclusive [OF w(1,4) _ job labelled(2)] by blast
  qed
qed

lemma run_job_exclusive:
  assumes I: "hold V B J K ns nm sp (idle ns sp) s" and "\<And>b. bk_Spec b = sp \<Longrightarrow> Backup_Validate b = None"
    and "job_key job = (ns, ''redisbackup-'' @ nm)" and "job_Labels job = job_selector (bs_RedisClusterName sp)"
    and "run_job r cluster job s = Some (Ret (e, s'))"
  shows "excl_at B J s'"
proof -
  define s1 where "s1 = s\<lparr>b_obj := upd_bstatus (running_status cluster) (b_obj s)\<rparr>"
  have I1: "hold V B J K ns nm sp (idle ns sp) s1" using I by (simp add: s1_def hold_def)
  from assms(5) consider (failed) e1 s2 where "bk_update_status r s1 = Some (Ret (Some e1, s2))"
      "warn BackupFailed (err_text r e1) (Some e1) s2 = Some (Ret (e, s'))"
    | (stored) s2 where "bk_update_status r s1 = Some (Ret (None, s2))"
      "go_bind label_running (\<lambda>_. go_catch (bk_update r) (backup_error r)
        (go_bind (backup_event EventTypeNormal Starting ''Backup running'') (\<lambda>_.
         go_catch (on_server (\<lambda>k. only_err (c_Create (jobs (b_client r)) job k))) (backup_error r) (go_ret None)))) s2 = Some (Ret (e, s'))"
    unfolding run_job_def go_bind_Ret go_catch_Ret set_backup_def s1_def [symmetric] by (auto simp: s1_def)
  then show ?thesis
  proof cases
    case failed
    show ?thesis using warn_exclusive [OF failed(2)] inv_postD [OF idle_writes(1) I1 failed(1)] by blast
  next
    case stored
    have "hold V B J K ns nm sp (idle ns sp) s2" "B (b_kube s2) (ns, nm) = Some (b_obj s2)" "bst_Phase (bk_Status (b_obj s2)) = BackupPhaseRunning"
      using status_write_result [OF I1 stored(1) idle_free [OF I1]] by (auto simp: s1_def running_status_def)
    then show ?thesis using label_create_exclusive [OF _ assms(2-4)] stored(2) by blast
  qed
qed

end

context backup_server
begin

lemma inv_no_job:
  assumes "\<And>s. hold V B J K ns nm sp Q s \<Longrightarrow> free (J (b_kube s)) ns nm"
  shows "step_inv (hold V B J K ns nm sp Q) (no_job r err)"
  unfolding no_job_def markAsFailedBackup_def Let_def
  by (rule inv_bind) (auto intro!: inv_mark_as assms)

lemma make_job_exclusive:
  assumes "\<And>b. bk_Spec b = sp \<Longrightarrow> Backup_Validate b = None"
  shows "ends (hold V B J K ns nm sp (idle ns sp)) (make_job r cluster) (excl_at B J)"
  unfolding make_job_def go_either_def
proof (rule ends_bind [OF inv_getBackupJob])
  fix v :: "goerr + Job"
  assume v: "\<forall>job. v = Inr job \<longrightarrow> job_key job = (ns, ''redisbackup-'' @ nm) \<and> job_Labels job = job_selector (bs_RedisClusterName sp)"
  show "ends (hold V B J K ns nm sp (idle ns sp)) (case v of Inl err \<Rightarrow> no_job r err | Inr job \<Rightarrow> run_job r cluster job) (excl_at B J)"
  proof (cases v)
    case (Inl err)
    have "ends (hold V B J K ns nm sp (idle ns sp)) (no_job r err) (excl_at B J)"
      by (rule ends_inv, rule inv_no_job, erule idle_free, erule hold_excl)
    then show ?thesis using Inl by simp
  next
    case (Inr job)
    then show ?thesis using v run_job_exclusive [OF _ assms] by (auto simp: ends_def)
  qed
qed

lemma start_exclusive:
  assumes "\<And>b. bk_Spec b = sp \<Longrightarrow> Backup_Validate b = None"
  shows "ends (hold V B J K ns nm sp (idle ns sp)) (start_backup r) (excl_at B J)"
proof -
  have warned: "ends (hold V B J K ns nm sp (idle ns sp)) (warn reason msg v) (excl_at B J)" for reason msg and v :: "goerr option"
    by (rule ends_inv [OF inv_warn]) (rule hold_excl)
  have failed: "ends (hold V B J K ns nm sp (idle ns sp)) (fail_backup r msg) (excl_at B J)" for msg
    by (rule ends_inv [OF inv_fail_backup]) (auto dest: idle_free hold_excl)
  have "ends (hold V B J K ns nm sp (idle ns sp)) (check_bucket r cluster) (excl_at B J)" for cluster
    unfolding check_bucket_def
    by (rule ends_bind [OF inv_backup_steps(1)]) (auto intro!: ends_catch failed make_job_exclusive assms inv_on_server dest: secret_unchanged)
  then show ?thesis
    unfolding start_backup_def
    by (rule_tac ends_bind [OF inv_backup_steps(1)])
      (intro ends_either ends_catch inv_on_server warned failed; auto dest: cluster_unchanged secret_unchanged)
qed

lemma job_free:
  assumes "case J k (ns, ''redisbackup-'' @ nm) of None \<Rightarrow> True | Some j \<Rightarrow> isJobFinished j"
  shows "free (J k) ns nm"
  using assms by (auto simp: active_def)

lemma hold_free: "hold V B J K ns nm sp (\<lambda>J. free J ns nm) s \<Longrightarrow> free (J (b_kube s)) ns nm"
  by (simp add: hold_def)

lemma inv_follow_job:
  assumes "\<And>s. hold V B J K ns nm sp Q s \<Longrightarrow> free (J (b_kube s)) ns nm"
  shows "step_inv (hold V B J K ns nm sp Q) (follow_job r j)"
proof (cases "isJobFinished j")
  case True
  then show ?thesis
    unfolding follow_job_def
    by simp (intro inv_bind inv_either inv_on_server inv_owners_loop assms inv_warn inv_outcome inv_backup_steps; auto dest: cluster_unchanged)
qed (auto simp: follow_job_def)

lemma handle_exclusive:
  assumes "hold V B J K ns nm sp (\<lambda>_. True) s" and "handleBackupJob r s = Some (Ret (e, s'))"
  shows "excl_at B J s'"
proof -
  let ?I = "hold V B J K ns nm sp (\<lambda>J. free J ns nm)"
  obtain v k1 where get: "c_Get (jobs (b_direct r)) ns (''redisbackup-'' @ nm) (b_kube s) = (v, k1)" by force
  note frame = job_get [OF get]
  define s1 where "s1 = s\<lparr>b_kube := k1\<rparr>"
  have I1: "?I s1" if "case J (b_kube s) (ns, ''redisbackup-'' @ nm) of None \<Rightarrow> True | Some j \<Rightarrow> isJobFinished j"
    using hold_unchanged [OF hold_knows [OF assms(1)], of "\<lambda>J. free J ns nm" k1] frame job_free [OF that] by (simp add: s1_def)
  have ex1: "excl_at B J s1" using assms(1) frame by (simp add: hold_def s1_def)
  have "bk_Namespace (b_obj s) = ns" "JobName (b_obj s) = ''redisbackup-'' @ nm" using assms(1) by (simp_all add: hold_def JobName_def)
  then have run: "(case v of Inl err \<Rightarrow> job_missing r err | Inr j \<Rightarrow> follow_job r j) s1 = Some (Ret (e, s'))"
    using assms(2) get by (simp add: handleBackupJob_def go_bind_def the_backup_def go_either_def on_server_def GetJob_def s1_def)
  show ?thesis
  proof (cases v)
    case (Inl err)
    show ?thesis
    proof (cases "IsNotFound err")
      case True
      then have I: "?I s1" using frame Inl by (intro I1) simp
      have "ignore_backup r ''One Backup is already Running, Job not found'' s1 = Some (Ret (e, s'))"
        using run Inl True by (simp add: job_missing_def)
      from inv_postD [OF inv_ignore_backup I this] have "?I s'" using hold_free by blast
      then show ?thesis by (rule hold_excl)
    next
      case False
      then show ?thesis using run Inl ex1 by (simp add: job_missing_def go_ret_def)
    qed
  next
    case (Inr j)
    show ?thesis
    proof (cases "isJobFinished j")
      case True
      then have I: "?I s1" using frame Inr by (intro I1) simp
      have "follow_job r j s1 = Some (Ret (e, s'))" using run Inr by simp
      from inv_postD [OF inv_follow_job I this] have "?I s'" using hold_free by blast
      then show ?thesis by (rule hold_excl)
    next
      case False
      then show ?thesis using run Inr ex1 by (simp add: follow_job_def go_ret_def)
    qed
  qed
qed

end

context backup_server
begin

lemma isBackupRunning_result:
  assumes "isBackupRunning r b k = (v, k')" and "bk_Namespace b = ns" and "bk_Spec b = sp" and "exclusive (B k) (J k)"
    and sync: "synced V B (ns, nm) k" "seen V B (ns, nm) k"
  shows "unchanged V B J K k k' \<and> (v = Inr False \<longrightarrow> idle ns sp (J k))"
proof -
  obtain bs k1 where bs: "c_List (backups (b_client r)) ns (running_labels b) k = (bs, k1)" by force
  obtain js k2 where js: "c_List (jobs (b_direct r)) ns (job_labels b) k1 = (js, k2)" by force
  note l = backup_list [OF bs] job_list [OF js]
  have "idle ns sp (J k)" if "bs = Inr x" "js = Inr y" "x = [] \<or> y = []" for x y
  proof (intro allI notI)
    fix n
    assume act: "active (J k) ns (bs_RedisClusterName sp) n"
    then have "owned (B k) ns (bs_RedisClusterName sp) n" using assms(4) by (simp add: exclusive_def)
    then obtain b' where b': "B k (ns, bk_Name b') = Some b'" "bs_RedisClusterName (bk_Spec b') = bs_RedisClusterName sp" "live b'"
      by (auto simp: owned_def)
    then have "has_labels (running_labels b) (labels_of (bk_Labels b'))" using assms(3) by (simp add: live_def running_labels_def)
    then obtain n where "V k (ns, n) \<noteq> None" "has_labels (running_labels b) (labels_of (bk_Labels (the (V k (ns, n)))))"
    proof (cases "bk_Name b' = nm")
      case True
      then show ?thesis using that [of nm] sync(2) b'(1) \<open>has_labels _ _\<close> by (auto simp: seen_def)
    next
      case False
      then have "V k (ns, bk_Name b') = Some b'" using sync(1) b'(1) by (simp add: synced_def)
      then show ?thesis using that [of "bk_Name b'"] \<open>has_labels _ _\<close> by simp
    qed
    then have "x \<noteq> []" using l(1) that(1) by auto
    moreover have "y \<noteq> []" using l act that(2) assms(3) by (auto simp: active_def job_labels_selector)
    ultimately show False using that(3) by blast
  qed
  then show ?thesis
    using assms(1,2) bs js l by (auto simp: isBackupRunning_def ListJobByLabels_def split: sum.splits intro: cache_moves_trans)
qed

lemma follow_or_start_exclusive:
  assumes "hold V B J K ns nm sp (\<lambda>_. True) s" and "\<And>b. bk_Spec b = sp \<Longrightarrow> Backup_Validate b = None"
    and seen: "seen V B (ns, nm) (b_kube s)" and "follow_or_start r s = Some (Ret (e, s'))"
  shows "excl_at B J s'"
proof -
  obtain v k1 where run: "isBackupRunning r (b_obj s) (b_kube s) = (v, k1)" by force
  have v: "unchanged V B J K (b_kube s) k1" "v = Inr False \<Longrightarrow> idle ns sp (J (b_kube s))"
    using isBackupRunning_result [OF run, of ns sp nm] assms(1) seen by (simp_all add: hold_def)
  define s1 where "s1 = s\<lparr>b_kube := k1\<rparr>"
  have h1: "hold V B J K ns nm sp (\<lambda>_. True) s1" using assms(1) v(1) by (auto simp: hold_def s1_def)
  have rest: "(case v of Inl err \<Rightarrow> backup_error r err | Inr running \<Rightarrow> if running then handleBackupJob r else start_backup r) s1 = Some (Ret (e, s'))"
    using assms(4) run by (simp add: follow_or_start_def go_bind_def the_backup_def go_either_def on_server_def s1_def)
  consider (err) err where "v = Inl err" | (on) "v = Inr True" | (off) "v = Inr False" by (cases v) auto
  then show ?thesis
  proof cases
    case err
    then show ?thesis using rest warn_exclusive [OF _ h1] by simp
  next
    case on
    then show ?thesis using rest handle_exclusive [OF h1] by simp
  next
    case off
    then have "hold V B J K ns nm sp (idle ns sp) s1" using h1 v by (simp add: hold_def s1_def)
    then show ?thesis using rest off start_exclusive [OF assms(2), where ns = ns and nm = nm] unfolding ends_def by auto
  qed
qed

lemma validate_result:
  assumes "hold V B J K ns nm sp Q s" and "ValidateBackup r s = Some (Ret (v, s'))"
  shows "hold V B J K ns nm sp Q s' \<and> (v = None \<longrightarrow> Backup_Validate (b_obj s) = None)
    \<and> (\<forall>e. v = Some e \<longrightarrow> IsRequestRetryable e \<or> Backup_Validate (b_obj s) \<noteq> None)
    \<and> (seen V B (ns, nm) (b_kube s) \<longrightarrow> seen V B (ns, nm) (b_kube s'))"
proof -
  define s1 where "s1 = s\<lparr>b_obj := if bk_Labels (b_obj s) = None then (b_obj s)\<lparr>bk_Labels := Some []\<rparr> else b_obj s\<rparr>"
  have s1: "hold V B J K ns nm sp Q s1" "Backup_Validate (b_obj s1) = Backup_Validate (b_obj s)" "b_kube s1 = b_kube s"
    "bk_Namespace (b_obj s1) = ns" "bk_Spec (b_obj s1) = sp"
    using assms(1) by (simp_all add: s1_def hold_def Backup_Validate_def)
  obtain g k' where g: "c_Get (clusters (b_client r)) ns (bs_RedisClusterName sp) (b_kube s1) = (g, k')" by force
  show ?thesis
  proof (cases "Backup_Validate (b_obj s1)")
    case (Some err)
    then have "v = Some err \<and> s' = s1"
      using assms(2) by (simp add: ValidateBackup_def go_bind_def set_backup_def the_backup_def s1_def [symmetric] go_ret_def)
    then show ?thesis using s1(1-3) Some by simp
  next
    case None
    then have "s' = s1\<lparr>b_kube := k'\<rparr> \<and> v = (case g of Inl e \<Rightarrow> Some e | Inr _ \<Rightarrow> None)"
      using assms(2) g s1(4,5)
      by (auto simp: ValidateBackup_def go_bind_def set_backup_def the_backup_def s1_def [symmetric] go_get_def on_server_def go_ret_def
          GetDistributedRedisCluster_def split: sum.splits)
    then show ?thesis using s1(1-3) None cluster_get [OF g] by (auto simp: hold_def intro: seen_same split: sum.splits)
  qed
qed

end

context backup_server
begin

lemma not_live_free:
  assumes "exclusive (B k) (J k)" and "B k (ns, nm) = Some b" and "\<not> live b"
  shows "free (J k) ns nm"
  using owned_keyed(1) [OF assms(1,2)] assms(3) by blast

lemma process_exclusive:
  assumes hold: "hold V B J K ns nm sp (\<lambda>_. True) s" and stored: "B (b_kube s) (ns, nm) = Some (b_obj s)"
    and seen: "seen V B (ns, nm) (b_kube s)" and run: "process_backup r s = Some (Ret (e, s'))"
  shows "excl_at B J s'"
proof -
  let ?I = "hold V B J K ns nm sp (\<lambda>J. free J ns nm)"
  have spec: "bk_Spec (b_obj s) = sp" and ex: "excl_at B J s" using hold by (simp_all add: hold_def)
  have quiet: "?I s" if "\<not> live (b_obj s)" using hold not_live_free [OF ex stored that] by (simp add: hold_def)
  have stays: "excl_at B J t'" if "step_inv ?I m" "?I t" "m t = Some (Ret (x, t'))" for m and x :: "goerr option" and t t'
    using inv_postD [OF that] hold_excl by blast
  show ?thesis
  proof (cases "completed (bst_Phase (bk_Status (b_obj s)))")
    case True
    let ?m = "go_bind (set_backup drop_status_label) (\<lambda>_. go_catch (bk_update r) (backup_error r) (go_ret None))"
    have m: "?m s = Some (Ret (e, s'))" using run True by (simp add: process_backup_def go_bind_def [of the_backup] the_backup_def)
    have "step_inv ?I ?m" by (intro inv_bind inv_catch inv_drop_label inv_update_write inv_warn inv_ret; simp add: hold_def)
    moreover have "?I s" using True by (intro quiet) (simp add: live_def)
    ultimately show ?thesis using stays m by blast
  next
    case False
    then have "go_catch (ValidateBackup r) (\<lambda>err. if IsRequestRetryable err then go_ret (Some err) else fail_backup r (err_text r err))
      (follow_or_start r) s = Some (Ret (e, s'))"
      using run by (simp add: process_backup_def go_bind_def the_backup_def)
    then consider (bad) err s1 where "ValidateBackup r s = Some (Ret (Some err, s1))"
        "(if IsRequestRetryable err then go_ret (Some err) else fail_backup r (err_text r err)) s1 = Some (Ret (e, s'))"
      | (good) s1 where "ValidateBackup r s = Some (Ret (None, s1))" "follow_or_start r s1 = Some (Ret (e, s'))"
      unfolding go_catch_Ret by blast
    then show ?thesis
    proof cases
      case bad
      show ?thesis
      proof (cases "IsRequestRetryable err")
        case True
        then show ?thesis using bad(2) validate_result [OF hold bad(1)] by (simp add: go_ret_def hold_def)
      next
        case False
        then have "Backup_Validate (b_obj s) \<noteq> None" using validate_result [OF hold bad(1)] by blast
        then have "?I s1" using validate_result [OF quiet bad(1)] by (simp add: live_def)
        then show ?thesis using stays [OF inv_fail_backup [OF hold_free]] bad(2) False by simp
      qed
    next
      case good
      have "Backup_Validate b = None" if "bk_Spec b = sp" for b
        using validate_result [OF hold good(1)] that spec by (simp add: Backup_Validate_def)
      then show ?thesis using follow_or_start_exclusive [of ns nm sp s1] validate_result [OF hold good(1)] good(2) seen by blast
    qed
  qed
qed

lemma create_exclusive:
  assumes hold: "hold V B J K ns nm sp (\<lambda>_. True) s" and stored: "B (b_kube s) (ns, nm) = Some (b_obj s)"
    and seen: "seen V B (ns, nm) (b_kube s)" and run: "backup_create r s = Some (Ret (e, s'))"
  shows "excl_at B J s'"
proof (cases "bst_StartTime (bk_Status (b_obj s)) = None")
  case False
  then have "process_backup r s = Some (Ret (e, s'))" using run by (auto simp: backup_create_def the_backup_def split: if_splits)
  then show ?thesis by (rule process_exclusive [OF hold stored seen])
next
  case True
  define s1 where "s1 = s\<lparr>b_reads := b_reads s + 1, b_obj := upd_bstatus (\<lambda>st. st\<lparr>bst_StartTime := Some (b_clock r (b_reads s))\<rparr>) (b_obj s)\<rparr>"
  have s1: "bk_key (b_obj s1) = (ns, nm)" "bk_Spec (b_obj s1) = sp" "same_labels (b_obj s1) (b_obj s)" "b_kube s1 = b_kube s"
    "bst_Phase (bk_Status (b_obj s1)) = bst_Phase (bk_Status (b_obj s))"
    using hold by (simp_all add: s1_def hold_def)
  have m: "go_catch (bk_update_status r) (backup_error r) (process_backup r) s1 = Some (Ret (e, s'))"
    using run True by (simp add: backup_create_def go_bind_def the_backup_def read_clock_def set_backup_def s1_def)
  obtain res k' where res: "c_StatusUpdate (backups (b_client r)) (b_obj s1) (b_kube s) = (res, k')" by force
  show ?thesis
  proof (cases res)
    case (Inl err)
    define s2 where "s2 = s1\<lparr>b_kube := k'\<rparr>"
    have "backup_error r err s2 = Some (Ret (e, s'))"
      using m res Inl s1(4) by (simp add: go_catch_def go_bind_def [of "bk_update_status r"] bk_update_status_def UpdateCRStatus_def written_def s2_def)
    moreover have "hold V B J K ns nm sp (\<lambda>_. True) s2"
      using hold s1 refused(1) [OF res [unfolded Inl]] by (auto simp: hold_def s2_def)
    ultimately show ?thesis by (rule warn_exclusive)
  next
    case (Inr b')
    define s2 where "s2 = s1\<lparr>b_obj := b', b_kube := k'\<rparr>"
    note up = status_update [OF res [unfolded Inr]]
    have "live b'" if "live (b_obj s)"
      using that up s1 stored hold by (auto simp: live_def Backup_Validate_def running_labels_def hold_def)
    then have "exclusive (B k') (J k')"
      using exclusive_write [of "B (b_kube s)" "J (b_kube s)" b' ns nm] hold stored up s1 by (auto simp: hold_def)
    then have "hold V B J K ns nm sp (\<lambda>_. True) s2" "B (b_kube s2) (ns, nm) = Some (b_obj s2)"
      using hold s1 up by (auto simp: hold_def s2_def)
    moreover have "seen V B (ns, nm) (b_kube s2)"
    proof -
      have w: "cache_moves V B (b_kube s) k'" "B k' = (B (b_kube s))((ns, nm) \<mapsto> b')" using up s1(1) by auto
      have "same_labels b' b" if "B (b_kube s) (ns, nm) = Some b" for b
        using that stored up s1 by auto
      then show ?thesis using seen_write [OF w seen] by (simp add: s2_def)
    qed
    moreover have "process_backup r s2 = Some (Ret (e, s'))"
      using m res Inr s1(4) by (simp add: go_catch_def go_bind_def [of "bk_update_status r"] bk_update_status_def UpdateCRStatus_def written_def s2_def)
    ultimately show ?thesis by (rule process_exclusive)
  qed
qed

lemma reconcile_exclusive:
  assumes "exclusive (B k) (J k)" and fresh: "V k = B k" and "\<And>b. B k (ns, nm) = Some b \<Longrightarrow> K k (ns, bs_RedisClusterName (bk_Spec b))"
    and "backup_Reconcile r ns nm (k, evs, c) = Some (Ret (e, k', evs', c'))"
  shows "exclusive (B k') (J k')"
proof -
  obtain g k1 where g: "c_Get (backups (b_client r)) ns nm k = (g, k1)" by force
  note frame = backup_get [OF g]
  show ?thesis
  proof (cases g)
    case (Inl err)
    then show ?thesis using assms(1,4) g frame by (simp add: backup_Reconcile_def GetRedisClusterBackup_def)
  next
    case (Inr b)
    let ?s = "\<lparr>b_obj = b, b_kube = k1, b_events = evs, b_reads = c\<rparr>"
    have b: "B k (ns, nm) = Some b" "bk_key b = (ns, nm)" using frame Inr assms(1) fresh by (auto simp: exclusive_def)
    have "synced V B (ns, nm) k" "seen V B (ns, nm) k" using b(1) by (auto simp: synced_def seen_def fresh)
    then have "hold V B J K ns nm (bk_Spec b) (\<lambda>_. True) ?s" "B (b_kube ?s) (ns, nm) = Some (b_obj ?s)" "seen V B (ns, nm) (b_kube ?s)"
      using b frame assms(1,3) by (auto simp: hold_def intro: seen_same)
    moreover from assms(4) g Inr obtain s' where "backup_create r ?s = Some (Ret (e, s'))" "k' = b_kube s'"
      by (auto simp: backup_Reconcile_def GetRedisClusterBackup_def split: option.splits outcome.splits)
    ultimately show ?thesis using create_exclusive by blast
  qed
qed

end

section \<open>All reachable worlds\<close>

text \<open>
  A reconciliation of any backup whose cluster exists, when the cache has caught up; a job that makes progress, keeps its labels and does not
  start again once it has finished, or is deleted; a new backup. The cache may change in all steps but the reconciliations, where it
  moves as the server's laws say.
\<close>

inductive backup_world for r :: "('k, 'l, 'c) backup_reconciler" and V B J K where
  start: "(\<And>q b. B k q = Some b \<Longrightarrow> bk_key b = q) \<Longrightarrow> (\<And>ns C n. \<not> active (J k) ns C n) \<Longrightarrow> backup_world r V B J K k"
| reconcile: "backup_world r V B J K k \<Longrightarrow> V k = B k \<Longrightarrow> (\<And>b. B k (ns, nm) = Some b \<Longrightarrow> K k (ns, bs_RedisClusterName (bk_Spec b))) \<Longrightarrow>
    backup_Reconcile r ns nm (k, evs, c) = Some (Ret (e, k', evs', c')) \<Longrightarrow> backup_world r V B J K k'"
| progress: "backup_world r V B J K k \<Longrightarrow> B k' = B k \<Longrightarrow>
    (\<And>q j'. J k' q = Some j' \<Longrightarrow> \<exists>j. J k q = Some j \<and> job_Labels j = job_Labels j' \<and> (isJobFinished j \<longrightarrow> isJobFinished j')) \<Longrightarrow>
    backup_world r V B J K k'"
| new_backup: "backup_world r V B J K k \<Longrightarrow> B k (bk_key b) = None \<Longrightarrow> B k' = (B k)(bk_key b \<mapsto> b) \<Longrightarrow> J k' = J k \<Longrightarrow>
    backup_world r V B J K k'"

lemma world_exclusive:
  assumes "backup_world r V B J K k" and "backup_server r V B J K"
  shows "exclusive (B k) (J k)"
  using assms(1)
proof (induction rule: backup_world.induct)
  case (start k)
  then show ?case by (simp add: exclusive_def)
next
  case (reconcile k ns nm evs c e k' evs' c')
  show ?case by (rule backup_server.reconcile_exclusive [OF assms(2) reconcile.IH reconcile.hyps(2,3,4)])
next
  case (progress k k')
  have "active (J k) ns C n" if "active (J k') ns C n" for ns C n
    using that progress.hyps(3) by (fastforce simp: active_def)
  then show ?case unfolding progress.hyps(2) by (rule exclusive_progress [OF progress.IH])
next
  case (new_backup k b k')
  show ?case unfolding new_backup.hyps(3,4) by (rule exclusive_new_backup [OF new_backup.IH new_backup.hyps(2)])
qed


section \<open>The laws hold for a server in memory\<close>

abbreviation mem_backups :: "mem_kube \<Rightarrow> string \<times> string \<Rightarrow> RedisClusterBackup option" where
  "mem_backups \<equiv> mem_objs bk_key m_backups"

abbreviation mem_jobs :: "mem_kube \<Rightarrow> string \<times> string \<Rightarrow> Job option" where
  "mem_jobs \<equiv> mem_objs job_key m_jobs"

abbreviation mem_clusters :: "mem_kube \<Rightarrow> string \<times> string \<Rightarrow> bool" where
  "mem_clusters \<equiv> \<lambda>k q. mem_objs drc_key m_clusters k q \<noteq> None"

lemma mem_get:
  "c_Get (mem_client key matches get put) ns n k = (v, k') \<Longrightarrow>
     k' = k \<and> (case v of Inr x \<Rightarrow> mem_objs key get k (ns, n) = Some x | Inl e \<Rightarrow> mem_objs key get k (ns, n) = None)"
  by (auto simp: mem_client_def mem_objs_def Let_def split: option.splits)

lemma find_filter_ne:
  "List.find (\<lambda>y. key y = (ns, n)) xs = Some x \<Longrightarrow> P x \<Longrightarrow> filter (\<lambda>y. fst (key y) = ns \<and> P y) xs \<noteq> []"
  by (induction xs) (auto split: if_splits)

lemma mem_list:
  "c_List (mem_client key matches get put) ns ls k = (v, k') \<Longrightarrow>
     k' = k \<and> (\<forall>xs x n. v = Inr xs \<longrightarrow> mem_objs key get k (ns, n) = Some x \<longrightarrow> matches ls x \<longrightarrow> xs \<noteq> [])"
  using find_filter_ne [of key ns _ "get k" _ "matches ls"] by (auto simp: mem_client_def mem_objs_def Let_def)

lemma mem_write:
  assumes "w \<in> {c_Create, c_Update, c_StatusUpdate}" and "w (mem_client key matches get put) x k = (v, k')"
  shows "case v of Inl e \<Rightarrow> k' = k | Inr x' \<Rightarrow> x' = x \<and> k' = put (x # filter (\<lambda>y. key y \<noteq> key x) (get k)) k"
  using assms by (auto simp: mem_client_def Let_def split: if_splits)

interpretation bk_part: state_part m_backups "\<lambda>xs k. k\<lparr>m_backups := xs\<rparr>" "mem_objs job_key m_jobs"
  by unfold_locales (simp_all add: mem_objs_def fun_eq_iff)

interpretation job_part: state_part m_jobs "\<lambda>xs k. k\<lparr>m_jobs := xs\<rparr>" "mem_objs bk_key m_backups"
  by unfold_locales (simp_all add: mem_objs_def fun_eq_iff)

lemma mem_objs_frame:
  "mem_backups (k\<lparr>m_jobs := js\<rparr>) = mem_backups k" "mem_jobs (k\<lparr>m_backups := bs\<rparr>) = mem_jobs k"
  "mem_backups (k\<lparr>m_secrets := ss\<rparr>) = mem_backups k" "mem_jobs (k\<lparr>m_secrets := ss\<rparr>) = mem_jobs k"
  "mem_backups (k\<lparr>m_pvcs := ps\<rparr>) = mem_backups k" "mem_jobs (k\<lparr>m_pvcs := ps\<rparr>) = mem_jobs k"
  "mem_objs drc_key m_clusters (k\<lparr>m_jobs := js\<rparr>) = mem_objs drc_key m_clusters k"
  "mem_objs drc_key m_clusters (k\<lparr>m_backups := bs\<rparr>) = mem_objs drc_key m_clusters k"
  "mem_objs drc_key m_clusters (k\<lparr>m_secrets := ss\<rparr>) = mem_objs drc_key m_clusters k"
  "mem_objs drc_key m_clusters (k\<lparr>m_pvcs := ps\<rparr>) = mem_objs drc_key m_clusters k"
  by (simp_all add: mem_objs_def fun_eq_iff)

lemma mem_backup_write:
  assumes "w \<in> {c_Create, c_Update, c_StatusUpdate}"
    and "w (mem_client bk_key m m_backups (\<lambda>xs k. k\<lparr>m_backups := xs\<rparr>)) b k = (Inr b', k')"
  shows "b' = b \<and> mem_backups k' = (mem_backups k)(bk_key b \<mapsto> b) \<and> mem_jobs k' = mem_jobs k
    \<and> mem_objs drc_key m_clusters k' = mem_objs drc_key m_clusters k"
  using mem_write [OF assms] bk_part.store_objs [of bk_key b k] by (auto simp: mem_objs_frame)

lemma mem_job_write:
  assumes "w \<in> {c_Create, c_Update, c_StatusUpdate}"
    and "w (mem_client job_key m m_jobs (\<lambda>xs k. k\<lparr>m_jobs := xs\<rparr>)) j k = (Inr j', k')"
  shows "j' = j \<and> mem_backups k' = mem_backups k \<and> mem_jobs k' = (mem_jobs k)(job_key j \<mapsto> j)
    \<and> mem_objs drc_key m_clusters k' = mem_objs drc_key m_clusters k"
  using mem_write [OF assms] job_part.store_objs [of job_key j k] by (auto simp: mem_objs_frame)

text \<open>Beside the server, a copy of the backups that the controller reads and that nothing brings up to date during a call. Jobs are read
  past it.\<close>

type_synonym cached_kube = "mem_kube \<times> RedisClusterBackup list"

definition past_cache :: "('a, mem_kube) typed_client \<Rightarrow> ('a, cached_kube) typed_client" where
  "past_cache cl = (let lift = (\<lambda>f (k, v). case f k of (x, k') \<Rightarrow> (x, (k', v))) in
     \<lparr>c_Get = (\<lambda>ns n. lift (c_Get cl ns n)), c_List = (\<lambda>ns ls (k, v). case c_List cl ns ls k of (x, k') \<Rightarrow> (x, (k', v))),
      c_Create = (\<lambda>x. lift (c_Create cl x)), c_Update = (\<lambda>x. lift (c_Update cl x)), c_StatusUpdate = (\<lambda>x. lift (c_StatusUpdate cl x)),
      c_Delete = (\<lambda>x (k, v). case c_Delete cl x k of (e, k') \<Rightarrow> (e, (k', v)))\<rparr>)"

definition direct_client :: "cached_kube kube_client" where
  "direct_client = \<lparr>statefulsets = past_cache (statefulsets mem_kube_client), pods = past_cache (pods mem_kube_client),
     services = past_cache (services mem_kube_client), configmaps = past_cache (configmaps mem_kube_client),
     pdbs = past_cache (pdbs mem_kube_client), pvcs = past_cache (pvcs mem_kube_client), secrets = past_cache (secrets mem_kube_client),
     jobs = past_cache (jobs mem_kube_client), clusters = past_cache (clusters mem_kube_client), backups = past_cache (backups mem_kube_client)\<rparr>"

definition cached_client :: "cached_kube kube_client" where
  "cached_client = direct_client\<lparr>backups := (past_cache (backups mem_kube_client))\<lparr>
     c_Get := (\<lambda>ns n (k, v). (case List.find (\<lambda>b. bk_key b = (ns, n)) v of
       None \<Rightarrow> Inl (K8sError NotFound ''not found'') | Some b \<Rightarrow> Inr b, (k, v))),
     c_List := (\<lambda>ns ls (k, v). (Inr (filter (\<lambda>b. bk_Namespace b = ns \<and> has_labels ls (labels_of (bk_Labels b))) v), (k, v)))\<rparr>\<rparr>"

definition cached_backup ::
  "build_env \<Rightarrow> go_env \<Rightarrow> ('l, 'c) stow \<Rightarrow> (nat \<Rightarrow> int) \<Rightarrow> bool \<Rightarrow> (cached_kube, 'l, 'c) backup_reconciler" where
  "cached_backup bld env st clock scoped = \<lparr>b_client = cached_client, b_direct = direct_client, b_build = bld, b_env = env,
     b_stow = st, b_clock = clock, b_scoped = scoped\<rparr>"

abbreviation cached_backups :: "cached_kube \<Rightarrow> string \<times> string \<Rightarrow> RedisClusterBackup option" where
  "cached_backups \<equiv> \<lambda>(k, v) q. List.find (\<lambda>b. bk_key b = q) v"

lemma past_cache_simps:
  "c_Get (past_cache cl) ns n (k, v) = (x, kv) \<longleftrightarrow> (\<exists>k'. kv = (k', v) \<and> c_Get cl ns n k = (x, k'))"
  "c_List (past_cache cl) ns ls (k, v) = (xs, kv) \<longleftrightarrow> (\<exists>k'. kv = (k', v) \<and> c_List cl ns ls k = (xs, k'))"
  "c_Create (past_cache cl) a (k, v) = (x, kv) \<longleftrightarrow> (\<exists>k'. kv = (k', v) \<and> c_Create cl a k = (x, k'))"
  "c_Update (past_cache cl) a (k, v) = (x, kv) \<longleftrightarrow> (\<exists>k'. kv = (k', v) \<and> c_Update cl a k = (x, k'))"
  "c_StatusUpdate (past_cache cl) a (k, v) = (x, kv) \<longleftrightarrow> (\<exists>k'. kv = (k', v) \<and> c_StatusUpdate cl a k = (x, k'))"
  by (auto simp: past_cache_def Let_def split: prod.splits)

lemma cache_kept [simp]: "cache_moves cached_backups B (k, v) (k', v)"
  by (simp add: cache_moves_def)

lemma find_bk_ne:
  "List.find (\<lambda>b. bk_key b = (ns, n)) v = Some b \<Longrightarrow> has_labels ls (labels_of (bk_Labels b)) \<Longrightarrow>
   filter (\<lambda>b. bk_Namespace b = ns \<and> has_labels ls (labels_of (bk_Labels b))) v \<noteq> []"
  using find_filter_ne [of bk_key ns n v b "\<lambda>b. has_labels ls (labels_of (bk_Labels b))"] by simp

interpretation cached_backup_server: backup_server "cached_backup bld env st clock scoped" cached_backups
  "\<lambda>(k, v). mem_backups k" "\<lambda>(k, v). mem_jobs k" "\<lambda>(k, v). mem_clusters k"
proof (unfold_locales, unfold cached_backup_def cached_client_def direct_client_def mem_kube_client_def backup_reconciler.simps kube_client.simps
    split_paired_all, goal_cases)
  case (1 ns n k v g k' v') then show ?case by (auto split: option.splits)
next
  case (2 ns ls k v gs k' v') then show ?case using find_bk_ne [of ns _ v] by auto
next
  case (3 ns n k v h k' v') then show ?case by (auto simp: past_cache_simps dest!: mem_get)
next
  case (4 ns ls k v hs k' v') then show ?case by (auto simp: past_cache_simps dest!: mem_list)
next
  case (5 ns n k v c k' v') then show ?case by (auto simp: past_cache_simps dest!: mem_get)
next
  case (6 ns n k v x k' v') then show ?case by (auto simp: past_cache_simps dest!: mem_get)
next
  case (7 sec k v x k' v') then show ?case by (cases x) (auto simp: past_cache_simps mem_objs_frame dest!: mem_write [rotated])
next
  case (8 ns n k v y k' v') then show ?case by (auto simp: past_cache_simps dest!: mem_get)
next
  case (9 pvc k v y k' v') then show ?case by (cases y) (auto simp: past_cache_simps mem_objs_frame dest!: mem_write [rotated])
next
  case (10 b k v e k' v') then show ?case by (auto simp: past_cache_simps dest!: mem_write [rotated])
next
  case (11 b k v e k' v') then show ?case by (auto simp: past_cache_simps dest!: mem_write [rotated])
next
  case (12 j k v e k' v') then show ?case by (auto simp: past_cache_simps dest!: mem_write [rotated])
next
  case (13 b k v b' k' v') then show ?case by (auto simp: past_cache_simps dest!: mem_backup_write [rotated])
next
  case (14 b k v b' k' v') then show ?case by (auto simp: past_cache_simps dest!: mem_backup_write [rotated])
next
  case (15 j k v j' k' v') then show ?case by (auto simp: past_cache_simps dest!: mem_job_write [rotated])
qed

text \<open>A cluster with one master, and two backups of it: the job of the first one is the only active job.\<close>

abbreviation demo_cached :: "(cached_kube, unit, unit) backup_reconciler" where
  "demo_cached \<equiv> cached_backup sample_build go_env_det sample_stow int False"

definition two_backups :: cached_kube where
  "two_backups = (let bs = [new_backup_of ''a'', new_backup_of ''b''] in (empty_kube\<lparr>m_clusters := [one_master], m_backups := bs\<rparr>, bs))"

definition active_job :: "cached_kube \<Rightarrow> string \<Rightarrow> bool" where
  "active_job kv n = (case mem_jobs (fst kv) (''default'', n) of
     Some j \<Rightarrow> has_labels (job_selector ''example'') (job_Labels j) \<and> \<not> isJobFinished j | None \<Rightarrow> False)"

definition runs_first :: bool where
  "runs_first = (case backup_Reconcile demo_cached ''default'' ''a'' (two_backups, [], 0) of
     Some (Ret (None, k, _, _)) \<Rightarrow> active_job k ''redisbackup-a''
   | _ \<Rightarrow> False)"

lemma runs_first: runs_first
  by code_simp


text \<open>Why the cache has to catch up: when the second backup is reconciled while the cache does not show the label of the first one yet, its
  job is started too.\<close>

definition stale_cache_runs_both :: bool where
  "stale_cache_runs_both = (case backup_Reconcile demo_cached ''default'' ''a'' (two_backups, [], 0) of
     Some (Ret (None, k, evs, c)) \<Rightarrow> (case backup_Reconcile demo_cached ''default'' ''b'' (k, evs, c) of
        Some (Ret (None, k', _, _)) \<Rightarrow> active_job k' ''redisbackup-a'' \<and> active_job k' ''redisbackup-b''
      | _ \<Rightarrow> False)
   | _ \<Rightarrow> False)"

lemma stale_cache_second_job: stale_cache_runs_both
  by code_simp

end
