(* ===== verification/Spec2Isabelle.thy ===== *)
theory Spec2Isabelle
  imports Rebalance Placement RestorePhase Shrinking BackupRun
begin

text \<open>
  \<^bold>\<open>The redis-cluster-operator\<close> (\<open>src/redis/operator/redis-cluster-operator\<close>): a Kubernetes operator that creates, scales, heals,
  backs up and restores Redis clusters. All paths below are relative to that directory. The rest of the repository is YAML, charts and notes.

  \<^bold>\<open>The program.\<close> Two controllers watch two kinds of custom resources. The cluster controller
  (\<open>pkg/controller/distributedrediscluster\<close>) is called with the name of a \<open>DistributedRedisCluster\<close>. It fills in defaults, brings the
  Kubernetes objects in line with the spec (\<open>pkg/controller/manager\<close>, \<open>pkg/resources\<close>, \<open>pkg/k8sutil\<close>), heals what is broken
  (\<open>pkg/controller/heal\<close>), asks every Redis node for its view of the cluster (\<open>pkg/redisutil\<close>), and, when the numbers of masters or slaves are not
  those wanted, lets \<open>pkg/controller/clustering\<close> choose masters, attach slaves and move hash slots. At the end it writes the status. The backup
  controller (\<open>pkg/controller/redisclusterbackup\<close>) runs a job that saves the data of each master to an object store (\<open>pkg/osm\<close>) and follows it; the
  cluster controller restores a cluster from such a backup. A web hook (\<open>pkg/apis\<close>) admits or refuses changes of a resource.

  \<^bold>\<open>How the code is modelled.\<close>
  \<^item> A Go error is a value of \<open>goerr\<close>; a result with an error is a sum or a pair as in the code; a panic (nil dereference, index out of range,
    write to a nil map) is the other value of \<open>outcome\<close>; a call that may never return has an option, \<open>None\<close> if it does not return.
  \<^item> A struct is a record, a \<open>*Node\<close> is a reference into a store \<open>nheap\<close> so that sharing shows, a map is an association list with
    distinct keys. \<open>int32\<close>, \<open>int64\<close> and \<open>uint64\<close> wrap where the code computes with them; \<open>float64\<close> is rounded as IEEE 754 says (theory \<open>GoFloat\<close>).
  \<^item> What Go leaves open (the order of a range over a map, the order of ties when sorting, the capacity after an append) is chosen by the parameter
    \<open>go_env\<close>. The locale \<open>go_runtime\<close> states what the language promises of it, and the theorems hold for every choice; \<open>det\<close> interprets it.
  \<^item> The Redis driver with the servers behind it is the record \<open>radix\<close>; the Kubernetes client with the API server is \<open>kube_client\<close>, one \<open>typed_client\<close>
    for each type of object; the storage library is \<open>stow\<close>; remote execution is \<open>remoteExec\<close>; string forms, files and the clock that the
    resources use are \<open>build_env\<close>. Nothing is assumed of them in definitions; where a theorem needs more, it says so with a locale.
  \<^item> A wait polls once per tick; the number of ticks before the time-out is a parameter, and no theorem bounds it.
  \<^item> The steps of a reconciliation are functions on a record \<open>sys\<close>: the resource in memory, the API server, the Redis servers, the nodes.

  \<^bold>\<open>The theories\<close>, each with the file it models.
  \<^item> \<open>Prelude\<close>, \<open>GoText\<close>, \<open>GoFloat\<close>: the parts of Go and of its library the code uses. \<open>Utils\<close>: \<open>pkg/utils\<close>.
  \<^item> \<open>SlotRanges\<close>: \<open>redisutil/slot.go\<close>. Ranges and their text round trip; \<open>BuildSlotSlice\<close> ends except for the largest \<open>uint64\<close>.
  \<^item> \<open>Nodes\<close>, \<open>Errors\<close>, \<open>ClusterInfo\<close>: \<open>node.go\<close>, \<open>cluster.go\<close>, \<open>errors.go\<close>, \<open>clusterinfo.go\<close>. Decoding of \<open>CLUSTER NODES\<close>, and when the views agree.
  \<^item> \<open>AdminApi\<close>, \<open>Connections\<close>, \<open>Admin\<close>: the interface \<open>IAdmin\<close>, \<open>client.go\<close> and \<open>connections.go\<close>, \<open>admin.go\<close>. The open connections
    are exactly those of the pool, when its operations return, that \<open>MigrateKeys\<close> moves every key to its destination, what the commands report.
  \<^item> \<open>PlacementV2\<close>, \<open>Placement\<close>, \<open>AllocSlots\<close>, \<open>Rebalance\<close>, \<open>Migration\<close>: \<open>pkg/controller/clustering\<close>. Masters are spread over StatefulSets and
    machines; the first allocation, scaling up and scaling down lose and double no slot; where a loop or a dereference goes wrong, that is proved too.
  \<^item> \<open>K8sTypes\<close>, \<open>K8sUtil\<close>, \<open>Api\<close>, \<open>Resources\<close>, \<open>StatefulSets\<close>, \<open>Ensurer\<close>: the objects, \<open>pkg/k8sutil\<close>, \<open>pkg/apis/redis/v1alpha1\<close>, \<open>pkg/resources\<close> with
    \<open>pkg/config\<close>, and \<open>manager/ensurer.go\<close> with \<open>osm/rclone.go\<close>. Defaults are well formed and stable, which changes the web hook admits and
    which defaults it refuses, the ensurer implements an abstract specification, the configuration text round trips.
  \<^item> \<open>Heal\<close>, \<open>Status\<close>, \<open>Exec\<close>: \<open>pkg/controller/heal\<close> with \<open>manager/healer.go\<close> and \<open>checker.go\<close>; \<open>status.go\<close> and \<open>helper.go\<close>; \<open>pkg/exec\<close>.
  \<^item> \<open>SyncHandler\<close>, \<open>Controller\<close>: \<open>sync_handler.go\<close> and \<open>distributedrediscluster_controller.go\<close>, the whole of a reconciliation and the causes of its
    answers. On them rest three theories about the composition: \<open>Creation\<close> (a new cluster gets every slot once and every node its master), \<open>Shrinking\<close>
    (migration empties exactly the shards that the removal then deletes) and \<open>RestorePhase\<close> (the phases of a restore are stored in order, whatever fails).
  \<^item> \<open>Osm\<close>, \<open>Backup\<close>, \<open>BackupRun\<close>: \<open>osm/osm.go\<close>, \<open>pkg/controller/redisclusterbackup\<close> with \<open>pkg/event\<close>, and the proof that a cluster has at most one
    unfinished backup job, over all interleavings of reconciliations, jobs and users, with a client that reads from a cache.

  \<^bold>\<open>Interfaces.\<close> \<open>go_runtime\<close>: the Go runtime. \<open>slave_attacher\<close>: an \<open>IAdmin\<close> whose attaching changes roles only, interpreted on the operator's own
  admin. \<open>client_pool\<close>: the connection pool as the admin uses it. \<open>conn_driver\<close>: which connections the driver has open. \<open>radix_pipeline\<close> and \<open>key_server\<close>: the
  driver and servers that answer as documented. \<open>api_server\<close>, \<open>shard_api\<close>, \<open>cr_answers\<close> with its extension \<open>shape_server\<close>, \<open>restore_server\<close> (a status
  subresource) and \<open>backup_server\<close> (a cache before the server): what the operator relies on of the API server, interpreted on servers that keep their
  objects in lists, through \<open>state_part\<close>. \<open>text_codec\<close>: values that
  survive their text form. \<open>node_registry\<close>: a cluster as a lookup table. \<open>float_rounding\<close>: what the proofs use of rounding.

  \<^bold>\<open>Bounds and assumptions.\<close> Theorems about slots fix the number of slots at 16384, as Redis does; the numbers of masters and pods fit into an \<open>int32\<close>.
  \<open>GoFloat\<close> does not bound the exponent: the numbers that occur lie far inside the range. In \<open>scalingDown\<close> the wanted number of masters is not
  negative. Functions that need not end are partial functions into an option, without fuel. The interface \<open>IAdmin\<close> has no place for a call that does not
  return, so the controller's admin answers with an error there. \<open>BackupRun\<close> assumes that the cache has caught up when a reconciliation starts, and
  shows that a second job is started when it has not. Reconciliations do not overlap in the model. For one resource this
  is what the controller runtime promises; for two backups of the same cluster it needs a single worker, while the flag \<open>backupctr-maxconcurrent\<close> is 2 by default.

  \<^bold>\<open>Not modelled.\<close> \<open>cmd/manager\<close>, \<open>pkg/controller/controller.go\<close>, \<open>add_*.go\<close> and the functions \<open>Add\<close>, \<open>newReconciler\<close> and \<open>add\<close>: flags, metrics and registration with the
  manager, no logic of the program's own. \<open>zz_generated.*.go\<close>: generated; a deep copy is the identity on values. Registration of types
  in a scheme. Log lines, and logger arguments. The finalizer functions of the backup controller, which nothing calls. The placement information of the status, which
  nothing sets. \<open>test/e2e\<close>, charts, images and shell scripts.
\<close>

end
